(* ===== verification/Prelude.thy ===== *)
theory Prelude
  imports Main "HOL-Library.Multiset"
begin

text \<open>
  What the components share: the error results of Go, the parts of Go's \<open>strings\<close>, \<open>strconv\<close>,
  \<open>slices\<close> and \<open>cmp\<close> packages that the sources use, and the lemmas about them.

  A Go string is a sequence of bytes, and so is the type \<open>string\<close> here: its characters are
  8 bit values, and \<open>length\<close> counts bytes as \<open>len\<close> does. A Go function that returns a value
  and an error becomes a function into \<open>'e + 'a\<close>, with \<open>Inl\<close> for the error.
\<close>

named_theorems go_simps \<open>characteristic equations of the library functions\<close>
named_theorems go_round \<open>round trips of the library functions\<close>

subsection \<open>Results\<close>

type_synonym ('e, 'a) res = "'e + 'a"

definition is_ok :: "('e, 'a) res \<Rightarrow> bool" where
  "is_ok r \<longleftrightarrow> (case r of Inl _ \<Rightarrow> False | Inr _ \<Rightarrow> True)"

lemma is_ok_simps [simp]: "is_ok (Inl e) = False" "is_ok (Inr a) = True"
  by (simp_all add: is_ok_def)

lemma is_ok_iff: "is_ok r \<longleftrightarrow> (\<exists>a. r = Inr a)"
  by (cases r) auto

definition and_then :: "('e, 'a) res \<Rightarrow> ('a \<Rightarrow> ('e, 'b) res) \<Rightarrow> ('e, 'b) res" where
  "and_then r f = (case r of Inl e \<Rightarrow> Inl e | Inr a \<Rightarrow> f a)"

lemma and_then_simps [simp]: "and_then (Inl e) f = Inl e" "and_then (Inr a) f = f a"
  by (simp_all add: and_then_def)

lemma and_then_Inr: "and_then r f = Inr b \<longleftrightarrow> (\<exists>a. r = Inr a \<and> f a = Inr b)"
  by (cases r) auto

lemma and_then_Inl: "and_then r f = Inl e \<longleftrightarrow> r = Inl e \<or> (\<exists>a. r = Inr a \<and> f a = Inl e)"
  by (cases r) auto

text \<open>A loop that appends one converted item per round and stops at the first error.\<close>

fun map_res :: "('a \<Rightarrow> ('e, 'b) res) \<Rightarrow> 'a list \<Rightarrow> ('e, 'b list) res" where
  "map_res f [] = Inr []"
| "map_res f (x # xs) =
     (case f x of Inl e \<Rightarrow> Inl e
      | Inr y \<Rightarrow> (case map_res f xs of Inl e \<Rightarrow> Inl e | Inr ys \<Rightarrow> Inr (y # ys)))"

lemma map_res_Inr: "map_res f xs = Inr ys \<longleftrightarrow> list_all2 (\<lambda>x y. f x = Inr y) xs ys"
proof (induction xs arbitrary: ys)
  case (Cons x xs)
  show ?case
  proof (cases "f x")
    case (Inr y)
    with Cons show ?thesis
      by (cases "map_res f xs") (auto simp: list_all2_Cons1)
  qed (auto simp: list_all2_Cons1)
qed auto

lemma map_res_ok_iff: "is_ok (map_res f xs) \<longleftrightarrow> (\<forall>x\<in>set xs. is_ok (f x))"
  by (induction xs) (auto split: sum.splits)

subsection \<open>Bytes\<close>

abbreviation byte :: "char \<Rightarrow> nat" where
  "byte c \<equiv> of_char c"

lemma char_eq_byte: "c = d \<longleftrightarrow> byte c = byte d"
  by simp

definition is_digit :: "char \<Rightarrow> bool" where
  "is_digit c \<longleftrightarrow> 48 \<le> byte c \<and> byte c \<le> 57"

definition is_upper :: "char \<Rightarrow> bool" where
  "is_upper c \<longleftrightarrow> 65 \<le> byte c \<and> byte c \<le> 90"

definition is_lower :: "char \<Rightarrow> bool" where
  "is_lower c \<longleftrightarrow> 97 \<le> byte c \<and> byte c \<le> 122"

definition is_letter :: "char \<Rightarrow> bool" where
  "is_letter c \<longleftrightarrow> is_upper c \<or> is_lower c"

text \<open>Case mapping of ASCII letters, which is \<open>strings.ToLower\<close> and \<open>ToUpper\<close> on ASCII text.\<close>

definition lower_char :: "char \<Rightarrow> char" where
  "lower_char c = (if is_upper c then char_of (byte c + 32) else c)"

definition upper_char :: "char \<Rightarrow> char" where
  "upper_char c = (if is_lower c then char_of (byte c - 32) else c)"

definition to_lower :: "string \<Rightarrow> string" where
  "to_lower = map lower_char"

definition to_upper :: "string \<Rightarrow> string" where
  "to_upper = map upper_char"

definition equal_fold :: "string \<Rightarrow> string \<Rightarrow> bool" where
  "equal_fold s t \<longleftrightarrow> to_lower s = to_lower t"

lemma to_lower_simps [simp]:
  "to_lower [] = []" "to_lower (c # s) = lower_char c # to_lower s"
  "to_lower (s @ t) = to_lower s @ to_lower t" "length (to_lower s) = length s"
  by (simp_all add: to_lower_def)

lemma lower_char_idem [simp]: "lower_char (lower_char c) = lower_char c"
  by (auto simp: lower_char_def is_upper_def)

lemma to_lower_idem [simp]: "to_lower (to_lower s) = to_lower s"
  by (induction s) auto

lemma lower_char_eq: "\<not> is_letter d \<Longrightarrow> lower_char c = d \<longleftrightarrow> c = d"
proof (cases "is_upper c")
  case True
  moreover assume "\<not> is_letter d"
  ultimately have "lower_char c \<noteq> d" "c \<noteq> d"
    by (auto simp: lower_char_def is_letter_def is_upper_def is_lower_def)
  then show ?thesis by simp
qed (simp add: lower_char_def)

lemma lower_char_eq_dot [simp]: "lower_char c = CHR ''.'' \<longleftrightarrow> c = CHR ''.''"
  by (rule lower_char_eq) (simp add: is_letter_def is_upper_def is_lower_def)

lemma equal_fold_refl [simp]: "equal_fold s s"
  by (simp add: equal_fold_def)

lemma equal_fold_sym: "equal_fold s t = equal_fold t s"
  by (auto simp: equal_fold_def)

lemma equal_fold_trans: "equal_fold s t \<Longrightarrow> equal_fold t u \<Longrightarrow> equal_fold s u"
  by (simp add: equal_fold_def)

lemma equal_fold_Nil [simp]: "equal_fold [] s \<longleftrightarrow> s = []" "equal_fold s [] \<longleftrightarrow> s = []"
  by (auto simp: equal_fold_def to_lower_def)

subsection \<open>Prefixes, suffixes and cutting\<close>

lemma length_dropWhile_Suc [termination_simp]: "length (dropWhile P xs) < Suc (length xs)"
  by (simp add: length_dropWhile_le le_imp_less_Suc)

definition has_prefix :: "string \<Rightarrow> string \<Rightarrow> bool" where
  "has_prefix s p \<longleftrightarrow> take (length p) s = p"

definition has_suffix :: "string \<Rightarrow> string \<Rightarrow> bool" where
  "has_suffix s p \<longleftrightarrow> length p \<le> length s \<and> drop (length s - length p) s = p"

definition cut_prefix :: "string \<Rightarrow> string \<Rightarrow> string option" where
  "cut_prefix s p = (if has_prefix s p then Some (drop (length p) s) else None)"

definition trim_prefix :: "string \<Rightarrow> string \<Rightarrow> string" where
  "trim_prefix s p = (if has_prefix s p then drop (length p) s else s)"

definition trim_suffix :: "string \<Rightarrow> string \<Rightarrow> string" where
  "trim_suffix s p = (if has_suffix s p then take (length s - length p) s else s)"

definition has_any_prefix :: "string \<Rightarrow> string list \<Rightarrow> bool" where
  "has_any_prefix s ps \<longleftrightarrow> list_ex (has_prefix s) ps"

lemma has_prefix_iff: "has_prefix s p \<longleftrightarrow> (\<exists>t. s = p @ t)"
  by (metis append_eq_conv_conj append_take_drop_id has_prefix_def)

lemma has_suffix_iff: "has_suffix s p \<longleftrightarrow> (\<exists>t. s = t @ p)"
proof
  assume "has_suffix s p"
  then show "\<exists>t. s = t @ p"
    by (metis append_take_drop_id has_suffix_def)
qed (auto simp: has_suffix_def)

lemma cut_prefix_Some: "cut_prefix s p = Some t \<longleftrightarrow> s = p @ t"
  by (auto simp: cut_prefix_def has_prefix_def split: if_splits) (metis append_take_drop_id)

lemma cut_prefix_None: "cut_prefix s p = None \<longleftrightarrow> \<not> has_prefix s p"
  by (simp add: cut_prefix_def)

lemma has_prefix_append [simp]: "has_prefix (p @ t) p"
  by (simp add: has_prefix_def)

lemma has_prefix_Nil [simp]: "has_prefix s []"
  by (simp add: has_prefix_def)

lemma has_prefix_Cons [simp]:
  "has_prefix (c # s) (d # p) \<longleftrightarrow> c = d \<and> has_prefix s p" "\<not> has_prefix [] (d # p)"
  by (auto simp: has_prefix_def)

lemma has_suffix_append [simp]: "has_suffix (t @ p) p"
  by (auto simp: has_suffix_iff)

lemma trim_suffix_append [simp]: "trim_suffix (t @ p) p = t"
  by (simp add: trim_suffix_def)

text \<open>\<open>strings.Cut\<close> at one byte: the text before it and behind it, or \<open>None\<close> when it is absent.\<close>

fun cut_char :: "char \<Rightarrow> string \<Rightarrow> (string \<times> string) option" where
  "cut_char c [] = None"
| "cut_char c (x # xs) =
     (if x = c then Some ([], xs)
      else (case cut_char c xs of None \<Rightarrow> None | Some (a, b) \<Rightarrow> Some (x # a, b)))"

lemma cut_char_SomeD: "cut_char c s = Some (a, b) \<Longrightarrow> s = a @ c # b \<and> c \<notin> set a"
proof (induction s arbitrary: a)
  case (Cons x xs)
  then show ?case
    by (cases "x = c"; cases "cut_char c xs") auto
qed simp

lemma cut_char_append [go_simps]: "c \<notin> set a \<Longrightarrow> cut_char c (a @ c # b) = Some (a, b)"
  by (induction a) auto

lemma cut_char_Some: "cut_char c s = Some (a, b) \<longleftrightarrow> s = a @ c # b \<and> c \<notin> set a"
  by (auto dest: cut_char_SomeD simp: cut_char_append)

lemma cut_char_None: "cut_char c s = None \<longleftrightarrow> c \<notin> set s"
  by (induction s) (auto split: option.splits)

text \<open>\<open>strings.Cut\<close> at a substring.\<close>

fun cut_str :: "string \<Rightarrow> string \<Rightarrow> (string \<times> string) option" where
  "cut_str sep s =
     (if has_prefix s sep then Some ([], drop (length sep) s)
      else (case s of [] \<Rightarrow> None
            | x # xs \<Rightarrow> (case cut_str sep xs of None \<Rightarrow> None | Some (a, b) \<Rightarrow> Some (x # a, b))))"

declare cut_str.simps [simp del]

lemma cut_str_append: "cut_str sep s = Some (a, b) \<Longrightarrow> s = a @ sep @ b"
proof (induction s arbitrary: a b)
  case Nil
  then show ?case
    by (subst (asm) cut_str.simps) (auto simp: has_prefix_def split: if_splits)
next
  case (Cons x s)
  show ?case
  proof (cases "has_prefix (x # s) sep")
    case True
    with Cons.prems show ?thesis
      by (subst (asm) cut_str.simps) (auto simp: has_prefix_iff)
  next
    case False
    with Cons.prems obtain a' where "cut_str sep s = Some (a', b)" "a = x # a'"
      by (subst (asm) cut_str.simps) (auto split: option.splits)
    with Cons.IH show ?thesis by auto
  qed
qed

definition contains :: "string \<Rightarrow> string \<Rightarrow> bool" where
  "contains s sub \<longleftrightarrow> cut_str sub s \<noteq> None"

definition contains_any :: "string \<Rightarrow> string \<Rightarrow> bool" where
  "contains_any s chars \<longleftrightarrow> list_ex (\<lambda>c. c \<in> set chars) s"

text \<open>\<open>strings.Split\<close> at one byte: it never gives an empty list.\<close>

fun split_char :: "char \<Rightarrow> string \<Rightarrow> string list" where
  "split_char c [] = [[]]"
| "split_char c (x # xs) =
     (if x = c then [] # split_char c xs
      else (case split_char c xs of [] \<Rightarrow> [[x]] | w # ws \<Rightarrow> (x # w) # ws))"

fun join :: "string \<Rightarrow> string list \<Rightarrow> string" where
  "join sep [] = []"
| "join sep [w] = w"
| "join sep (w # v # ws) = w @ sep @ join sep (v # ws)"

lemma split_char_not_Nil [simp]: "split_char c s \<noteq> []"
  by (cases s) (auto split: list.splits)

lemma join_split_char [go_round]: "join [c] (split_char c s) = s"
proof (induction s)
  case (Cons x xs)
  show ?case
  proof (cases "split_char c xs")
    case (Cons w ws)
    with Cons.IH show ?thesis by (cases ws) auto
  qed simp
qed simp

lemma split_char_single: "c \<notin> set w \<Longrightarrow> split_char c w = [w]"
  by (induction w) auto

lemma split_char_append: "c \<notin> set w \<Longrightarrow> split_char c (w @ c # s) = w # split_char c s"
  by (induction w) auto

lemma split_char_join [go_round]:
  "ws \<noteq> [] \<Longrightarrow> \<forall>w\<in>set ws. c \<notin> set w \<Longrightarrow> split_char c (join [c] ws) = ws"
proof (induction ws rule: induct_list012)
  case (3 w v ws)
  then show ?case by (simp add: split_char_append)
qed (auto simp: split_char_single)

lemma split_char_sep: "split_char c (a @ c # b) = split_char c a @ split_char c b"
  by (induction a) (auto split: list.splits)

lemma split_char_no_sep: "w \<in> set (split_char c s) \<Longrightarrow> c \<notin> set w"
  by (induction s arbitrary: w) (auto split: list.splits if_splits)

subsection \<open>White space\<close>

text \<open>
  The UTF-8 encodings of the code points that \<open>unicode.IsSpace\<close> accepts. A byte sequence of
  this list cannot be a proper part of another code point, so trimming whole encodings is what
  \<open>strings.TrimSpace\<close> does.
\<close>

definition bytes :: "nat list \<Rightarrow> string" where
  "bytes = map char_of"

definition unicode_spaces :: "string list" where
  "unicode_spaces =
     map bytes ([[9], [10], [11], [12], [13], [32], [194, 133], [194, 160], [225, 154, 128]]
       @ map (\<lambda>b. [226, 128, b]) [128, 129, 130, 131, 132, 133, 134, 135, 136, 137, 138, 168, 169, 175]
       @ [[226, 129, 159], [227, 128, 128]])"

function trim_left :: "string \<Rightarrow> string" where
  "trim_left s =
     (case find (\<lambda>w. w \<noteq> [] \<and> has_prefix s w) unicode_spaces of
        None \<Rightarrow> s | Some w \<Rightarrow> trim_left (drop (length w) s))"
  by pat_completeness auto
termination
  by (relation "measure length")
    (auto simp: find_Some_iff has_prefix_iff dest!: arg_cong[where f = length])

function trim_right :: "string \<Rightarrow> string" where
  "trim_right s =
     (case find (\<lambda>w. w \<noteq> [] \<and> has_suffix s w) unicode_spaces of
        None \<Rightarrow> s | Some w \<Rightarrow> trim_right (take (length s - length w) s))"
  by pat_completeness auto
termination
  by (relation "measure length")
    (auto simp: find_Some_iff has_suffix_iff dest!: arg_cong[where f = length])

declare trim_left.simps [simp del] trim_right.simps [simp del]

definition trim_space :: "string \<Rightarrow> string" where
  "trim_space s = trim_right (trim_left s)"

text \<open>Trimming the bytes of a set, \<open>strings.Trim\<close>, \<open>TrimLeft\<close> and \<open>TrimRight\<close>.\<close>

definition trim_left_of :: "string \<Rightarrow> string \<Rightarrow> string" where
  "trim_left_of s cs = dropWhile (\<lambda>c. c \<in> set cs) s"

definition trim_right_of :: "string \<Rightarrow> string \<Rightarrow> string" where
  "trim_right_of s cs = rev (dropWhile (\<lambda>c. c \<in> set cs) (rev s))"

definition trim_of :: "string \<Rightarrow> string \<Rightarrow> string" where
  "trim_of s cs = trim_right_of (trim_left_of s cs) cs"

text \<open>A text that starts and ends with a visible ASCII character has no space to trim.\<close>

definition plain :: "char \<Rightarrow> bool" where
  "plain c \<longleftrightarrow> 33 \<le> byte c \<and> byte c \<le> 127"

lemma is_digit_plain: "is_digit c \<Longrightarrow> plain c"
  by (simp add: is_digit_def plain_def)

lemma spaces_not_plain: "w \<in> set unicode_spaces \<Longrightarrow> w \<noteq> [] \<and> \<not> plain (hd w) \<and> \<not> plain (last w)"
  by (auto simp: unicode_spaces_def bytes_def plain_def)

lemma trim_left_plain: "plain c \<Longrightarrow> trim_left (c # s) = c # s"
proof -
  assume c: "plain c"
  have "find (\<lambda>w. w \<noteq> [] \<and> has_prefix (c # s) w) unicode_spaces = None"
    unfolding find_None_iff
  proof (rule notI, elim exE conjE)
    fix w assume "w \<in> set unicode_spaces" "has_prefix (c # s) w" "w \<noteq> []"
    moreover from this have "hd w = c" by (metis has_prefix_Cons(1) list.collapse)
    ultimately show False using spaces_not_plain c by blast
  qed
  then show ?thesis by (simp add: trim_left.simps[of "c # s"])
qed

lemma trim_right_plain: "plain c \<Longrightarrow> trim_right (s @ [c]) = s @ [c]"
proof -
  assume c: "plain c"
  have "find (\<lambda>w. w \<noteq> [] \<and> has_suffix (s @ [c]) w) unicode_spaces = None"
    unfolding find_None_iff
  proof (rule notI, elim exE conjE)
    fix w assume "w \<in> set unicode_spaces" "has_suffix (s @ [c]) w" "w \<noteq> []"
    moreover from this have "last w = c"
      by (metis has_suffix_iff last_appendR last_snoc)
    ultimately show False using spaces_not_plain c by blast
  qed
  then show ?thesis by (simp add: trim_right.simps[of "s @ [c]"])
qed

lemma trim_space_plain: "s \<noteq> [] \<Longrightarrow> plain (hd s) \<Longrightarrow> plain (last s) \<Longrightarrow> trim_space s = s"
  by (metis append_butlast_last_id list.collapse trim_left_plain trim_right_plain trim_space_def)

lemma trim_space_Nil [simp]: "trim_space [] = []"
proof -
  have "trim_left [] = []" "trim_right [] = []"
    by (auto simp: trim_left.simps trim_right.simps find_Some_iff has_prefix_iff has_suffix_iff split: option.split)
  then show ?thesis by (simp add: trim_space_def)
qed

lemma find_append: "find P (xs @ ys) = (case find P xs of Some x \<Rightarrow> Some x | None \<Rightarrow> find P ys)"
  by (induction xs) auto

lemma find_unique: "x \<in> set xs \<Longrightarrow> P x \<Longrightarrow> \<forall>y\<in>set xs. P y \<longrightarrow> y = x \<Longrightarrow> find P xs = Some x"
proof (induction xs)
  case (Cons y ys)
  show ?case
  proof (cases "P y")
    case True
    with Cons.prems(3) have "y = x" by simp
    with True show ?thesis by simp
  next
    case False
    with Cons have "find P ys = Some x" by fastforce
    with False show ?thesis by simp
  qed
qed simp

lemma space_in_spaces: "'' '' \<in> set unicode_spaces" "\<forall>w\<in>set unicode_spaces. CHR '' '' \<in> set w \<longrightarrow> w = '' ''"
proof -
  have "bytes [32] = '' ''" by code_simp
  then show "'' '' \<in> set unicode_spaces" by (simp add: unicode_spaces_def)
  have "list_all (\<lambda>w. CHR '' '' \<in> set w \<longrightarrow> w = '' '') unicode_spaces" by code_simp
  then show "\<forall>w\<in>set unicode_spaces. CHR '' '' \<in> set w \<longrightarrow> w = '' ''" by (simp add: list_all_iff)
qed

lemma trim_right_space [simp]: "trim_right (s @ '' '') = trim_right s"
proof -
  have only: "\<forall>w\<in>set unicode_spaces. w \<noteq> [] \<and> has_suffix (s @ '' '') w \<longrightarrow> w = '' ''"
  proof (intro ballI impI)
    fix w assume "w \<in> set unicode_spaces" "w \<noteq> [] \<and> has_suffix (s @ '' '') w"
    moreover from this have "CHR '' '' \<in> set w"
      by (cases w rule: rev_cases) (auto simp: has_suffix_iff)
    ultimately show "w = '' ''" using space_in_spaces(2) by blast
  qed
  have "find (\<lambda>w. w \<noteq> [] \<and> has_suffix (s @ '' '') w) unicode_spaces = Some '' ''"
    by (rule find_unique[OF space_in_spaces(1) _ only]) simp
  then have "trim_right (s @ '' '') = trim_right (take (length (s @ '' '') - length '' '') (s @ '' ''))"
    by (subst trim_right.simps) (simp only: option.case)
  then show ?thesis by simp
qed

lemma trim_left_space [simp]: "trim_left (CHR '' '' # s) = trim_left s"
proof -
  have only: "\<forall>w\<in>set unicode_spaces. w \<noteq> [] \<and> has_prefix (CHR '' '' # s) w \<longrightarrow> w = '' ''"
  proof (intro ballI impI)
    fix w assume "w \<in> set unicode_spaces" "w \<noteq> [] \<and> has_prefix (CHR '' '' # s) w"
    moreover from this have "CHR '' '' \<in> set w"
      by (auto simp: has_prefix_iff Cons_eq_append_conv)
    ultimately show "w = '' ''" using space_in_spaces(2) by blast
  qed
  have "find (\<lambda>w. w \<noteq> [] \<and> has_prefix (CHR '' '' # s) w) unicode_spaces = Some '' ''"
    by (rule find_unique[OF space_in_spaces(1) _ only]) simp
  then have "trim_left (CHR '' '' # s) = trim_left (drop (length '' '') (CHR '' '' # s))"
    by (subst trim_left.simps) (simp only: option.case)
  then show ?thesis by simp
qed

lemma find_SomeD: "find P xs = Some x \<Longrightarrow> x \<in> set xs \<and> P x"
  by (induction xs) (auto split: if_splits)

end
