(* ===== verification/Go_Num.thy ===== *)
theory Go_Num
  imports Prelude
begin

text \<open>
  Decimal numbers: \<open>strconv.Atoi\<close> and \<open>strconv.Itoa\<close> on the 64 bit \<open>int\<close> of Go's supported
  platforms, with the range error of \<open>Atoi\<close> and the wrap around of \<open>+\<close> written out.
\<close>

definition max_int :: int where "max_int = 2 ^ 63 - 1"
definition min_int :: int where "min_int = - (2 ^ 63)"

definition in_int :: "int \<Rightarrow> bool" where
  "in_int n \<longleftrightarrow> min_int \<le> n \<and> n \<le> max_int"

text \<open>The value of an \<open>int\<close> expression whose mathematical value is \<open>n\<close>.\<close>

definition wrap :: "int \<Rightarrow> int" where
  "wrap n = (n + 2 ^ 63) mod 2 ^ 64 - 2 ^ 63"

lemma wrap_in_int: "in_int (wrap n)"
proof -
  have "0 \<le> (n + 2 ^ 63) mod 2 ^ 64 \<and> (n + 2 ^ 63) mod 2 ^ 64 < 2 ^ 64" by simp
  then show ?thesis by (simp add: in_int_def wrap_def min_int_def max_int_def)
qed

lemma wrap_id [simp]: "in_int n \<Longrightarrow> wrap n = n"
  by (simp add: in_int_def wrap_def min_int_def max_int_def)

text \<open>Go's \<open>/\<close> truncates towards zero.\<close>

definition go_quot :: "int \<Rightarrow> int \<Rightarrow> int" where
  "go_quot a b = sgn a * sgn b * (\<bar>a\<bar> div \<bar>b\<bar>)"

definition go_rem :: "int \<Rightarrow> int \<Rightarrow> int" where
  "go_rem a b = a - b * go_quot a b"

lemma go_quot_nonneg: "0 \<le> a \<Longrightarrow> 0 < b \<Longrightarrow> go_quot a b = a div b"
  by (cases "a = 0") (simp_all add: go_quot_def)

lemma go_rem_nonneg: "0 \<le> a \<Longrightarrow> 0 < b \<Longrightarrow> go_rem a b = a mod b"
  by (simp add: go_rem_def go_quot_nonneg minus_mult_div_eq_mod)

definition digit_val :: "char \<Rightarrow> nat" where
  "digit_val c = byte c - 48"

definition digits_val :: "string \<Rightarrow> nat" where
  "digits_val s = foldl (\<lambda>n c. 10 * n + digit_val c) 0 s"

definition atoi_unsigned :: "bool \<Rightarrow> string \<Rightarrow> int option" where
  "atoi_unsigned neg ds =
     (if ds = [] \<or> \<not> list_all is_digit ds then None
      else (let n = (if neg then - int (digits_val ds) else int (digits_val ds))
            in if in_int n then Some n else None))"

text \<open>\<open>strconv.Atoi\<close>: an optional sign, then one or more digits, with a value that fits.\<close>

definition atoi :: "string \<Rightarrow> int option" where
  "atoi s =
     (case s of [] \<Rightarrow> None
      | c # ds \<Rightarrow> (if c = CHR ''-'' then atoi_unsigned True ds
                   else if c = CHR ''+'' then atoi_unsigned False ds
                   else atoi_unsigned False s))"

text \<open>
  The number that \<open>strconv.Atoi\<close> returns beside its error: 0 for a text that is not a number, and the
  nearest \<open>int\<close> for a number that does not fit.
\<close>

definition atoi_value :: "string \<Rightarrow> int" where
  "atoi_value s =
     (case atoi s of
        Some n \<Rightarrow> n
      | None \<Rightarrow>
          (let ds = (if s \<noteq> [] \<and> (hd s = CHR ''-'' \<or> hd s = CHR ''+'') then tl s else s)
           in if ds = [] \<or> \<not> list_all is_digit ds then 0
              else if hd s = CHR ''-'' then min_int else max_int))"

definition digit_char :: "nat \<Rightarrow> char" where
  "digit_char d = char_of (48 + d)"

fun show_nat :: "nat \<Rightarrow> string" where
  "show_nat n = (if n < 10 then [digit_char n] else show_nat (n div 10) @ [digit_char (n mod 10)])"

declare show_nat.simps [simp del]

text \<open>\<open>strconv.Itoa\<close>.\<close>

definition itoa :: "int \<Rightarrow> string" where
  "itoa n = (if n < 0 then CHR ''-'' # show_nat (nat (- n)) else show_nat (nat n))"

lemma is_digit_digit_char: "d < 10 \<Longrightarrow> is_digit (digit_char d)"
  by (simp add: is_digit_def digit_char_def)

lemma digit_val_digit_char: "d < 10 \<Longrightarrow> digit_val (digit_char d) = d"
  by (simp add: digit_val_def digit_char_def)

lemma show_nat_digits: "list_all is_digit (show_nat n)"
proof (induction n rule: show_nat.induct)
  case (1 n)
  then show ?case
    by (subst show_nat.simps) (auto simp: is_digit_digit_char)
qed

lemma show_nat_not_Nil [simp]: "show_nat n \<noteq> []"
  by (subst show_nat.simps) simp

lemma digits_val_snoc: "digits_val (s @ [c]) = 10 * digits_val s + digit_val c"
  by (simp add: digits_val_def)

lemma digits_val_show_nat [go_round]: "digits_val (show_nat n) = n"
proof (induction n rule: show_nat.induct)
  case (1 n)
  show ?case
  proof (cases "n < 10")
    case True
    then show ?thesis
      by (subst show_nat.simps) (simp add: digits_val_def digit_val_digit_char)
  next
    case False
    with 1 show ?thesis
      by (subst show_nat.simps) (simp add: digits_val_snoc digit_val_digit_char)
  qed
qed

lemma hd_show_nat: "is_digit (hd (show_nat n))"
  using show_nat_digits[of n] by (cases "show_nat n") auto

lemma not_digit_signs [simp]: "\<not> is_digit (CHR ''-'')" "\<not> is_digit (CHR ''+'')" "\<not> is_digit (CHR ''.'')"
  by (simp_all add: is_digit_def)

lemma atoi_digits:
  "list_all is_digit s \<Longrightarrow> s \<noteq> [] \<Longrightarrow>
   atoi s = (if in_int (int (digits_val s)) then Some (int (digits_val s)) else None)"
  by (cases s) (auto simp: atoi_def atoi_unsigned_def Let_def)

lemma atoi_itoa [go_round]: "in_int n \<Longrightarrow> atoi (itoa n) = Some n"
proof (cases "n < 0")
  case True
  assume "in_int n"
  with True show ?thesis
    by (simp add: atoi_def itoa_def atoi_unsigned_def show_nat_digits digits_val_show_nat)
next
  case False
  assume "in_int n"
  with False show ?thesis
    by (simp add: itoa_def atoi_digits show_nat_digits digits_val_show_nat)
qed

lemma atoi_in_int: "atoi s = Some n \<Longrightarrow> in_int n"
  by (auto simp: atoi_def atoi_unsigned_def Let_def split: list.splits if_splits)

lemma show_nat_no_dot: "CHR ''.'' \<notin> set (show_nat n)"
  using show_nat_digits[of n] by (metis not_digit_signs(3) list_all_iff)

lemma atoi_show_nat: "int n \<le> max_int \<Longrightarrow> atoi (show_nat n) = Some (int n)"
  by (simp add: atoi_digits show_nat_digits digits_val_show_nat in_int_def min_int_def)

end
