(* ===== verification/Go_Order.thy ===== *)
theory Go_Order
  imports Go_Num
begin

text \<open>
  Three way comparison and sorting. A comparator returns a negative number, 0 or a positive
  number, as \<open>cmp.Compare\<close> and \<open>strings.Compare\<close> do. The laws that \<open>slices.SortFunc\<close> needs of its
  comparator are the locale \<open>go_order\<close>, and what its callers get from them is proved inside.
\<close>

definition int_cmp :: "int \<Rightarrow> int \<Rightarrow> int" where
  "int_cmp a b = (if a < b then -1 else if b < a then 1 else 0)"

text \<open>\<open>strings.Compare\<close>: bytewise lexicographic.\<close>

fun str_cmp :: "string \<Rightarrow> string \<Rightarrow> int" where
  "str_cmp [] [] = 0"
| "str_cmp [] (_ # _) = -1"
| "str_cmp (_ # _) [] = 1"
| "str_cmp (x # xs) (y # ys) =
     (if byte x < byte y then -1 else if byte y < byte x then 1 else str_cmp xs ys)"

lemma str_cmp_sum: "str_cmp t s + str_cmp s t = 0"
  by (induction s t rule: str_cmp.induct) auto

lemma str_cmp_swap: "str_cmp t s = - str_cmp s t"
  by (rule minus_unique [OF str_cmp_sum, symmetric])

lemma str_cmp_0 [simp]: "str_cmp s t = 0 \<longleftrightarrow> s = t"
proof (induction s t rule: str_cmp.induct)
  case (4 x xs y ys)
  consider "byte x < byte y" | "byte y < byte x" | "byte x = byte y" by linarith
  then show ?case using 4 by cases auto
qed auto

lemma str_cmp_refl [simp]: "str_cmp s s = 0"
  by simp

lemma str_cmp_range: "str_cmp s t \<in> {-1, 0, 1}"
  by (induction s t rule: str_cmp.induct) auto

lemma str_cmp_Nil [simp]: "str_cmp [] s \<le> 0" "str_cmp s [] \<le> 0 \<longleftrightarrow> s = []"
  by (cases s; simp)+

lemma str_cmp_trans: "str_cmp s t \<le> 0 \<Longrightarrow> str_cmp t u \<le> 0 \<Longrightarrow> str_cmp s u \<le> 0"
proof (induction s arbitrary: t u)
  case (Cons x xs)
  then show ?case
    by (cases t; cases u) (auto split: if_splits)
qed simp

text \<open>
  \<open>slices.SortFunc\<close> sorts up to 12 elements by insertion and leaves the order of equal elements
  open for longer slices. The model inserts, as the short case does: each element moves left past
  the elements that are greater. The list under construction is kept in reverse.
\<close>

fun insert_back :: "('a \<Rightarrow> 'a \<Rightarrow> int) \<Rightarrow> 'a \<Rightarrow> 'a list \<Rightarrow> 'a list" where
  "insert_back cmp x [] = [x]"
| "insert_back cmp x (y # ys) = (if cmp x y < 0 then y # insert_back cmp x ys else x # y # ys)"

definition sort_func :: "('a \<Rightarrow> 'a \<Rightarrow> int) \<Rightarrow> 'a list \<Rightarrow> 'a list" where
  "sort_func cmp xs = rev (fold (insert_back cmp) xs [])"

lemma mset_insert_back: "mset (insert_back cmp x ys) = add_mset x (mset ys)"
  by (induction ys) auto

lemma mset_fold_insert_back: "mset (fold (insert_back cmp) xs acc) = mset xs + mset acc"
  by (induction xs arbitrary: acc) (auto simp: mset_insert_back)

lemma mset_sort_func [simp]: "mset (sort_func cmp xs) = mset xs"
  by (simp add: sort_func_def mset_fold_insert_back)

lemma set_sort_func [simp]: "set (sort_func cmp xs) = set xs"
  by (metis mset_sort_func set_mset_mset)

lemma length_sort_func [simp]: "length (sort_func cmp xs) = length xs"
  by (metis mset_sort_func size_mset)

lemma sort_func_Nil [simp]: "sort_func cmp [] = []"
  by (simp add: sort_func_def)

lemma set_insert_back: "set (insert_back cmp x ys) = insert x (set ys)"
  by (induction ys) auto

text \<open>Lexicographic comparison of two lists, the shorter one first when one is a prefix.\<close>

fun lex_cmp :: "('a \<Rightarrow> 'a \<Rightarrow> int) \<Rightarrow> 'a list \<Rightarrow> 'a list \<Rightarrow> int" where
  "lex_cmp cmp [] [] = 0"
| "lex_cmp cmp [] (y # ys) = -1"
| "lex_cmp cmp (x # xs) [] = 1"
| "lex_cmp cmp (x # xs) (y # ys) = (if cmp x y \<noteq> 0 then cmp x y else lex_cmp cmp xs ys)"

lemma lex_cmp_Nil_le [simp]: "lex_cmp cmp [] ys \<le> 0" "lex_cmp cmp xs [] \<le> 0 \<longleftrightarrow> xs = []"
  by (cases ys; simp) (cases xs; simp)

locale go_order =
  fixes cmp :: "'a \<Rightarrow> 'a \<Rightarrow> int" and good :: "'a \<Rightarrow> bool"
  assumes cmp_swap: "good a \<Longrightarrow> good b \<Longrightarrow> cmp b a = - cmp a b"
    and cmp_trans: "good a \<Longrightarrow> good b \<Longrightarrow> good c \<Longrightarrow> cmp a b \<le> 0 \<Longrightarrow> cmp b c \<le> 0 \<Longrightarrow> cmp a c \<le> 0"
begin

lemma cmp_refl: "good a \<Longrightarrow> cmp a a = 0"
  using cmp_swap[of a a] by simp

lemma cmp_less_le:
  assumes "good a" "good b" "good c" "cmp a b < 0" "cmp b c \<le> 0"
  shows "cmp a c < 0"
proof (rule ccontr)
  assume "\<not> cmp a c < 0"
  then have "cmp c a \<le> 0" using cmp_swap[of a c] assms by simp
  then have "cmp b a \<le> 0" using cmp_trans[of b c a] assms by simp
  then show False using cmp_swap[of a b] assms by simp
qed

lemma cmp_le_less:
  assumes "good a" "good b" "good c" "cmp a b \<le> 0" "cmp b c < 0"
  shows "cmp a c < 0"
proof (rule ccontr)
  assume "\<not> cmp a c < 0"
  then have "cmp c a \<le> 0" using cmp_swap[of a c] assms by simp
  then have "cmp c b \<le> 0" using cmp_trans[of c a b] assms by simp
  then show False using cmp_swap[of b c] assms by simp
qed

lemma lex_cmp_swap:
  "\<forall>x\<in>set xs. good x \<Longrightarrow> \<forall>y\<in>set ys. good y \<Longrightarrow> lex_cmp cmp ys xs = - lex_cmp cmp xs ys"
proof (induction xs arbitrary: ys)
  case Nil
  then show ?case by (cases ys) auto
next
  case (Cons x xs)
  show ?case
  proof (cases ys)
    case (Cons y ys')
    then have "cmp y x = - cmp x y" using Cons.prems by (auto intro: cmp_swap)
    then show ?thesis using Cons Cons.IH[of ys'] Cons.prems by auto
  qed simp
qed

lemma lex_cmp_trans:
  "\<forall>x\<in>set xs. good x \<Longrightarrow> \<forall>y\<in>set ys. good y \<Longrightarrow> \<forall>z\<in>set zs. good z \<Longrightarrow>
   lex_cmp cmp xs ys \<le> 0 \<Longrightarrow> lex_cmp cmp ys zs \<le> 0 \<Longrightarrow> lex_cmp cmp xs zs \<le> 0"
proof (induction xs arbitrary: ys zs)
  case (Cons x xs)
  from Cons.prems obtain y ys' where ys: "ys = y # ys'" by (cases ys) auto
  with Cons.prems obtain z zs' where zs: "zs = z # zs'" by (cases zs) auto
  have g: "good x" "good y" "good z" using Cons.prems ys zs by auto
  have xy: "cmp x y \<le> 0" and yz: "cmp y z \<le> 0"
    using Cons.prems ys zs by (auto split: if_splits)
  show ?case
  proof (cases "cmp x z = 0")
    case True
    then have "cmp x y = 0" "cmp y z = 0"
      using cmp_less_le[OF g] cmp_le_less[OF g] xy yz by fastforce+
    with Cons ys zs True show ?thesis by auto
  next
    case False
    with cmp_trans[OF g xy yz] zs show ?thesis by simp
  qed
qed simp

lemma lex_order: "go_order (lex_cmp cmp) (\<lambda>xs. \<forall>x\<in>set xs. good x)"
  by unfold_locales (rule lex_cmp_swap, assumption, assumption, rule lex_cmp_trans)

lemma insert_back_sorted:
  assumes "sorted_wrt (\<lambda>a b. cmp b a \<le> 0) ys" "good x" "\<forall>y\<in>set ys. good y"
  shows "sorted_wrt (\<lambda>a b. cmp b a \<le> 0) (insert_back cmp x ys)"
  using assms
proof (induction ys)
  case (Cons y ys)
  show ?case
  proof (cases "cmp x y < 0")
    case True
    with Cons show ?thesis by (auto simp: set_insert_back)
  next
    case False
    then have "cmp y x \<le> 0" using cmp_swap[of x y] Cons.prems by simp
    moreover have "cmp z x \<le> 0" if "z \<in> set ys" for z
      using that Cons.prems cmp_trans[of z y x] \<open>cmp y x \<le> 0\<close> by auto
    ultimately show ?thesis using False Cons.prems by auto
  qed
qed simp

lemma fold_insert_back_sorted:
  "\<forall>x\<in>set xs. good x \<Longrightarrow> \<forall>y\<in>set acc. good y \<Longrightarrow> sorted_wrt (\<lambda>a b. cmp b a \<le> 0) acc \<Longrightarrow>
   sorted_wrt (\<lambda>a b. cmp b a \<le> 0) (fold (insert_back cmp) xs acc)"
  by (induction xs arbitrary: acc) (auto simp: insert_back_sorted set_insert_back)

lemma sort_func_sorted:
  "\<forall>x\<in>set xs. good x \<Longrightarrow> sorted_wrt (\<lambda>a b. cmp a b \<le> 0) (sort_func cmp xs)"
  using fold_insert_back_sorted[of xs "[]"] by (simp add: sort_func_def sorted_wrt_rev)

lemma sort_func_hd_least:
  assumes "\<forall>x\<in>set xs. good x" "x \<in> set xs"
  shows "cmp (hd (sort_func cmp xs)) x \<le> 0"
proof (cases "sort_func cmp xs")
  case Nil
  with assms show ?thesis by (metis empty_iff empty_set set_sort_func)
next
  case (Cons y ys)
  then have "good y" "x = y \<or> x \<in> set ys"
    using assms by (metis list.set_intros(1) set_sort_func, metis set_ConsD set_sort_func)
  with sort_func_sorted[OF assms(1)] Cons show ?thesis
    by (auto simp: cmp_refl)
qed

lemma insert_back_least: "\<forall>y\<in>set ys. \<not> cmp x y < 0 \<Longrightarrow> insert_back cmp x ys = x # ys"
  by (cases ys) auto

lemma fold_insert_back_id:
  "sorted_wrt (\<lambda>a b. cmp a b \<le> 0) (rev acc @ xs) \<Longrightarrow> \<forall>x\<in>set (acc @ xs). good x \<Longrightarrow>
   fold (insert_back cmp) xs acc = rev xs @ acc"
proof (induction xs arbitrary: acc)
  case (Cons x xs)
  have "\<forall>y\<in>set acc. \<not> cmp x y < 0"
  proof
    fix y assume "y \<in> set acc"
    with Cons.prems have "cmp y x \<le> 0" "good y" "good x" by (auto simp: sorted_wrt_append)
    then show "\<not> cmp x y < 0" using cmp_swap[of y x] by simp
  qed
  then have "insert_back cmp x acc = x # acc" by (rule insert_back_least)
  with Cons show ?case by simp
qed simp

lemma sort_func_id:
  "sorted_wrt (\<lambda>a b. cmp a b \<le> 0) xs \<Longrightarrow> \<forall>x\<in>set xs. good x \<Longrightarrow> sort_func cmp xs = xs"
  using fold_insert_back_id[of "[]" xs] by (simp add: sort_func_def)

end

interpretation strs: go_order str_cmp "\<lambda>_. True"
  by unfold_locales (rule str_cmp_swap, rule str_cmp_trans)

text \<open>Sorting records by a name, the way the lock and a generation sort their packages.\<close>

definition by_name :: "('a \<Rightarrow> string) \<Rightarrow> 'a \<Rightarrow> 'a \<Rightarrow> int" where
  "by_name f a b = str_cmp (f a) (f b)"

lemma by_name_order: "go_order (by_name f) (\<lambda>_. True)"
  unfolding by_name_def by unfold_locales (rule str_cmp_swap, rule str_cmp_trans)

text \<open>With distinct names, every sort that orders by name gives the same list.\<close>

lemma sorted_by_name_unique:
  assumes "mset xs = mset ys" "distinct (map f xs)"
    and "sorted_wrt (\<lambda>a b. by_name f a b \<le> 0) xs" "sorted_wrt (\<lambda>a b. by_name f a b \<le> 0) ys"
  shows "xs = ys"
  using assms
proof (induction xs arbitrary: ys)
  case (Cons x xs)
  then obtain y ys' where ys: "ys = y # ys'" by (cases ys) auto
  have "x = y"
  proof (rule ccontr)
    assume "x \<noteq> y"
    moreover have "set (x # xs) = set (y # ys')" using Cons.prems(1) ys by (metis set_mset_mset)
    ultimately have yx: "y \<in> set xs" and xy: "x \<in> set ys'" by auto
    with Cons.prems(3,4) ys have "by_name f x y \<le> 0" "by_name f y x \<le> 0" by auto
    then have "f x = f y" using str_cmp_swap[of "f x" "f y"] by (simp add: by_name_def)
    with yx Cons.prems(2) show False by auto
  qed
  with Cons ys show ?case by auto
qed simp

lemma sort_by_name_perm:
  assumes "mset xs = mset ys" "distinct (map f xs)"
  shows "sort_func (by_name f) xs = sort_func (by_name f) ys"
proof (rule sorted_by_name_unique[of _ _ f])
  show "distinct (map f (sort_func (by_name f) xs))"
    using assms(2) by (metis mset_map mset_sort_func mset_eq_imp_distinct_iff)
qed (simp_all add: assms(1) go_order.sort_func_sorted[OF by_name_order])

end
