(* ===== verification/Version.thy ===== *)
theory Version
  imports Go_Order
begin

text \<open>
  The order on versions and the version constraints of \<open>internal/resolve/resolve.go\<close>:
  \<open>Compare\<close> with its parts and suffixes, \<open>Satisfies\<close>, \<open>ceiling\<close>, \<open>IsRange\<close> and \<open>Matches\<close>.
\<close>

subsection \<open>Compare\<close>

definition split_number :: "string \<Rightarrow> string \<times> string" where
  "split_number s = (takeWhile is_digit s, dropWhile is_digit s)"

text \<open>
  The regular expression \<open>prerelease\<close>: one of its words with no letter in front of it and none
  behind it, in any case. \<open>boundary\<close> is \<open>(^|[^a-z])\<close> and \<open>([^a-z]|$)\<close> under the flag \<open>i\<close>.
\<close>

definition prerelease_words :: "string list" where
  "prerelease_words = [''rc'', ''alpha'', ''beta'', ''pre'', ''preview'', ''dev'', ''snapshot'',
     ''next'', ''canary'', ''nightly'', ''insiders'']"

definition boundary :: "char option \<Rightarrow> bool" where
  "boundary c \<longleftrightarrow> (case c of None \<Rightarrow> True | Some d \<Rightarrow> \<not> is_letter d)"

definition first_char :: "string \<Rightarrow> char option" where
  "first_char s = (case s of [] \<Rightarrow> None | c # _ \<Rightarrow> Some c)"

definition word_at :: "string \<Rightarrow> bool" where
  "word_at s \<longleftrightarrow>
     list_ex (\<lambda>w. to_lower (take (length w) s) = w \<and> boundary (first_char (drop (length w) s)))
       prerelease_words
     \<or> (case s of
          c # d # rest \<Rightarrow> lower_char c \<in> set ''mab'' \<and> is_digit d \<and> boundary (first_char rest)
        | _ \<Rightarrow> False)"

fun prerelease_from :: "char option \<Rightarrow> string \<Rightarrow> bool" where
  "prerelease_from prev [] = False"
| "prerelease_from prev (c # s) =
     ((boundary prev \<and> word_at (c # s)) \<or> prerelease_from (Some c) s)"

definition prerelease :: "string \<Rightarrow> bool" where
  "prerelease s = prerelease_from None s"

definition tail_rank :: "string \<Rightarrow> int" where
  "tail_rank tail = (if prerelease tail then 1 else -1)"

text \<open>\<open>runs\<close>: a string cut where a digit meets another character.\<close>

fun runs :: "string \<Rightarrow> string list" where
  "runs [] = []"
| "runs (c # s) =
     (c # takeWhile (\<lambda>d. is_digit d = is_digit c) s)
       # runs (dropWhile (\<lambda>d. is_digit d = is_digit c) s)"

text \<open>One round of the loop of \<open>compareSuffix\<close>; 0 means that the loop goes on.\<close>

definition run_cmp :: "string \<Rightarrow> string \<Rightarrow> int" where
  "run_cmp x y =
     (case (atoi x, atoi y) of
        (Some nx, Some ny) \<Rightarrow> (if nx \<noteq> ny then int_cmp nx ny else 0)
      | _ \<Rightarrow> (if x \<noteq> y then str_cmp x y else 0))"

fun first_nonzero :: "int list \<Rightarrow> int" where
  "first_nonzero [] = 0"
| "first_nonzero (n # ns) = (if n \<noteq> 0 then n else first_nonzero ns)"

definition compare_suffix :: "string \<Rightarrow> string \<Rightarrow> int" where
  "compare_suffix a b =
     (let runsA = runs a; runsB = runs b;
          decided = first_nonzero (map (\<lambda>(x, y). run_cmp x y) (zip runsA runsB))
      in if decided \<noteq> 0 then decided
         else int_cmp (int (length runsA)) (int (length runsB)))"

definition compare_part :: "string \<Rightarrow> string \<Rightarrow> int" where
  "compare_part x y =
     (let (numX, tailX) = split_number x; (numY, tailY) = split_number y
      in (case (atoi numX, atoi numY) of
            (Some nx, Some ny) \<Rightarrow>
              (if nx \<noteq> ny then int_cmp nx ny
               else if tailX = [] \<and> tailY = [] then 0
               else if tailX = [] then tail_rank tailY
               else if tailY = [] then - tail_rank tailX
               else compare_suffix tailX tailY)
          | _ \<Rightarrow> str_cmp x y))"

text \<open>\<open>strings.Cut(a, "-")\<close>: the core and the suffix, which is empty without a hyphen.\<close>

definition cut_dash :: "string \<Rightarrow> string \<times> string" where
  "cut_dash v = (case cut_char (CHR ''-'') v of None \<Rightarrow> (v, []) | Some (core, pre) \<Rightarrow> (core, pre))"

text \<open>A part that one version lacks is 0.\<close>

definition part_at :: "string list \<Rightarrow> nat \<Rightarrow> string" where
  "part_at parts i = (if i < length parts then parts ! i else ''0'')"

definition compare_cores :: "string list \<Rightarrow> string list \<Rightarrow> int" where
  "compare_cores partsA partsB =
     first_nonzero (map (\<lambda>i. compare_part (part_at partsA i) (part_at partsB i))
       [0..<max (length partsA) (length partsB)])"

definition compare :: "string \<Rightarrow> string \<Rightarrow> int" where
  "compare a b =
     (let (coreA, preA) = cut_dash a; (coreB, preB) = cut_dash b;
          order = compare_cores (split_char (CHR ''.'') coreA) (split_char (CHR ''.'') coreB)
      in if order \<noteq> 0 then order
         else if preA = [] \<and> preB \<noteq> [] then 1
         else if preA \<noteq> [] \<and> preB = [] then -1
         else compare_suffix preA preB)"

subsection \<open>Constraints\<close>

datatype version_error =
    BadConstraint string
  | BadCeiling string string

text \<open>
  \<open>ceiling\<close>: the first version that \<open>^part\<close> or \<open>~part\<close> excludes. The sum wraps as Go's \<open>int\<close> does.
\<close>

fun first_index :: "('a \<Rightarrow> bool) \<Rightarrow> 'a list \<Rightarrow> nat \<Rightarrow> nat option" where
  "first_index P [] i = None"
| "first_index P (x # xs) i = (if P x then Some i else first_index P xs (Suc i))"

definition raise_at :: "string \<Rightarrow> int list \<Rightarrow> nat" where
  "raise_at opr nums =
     (if opr = ''^''
      then (case first_index (\<lambda>n. n \<noteq> 0) nums 0 of Some i \<Rightarrow> i | None \<Rightarrow> length nums - 1)
      else min 1 (length nums - 1))"

definition ceiling_nums :: "string \<Rightarrow> int list \<Rightarrow> int list" where
  "ceiling_nums opr nums =
     (let at = raise_at opr nums in take at nums @ [wrap (nums ! at + 1)])"

definition ceiling :: "string \<Rightarrow> string \<Rightarrow> (version_error, string) res" where
  "ceiling part opr =
     (case map_res (\<lambda>field. case atoi field of None \<Rightarrow> Inl (BadCeiling opr part) | Some n \<Rightarrow> Inr n)
             (split_char (CHR ''.'') part) of
        Inl e \<Rightarrow> Inl e
      | Inr nums \<Rightarrow> Inr (join ''.'' (map itoa (ceiling_nums opr nums))))"

definition operators :: "string list" where
  "operators = [''>='', ''<='', ''>'', ''<'', ''='', ''^'', ''~'']"

text \<open>The operator of a part and the version behind it; a bare version means \<open>=\<close>.\<close>

definition split_op :: "string \<Rightarrow> string \<times> string" where
  "split_op part =
     (case find (has_prefix part) operators of
        Some opr \<Rightarrow> (opr, trim_space (drop (length opr) part))
      | None \<Rightarrow> (''='', part))"

definition op_met :: "string \<Rightarrow> int \<Rightarrow> bool" where
  "op_met opr order \<longleftrightarrow>
     opr = ''>='' \<and> order \<ge> 0 \<or> opr = ''>'' \<and> order > 0 \<or> opr = ''<='' \<and> order \<le> 0
     \<or> opr = ''<'' \<and> order < 0 \<or> opr = ''='' \<and> order = 0"

text \<open>One part of a constraint.\<close>

definition part_met :: "string \<Rightarrow> string \<Rightarrow> string \<Rightarrow> (version_error, bool) res" where
  "part_met constraint version part0 =
     (let (opr, part) = split_op part0
      in if part = [] \<or> \<not> is_digit (hd part) then Inl (BadConstraint constraint)
         else if opr = ''^'' \<or> opr = ''~''
         then (case ceiling part opr of
                 Inl e \<Rightarrow> Inl e
               | Inr below \<Rightarrow> Inr (\<not> (compare version part < 0 \<or> compare version below \<ge> 0)))
         else Inr (op_met opr (compare version part)))"

fun parts_met :: "string \<Rightarrow> string \<Rightarrow> string list \<Rightarrow> (version_error, bool) res" where
  "parts_met constraint version [] = Inr True"
| "parts_met constraint version (p # ps) =
     (let part = trim_space p
      in if part = [] then parts_met constraint version ps
         else (case part_met constraint version part of
                 Inl e \<Rightarrow> Inl e
               | Inr False \<Rightarrow> Inr False
               | Inr True \<Rightarrow> parts_met constraint version ps))"

definition satisfies :: "string \<Rightarrow> string \<Rightarrow> (version_error, bool) res" where
  "satisfies version constraint =
     parts_met constraint version (split_char (CHR '','') constraint)"

definition is_range :: "string \<Rightarrow> bool" where
  "is_range want \<longleftrightarrow>
     want \<noteq> [] \<and> (contains_any (take 1 want) ''^~<>='' \<or> contains want '','')"

definition version_matches :: "string \<Rightarrow> string \<Rightarrow> (version_error, bool) res" where
  "version_matches version want =
     (if want = [] then Inr True
      else if is_range want then satisfies version want
      else Inr (version = want \<or> has_prefix version (want @ ''.'')))"

end
