(* ===== verification/Resolve.thy ===== *)
theory Resolve
  imports Version
begin

text \<open>
  Version discovery, \<open>internal/resolve/resolve.go\<close>: which release of a manifest's version source to
  install. The answers of forges and registries are parameters, the record \<open>sources\<close>. A time is a
  number of nanoseconds since 1970, and Go's zero time is \<open>zero_time\<close>.
\<close>

subsection \<open>Data\<close>

type_synonym time = int

definition zero_time :: time where
  "zero_time = - 62135596800 * 1000000000"

record release =
  rel_version :: string
  rel_tag :: string
  rel_commit :: string
  rel_digests :: "string \<rightharpoonup> string"
  rel_integrity :: "string \<rightharpoonup> string"
  rel_published :: time

definition zero_release :: release where
  "zero_release = \<lparr>rel_version = [], rel_tag = [], rel_commit = [], rel_digests = Map.empty,
     rel_integrity = Map.empty, rel_published = zero_time\<rparr>"

text \<open>\<open>manifest.Version\<close>: where a manifest finds its versions.\<close>

record version_spec =
  v_value :: string
  v_from :: string
  v_repo :: string
  v_strip_prefix :: string
  v_tag :: string
  v_latest :: bool
  v_branch :: string
  v_regex :: string
  v_join :: string
  v_json :: "string list"

record resolver =
  min_age :: int
  now :: time

datatype resolve_error =
    TooNew version_spec release
  | ManifestProvides string string
  | NoVersions string string
  | NoneSatisfies string "string list"
  | NoSuchVersion string string string "string list"
  | BadRange version_error
  | NoVersionInLatest string string
  | NoLatestRelease string
  | UnsupportedFrom string
  | DraftRelease string
  | NoCommit string
  | Upstream string

text \<open>One file and one release as a forge reports them, \<open>forge.Asset\<close> and \<open>forge.Release\<close>.\<close>

record asset =
  asset_name :: string
  asset_url :: string
  asset_digest :: string
  asset_size :: int

record forge_release =
  fr_tag :: string
  fr_commit :: string
  fr_draft :: bool
  fr_prerelease :: bool
  fr_assets :: "asset list"
  fr_published :: time

record commit =
  sha :: string
  commit_date :: time

text \<open>When the Go module proxy says that a version came out.\<close>

datatype published_at = PubNotFound | PubError resolve_error | PubAt time

record sources =
  src_npm_latest :: "string \<Rightarrow> (resolve_error, string) res"
  src_release :: "version_spec \<Rightarrow> string \<Rightarrow> (resolve_error, forge_release) res"
  src_releases :: "version_spec \<Rightarrow> bool \<Rightarrow> (resolve_error, forge_release list \<times> bool) res"
  src_tag_commit :: "version_spec \<Rightarrow> string \<Rightarrow> (resolve_error, commit) res"
  src_tags :: "string \<Rightarrow> (resolve_error, string list) res"
  src_registry :: "version_spec \<Rightarrow> (resolve_error, release list) res"
  src_single :: "version_spec \<Rightarrow> (resolve_error, release) res"
  src_go_published :: "string \<Rightarrow> string \<Rightarrow> published_at"

subsection \<open>The minimum release age\<close>

definition cutoff :: "resolver \<Rightarrow> time" where
  "cutoff r = now r - min_age r"

definition too_new :: "resolver \<Rightarrow> version_spec \<Rightarrow> release \<Rightarrow> bool" where
  "too_new r v rel \<longleftrightarrow>
     min_age r > 0 \<and> v_tag v = [] \<and> v_from v \<noteq> ''git-branch'' \<and> rel_published rel > cutoff r"

definition hour :: int where "hour = 3600 * 1000000000"
definition day :: int where "day = 24 * hour"

definition format_age :: "int \<Rightarrow> string" where
  "format_age age =
     (if go_rem age (7 * day) = 0 then itoa (go_quot age (7 * day)) @ ''w''
      else if go_rem age day = 0 then itoa (go_quot age day) @ ''d''
      else itoa (go_quot age hour) @ ''h'')"

subsection \<open>Picking a release\<close>

definition fits :: "release \<Rightarrow> string \<Rightarrow> (version_error, bool) res" where
  "fits rel want =
     (if is_range want then satisfies (rel_version rel) want
      else Inr (want = [] \<or> has_prefix (rel_version rel) (want @ ''.'')))"

text \<open>
  \<open>Pick\<close> returns two releases and an error: the one to install, the newest that \<open>MinAge\<close> passed
  over, and what went wrong.
\<close>

type_synonym pick = "release \<times> release \<times> resolve_error option"

fun newest :: "resolver \<Rightarrow> version_spec \<Rightarrow> release list \<Rightarrow> (release \<Rightarrow> (version_error, bool) res) \<Rightarrow>
    (string list \<Rightarrow> resolve_error) \<Rightarrow> release \<Rightarrow> release \<Rightarrow> string list \<Rightarrow> pick" where
  "newest r v [] fit none waiting soonest seen =
     (if rel_version waiting \<noteq> [] then (zero_release, waiting, Some (TooNew v soonest))
      else (zero_release, zero_release, Some (none seen)))"
| "newest r v (rel # rels) fit none waiting soonest seen =
     (let seen' = (if length seen < 5 then seen @ [rel_version rel] else seen)
      in (case fit rel of
            Inl e \<Rightarrow> (zero_release, zero_release, Some (BadRange e))
          | Inr False \<Rightarrow> newest r v rels fit none waiting soonest seen'
          | Inr True \<Rightarrow>
              (if \<not> too_new r v rel then (rel, waiting, None)
               else newest r v rels fit none
                      (if rel_version waiting = [] then rel else waiting) rel seen')))"

definition pick_from :: "resolver \<Rightarrow> version_spec \<Rightarrow> release list \<Rightarrow> string \<Rightarrow> pick" where
  "pick_from r v releases want =
     (if releases = [] then (zero_release, zero_release, Some (NoVersions (v_from v) (v_repo v)))
      else if is_range want
      then newest r v releases (\<lambda>rel. fits rel want) (NoneSatisfies want)
             zero_release zero_release []
      else (case find (\<lambda>rel. want \<noteq> [] \<and> rel_version rel = want) releases of
              Some rel \<Rightarrow> (rel, zero_release, None)
            | None \<Rightarrow> newest r v releases (\<lambda>rel. fits rel want)
                        (NoSuchVersion (v_from v) (v_repo v) want) zero_release zero_release []))"

subsection \<open>Releases from tags\<close>

text \<open>
  The version in a tag and whether the tag has the declared form. A \<open>v\<close> in front is optional.
\<close>

definition tag_version :: "string \<Rightarrow> string \<Rightarrow> (string \<times> bool) option" where
  "tag_version strip tag =
     (let ok = has_prefix tag strip;
          cut = (if ok then drop (length strip) tag else tag);
          (version, ok2, declared) =
            (if \<not> ok \<and> strip = ''v'' then (tag, True, ok)
             else if ok \<and> strip = [] \<and> has_prefix tag ''v'' then (drop 1 tag, ok, False)
             else (cut, ok, ok))
      in if \<not> ok2 \<or> version = [] \<or> \<not> is_digit (hd version) then None
         else Some (version, declared))"

fun from_tags :: "string \<Rightarrow> (string \<Rightarrow> string \<rightharpoonup> string) \<Rightarrow> (string \<Rightarrow> time) \<Rightarrow> string list \<Rightarrow>
    release list \<Rightarrow> release list" where
  "from_tags strip digests ptimes [] releases = releases"
| "from_tags strip digests ptimes (tag # tags) releases =
     from_tags strip digests ptimes tags
       (case tag_version strip tag of
          None \<Rightarrow> releases
        | Some (version, declared) \<Rightarrow>
            (case first_index (\<lambda>rel. rel_version rel = version) releases 0 of
               Some i \<Rightarrow>
                 (if declared
                  then releases[i := (releases ! i)\<lparr>rel_tag := tag, rel_digests := digests tag,
                         rel_published := ptimes tag\<rparr>]
                  else releases)
             | None \<Rightarrow>
                 releases @ [zero_release\<lparr>rel_version := version, rel_tag := tag,
                   rel_digests := digests tag, rel_published := ptimes tag\<rparr>]))"

text \<open>Newest first, every prerelease behind the releases.\<close>

definition release_cmp :: "release \<Rightarrow> release \<Rightarrow> int" where
  "release_cmp a b =
     (let preA = prerelease (rel_version a); preB = prerelease (rel_version b)
      in if preA \<and> \<not> preB then 1
         else if preB \<and> \<not> preA then -1
         else compare (rel_version b) (rel_version a))"

definition asset_digests :: "forge_release \<Rightarrow> string \<rightharpoonup> string" where
  "asset_digests rel =
     foldl (\<lambda>m a. if asset_digest a \<noteq> [] then m(asset_url a \<mapsto> asset_digest a) else m)
       Map.empty (fr_assets rel)"

text \<open>\<open>published\<close>: the tags of the published releases, the digests of each one's files and its time.\<close>

definition published_tags :: "forge_release list \<Rightarrow>
    string list \<times> (string \<Rightarrow> string \<rightharpoonup> string) \<times> (string \<Rightarrow> time)" where
  "published_tags found =
     (let out = filter (\<lambda>rel. \<not> fr_draft rel \<and> \<not> fr_prerelease rel) found
      in (map fr_tag out,
          foldl (\<lambda>m rel. m(fr_tag rel := asset_digests rel)) (\<lambda>_. Map.empty) out,
          foldl (\<lambda>m rel. m(fr_tag rel := fr_published rel)) (\<lambda>_. zero_time) out))"

subsection \<open>The day of a commit\<close>

text \<open>The civil date of a day counted from 1970-01-01, in the proleptic Gregorian calendar.\<close>

definition civil :: "int \<Rightarrow> int \<times> int \<times> int" where
  "civil days =
     (let z = days + 719468; era = z div 146097; doe = z mod 146097;
          yoe = (doe - doe div 1460 + doe div 36524 - doe div 146096) div 365;
          doy = doe - (365 * yoe + yoe div 4 - yoe div 100);
          mp = (5 * doy + 2) div 153;
          d = doy - (153 * mp + 2) div 5 + 1;
          m = (if mp < 10 then mp + 3 else mp - 9)
      in (yoe + era * 400 + (if m \<le> 2 then 1 else 0), m, d))"

definition pad_zeros :: "nat \<Rightarrow> string \<Rightarrow> string" where
  "pad_zeros n s = replicate (n - length s) (CHR ''0'') @ s"

text \<open>\<open>date.UTC().Format("2006.01.02")\<close>.\<close>

definition format_day :: "time \<Rightarrow> string" where
  "format_day t =
     (let (y, m, d) = civil (t div (86400 * 1000000000))
      in pad_zeros 4 (itoa y) @ ''.'' @ pad_zeros 2 (itoa m) @ ''.'' @ pad_zeros 2 (itoa d))"

definition branch_release :: "string \<Rightarrow> string \<Rightarrow> time \<Rightarrow> (resolve_error, release) res" where
  "branch_release branch sha1 date =
     (if length sha1 < 7 \<or> date = zero_time then Inl (NoCommit branch)
      else Inr (zero_release\<lparr>rel_version := format_day date @ ''-'' @ take 7 sha1,
             rel_tag := branch, rel_commit := sha1\<rparr>))"

definition moving_tag :: "sources \<Rightarrow> version_spec \<Rightarrow> (resolve_error, release) res" where
  "moving_tag src v =
     (case src_release src v (v_tag v) of
        Inl e \<Rightarrow> Inl e
      | Inr found \<Rightarrow>
          (if fr_draft found then Inl (DraftRelease (v_tag v))
           else (case src_tag_commit src v (v_tag v) of
                   Inl e \<Rightarrow> Inl e
                 | Inr c \<Rightarrow>
                     (if length (sha c) < 7 then Inl (NoCommit (v_tag v))
                      else Inr (zero_release\<lparr>
                        rel_version := format_day (commit_date c) @ ''-'' @ take 7 (sha c),
                        rel_tag := v_tag v, rel_commit := sha c,
                        rel_digests := asset_digests found\<rparr>)))))"

subsection \<open>Listing the versions of a source\<close>

definition forge_froms :: "string list" where
  "forge_froms = [''github-releases'', ''gitea-releases'', ''gitlab-releases'']"

definition registry_froms :: "string list" where
  "registry_froms = [''npm'', ''pypi'', ''go'', ''crates'']"

definition single_froms :: "string list" where
  "single_froms = [''sparkle'', ''redirect'', ''page'', ''git-branch'']"

definition list_versions :: "sources \<Rightarrow> version_spec \<Rightarrow> bool \<Rightarrow> (resolve_error, release list \<times> bool) res" where
  "list_versions src v all =
     (if v_tag v \<noteq> [] then and_then (moving_tag src v) (\<lambda>rel. Inr ([rel], False))
      else if v_from v \<in> set registry_froms then and_then (src_registry src v) (\<lambda>rs. Inr (rs, False))
      else if v_from v \<in> set single_froms then and_then (src_single src v) (\<lambda>rel. Inr ([rel], False))
      else and_then
        (if v_from v \<in> set forge_froms
         then and_then (src_releases src v all)
                (\<lambda>(found, further). let (tags, digests, ptimes) = published_tags found
                                  in Inr (tags, digests, ptimes, further))
         else if v_from v = ''git-tags''
         then and_then (src_tags src (v_repo v)) (\<lambda>tags. Inr (tags, \<lambda>_. Map.empty, \<lambda>_. zero_time, False))
         else Inl (UnsupportedFrom (v_from v)))
        (\<lambda>(tags, digests, ptimes, further).
           Inr (sort_func release_cmp (from_tags (v_strip_prefix v) digests ptimes tags []), further)))"

text \<open>
  \<open>listing\<close> keeps the answers of one source during a command: \<open>read\<close> once the first page is in,
  \<open>complete\<close> once every page is. \<open>ask\<close> is the lookup that a call may need; the flag of the result
  says whether the call made it.
\<close>

record listing_memo =
  lm_read :: bool
  lm_complete :: bool
  lm_answer :: "(resolve_error, release list \<times> bool) res"

definition empty_memo :: listing_memo where
  "empty_memo = \<lparr>lm_read = False, lm_complete = False, lm_answer = Inr ([], False)\<rparr>"

definition listing :: "(bool \<Rightarrow> (resolve_error, release list \<times> bool) res) \<Rightarrow> listing_memo \<Rightarrow> bool \<Rightarrow>
    listing_memo \<times> (resolve_error, release list \<times> bool) res \<times> bool" where
  "listing ask l all =
     (if lm_complete l \<or> lm_read l \<and> \<not> all then (l, lm_answer l, False)
      else (let answer = ask all
            in (\<lparr>lm_read = True,
                 lm_complete = (case answer of Inl _ \<Rightarrow> False | Inr (_, further) \<Rightarrow> \<not> further),
                 lm_answer = answer\<rparr>, answer, True)))"

subsection \<open>Pick\<close>

text \<open>\<open>latest\<close>: the version of the release that the forge marks as latest, on the first page or on any.\<close>

definition version_of_tag :: "string \<Rightarrow> release list \<Rightarrow> string option" where
  "version_of_tag tag releases = map_option rel_version (find (\<lambda>rel. rel_tag rel = tag) releases)"

definition latest :: "sources \<Rightarrow> version_spec \<Rightarrow> (resolve_error, string) res" where
  "latest src v =
     (case src_release src v [] of
        Inl e \<Rightarrow> Inl e
      | Inr marked \<Rightarrow>
          (case list_versions src v False of
             Inl e \<Rightarrow> Inl e
           | Inr (page, _) \<Rightarrow>
               (case version_of_tag (fr_tag marked) page of
                  Some version \<Rightarrow> Inr version
                | None \<Rightarrow>
                    (case list_versions src v True of
                       Inl e \<Rightarrow> Inl e
                     | Inr (every, _) \<Rightarrow>
                         (case version_of_tag (fr_tag marked) every of
                            Some version \<Rightarrow> Inr version
                          | None \<Rightarrow> Inl (NoVersionInLatest (v_repo v) (fr_tag marked)))))))"

text \<open>\<open>goTimes\<close>: the times of Go versions, read until one is old enough.\<close>

fun go_times_loop :: "sources \<Rightarrow> resolver \<Rightarrow> version_spec \<Rightarrow> string \<Rightarrow> release list \<Rightarrow>
    (resolve_error, release list) res" where
  "go_times_loop src r v want [] = Inr []"
| "go_times_loop src r v want (rel # rels) =
     (if fits rel want \<noteq> Inr True
      then and_then (go_times_loop src r v want rels) (\<lambda>rs. Inr (rel # rs))
      else (case src_go_published src (v_repo v) (rel_version rel) of
              PubNotFound \<Rightarrow> Inr (rel # rels)
            | PubError e \<Rightarrow> Inl e
            | PubAt t \<Rightarrow>
                (if t < cutoff r then Inr (rel\<lparr>rel_published := t\<rparr> # rels)
                 else and_then (go_times_loop src r v want rels)
                        (\<lambda>rs. Inr (rel\<lparr>rel_published := t\<rparr> # rs)))))"

definition go_times :: "sources \<Rightarrow> resolver \<Rightarrow> version_spec \<Rightarrow> release list \<Rightarrow> string \<Rightarrow>
    (resolve_error, release list) res" where
  "go_times src r v releases want =
     (if min_age r = 0 \<or> list_ex (\<lambda>rel. rel_version rel = want) releases then Inr releases
      else go_times_loop src r v want releases)"

definition pick_listed :: "sources \<Rightarrow> resolver \<Rightarrow> version_spec \<Rightarrow> string \<Rightarrow> pick" where
  "pick_listed src r v want =
     (case list_versions src v False of
        Inl e \<Rightarrow> (zero_release, zero_release, Some e)
      | Inr (page, further) \<Rightarrow>
          (case (if v_from v = ''go'' then go_times src r v page want else Inr page) of
             Inl e \<Rightarrow> (zero_release, zero_release, Some e)
           | Inr releases \<Rightarrow>
               (case pick_from r v releases want of
                  (rel, waiting, err) \<Rightarrow>
                    (if err = None \<or> \<not> further then (rel, waiting, err)
                     else (case list_versions src v True of
                             Inl e \<Rightarrow> (zero_release, zero_release, Some e)
                           | Inr (every, _) \<Rightarrow> pick_from r v every want)))))"

definition pick_waiting :: "sources \<Rightarrow> resolver \<Rightarrow> version_spec \<Rightarrow> string \<Rightarrow> pick" where
  "pick_waiting src r v want =
     (if v_from v = []
      then (case version_matches (v_value v) want of
              Inl e \<Rightarrow> (zero_release, zero_release, Some (BadRange e))
            | Inr False \<Rightarrow> (zero_release, zero_release, Some (ManifestProvides (v_value v) want))
            | Inr True \<Rightarrow> (zero_release\<lparr>rel_version := v_value v, rel_tag := v_value v\<rparr>, zero_release, None))
      else (case (if v_from v = ''npm'' \<and> want = []
                  then and_then (src_npm_latest src (v_repo v)) (\<lambda>l. Inr (''<='' @ l))
                  else Inr want) of
              Inl e \<Rightarrow> (zero_release, zero_release, Some e)
            | Inr want1 \<Rightarrow>
                (case (if v_latest v \<and> want1 = []
                       then and_then (latest src v) (\<lambda>l. Inr (''<='' @ l)) else Inr want1) of
                   Inl e \<Rightarrow> (zero_release, zero_release, Some e)
                 | Inr want2 \<Rightarrow> pick_listed src r v want2)))"

definition pick_version :: "sources \<Rightarrow> resolver \<Rightarrow> version_spec \<Rightarrow> string \<Rightarrow> (resolve_error, release) res" where
  "pick_version src r v want =
     (case pick_waiting src r v want of (rel, _, None) \<Rightarrow> Inr rel | (_, _, Some e) \<Rightarrow> Inl e)"

end
