(* ===== verification/Version_Laws.thy ===== *)
theory Version_Laws
  imports Version
begin

text \<open>
  The laws of the version order. For any two strings \<open>compare\<close> is skew symmetric. It is transitive
  on the versions whose parts are numbers that fit an \<open>int\<close>, and not beyond: the last section has
  the cycles.
\<close>

subsection \<open>Skew symmetry\<close>

lemma int_cmp_swap: "int_cmp b a = - int_cmp a b"
  by (simp add: int_cmp_def)

lemma int_cmp_0 [simp]: "int_cmp a b = 0 \<longleftrightarrow> a = b"
  by (simp add: int_cmp_def)

lemma int_cmp_less [simp]: "int_cmp a b < 0 \<longleftrightarrow> a < b" "int_cmp a b \<le> 0 \<longleftrightarrow> a \<le> b"
  "0 < int_cmp a b \<longleftrightarrow> b < a" "0 \<le> int_cmp a b \<longleftrightarrow> b \<le> a"
  by (auto simp: int_cmp_def)

lemma first_nonzero_minus: "first_nonzero (map uminus ns) = - first_nonzero ns"
  by (induction ns) auto

lemma first_nonzero_swap:
  assumes "\<And>i. i \<in> set is \<Longrightarrow> g i = - (f i :: int)"
  shows "first_nonzero (map g is) = - first_nonzero (map f is)"
proof -
  have "map g is = map uminus (map f is)" using assms by simp
  then show ?thesis by (simp only: first_nonzero_minus)
qed

lemma run_cmp_swap: "run_cmp y x = - run_cmp x y"
  by (cases "atoi x"; cases "atoi y") (auto simp: run_cmp_def int_cmp_def intro: str_cmp_swap)

lemma zip_swap_map: "map f (zip ys xs) = map (\<lambda>(x, y). f (y, x)) (zip xs ys)"
  by (subst zip_commute) (auto simp: comp_def)

lemma compare_suffix_swap: "compare_suffix b a = - compare_suffix a b"
proof -
  have "first_nonzero (map (\<lambda>(x, y). run_cmp x y) (zip (runs b) (runs a)))
      = - first_nonzero (map (\<lambda>(x, y). run_cmp x y) (zip (runs a) (runs b)))"
    by (subst zip_swap_map, rule first_nonzero_swap) (auto intro: run_cmp_swap)
  then show ?thesis
    by (simp add: compare_suffix_def Let_def int_cmp_def)
qed

lemma compare_part_swap: "compare_part y x = - compare_part x y"
  by (cases "atoi (takeWhile is_digit x)"; cases "atoi (takeWhile is_digit y)")
    (auto simp: compare_part_def split_number_def int_cmp_def intro: str_cmp_swap compare_suffix_swap)

lemma compare_cores_swap: "compare_cores ys xs = - compare_cores xs ys"
  unfolding compare_cores_def
  by (subst max.commute, rule first_nonzero_swap) (rule compare_part_swap)

lemma compare_swap_any: "compare b a = - compare a b"
proof -
  obtain coreA preA where a: "cut_dash a = (coreA, preA)" by (cases "cut_dash a")
  obtain coreB preB where b: "cut_dash b = (coreB, preB)" by (cases "cut_dash b")
  have "compare_cores (split_char (CHR ''.'') coreB) (split_char (CHR ''.'') coreA)
      = - compare_cores (split_char (CHR ''.'') coreA) (split_char (CHR ''.'') coreB)"
    by (rule compare_cores_swap)
  then show ?thesis
    by (auto simp: compare_def a b Let_def compare_suffix_swap[of preB])
qed

lemma compare_self [simp]: "compare a a = 0"
  using compare_swap_any[of a a] by simp

subsection \<open>The runs of a suffix\<close>

definition digit_run :: "string \<Rightarrow> bool" where
  "digit_run r \<longleftrightarrow> r \<noteq> [] \<and> list_all is_digit r"

definition text_run :: "string \<Rightarrow> bool" where
  "text_run r \<longleftrightarrow> r \<noteq> [] \<and> list_all (\<lambda>c. \<not> is_digit c) r"

definition good_run :: "string \<Rightarrow> bool" where
  "good_run r \<longleftrightarrow> digit_run r \<and> in_int (int (digits_val r)) \<or> text_run r"

lemma runs_uniform: "r \<in> set (runs s) \<Longrightarrow> digit_run r \<or> text_run r"
proof (induction s rule: runs.induct)
  case (2 c s)
  have "digit_run (c # takeWhile (\<lambda>d. is_digit d = is_digit c) s)
      \<or> text_run (c # takeWhile (\<lambda>d. is_digit d = is_digit c) s)"
    by (cases "is_digit c") (auto simp: digit_run_def text_run_def list_all_iff dest: set_takeWhileD)
  with 2 show ?case by auto
qed simp

lemma concat_runs [go_round]: "concat (runs s) = s"
  by (induction s rule: runs.induct) auto

lemma atoi_digit_run: "digit_run r \<Longrightarrow> in_int (int (digits_val r)) \<Longrightarrow> atoi r = Some (int (digits_val r))"
  by (simp add: digit_run_def atoi_digits)

lemma atoi_text_run: "text_run r \<Longrightarrow> atoi r = None"
  by (cases r) (auto simp: text_run_def atoi_def atoi_unsigned_def list_all_iff neq_Nil_conv)

lemma hd_digit_run: "digit_run r \<Longrightarrow> \<exists>c s. r = c # s \<and> is_digit c"
  by (cases r) (auto simp: digit_run_def)

lemma hd_text_run: "text_run r \<Longrightarrow> \<exists>c s. r = c # s \<and> \<not> is_digit c"
  by (cases r) (auto simp: text_run_def)

lemma run_cmp_digits:
  "digit_run x \<Longrightarrow> digit_run y \<Longrightarrow> in_int (int (digits_val x)) \<Longrightarrow> in_int (int (digits_val y)) \<Longrightarrow>
   run_cmp x y = int_cmp (int (digits_val x)) (int (digits_val y))"
  by (simp add: run_cmp_def atoi_digit_run)

lemma run_cmp_text: "text_run x \<or> text_run y \<Longrightarrow> run_cmp x y = str_cmp x y"
  by (auto simp: run_cmp_def atoi_text_run split: option.splits)

text \<open>
  The band of a run: digits lie between the characters below \<open>0\<close> and those above \<open>9\<close>, so runs of
  different bands compare by their bands alone.
\<close>

definition band :: "string \<Rightarrow> nat" where
  "band r = (if digit_run r then 1 else if byte (hd r) < 48 then 0 else 2)"

lemma band_digit: "band r = 1 \<longleftrightarrow> digit_run r"
  by (simp add: band_def)

lemma text_not_digit: "text_run r \<Longrightarrow> \<not> digit_run r"
  by (cases r) (auto simp: text_run_def digit_run_def)

lemma run_cmp_band:
  assumes "good_run x" "good_run y"
  shows "band x < band y \<Longrightarrow> run_cmp x y \<le> 0" "run_cmp x y \<le> 0 \<Longrightarrow> band x \<le> band y"
proof -
  have *: "(band x < band y \<longrightarrow> run_cmp x y \<le> 0) \<and> (run_cmp x y \<le> 0 \<longrightarrow> band x \<le> band y)"
  proof (cases "digit_run x \<and> digit_run y")
    case False
    then have t: "text_run x \<or> text_run y" using assms by (auto simp: good_run_def)
    from assms obtain c s d t where xy: "x = c # s" "y = d # t"
      and c: "digit_run x \<longleftrightarrow> is_digit c" and d: "digit_run y \<longleftrightarrow> is_digit d"
      by (metis good_run_def hd_digit_run hd_text_run list.inject text_not_digit)
    have "\<not> (is_digit c \<and> is_digit d)" using False c d by simp
    with t c d show ?thesis
      by (auto simp: run_cmp_text xy band_def is_digit_def)
  qed (simp add: band_def)
  then show "band x < band y \<Longrightarrow> run_cmp x y \<le> 0" "run_cmp x y \<le> 0 \<Longrightarrow> band x \<le> band y"
    by auto
qed

lemma run_cmp_trans:
  assumes g: "good_run x" "good_run y" "good_run z" and le: "run_cmp x y \<le> 0" "run_cmp y z \<le> 0"
  shows "run_cmp x z \<le> 0"
proof (cases "band x < band z")
  case True
  with run_cmp_band(1)[OF g(1,3)] show ?thesis by simp
next
  case False
  moreover have "band x \<le> band y" "band y \<le> band z" using g le run_cmp_band(2) by blast+
  ultimately have "band x = band y" "band y = band z" by linarith+
  then have "digit_run x \<longleftrightarrow> digit_run y" "digit_run y \<longleftrightarrow> digit_run z"
    using band_digit by metis+
  then have "digit_run x \<and> digit_run y \<and> digit_run z \<or> text_run x \<and> text_run y \<and> text_run z"
    using g unfolding good_run_def by blast
  then show ?thesis
  proof
    assume "digit_run x \<and> digit_run y \<and> digit_run z"
    moreover from this g text_not_digit have "in_int (int (digits_val x))"
      "in_int (int (digits_val y))" "in_int (int (digits_val z))"
      unfolding good_run_def by blast+
    ultimately show ?thesis using le by (simp add: run_cmp_digits)
  next
    assume "text_run x \<and> text_run y \<and> text_run z"
    then show ?thesis using le str_cmp_trans[of x y z] by (simp add: run_cmp_text)
  qed
qed

interpretation run_order: go_order run_cmp good_run
  by unfold_locales (rule run_cmp_swap, rule run_cmp_trans)

lemma compare_suffix_lex_aux:
  "(let decided = first_nonzero (map (\<lambda>(x, y). run_cmp x y) (zip xs ys))
    in if decided \<noteq> 0 then decided else int_cmp (int (length xs)) (int (length ys)))
   = lex_cmp run_cmp xs ys"
  by (induction run_cmp xs ys rule: lex_cmp.induct) (auto simp: Let_def int_cmp_def)

lemma compare_suffix_lex: "compare_suffix a b = lex_cmp run_cmp (runs a) (runs b)"
  unfolding compare_suffix_def Let_def by (rule compare_suffix_lex_aux[unfolded Let_def])

definition good_suffix :: "string \<Rightarrow> bool" where
  "good_suffix s \<longleftrightarrow> list_all (\<lambda>r. list_all is_digit r \<longrightarrow> in_int (int (digits_val r))) (runs s)"

lemma good_suffix_runs: "good_suffix s \<Longrightarrow> \<forall>r\<in>set (runs s). good_run r"
  unfolding good_suffix_def good_run_def list_all_iff
  by (metis digit_run_def list_all_iff runs_uniform)

lemma compare_suffix_trans:
  "good_suffix a \<Longrightarrow> good_suffix b \<Longrightarrow> good_suffix c \<Longrightarrow>
   compare_suffix a b \<le> 0 \<Longrightarrow> compare_suffix b c \<le> 0 \<Longrightarrow> compare_suffix a c \<le> 0"
  unfolding compare_suffix_lex by (rule run_order.lex_cmp_trans) (auto dest: good_suffix_runs)

subsection \<open>Cores made of numbers\<close>

definition good_part :: "string \<Rightarrow> bool" where
  "good_part x \<longleftrightarrow> digit_run x \<and> in_int (int (digits_val x))"

definition core_val :: "string list \<Rightarrow> nat \<Rightarrow> int" where
  "core_val parts i = (if i < length parts then int (digits_val (parts ! i)) else 0)"

lemma digit_run_zero [simp]: "digit_run ''0''" "digits_val ''0'' = 0" "good_part ''0''"
  by (simp_all add: digit_run_def is_digit_def digits_val_def digit_val_def good_part_def in_int_def
        min_int_def max_int_def)

lemma compare_part_good:
  assumes "good_part x" "good_part y"
  shows "compare_part x y = int_cmp (int (digits_val x)) (int (digits_val y))"
proof -
  have "atoi (takeWhile is_digit z) = Some (int (digits_val z))" "dropWhile is_digit z = []"
    if "good_part z" for z
  proof -
    from that have "\<forall>c\<in>set z. is_digit c" by (simp add: good_part_def digit_run_def list_all_iff)
    then have "takeWhile is_digit z = z" "dropWhile is_digit z = []"
      by (simp_all add: takeWhile_eq_all_conv)
    moreover have "atoi z = Some (int (digits_val z))"
      using that by (simp add: good_part_def atoi_digit_run)
    ultimately show "atoi (takeWhile is_digit z) = Some (int (digits_val z))"
      "dropWhile is_digit z = []"
      by (simp_all only:)
  qed
  with assms show ?thesis
    by (simp add: compare_part_def split_number_def int_cmp_def)
qed

interpretation ints: go_order int_cmp "\<lambda>_. True"
  by unfold_locales (rule int_cmp_swap, simp)

lemma first_nonzero_append: "first_nonzero (xs @ ys) = (if first_nonzero xs \<noteq> 0 then first_nonzero xs else first_nonzero ys)"
  by (induction xs) auto

lemma first_nonzero_zeros: "\<forall>x\<in>set xs. x = 0 \<Longrightarrow> first_nonzero xs = 0"
  by (induction xs) auto

lemma first_nonzero_lex: "first_nonzero (map (\<lambda>i. c (f i) (g i)) is) = lex_cmp c (map f is) (map g is)"
  by (induction "is") auto

definition core_key :: "nat \<Rightarrow> string list \<Rightarrow> int list" where
  "core_key n parts = map (core_val parts) [0..<n]"

lemma part_at_good: "list_all good_part xs \<Longrightarrow> good_part (part_at xs i)"
  by (auto simp: part_at_def list_all_length)

lemma part_at_val: "int (digits_val (part_at xs i)) = core_val xs i"
  by (simp add: part_at_def core_val_def)

lemma compare_cores_key:
  assumes "list_all good_part xs" "list_all good_part ys" "length xs \<le> n" "length ys \<le> n"
  shows "compare_cores xs ys = lex_cmp int_cmp (core_key n xs) (core_key n ys)"
proof -
  let ?c = "\<lambda>i. compare_part (part_at xs i) (part_at ys i)"
  let ?m = "max (length xs) (length ys)"
  obtain k where "n = ?m + k" using assms(3,4) by (metis le_Suc_ex max.bounded_iff)
  then have "[0..<n] = [0..<?m] @ [?m..<n]" using upt_add_eq_append[of 0 ?m k] by simp
  moreover have "first_nonzero (map ?c [?m..<n]) = 0"
    by (rule first_nonzero_zeros) (auto simp: part_at_def compare_part_good)
  ultimately have "first_nonzero (map ?c [0..<n]) = compare_cores xs ys"
    by (simp add: compare_cores_def first_nonzero_append)
  moreover have "?c i = int_cmp (core_val xs i) (core_val ys i)" for i
    using assms(1,2) by (simp add: part_at_good compare_part_good part_at_val)
  ultimately show ?thesis
    unfolding core_key_def first_nonzero_lex[of int_cmp "core_val xs" "core_val ys", symmetric]
    by simp
qed

lemma compare_cores_trans:
  assumes "list_all good_part xs" "list_all good_part ys" "list_all good_part zs"
    and "compare_cores xs ys \<le> 0" "compare_cores ys zs \<le> 0"
  shows "compare_cores xs zs \<le> 0"
proof -
  let ?n = "max (length xs) (max (length ys) (length zs))"
  have "lex_cmp int_cmp (core_key ?n xs) (core_key ?n ys) \<le> 0"
    "lex_cmp int_cmp (core_key ?n ys) (core_key ?n zs) \<le> 0"
    using assms by (simp_all add: compare_cores_key[symmetric])
  then have "lex_cmp int_cmp (core_key ?n xs) (core_key ?n zs) \<le> 0"
    by (rule ints.lex_cmp_trans[rotated 3]) simp_all
  then show ?thesis using assms by (simp add: compare_cores_key[symmetric])
qed

interpretation core_order: go_order compare_cores "list_all good_part"
  by unfold_locales (rule compare_cores_swap, rule compare_cores_trans)

subsection \<open>The order on good versions\<close>

definition good_version :: "string \<Rightarrow> bool" where
  "good_version v \<longleftrightarrow>
     (let (core, pre) = cut_dash v
      in list_all good_part (split_char (CHR ''.'') core) \<and> good_suffix pre)"

lemma compare_good_trans:
  assumes "good_version a" "good_version b" "good_version c" "compare a b \<le> 0" "compare b c \<le> 0"
  shows "compare a c \<le> 0"
proof -
  obtain ca pa where a: "cut_dash a = (ca, pa)" by (cases "cut_dash a")
  obtain cb pb where b: "cut_dash b = (cb, pb)" by (cases "cut_dash b")
  obtain cc pc where c: "cut_dash c = (cc, pc)" by (cases "cut_dash c")
  let ?s = "split_char (CHR ''.'')"
  have g: "list_all good_part (?s ca)" "list_all good_part (?s cb)" "list_all good_part (?s cc)"
    and p: "good_suffix pa" "good_suffix pb" "good_suffix pc"
    using assms a b c by (auto simp: good_version_def)
  have ab: "compare_cores (?s ca) (?s cb) \<le> 0" and bc: "compare_cores (?s cb) (?s cc) \<le> 0"
    using assms a b c by (auto simp: compare_def Let_def split: if_splits)
  show ?thesis
  proof (cases "compare_cores (?s ca) (?s cb) < 0 \<or> compare_cores (?s cb) (?s cc) < 0")
    case True
    then have "compare_cores (?s ca) (?s cc) < 0"
      using core_order.cmp_less_le[OF g] core_order.cmp_le_less[OF g] ab bc by blast
    with a c show ?thesis by (simp add: compare_def)
  next
    case False
    with ab bc have z: "compare_cores (?s ca) (?s cb) = 0" "compare_cores (?s cb) (?s cc) = 0" by auto
    with assms a b c compare_suffix_trans[OF p] show ?thesis
      using compare_cores_trans[OF g ab bc] by (auto simp: compare_def Let_def split: if_splits)
  qed
qed

interpretation versions: go_order compare good_version
  by unfold_locales (rule compare_swap_any, rule compare_good_trans)

end
