(* ===== verification/Version_Range.thy ===== *)
theory Version_Range
  imports Version_Laws
begin

text \<open>
  What a constraint selects. \<open>version_of\<close> writes a list of numbers as a version; on such versions
  the operators are the orders on the numbers, and \<open>^\<close> and \<open>~\<close> are the versions that are not older
  and agree with the constraint up to the number that \<open>ceiling\<close> raises.
\<close>

definition version_of :: "nat list \<Rightarrow> string" where
  "version_of ns = join ''.'' (map show_nat ns)"

definition fits_int :: "nat list \<Rightarrow> bool" where
  "fits_int ns \<longleftrightarrow> ns \<noteq> [] \<and> (\<forall>n\<in>set ns. int n \<le> max_int)"

text \<open>The order on such versions is the order on their numbers, the shorter filled with zeros.\<close>

definition padded :: "nat \<Rightarrow> nat list \<Rightarrow> int list" where
  "padded n ns = map (\<lambda>i. if i < length ns then int (ns ! i) else 0) [0..<n]"

definition older_eq :: "nat list \<Rightarrow> nat list \<Rightarrow> bool" where
  "older_eq ns vs \<longleftrightarrow>
     (let n = max (length ns) (length vs) in lex_cmp int_cmp (padded n ns) (padded n vs) \<le> 0)"

lemma version_of_ends:
  assumes "ns \<noteq> []"
  obtains c s where "version_of ns = c # s" "is_digit c" "is_digit (last (version_of ns))"
proof -
  have show_ends: "is_digit (hd (show_nat n)) \<and> is_digit (last (show_nat n))" for n
    using show_nat_digits[of n] by (simp add: list_all_iff hd_show_nat)
  have "version_of ns \<noteq> [] \<and> is_digit (hd (version_of ns)) \<and> is_digit (last (version_of ns))"
    using assms by (induction ns rule: induct_list012) (simp_all add: version_of_def show_ends)
  then show ?thesis using that by (cases "version_of ns") auto
qed

lemma version_of_not_in: "\<not> is_digit c \<Longrightarrow> c \<noteq> CHR ''.'' \<Longrightarrow> c \<notin> set (version_of ns)"
  by (induction ns rule: induct_list012)
    (auto simp: version_of_def dest: show_nat_digits[unfolded list_all_iff, rule_format])

lemma split_version_of: "ns \<noteq> [] \<Longrightarrow> split_char (CHR ''.'') (version_of ns) = map show_nat ns"
  by (simp add: version_of_def split_char_join show_nat_no_dot)

lemma good_part_show_nat: "int n \<le> max_int \<Longrightarrow> good_part (show_nat n)"
  by (simp add: good_part_def digit_run_def show_nat_digits digits_val_show_nat in_int_def min_int_def)

lemma cut_dash_version_of: "cut_dash (version_of ns) = (version_of ns, [])"
proof -
  have "CHR ''-'' \<notin> set (version_of ns)" by (rule version_of_not_in) simp_all
  then show ?thesis by (simp add: cut_dash_def iffD2[OF cut_char_None])
qed

lemma core_key_version_of: "core_key n (map show_nat ns) = padded n ns"
  by (simp add: core_key_def padded_def core_val_def digits_val_show_nat)

lemma compare_version_of:
  assumes "fits_int vs" "fits_int ns" "length vs \<le> n" "length ns \<le> n"
  shows "compare (version_of vs) (version_of ns) = lex_cmp int_cmp (padded n vs) (padded n ns)"
proof -
  have "list_all good_part (map show_nat ms)" if "fits_int ms" for ms
    using that by (simp add: fits_int_def list_all_iff good_part_show_nat)
  with assms have "compare_cores (map show_nat vs) (map show_nat ns)
      = lex_cmp int_cmp (padded n vs) (padded n ns)"
    by (simp add: compare_cores_key core_key_version_of)
  moreover have "vs \<noteq> []" "ns \<noteq> []" using assms by (simp_all add: fits_int_def)
  ultimately show ?thesis
    by (simp add: compare_def cut_dash_version_of split_version_of Let_def compare_suffix_lex)
qed

lemma compare_version_of_le:
  assumes "fits_int ns" "fits_int vs"
  shows "compare (version_of ns) (version_of vs) \<le> 0 \<longleftrightarrow> older_eq ns vs"
  using compare_version_of[OF assms, of "max (length ns) (length vs)"] by (simp add: older_eq_def Let_def)

lemma lex_zeros: "\<forall>x\<in>set xs. 0 \<le> x \<Longrightarrow> \<not> lex_cmp int_cmp xs (replicate (length xs) 0) < 0"
  by (induction xs) (auto simp: Let_def int_cmp_def)

lemma window_lists:
  "length xs = length ys \<Longrightarrow> at < length ys \<Longrightarrow> \<forall>x\<in>set xs. 0 \<le> x \<Longrightarrow> lex_cmp int_cmp ys xs \<le> 0 \<Longrightarrow>
   lex_cmp int_cmp xs (take at ys @ [ys ! at + 1] @ replicate (length ys - Suc at) 0) < 0
     \<longleftrightarrow> take (Suc at) xs = take (Suc at) ys"
proof (induction xs ys arbitrary: at rule: list_induct2')
  case (4 x xs y ys)
  show ?case
  proof (cases at)
    case 0
    with 4 lex_zeros[of xs] show ?thesis
      by (auto simp: Let_def int_cmp_def[of y x] int_cmp_def[of x "y + 1"] split: if_splits)
  next
    case (Suc k)
    with 4 show ?thesis
      by (auto simp: Let_def int_cmp_def[of y x] int_cmp_def[of x y] split: if_splits)
  qed
qed auto

lemma trim_space_version_of [simp]: "ns \<noteq> [] \<Longrightarrow> trim_space (version_of ns) = version_of ns"
  by (erule version_of_ends) (rule trim_space_plain, auto intro: is_digit_plain)

text \<open>The operators, each followed by a version of numbers.\<close>

lemma split_op_version:
  assumes "ns \<noteq> []" "opr \<in> set operators"
  shows "split_op (opr @ version_of ns) = (opr, version_of ns)"
proof -
  obtain c s where v: "version_of ns = c # s" "is_digit c" using assms(1) by (rule version_of_ends)
  then have c: "c \<noteq> CHR ''=''" by (auto simp: is_digit_def)
  from assms(2) have "opr \<in> {''>='', ''<='', ''>'', ''<'', ''='', ''^'', ''~''}"
    by (simp add: operators_def)
  then have "find (has_prefix (opr @ version_of ns)) operators = Some opr"
    by (elim insertE emptyE) (simp_all add: operators_def v(1) c)
  then show ?thesis using assms(1) by (simp add: split_op_def)
qed

lemma operators_plain: "opr \<in> set operators \<Longrightarrow> opr \<noteq> [] \<and> plain (hd opr) \<and> CHR '','' \<notin> set opr"
  by (auto simp: operators_def plain_def)

lemma parts_met_single:
  "trim_space p \<noteq> [] \<Longrightarrow> parts_met c v [p] = part_met c v (trim_space p)"
proof (cases "part_met c v (trim_space p)")
  case (Inr b)
  then show "trim_space p \<noteq> [] \<Longrightarrow> ?thesis" by (cases b) simp_all
qed simp

lemma satisfies_one:
  assumes "fits_int ns" "opr \<in> set operators"
  shows "satisfies v (opr @ version_of ns) = part_met (opr @ version_of ns) v (opr @ version_of ns)"
proof -
  have ns: "ns \<noteq> []" using assms(1) by (simp add: fits_int_def)
  obtain c s where v: "version_of ns = c # s" "is_digit (last (version_of ns))" using ns by (rule version_of_ends)
  note opr = operators_plain[OF assms(2)]
  have "CHR '','' \<notin> set (version_of ns)" by (rule version_of_not_in) (simp_all add: is_digit_def)
  with opr have "split_char (CHR '','') (opr @ version_of ns) = [opr @ version_of ns]"
    by (simp add: split_char_single)
  moreover have "trim_space (opr @ version_of ns) = opr @ version_of ns"
    using opr v by (intro trim_space_plain) (auto intro: is_digit_plain)
  ultimately show ?thesis
    using opr by (simp add: satisfies_def parts_met_single del: parts_met.simps)
qed

lemma part_met_version:
  assumes "ns \<noteq> []" "opr \<in> set operators"
  shows "part_met con v (opr @ version_of ns) =
    (if opr = ''^'' \<or> opr = ''~''
     then (case ceiling (version_of ns) opr of
             Inl e \<Rightarrow> Inl e
           | Inr below \<Rightarrow> Inr (\<not> (compare v (version_of ns) < 0 \<or> compare v below \<ge> 0)))
     else Inr (op_met opr (compare v (version_of ns))))"
proof -
  have "version_of ns \<noteq> []" "is_digit (hd (version_of ns))"
    using version_of_ends[OF assms(1)] by (metis list.distinct(1), metis list.sel(1))
  then show ?thesis
    unfolding part_met_def split_op_version[OF assms] by (simp add: Let_def)
qed

lemma op_met_simps [simp]:
  "op_met ''>='' n \<longleftrightarrow> 0 \<le> n" "op_met ''>'' n \<longleftrightarrow> 0 < n" "op_met ''<='' n \<longleftrightarrow> n \<le> 0"
  "op_met ''<'' n \<longleftrightarrow> n < 0" "op_met ''='' n \<longleftrightarrow> n = 0"
  by (simp_all add: op_met_def)

lemma satisfies_order_op:
  assumes "fits_int ns" "opr \<in> {''>='', ''<='', ''>'', ''<'', ''=''}"
  shows "satisfies v (opr @ version_of ns) = Inr (op_met opr (compare v (version_of ns)))"
proof -
  have o: "opr \<in> set operators" "opr \<noteq> ''^''" "opr \<noteq> ''~''" "ns \<noteq> []"
    using assms by (auto simp: operators_def fits_int_def)
  then show ?thesis using assms(1) by (simp add: satisfies_one part_met_version)
qed

subsection \<open>The ceiling\<close>

lemma first_index_bounds: "first_index P xs i = Some j \<Longrightarrow> i \<le> j \<and> j < i + length xs"
  by (induction xs arbitrary: i) (fastforce split: if_splits)+

lemma raise_at_less: "nums \<noteq> [] \<Longrightarrow> raise_at opr nums < length nums"
  using first_index_bounds[of _ nums 0]
  by (cases "length nums") (auto simp: raise_at_def split: option.split)

lemma map_res_atoi_version:
  "\<forall>n\<in>set ns. int n \<le> max_int \<Longrightarrow>
   map_res (\<lambda>field. case atoi field of None \<Rightarrow> Inl e | Some n \<Rightarrow> Inr n) (map show_nat ns) = Inr (map int ns)"
  by (induction ns) (auto simp: atoi_show_nat)

lemma itoa_int [simp]: "itoa (int n) = show_nat n"
  by (simp add: itoa_def)

definition ceiling_nats :: "string \<Rightarrow> nat list \<Rightarrow> nat list" where
  "ceiling_nats opr ns = (let at = raise_at opr (map int ns) in take at ns @ [Suc (ns ! at)])"

lemma ceiling_version_of:
  assumes "fits_int ns" "int (ns ! raise_at opr (map int ns)) < max_int"
  shows "ceiling (version_of ns) opr = Inr (version_of (ceiling_nats opr ns))"
proof -
  let ?at = "raise_at opr (map int ns)"
  have at: "?at < length ns" using raise_at_less[of "map int ns" opr] assms(1) by (simp add: fits_int_def)
  have "in_int (int (ns ! ?at) + 1)" using assms(2) by (simp add: in_int_def min_int_def)
  with at have "ceiling_nums opr (map int ns) = map int (ceiling_nats opr ns)"
    by (simp add: ceiling_nums_def ceiling_nats_def Let_def take_map)
  then show ?thesis
    using assms(1) unfolding ceiling_def
    by (simp add: fits_int_def split_version_of map_res_atoi_version) (simp add: version_of_def comp_def)
qed

lemma ceiling_nats_fits:
  assumes "fits_int ns" "int (ns ! raise_at opr (map int ns)) < max_int"
  shows "fits_int (ceiling_nats opr ns)" "length (ceiling_nats opr ns) \<le> length ns"
  using assms raise_at_less[of "map int ns" opr]
  by (auto simp: fits_int_def ceiling_nats_def Let_def dest: in_set_takeD)

lemma padded_ceiling:
  assumes "ns \<noteq> []" "length ns \<le> n"
  shows "padded n (ceiling_nats opr ns) =
     (let at = raise_at opr (map int ns)
      in take at (padded n ns) @ [padded n ns ! at + 1] @ replicate (n - Suc at) 0)"
proof -
  have "raise_at opr (map int ns) < length ns" using raise_at_less[of "map int ns" opr] assms(1) by simp
  with assms(2) show ?thesis
    by (intro nth_equalityI) (auto simp: padded_def ceiling_nats_def Let_def nth_append nth_Cons')
qed

lemma padded_nonneg: "\<forall>x\<in>set (padded n ns). 0 \<le> x"
  by (auto simp: padded_def)

lemma length_padded [simp]: "length (padded n ns) = n"
  by (simp add: padded_def)

text \<open>
  A caret or a tilde selects the versions that are not older than the constraint and agree with it
  up to the raised number.
\<close>

lemma window:
  assumes "fits_int vs" "fits_int ns" "opr \<in> {''^'', ''~''}"
    and "int (ns ! raise_at opr (map int ns)) < max_int"
    and n: "n = max (length vs) (length ns)"
  shows "satisfies (version_of vs) (opr @ version_of ns) =
    Inr (older_eq ns vs \<and>
         take (Suc (raise_at opr (map int ns))) (padded n vs)
           = take (Suc (raise_at opr (map int ns))) (padded n ns))"
proof -
  let ?at = "raise_at opr (map int ns)" and ?c = "ceiling_nats opr ns"
  have ns: "ns \<noteq> []" and o: "opr \<in> set operators" "opr = ''^'' \<or> opr = ''~''"
    using assms by (auto simp: fits_int_def operators_def)
  have at: "?at < n" using raise_at_less[of "map int ns" opr] ns n by (simp add: less_max_iff_disj)
  note c = ceiling_nats_fits[OF assms(2,4)]
  have vc: "compare (version_of vs) (version_of ?c) = lex_cmp int_cmp (padded n vs) (padded n ?c)"
    using assms(1) c n by (intro compare_version_of) auto
  have le: "compare (version_of vs) (version_of ns) < 0 \<longleftrightarrow> \<not> older_eq ns vs"
    using compare_version_of_le[OF assms(2,1)] compare_swap_any[of "version_of ns" "version_of vs"] by auto
  have c_key: "padded n ?c = take ?at (padded n ns) @ [padded n ns ! ?at + 1] @ replicate (n - Suc ?at) 0"
    using padded_ceiling[OF ns, of n opr] n by (simp add: Let_def)
  have "compare (version_of vs) (version_of ?c) < 0
      \<longleftrightarrow> take (Suc ?at) (padded n vs) = take (Suc ?at) (padded n ns)" if "older_eq ns vs"
  proof -
    have "lex_cmp int_cmp (padded n ns) (padded n vs) \<le> 0"
      using that n by (simp add: older_eq_def Let_def max.commute)
    with window_lists[of "padded n vs" "padded n ns" ?at] at padded_nonneg[of n vs]
    show ?thesis unfolding vc c_key by simp
  qed
  with le show ?thesis
    using o assms(2) by (auto simp: satisfies_one part_met_version[OF ns] ceiling_version_of[OF assms(2,4)])
qed

subsection \<open>Several parts\<close>

lemma part_met_text: "part_met c v p = Inr b \<longleftrightarrow> part_met c' v p = Inr b"
  by (auto simp: part_met_def Let_def split: prod.splits sum.splits if_splits)

lemma parts_met_True:
  "parts_met c v ps = Inr True \<longleftrightarrow>
     (\<forall>p\<in>set ps. trim_space p = [] \<or> part_met c v (trim_space p) = Inr True)"
  by (induction ps) (auto simp: Let_def split: sum.splits bool.splits)

lemma satisfies_True:
  "satisfies v c = Inr True \<longleftrightarrow>
     (\<forall>p\<in>set (split_char (CHR '','') c). trim_space p = [] \<or> part_met d v (trim_space p) = Inr True)"
  unfolding satisfies_def parts_met_True using part_met_text by blast

end
