(* ===== verification/Resolve_Laws.thy ===== *)
theory Resolve_Laws
  imports Resolve Version_Range
begin

text \<open>
  What \<open>Pick\<close> gives: the release that \<open>newest\<close> and \<open>pick_from\<close> choose, the order of a listing, the
  releases that the tags give, and how often a listing asks its host.
\<close>

subsection \<open>The choice of newest\<close>

definition eligible :: "resolver \<Rightarrow> version_spec \<Rightarrow> (release \<Rightarrow> (version_error, bool) res) \<Rightarrow> release \<Rightarrow> bool" where
  "eligible r v fit rel \<longleftrightarrow> fit rel = Inr True \<and> \<not> too_new r v rel"

text \<open>A release that fits and that \<open>MinAge\<close> passes over.\<close>

definition held_back :: "resolver \<Rightarrow> version_spec \<Rightarrow> (release \<Rightarrow> (version_error, bool) res) \<Rightarrow> release \<Rightarrow> bool" where
  "held_back r v fit rel \<longleftrightarrow> fit rel = Inr True \<and> too_new r v rel"

lemma newest_picked:
  assumes "newest r v rels fit none waiting soonest seen = (rel, w, None)"
  shows "\<exists>pre post. rels = pre @ rel # post \<and> eligible r v fit rel \<and>
           (\<forall>x\<in>set pre. is_ok (fit x) \<and> \<not> eligible r v fit x)"
  using assms
proof (induction rels arbitrary: waiting soonest seen)
  case Nil
  then show ?case by (auto split: if_splits)
next
  case (Cons x rels)
  show ?case
  proof (cases "fit x")
    case (Inl e)
    with Cons.prems show ?thesis by simp
  next
    case (Inr b)
    show ?thesis
    proof (cases "b \<and> \<not> too_new r v x")
      case True
      with Inr Cons.prems have "x = rel" by (simp add: Let_def)
      with True Inr show ?thesis
        by (intro exI[of _ "[]"] exI[of _ rels]) (auto simp: eligible_def)
    next
      case False
      with Inr Cons.prems obtain w' s' seen' where
        "newest r v rels fit none w' s' seen' = (rel, w, None)"
        by (cases b) (auto simp: Let_def)
      then obtain pre post where "rels = pre @ rel # post" "eligible r v fit rel"
        "\<forall>x\<in>set pre. is_ok (fit x) \<and> \<not> eligible r v fit x"
        using Cons.IH by blast
      with False Inr show ?thesis
        by (intro exI[of _ "x # pre"] exI[of _ post]) (auto simp: eligible_def)
    qed
  qed
qed

text \<open>The second result is the first release that fits and was held back.\<close>

lemma newest_waiting:
  assumes "newest r v rels fit none waiting soonest seen = (rel, w, None)"
    and "\<forall>x\<in>set rels. rel_version x \<noteq> []"
  shows "w = (if rel_version waiting \<noteq> [] then waiting
              else (case find (held_back r v fit) (takeWhile (\<lambda>x. x \<noteq> rel) rels) of
                      Some x \<Rightarrow> x | None \<Rightarrow> waiting))"
  using assms
proof (induction rels arbitrary: waiting soonest seen)
  case Nil
  then show ?case by (auto split: if_splits)
next
  case (Cons x rels)
  show ?case
  proof (cases "fit x")
    case (Inl e)
    with Cons.prems show ?thesis by simp
  next
    case (Inr b)
    show ?thesis
    proof (cases "b \<and> \<not> too_new r v x")
      case True
      with Inr Cons.prems show ?thesis by (auto simp: Let_def)
    next
      case False
      let ?w = "if b \<and> rel_version waiting = [] then x else waiting"
      from False Inr Cons.prems obtain s' seen' where
        n: "newest r v rels fit none ?w s' seen' = (rel, w, None)"
        by (cases b) (auto simp: Let_def split: if_splits)
      have x: "x \<noteq> rel"
        using newest_picked[OF n] False Inr by (auto simp: eligible_def)
      have "rel_version x \<noteq> []" using Cons.prems by simp
      with Cons.IH[OF n] Cons.prems(2) x Inr False show ?thesis
        by (auto simp: held_back_def split: if_splits)
    qed
  qed
qed

lemma newest_too_new:
  assumes "newest r v rels fit none waiting soonest seen = (a, w, Some (TooNew v' s))"
    and "\<forall>seen. none seen \<noteq> TooNew v' s" "\<forall>x\<in>set rels. rel_version x \<noteq> []"
  shows "(\<forall>x\<in>set rels. is_ok (fit x) \<and> \<not> eligible r v fit x) \<and>
    s = (case find (held_back r v fit) (rev rels) of Some x \<Rightarrow> x | None \<Rightarrow> soonest)"
  using assms
proof (induction rels arbitrary: waiting soonest seen)
  case Nil
  then show ?case by (auto split: if_splits)
next
  case (Cons x rels)
  show ?case
  proof (cases "fit x")
    case (Inl e)
    with Cons.prems show ?thesis by simp
  next
    case (Inr b)
    show ?thesis
    proof (cases "b \<and> \<not> too_new r v x")
      case True
      with Inr Cons.prems show ?thesis by (simp add: Let_def)
    next
      case False
      let ?s = "if b then x else soonest"
      from False Inr Cons.prems obtain w' seen' where
        n: "newest r v rels fit none w' ?s seen' = (a, w, Some (TooNew v' s))"
        by (cases b) (auto simp: Let_def)
      from Cons.IH[OF n Cons.prems(2)] Cons.prems(3) Inr False show ?thesis
        by (auto simp: eligible_def held_back_def find_append split: option.splits)
    qed
  qed
qed

lemma newest_finds:
  assumes "\<forall>x\<in>set rels. is_ok (fit x)" "x \<in> set rels" "eligible r v fit x"
  shows "\<exists>rel w. newest r v rels fit none waiting soonest seen = (rel, w, None)"
  using assms
proof (induction rels arbitrary: waiting soonest seen)
  case (Cons y rels)
  show ?case
  proof (cases "eligible r v fit y")
    case True
    then show ?thesis by (simp add: eligible_def Let_def)
  next
    case False
    then have x: "x \<in> set rels" using Cons.prems by auto
    obtain b where b: "fit y = Inr b" using Cons.prems by (auto simp: is_ok_iff)
    with False have "\<not> (b \<and> \<not> too_new r v y)" by (simp add: eligible_def)
    moreover have "\<exists>rel w. newest r v rels fit none wt st sn = (rel, w, None)" for wt st sn
      using Cons.IH x Cons.prems by auto
    ultimately show ?thesis using b by (cases b) (auto simp: Let_def)
  qed
qed simp

subsection \<open>The order of a listing\<close>

definition good_release :: "release \<Rightarrow> bool" where
  "good_release rel \<longleftrightarrow> good_version (rel_version rel)"

lemma release_cmp_swap: "release_cmp b a = - release_cmp a b"
  by (cases "prerelease (rel_version a)"; cases "prerelease (rel_version b)")
    (simp_all add: release_cmp_def compare_swap_any[of "rel_version a" "rel_version b"])

lemma release_cmp_trans:
  "good_release a \<Longrightarrow> good_release b \<Longrightarrow> good_release c \<Longrightarrow>
   release_cmp a b \<le> 0 \<Longrightarrow> release_cmp b c \<le> 0 \<Longrightarrow> release_cmp a c \<le> 0"
  using compare_good_trans[of "rel_version c" "rel_version b" "rel_version a"]
  by (cases "prerelease (rel_version a)"; cases "prerelease (rel_version b)";
      cases "prerelease (rel_version c)") (simp_all add: release_cmp_def good_release_def)

interpretation releases: go_order release_cmp good_release
  by unfold_locales (rule release_cmp_swap, rule release_cmp_trans)

text \<open>
  So in a sorted listing of good versions the release that \<open>newest\<close> chooses is a greatest one of
  those that fit and are old enough.
\<close>

lemma newest_of_sorted:
  assumes "newest r v (sort_func release_cmp rels) fit none waiting soonest seen = (rel, w, None)"
    and "\<forall>x\<in>set rels. good_release x" "x \<in> set rels" "eligible r v fit x"
  shows "release_cmp rel x \<le> 0"
proof -
  let ?s = "sort_func release_cmp rels"
  obtain pre post where s: "?s = pre @ rel # post"
    and el: "\<forall>y\<in>set pre. is_ok (fit y) \<and> \<not> eligible r v fit y"
    using newest_picked[OF assms(1)] by blast
  have "x \<in> set ?s" using assms(3) by simp
  with el assms(4) s consider "x = rel" | "x \<in> set post" by auto
  then show ?thesis
  proof cases
    case 1
    then show ?thesis using assms by (simp add: releases.cmp_refl)
  next
    case 2
    then show ?thesis
      using releases.sort_func_sorted[OF assms(2)] s by (auto simp: sorted_wrt_append)
  qed
qed

subsection \<open>Releases from tags\<close>

lemma first_index_nth: "first_index P xs i = Some j \<Longrightarrow> P (xs ! (j - i))"
proof (induction xs arbitrary: i)
  case (Cons x xs)
  show ?case
  proof (cases "P x")
    case False
    with Cons have "P (xs ! (j - Suc i))" "Suc i \<le> j"
      using first_index_bounds[of P xs "Suc i" j] by auto
    then show ?thesis by (simp add: nth_Cons')
  qed (use Cons in auto)
qed simp

lemma first_index_None: "first_index P xs i = None \<longleftrightarrow> (\<forall>x\<in>set xs. \<not> P x)"
  by (induction xs arbitrary: i) auto

lemma map_update_same: "i < length xs \<Longrightarrow> f y = f (xs ! i) \<Longrightarrow> map f (xs[i := y]) = map f xs"
  by (metis list_update_id map_update)

lemma update_versions:
  assumes "rel_version y = rel_version (acc ! i)"
  shows "rel_version ` set (acc[i := y]) = rel_version ` set acc"
proof (cases "i < length acc")
  case True
  with assms have "map rel_version (acc[i := y]) = map rel_version acc" by (intro map_update_same)
  then show ?thesis by (metis set_map)
qed (simp add: list_update_beyond)

lemma from_tags_distinct:
  "distinct (map rel_version acc) \<Longrightarrow>
   distinct (map rel_version (from_tags strip digests ptimes tags acc))"
proof (induction tags arbitrary: acc)
  case (Cons tag tags)
  show ?case
  proof (cases "tag_version strip tag")
    case None
    with Cons show ?thesis by simp
  next
    case (Some p)
    obtain version declared where p: "p = (version, declared)" by (cases p)
    show ?thesis
    proof (cases "first_index (\<lambda>rel. rel_version rel = version) acc 0")
      case None
      then have "version \<notin> rel_version ` set acc" by (auto simp: first_index_None)
      with Some None p Cons show ?thesis by simp
    next
      case (Some i)
      then have i: "i < length acc" "rel_version (acc ! i) = version"
        using first_index_bounds[OF Some] first_index_nth[OF Some] by auto
      with Some \<open>tag_version strip tag = Some p\<close> p Cons show ?thesis
        by (auto simp: map_update_same)
    qed
  qed
qed simp

lemma tag_version_starts: "tag_version strip tag = Some (version, d) \<Longrightarrow> version \<noteq> [] \<and> is_digit (hd version)"
  by (auto simp: tag_version_def Let_def split: if_splits)

text \<open>Each release of a listing comes from a tag that gives its version.\<close>

definition from_tag :: "string \<Rightarrow> string list \<Rightarrow> release \<Rightarrow> bool" where
  "from_tag strip tags rel \<longleftrightarrow>
     rel_tag rel \<in> set tags \<and> (\<exists>d. tag_version strip (rel_tag rel) = Some (rel_version rel, d))"

lemma from_tags_sound:
  "\<forall>x\<in>set acc. from_tag strip all x \<Longrightarrow> set tags \<subseteq> set all \<Longrightarrow>
   \<forall>x\<in>set (from_tags strip digests ptimes tags acc). from_tag strip all x"
proof (induction tags arbitrary: acc)
  case (Cons tag tags)
  show ?case
  proof (cases "tag_version strip tag")
    case None
    with Cons show ?thesis by simp
  next
    case (Some p)
    obtain version declared where p: "p = (version, declared)" by (cases p)
    show ?thesis
    proof (cases "first_index (\<lambda>rel. rel_version rel = version) acc 0")
      case None
      with Some p Cons.prems show ?thesis
        by (simp, intro Cons.IH) (auto simp: from_tag_def)
    next
      case ix: (Some i)
      then have "i < length acc" "rel_version (acc ! i) = version"
        using first_index_bounds[OF ix] first_index_nth[OF ix] by auto
      with Some p ix Cons.prems show ?thesis
        by (simp, intro conjI impI Cons.IH) (auto simp: from_tag_def dest!: set_update_subset_insert[THEN subsetD])
    qed
  qed
qed simp

lemma from_tags_keeps:
  "x \<in> rel_version ` set acc \<Longrightarrow> x \<in> rel_version ` set (from_tags strip digests ptimes tags acc)"
proof (induction tags arbitrary: acc)
  case (Cons tag tags)
  show ?case
    using Cons by (auto simp: update_versions split: option.splits prod.splits)
qed simp

lemma from_tags_complete:
  "tag \<in> set tags \<Longrightarrow> tag_version strip tag = Some (version, d) \<Longrightarrow>
   version \<in> rel_version ` set (from_tags strip digests ptimes tags acc)"
proof (induction tags arbitrary: acc)
  case (Cons t tags)
  show ?case
  proof (cases "t = tag")
    case True
    show ?thesis
    proof (cases "first_index (\<lambda>rel. rel_version rel = version) acc 0")
      case None
      with True Cons.prems show ?thesis by (simp add: from_tags_keeps)
    next
      case (Some i)
      then have i: "i < length acc" "rel_version (acc ! i) = version"
        using first_index_bounds[OF Some] first_index_nth[OF Some] by auto
      then have "version \<in> rel_version ` set acc" by force
      then show ?thesis using True Some Cons.prems by (simp add: from_tags_keeps update_versions)
    qed
  qed (use Cons in auto)
qed simp

subsection \<open>The memo of a listing\<close>

text \<open>A memo holds an answer that the host gave, and a complete one has no further pages.\<close>

definition memo_ok :: "(bool \<Rightarrow> (resolve_error, release list \<times> bool) res) \<Rightarrow> listing_memo \<Rightarrow> bool" where
  "memo_ok ask l \<longleftrightarrow>
     (lm_complete l \<longrightarrow> lm_read l \<and> (\<exists>rs. lm_answer l = Inr (rs, False))) \<and>
     (lm_read l \<longrightarrow> (\<exists>all. lm_answer l = ask all))"

lemma memo_ok_empty: "memo_ok ask empty_memo"
  by (simp add: memo_ok_def empty_memo_def)

lemma listing_memo_ok:
  assumes "memo_ok ask l" "listing ask l all = (l', a, asked)"
  shows "memo_ok ask l'"
proof (cases "lm_complete l \<or> lm_read l \<and> \<not> all")
  case True
  with assms show ?thesis by (simp add: listing_def)
next
  case False
  with assms(2) have "lm_read l'" "lm_answer l' = ask all"
    "lm_complete l' = (case ask all of Inl _ \<Rightarrow> False | Inr (_, further) \<Rightarrow> \<not> further)"
    by (auto simp: listing_def Let_def)
  moreover from this have "\<exists>a. lm_answer l' = ask a" by blast
  moreover from calculation have "lm_complete l' \<Longrightarrow> \<exists>rs. lm_answer l' = Inr (rs, False)"
    by (auto split: sum.splits prod.splits)
  ultimately show ?thesis unfolding memo_ok_def by blast
qed

end
