(* ===== verification/Version_Props.thy ===== *)
theory Version_Props
  imports Resolve_Laws
begin

text \<open>The properties of the version order, of constraints and of picking a release.\<close>

text \<open>
  C15. On versions whose parts are numbers that fit an \<open>int\<close> (with any suffix of such numbers and
  text), \<open>Compare\<close> is a total preorder: swapping the arguments negates the result, and "not newer
  than" is transitive. Sorting by it is then well defined.
\<close>

theorem compare_total_preorder:
  assumes "good_version a" "good_version b" "good_version c"
  shows "compare b a = - compare a b \<and> (compare a b \<le> 0 \<and> compare b c \<le> 0 \<longrightarrow> compare a c \<le> 0)"
  using assms versions.cmp_swap versions.cmp_trans by blast

lemma good_version_examples:
  "good_version ''1.9.0''" "good_version ''1.10.0''" "good_version ''1.10.0-rc.1''"
  by (code_simp)+

theorem compare_total_preorder_witness:
  "compare ''1.9.0'' ''1.10.0-rc.1'' \<le> 0 \<and> compare ''1.10.0-rc.1'' ''1.10.0'' \<le> 0
   \<and> compare ''1.9.0'' ''1.10.0'' \<le> 0 \<and> compare ''1.10.0'' ''1.9.0'' = 1"
proof -
  have v: "compare ''1.9.0'' ''1.10.0-rc.1'' = -1" "compare ''1.10.0-rc.1'' ''1.10.0'' = -1"
    "compare ''1.9.0'' ''1.10.0'' = -1" by code_simp+
  show ?thesis
    using v compare_total_preorder[OF good_version_examples(1,3,2)]
      compare_total_preorder[OF good_version_examples(1,2,3)] by simp
qed

text \<open>
  Beyond numbers \<open>Compare\<close> is not transitive: a letter release such as OpenSSL's 1.1.1a is newer
  than 1.1.1, which is newer than its prerelease 1.1.1pre9, and yet 1.1.1a is older than 1.1.1pre9,
  because two tails compare as texts.
\<close>

theorem compare_cycle:
  "compare ''1.1.1pre9'' ''1.1.1'' < 0 \<and> compare ''1.1.1'' ''1.1.1a'' < 0
   \<and> compare ''1.1.1a'' ''1.1.1pre9'' < 0"
  by code_simp



text \<open>
  A comma is a conjunction: a version satisfies a constraint of two halves exactly when it
  satisfies both.
\<close>

theorem comma_is_and:
  "satisfies v (a @ '','' @ b) = Inr True \<longleftrightarrow> satisfies v a = Inr True \<and> satisfies v b = Inr True"
proof -
  have "split_char (CHR '','') (a @ '','' @ b) = split_char (CHR '','') a @ split_char (CHR '','') b"
    by (simp add: split_char_sep)
  then show ?thesis
    unfolding satisfies_True[where d = "[]"] by (simp add: ball_Un)
qed

text \<open>
  When every version of a source is good, the listing of a forge's releases or of git tags has
  each version once, each under a tag that gives it, newest first, with every prerelease behind the
  releases, and it leaves out no version that a tag gives.
\<close>

theorem listing_sorted_distinct:
  assumes "list_versions src v all = Inr (rels, further)"
    and "v_tag v = []" "v_from v = ''git-tags''" "src_tags src (v_repo v) = Inr tags"
    and "\<forall>t\<in>set tags. \<forall>ver d. tag_version (v_strip_prefix v) t = Some (ver, d) \<longrightarrow> good_version ver"
  shows "distinct (map rel_version rels) \<and> sorted_wrt (\<lambda>x y. release_cmp x y \<le> 0) rels
    \<and> (\<forall>x\<in>set rels. from_tag (v_strip_prefix v) tags x)
    \<and> (\<forall>t\<in>set tags. \<forall>ver d. tag_version (v_strip_prefix v) t = Some (ver, d) \<longrightarrow> ver \<in> rel_version ` set rels)"
proof -
  let ?l = "from_tags (v_strip_prefix v) (\<lambda>_. Map.empty) (\<lambda>_. zero_time) tags []"
  have rels: "rels = sort_func release_cmp ?l"
    using assms(1-4) by (simp add: list_versions_def registry_froms_def single_froms_def forge_froms_def)
  have sound: "\<forall>x\<in>set ?l. from_tag (v_strip_prefix v) tags x"
    by (rule from_tags_sound) simp_all
  have good: "\<forall>x\<in>set ?l. good_release x"
    using sound assms(5) unfolding from_tag_def good_release_def by blast
  have "distinct (map rel_version rels)"
    using from_tags_distinct[of "[]"] rels
    by (metis distinct.simps(1) list.map(1) mset_eq_imp_distinct_iff mset_map mset_sort_func)
  moreover have "\<forall>x\<in>set rels. from_tag (v_strip_prefix v) tags x" using sound rels by simp
  ultimately show ?thesis
    using releases.sort_func_sorted[OF good] from_tags_complete rels by auto
qed

definition tag_source :: "string list \<Rightarrow> sources" where
  "tag_source tags = \<lparr>src_npm_latest = (\<lambda>_. Inl (Upstream [])), src_release = (\<lambda>_ _. Inl (Upstream [])),
     src_releases = (\<lambda>_ _. Inl (Upstream [])), src_tag_commit = (\<lambda>_ _. Inl (Upstream [])),
     src_tags = (\<lambda>_. Inr tags), src_registry = (\<lambda>_. Inl (Upstream [])),
     src_single = (\<lambda>_. Inl (Upstream [])), src_go_published = (\<lambda>_ _. PubNotFound)\<rparr>"

definition git_spec :: version_spec where
  "git_spec = \<lparr>v_value = [], v_from = ''git-tags'', v_repo = ''r'', v_strip_prefix = ''v'', v_tag = [],
     v_latest = False, v_branch = [], v_regex = [], v_join = [], v_json = []\<rparr>"

theorem listing_sorted_distinct_witness:
  "\<exists>rels further. list_versions (tag_source [''v1'', ''v3-rc1'', ''v2'']) git_spec False = Inr (rels, further)
     \<and> map rel_version rels = [''2'', ''1'', ''3-rc1''] \<and> distinct (map rel_version rels)"
proof -
  let ?src = "tag_source [''v1'', ''v3-rc1'', ''v2'']"
  have t: "tag_version ''v'' ''v1'' = Some (''1'', True)" "tag_version ''v'' ''v3-rc1'' = Some (''3-rc1'', True)"
    "tag_version ''v'' ''v2'' = Some (''2'', True)" by code_simp+
  have g: "good_version ''1''" "good_version ''3-rc1''" "good_version ''2''" by code_simp+
  have c: "compare ''1'' ''2'' = -1" "prerelease ''3-rc1''" "\<not> prerelease ''1''" "\<not> prerelease ''2''"
    by code_simp+
  obtain rels where l: "list_versions ?src git_spec False = Inr (rels, False)"
    and m: "map rel_version rels = [''2'', ''1'', ''3-rc1'']"
    using t c by (simp add: list_versions_def registry_froms_def single_froms_def forge_froms_def
        git_spec_def tag_source_def sort_func_def release_cmp_def)
  moreover have "distinct (map rel_version rels)"
    using listing_sorted_distinct[OF l, of "[''v1'', ''v3-rc1'', ''v2'']"] t g
    by (simp add: git_spec_def tag_source_def)
  ultimately show ?thesis by (intro exI[of _ rels] exI[of _ False]) simp
qed

end
