(* ===== verification/Toml.thy ===== *)
theory Toml
  imports Go_Order
begin

text \<open>
  Decoded TOML, as the TOML library gives it to the sources in values of type \<open>any\<close>, and how Go
  writes a string in quotes. A Go map has no order of its own: a table is the list of its entries in
  the order in which one \<open>range\<close> over it visits them, so a statement for every list covers every
  order. Floats and dates, which the sources only pass on, are kept as text.
\<close>

datatype toml =
    TStr string
  | TBool bool
  | TInt int
  | TOther string
  | TArr "toml list"
  | TTab "(string \<times> toml) list"

type_synonym table = "(string \<times> toml) list"

definition get_key :: "table \<Rightarrow> string \<Rightarrow> toml option" where
  "get_key t k = map_of t k"

text \<open>\<open>x, _ := v.(string)\<close>, which is empty for any other value, and the same for a bool.\<close>

definition as_string :: "toml option \<Rightarrow> string" where
  "as_string v = (case v of Some (TStr s) \<Rightarrow> s | _ \<Rightarrow> [])"

definition as_bool :: "toml option \<Rightarrow> bool" where
  "as_bool v = (case v of Some (TBool b) \<Rightarrow> b | _ \<Rightarrow> False)"

definition is_string :: "toml \<Rightarrow> bool" where
  "is_string v = (case v of TStr _ \<Rightarrow> True | _ \<Rightarrow> False)"

definition keys :: "table \<Rightarrow> string list" where
  "keys t = map fst t"

definition tables_ok :: "table \<Rightarrow> bool" where
  "tables_ok t \<longleftrightarrow> distinct (keys t)"

lemma map_of_perm: "distinct (map fst xs) \<Longrightarrow> mset xs = mset ys \<Longrightarrow> map_of xs = map_of ys"
  by (metis map_of_inject_set mset_eq_imp_distinct_iff mset_map set_mset_mset)

lemma get_key_perm: "tables_ok t \<Longrightarrow> mset t = mset t' \<Longrightarrow> get_key t = get_key t'"
  unfolding tables_ok_def keys_def get_key_def by (rule ext, metis map_of_perm)

text \<open>
  \<open>%q\<close> on text of printable characters: quotes and backslashes are escaped, and so are the control
  characters of ASCII. A byte of a longer UTF-8 sequence stands as it is.
\<close>

definition hex_digit :: "nat \<Rightarrow> char" where
  "hex_digit n = (if n < 10 then char_of (48 + n) else char_of (87 + n))"

definition quote_char :: "char \<Rightarrow> string" where
  "quote_char c =
     (if c = char_of (34 :: nat) then [char_of (92 :: nat), char_of (34 :: nat)]
      else if c = char_of (92 :: nat) then [char_of (92 :: nat), char_of (92 :: nat)]
      else (let n = byte c; esc = (\<lambda>d. [char_of (92 :: nat), d])
            in if n = 7 then esc (CHR ''a'') else if n = 8 then esc (CHR ''b'')
               else if n = 12 then esc (CHR ''f'') else if n = 10 then esc (CHR ''n'')
               else if n = 13 then esc (CHR ''r'') else if n = 9 then esc (CHR ''t'')
               else if n = 11 then esc (CHR ''v'')
               else if n < 32 \<or> n = 127
               then esc (CHR ''x'') @ [hex_digit (n div 16), hex_digit (n mod 16)]
               else [c]))"

definition quote :: "string \<Rightarrow> string" where
  "quote s = char_of (34 :: nat) # concat (map quote_char s) @ [char_of (34 :: nat)]"

end
