(* ===== verification/Platform.thy ===== *)
theory Platform
  imports Toml
begin

text \<open>
  Platforms and the selectors that match them, \<open>internal/platform/platform.go\<close>: a selector, the list
  of selectors of a \<open>when\<close>, how oku reads one from TOML, joins two of them and finds the shortest one
  for a set of platforms. \<open>detectLibc\<close> and \<open>hostName\<close> ask the machine, so the platform and the host
  name of the machine are arguments.
\<close>

subsection \<open>Platforms and selectors\<close>

record platform =
  p_os :: string
  p_arch :: string
  p_libc :: string

record selector =
  s_os :: string
  s_arch :: string
  s_libc :: string
  s_host :: string

definition empty_selector :: selector where
  "empty_selector = \<lparr>s_os = [], s_arch = [], s_libc = [], s_host = []\<rparr>"

type_synonym when_list = "selector list"

definition known_os :: "string list" where
  "known_os = [''aix'', ''android'', ''darwin'', ''dragonfly'', ''freebsd'', ''illumos'', ''ios'',
     ''js'', ''linux'', ''netbsd'', ''openbsd'', ''plan9'', ''solaris'', ''wasip1'', ''windows'']"

definition known_arch :: "string list" where
  "known_arch = [''386'', ''amd64'', ''arm'', ''arm64'', ''loong64'', ''mips'', ''mips64'',
     ''mips64le'', ''mipsle'', ''ppc64'', ''ppc64le'', ''riscv64'', ''s390x'', ''wasm'']"

definition known_libc :: "string list" where
  "known_libc = [''glibc'', ''musl'']"

definition likely :: "string \<rightharpoonup> string" where
  "likely = map_of [(''macos'', ''darwin''), (''mac'', ''darwin''), (''osx'', ''darwin''),
     (''win'', ''windows''), (''x86_64'', ''amd64''), (''x64'', ''amd64''), (''aarch64'', ''arm64''),
     (''gnu'', ''glibc'')]"

datatype platform_error =
    LikelyMeant string string string
  | MatchesNone string string "string list"
  | NotPlatform string
  | WhenEmptyArray
  | WhenNotTable
  | HostInManifest
  | UnknownSelectorKey string bool
  | SelectorNotString string

definition check_field :: "string \<Rightarrow> string \<Rightarrow> string list \<Rightarrow> platform_error option" where
  "check_field key value known =
     (if value = [] \<or> value \<in> set known then None
      else (case likely value of
              Some name \<Rightarrow> Some (LikelyMeant key value name)
            | None \<Rightarrow> Some (MatchesNone key value known)))"

definition check_selector :: "selector \<Rightarrow> platform_error option" where
  "check_selector s =
     (case check_field ''os'' (s_os s) known_os of
        Some e \<Rightarrow> Some e
      | None \<Rightarrow> (case check_field ''arch'' (s_arch s) known_arch of
                    Some e \<Rightarrow> Some e
                  | None \<Rightarrow> check_field ''libc'' (s_libc s) known_libc))"

definition platform_string :: "platform \<Rightarrow> string" where
  "platform_string p =
     p_os p @ ''-'' @ p_arch p @ (if p_libc p \<noteq> [] then ''-'' @ p_libc p else [])"

definition all_platforms :: "platform list" where
  "all_platforms =
     [\<lparr>p_os = ''darwin'', p_arch = ''amd64'', p_libc = []\<rparr>,
      \<lparr>p_os = ''darwin'', p_arch = ''arm64'', p_libc = []\<rparr>,
      \<lparr>p_os = ''linux'', p_arch = ''amd64'', p_libc = ''glibc''\<rparr>,
      \<lparr>p_os = ''linux'', p_arch = ''amd64'', p_libc = ''musl''\<rparr>,
      \<lparr>p_os = ''linux'', p_arch = ''arm64'', p_libc = ''glibc''\<rparr>,
      \<lparr>p_os = ''linux'', p_arch = ''arm64'', p_libc = ''musl''\<rparr>,
      \<lparr>p_os = ''windows'', p_arch = ''amd64'', p_libc = []\<rparr>,
      \<lparr>p_os = ''windows'', p_arch = ''arm64'', p_libc = []\<rparr>]"

definition parse_platform :: "string \<Rightarrow> (platform_error, platform) res" where
  "parse_platform s =
     (case find (\<lambda>p. platform_string p = s) all_platforms of
        Some p \<Rightarrow> Inr p | None \<Rightarrow> Inl (NotPlatform s))"

definition platform_selector :: "platform \<Rightarrow> selector" where
  "platform_selector p = \<lparr>s_os = p_os p, s_arch = p_arch p, s_libc = p_libc p, s_host = []\<rparr>"

definition selector_toml :: "selector \<Rightarrow> string" where
  "selector_toml s =
     ''{ '' @ join '', '' (map (\<lambda>(key, value). key @ '' = '' @ quote value)
       (filter (\<lambda>(key, value). value \<noteq> [])
         [(''os'', s_os s), (''arch'', s_arch s), (''libc'', s_libc s), (''host'', s_host s)])) @ '' }''"

definition sel_matches :: "selector \<Rightarrow> platform \<Rightarrow> bool" where
  "sel_matches s p \<longleftrightarrow>
     (s_os s = [] \<or> s_os s = p_os p) \<and> (s_arch s = [] \<or> s_arch s = p_arch p)
     \<and> (s_libc s = [] \<or> s_libc s = p_libc p)"

subsection \<open>Reading a when\<close>

definition set_field :: "string \<Rightarrow> string \<Rightarrow> selector \<Rightarrow> selector" where
  "set_field key value sel =
     (if key = ''os'' then sel\<lparr>s_os := value\<rparr>
      else if key = ''arch'' then sel\<lparr>s_arch := value\<rparr>
      else if key = ''libc'' then sel\<lparr>s_libc := value\<rparr>
      else sel\<lparr>s_host := value\<rparr>)"

fun parse_fields :: "bool \<Rightarrow> table \<Rightarrow> selector \<Rightarrow> (platform_error, selector) res" where
  "parse_fields hosts [] sel = Inr sel"
| "parse_fields hosts ((key, field) # rest) sel =
     (let known = key \<in> set [''os'', ''arch'', ''libc'', ''host'']
      in if key = ''host'' \<and> \<not> hosts then Inl HostInManifest
         else if \<not> known then Inl (UnknownSelectorKey key hosts)
         else (case field of
                 TStr value \<Rightarrow> parse_fields hosts rest (set_field key value sel)
               | _ \<Rightarrow> Inl (SelectorNotString key)))"

definition parse_selector :: "bool \<Rightarrow> toml \<Rightarrow> (platform_error, selector) res" where
  "parse_selector hosts t =
     (case t of
        TTab table \<Rightarrow>
          (case parse_fields hosts table empty_selector of
             Inl e \<Rightarrow> Inl e
           | Inr sel \<Rightarrow> (case check_selector sel of Some e \<Rightarrow> Inl e | None \<Rightarrow> Inr sel))
      | _ \<Rightarrow> Inl WhenNotTable)"

definition parse_when :: "bool \<Rightarrow> toml option \<Rightarrow> (platform_error, when_list) res" where
  "parse_when hosts value =
     (case value of
        None \<Rightarrow> Inr []
      | Some (TTab t) \<Rightarrow> map_res (parse_selector hosts) [TTab t]
      | Some (TArr ts) \<Rightarrow> (if ts = [] then Inl WhenEmptyArray else map_res (parse_selector hosts) ts)
      | Some _ \<Rightarrow> Inl WhenNotTable)"

definition parse_manifest_when :: "toml option \<Rightarrow> (platform_error, when_list) res" where
  "parse_manifest_when = parse_when False"

definition parse_list_when :: "toml option \<Rightarrow> (platform_error, when_list) res" where
  "parse_list_when = parse_when True"

subsection \<open>Matching\<close>

definition when_matches :: "when_list \<Rightarrow> platform \<Rightarrow> bool" where
  "when_matches w p \<longleftrightarrow> w = [] \<or> list_ex (\<lambda>s. sel_matches s p) w"

text \<open>\<open>Here\<close>, with the machine's platform and host name as arguments.\<close>

definition sel_here :: "selector \<Rightarrow> platform \<Rightarrow> string \<Rightarrow> bool" where
  "sel_here s p host \<longleftrightarrow> sel_matches s p \<and> (s_host s = [] \<or> equal_fold (s_host s) host)"

definition when_here :: "when_list \<Rightarrow> platform \<Rightarrow> string \<Rightarrow> bool" where
  "when_here w p host \<longleftrightarrow> w = [] \<or> list_ex (\<lambda>s. sel_here s p host) w"

definition host_name :: "string \<Rightarrow> string \<Rightarrow> string" where
  "host_name oku_host hostname =
     (if oku_host \<noteq> [] then oku_host
      else (case cut_char (CHR ''.'') hostname of None \<Rightarrow> hostname | Some (name, _) \<Rightarrow> name))"

subsection \<open>The conjunction of two whens\<close>

text \<open>\<open>both\<close> merges two fields, which agree when they are equal or one is empty.\<close>

definition both_fields :: "string \<Rightarrow> string \<Rightarrow> string \<times> bool" where
  "both_fields a b =
     (if a = [] \<or> equal_fold a b then (if a \<noteq> [] then a else b, True) else (a, b = []))"

definition merge_selectors :: "selector \<Rightarrow> selector \<Rightarrow> selector option" where
  "merge_selectors a b =
     (let (sys, okOS) = both_fields (s_os a) (s_os b);
          (arch, okArch) = both_fields (s_arch a) (s_arch b);
          (libc, okLibc) = both_fields (s_libc a) (s_libc b);
          (host, okHost) = both_fields (s_host a) (s_host b)
      in if okOS \<and> okArch \<and> okLibc \<and> okHost
         then Some \<lparr>s_os = sys, s_arch = arch, s_libc = libc, s_host = host\<rparr> else None)"

definition when_and :: "when_list \<Rightarrow> when_list \<Rightarrow> when_list \<times> bool" where
  "when_and w v =
     (if w = [] then (v, True)
      else if v = [] then (w, True)
      else (let conj = List.map_filter (\<lambda>(a, b). merge_selectors a b) (List.product w v)
            in (conj, conj \<noteq> [])))"

definition when_toml :: "when_list \<Rightarrow> string" where
  "when_toml w =
     (if length w = 1 then selector_toml (hd w)
      else ''['' @ join '', '' (map selector_toml w) @ '']'')"

definition platforms_of :: "when_list \<Rightarrow> platform list" where
  "platforms_of w = filter (when_matches w) all_platforms"

subsection \<open>The cover of a set of platforms\<close>

text \<open>Whether every platform that the selector matches is in the set.\<close>

definition inside :: "platform list \<Rightarrow> selector \<Rightarrow> bool" where
  "inside ps s \<longleftrightarrow> \<not> list_ex (\<lambda>p. sel_matches s p \<and> p \<notin> set ps) all_platforms"

definition candidates :: "platform \<Rightarrow> selector list" where
  "candidates p =
     [empty_selector\<lparr>s_os := p_os p\<rparr>,
      empty_selector\<lparr>s_os := p_os p, s_arch := p_arch p\<rparr>,
      empty_selector\<lparr>s_os := p_os p, s_libc := p_libc p\<rparr>,
      empty_selector\<lparr>s_os := p_os p, s_arch := p_arch p, s_libc := p_libc p\<rparr>]"

fun cover_loop :: "platform list \<Rightarrow> platform list \<Rightarrow> when_list \<Rightarrow> platform list \<Rightarrow> when_list" where
  "cover_loop ps [] w covered = w"
| "cover_loop ps (p # rest) w covered =
     (if p \<notin> set ps \<or> p \<in> set covered then cover_loop ps rest w covered
      else (case find (inside ps) (candidates p) of
              None \<Rightarrow> cover_loop ps rest w covered
            | Some s \<Rightarrow>
                cover_loop ps rest (w @ [s]) (filter (sel_matches s) all_platforms @ covered)))"

definition cover :: "platform list \<Rightarrow> when_list" where
  "cover ps = (if inside ps empty_selector then [] else cover_loop ps all_platforms [] [])"

end
