(* ===== verification/Platform_Props.thy ===== *)
theory Platform_Props
  imports Platform
begin

text \<open>The laws of selectors: reading, joining and covering.\<close>

subsection \<open>Checked selectors\<close>

definition checked :: "selector \<Rightarrow> bool" where
  "checked s \<longleftrightarrow>
     (s_os s = [] \<or> s_os s \<in> set known_os) \<and> (s_arch s = [] \<or> s_arch s \<in> set known_arch)
     \<and> (s_libc s = [] \<or> s_libc s \<in> set known_libc)"

lemma check_field_None: "check_field k v known = None \<longleftrightarrow> v = [] \<or> v \<in> set known"
  by (auto simp: check_field_def split: option.split)

lemma check_selector_None: "check_selector s = None \<longleftrightarrow> checked s"
proof -
  have "check_selector s = None \<longleftrightarrow> check_field ''os'' (s_os s) known_os = None
    \<and> check_field ''arch'' (s_arch s) known_arch = None \<and> check_field ''libc'' (s_libc s) known_libc = None"
    by (auto simp: check_selector_def split: option.split)
  then show ?thesis by (simp only: check_field_None checked_def)
qed

lemma known_lower: "list_all (\<lambda>v. to_lower v = v) (known_os @ known_arch @ known_libc)"
  by code_simp

lemma known_fold:
  assumes "equal_fold a b" "a = [] \<or> a \<in> set ks" "b = [] \<or> b \<in> set ks"
    and "set ks \<subseteq> set (known_os @ known_arch @ known_libc)"
  shows "a = b"
proof -
  have "to_lower v = v" if "v = [] \<or> v \<in> set ks" for v
    using that assms(4) known_lower unfolding list_all_iff by auto
  with assms show ?thesis unfolding equal_fold_def by metis
qed

text \<open>The merge of two fields: it exists when a value can have both, and then stands for both.\<close>

lemma both_fields_exact:
  assumes "equal_fold a b \<Longrightarrow> a = b"
  shows "fst (both_fields a a) = a"
    and "snd (both_fields a b) \<Longrightarrow>
      (fst (both_fields a b) = [] \<or> fst (both_fields a b) = x) \<longleftrightarrow> (a = [] \<or> a = x) \<and> (b = [] \<or> b = x)"
    and "\<not> snd (both_fields a b) \<Longrightarrow> \<not> ((a = [] \<or> a = x) \<and> (b = [] \<or> b = x))"
  using assms by (auto simp: both_fields_def split: if_splits)

lemma both_fields_fold:
  shows "snd (both_fields a b) \<Longrightarrow>
      (fst (both_fields a b) = [] \<or> equal_fold (fst (both_fields a b)) x)
      \<longleftrightarrow> (a = [] \<or> equal_fold a x) \<and> (b = [] \<or> equal_fold b x)"
    and "\<not> snd (both_fields a b) \<Longrightarrow> \<not> ((a = [] \<or> equal_fold a x) \<and> (b = [] \<or> equal_fold b x))"
  by (auto simp: both_fields_def equal_fold_def split: if_splits)

lemma checked_fields:
  assumes "checked a" "checked b"
  shows "equal_fold (s_os a) (s_os b) \<Longrightarrow> s_os a = s_os b"
    "equal_fold (s_arch a) (s_arch b) \<Longrightarrow> s_arch a = s_arch b"
    "equal_fold (s_libc a) (s_libc b) \<Longrightarrow> s_libc a = s_libc b"
  using assms known_fold[of _ _ known_os] known_fold[of _ _ known_arch] known_fold[of _ _ known_libc]
  unfolding checked_def by (metis Un_iff set_append subsetI)+

lemma merge_selectors_Some:
  assumes "checked a" "checked b" "merge_selectors a b = Some c"
  shows "sel_here c p h \<longleftrightarrow> sel_here a p h \<and> sel_here b p h"
proof -
  note f = checked_fields[OF assms(1,2)]
  have ok: "snd (both_fields (s_os a) (s_os b))" "snd (both_fields (s_arch a) (s_arch b))"
    "snd (both_fields (s_libc a) (s_libc b))" "snd (both_fields (s_host a) (s_host b))"
    and c: "c = \<lparr>s_os = fst (both_fields (s_os a) (s_os b)), s_arch = fst (both_fields (s_arch a) (s_arch b)),
      s_libc = fst (both_fields (s_libc a) (s_libc b)), s_host = fst (both_fields (s_host a) (s_host b))\<rparr>"
    using assms(3) by (auto simp: merge_selectors_def split: prod.splits if_splits)
  show ?thesis
    using both_fields_exact(2)[OF f(1) ok(1), of "p_os p"] both_fields_exact(2)[OF f(2) ok(2), of "p_arch p"]
      both_fields_exact(2)[OF f(3) ok(3), of "p_libc p"] both_fields_fold(1)[OF ok(4), of h]
    unfolding sel_here_def sel_matches_def c selector.select_convs by argo
qed

lemma merge_selectors_None:
  assumes "checked a" "checked b" "merge_selectors a b = None"
  shows "\<not> (sel_here a p h \<and> sel_here b p h)"
proof -
  note f = checked_fields[OF assms(1,2)]
  have "\<not> snd (both_fields (s_os a) (s_os b)) \<or> \<not> snd (both_fields (s_arch a) (s_arch b))
    \<or> \<not> snd (both_fields (s_libc a) (s_libc b)) \<or> \<not> snd (both_fields (s_host a) (s_host b))"
    using assms(3) by (auto simp: merge_selectors_def split: prod.splits if_splits)
  then show ?thesis
    using both_fields_exact(3)[OF f(1), of "p_os p"] both_fields_exact(3)[OF f(2), of "p_arch p"]
      both_fields_exact(3)[OF f(3), of "p_libc p"] both_fields_fold(2)[of "s_host a" "s_host b" h]
    unfolding sel_here_def sel_matches_def by blast
qed

lemma set_map_filter: "set (List.map_filter f xs) = {y. \<exists>x\<in>set xs. f x = Some y}"
  by (induction xs) (auto simp: map_filter_simps split: option.splits)

lemma when_and_some:
  assumes "\<forall>s\<in>set w. checked s" "\<forall>s\<in>set v. checked s" "w \<noteq> []" "v \<noteq> []"
  shows "list_ex (\<lambda>s. sel_here s p h) (fst (when_and w v)) \<longleftrightarrow>
    list_ex (\<lambda>s. sel_here s p h) w \<and> list_ex (\<lambda>s. sel_here s p h) v"
proof -
  have *: "(\<exists>c. merge_selectors a b = Some c \<and> sel_here c p h) \<longleftrightarrow> sel_here a p h \<and> sel_here b p h"
    if "a \<in> set w" "b \<in> set v" for a b
  proof (cases "merge_selectors a b")
    case None
    with that assms merge_selectors_None[of a b p h] show ?thesis by simp
  next
    case (Some c)
    with that assms merge_selectors_Some[of a b c p h] show ?thesis by simp
  qed
  have "list_ex (\<lambda>s. sel_here s p h) (fst (when_and w v)) \<longleftrightarrow>
      (\<exists>a\<in>set w. \<exists>b\<in>set v. \<exists>c. merge_selectors a b = Some c \<and> sel_here c p h)"
    using assms(3,4) by (auto simp: when_and_def Let_def list_ex_iff set_map_filter)
  then show ?thesis unfolding list_ex_iff using * by blast
qed

subsection \<open>Reading\<close>

lemma set_field_commute:
  "k \<in> set [''os'', ''arch'', ''libc'', ''host''] \<Longrightarrow> k' \<in> set [''os'', ''arch'', ''libc'', ''host''] \<Longrightarrow>
   k \<noteq> k' \<Longrightarrow> set_field k v (set_field k' v' s) = set_field k' v' (set_field k v s)"
  by (auto simp: set_field_def)

definition field_ok :: "bool \<Rightarrow> string \<times> toml \<Rightarrow> bool" where
  "field_ok hosts kv \<longleftrightarrow>
     fst kv \<in> set [''os'', ''arch'', ''libc'', ''host''] \<and> (fst kv = ''host'' \<longrightarrow> hosts) \<and> is_string (snd kv)"

definition add_field :: "string \<times> toml \<Rightarrow> selector \<Rightarrow> selector" where
  "add_field kv = set_field (fst kv) (as_string (Some (snd kv)))"

lemma parse_fields_Inr:
  "parse_fields hosts t sel = Inr s \<longleftrightarrow> list_all (field_ok hosts) t \<and> s = fold add_field t sel"
proof (induction t arbitrary: sel)
  case (Cons kv t)
  obtain k v where kv: "kv = (k, v)" by (cases kv)
  with Cons show ?case
    by (cases v) (auto simp: field_ok_def is_string_def add_field_def as_string_def)
qed auto

lemma parse_fields_perm:
  assumes "tables_ok t" "mset t = mset t'" "parse_fields hosts t sel = Inr s"
  shows "parse_fields hosts t' sel = Inr s"
proof -
  have ok: "list_all (field_ok hosts) t" and s: "s = fold add_field t sel"
    using assms(3) by (simp_all add: parse_fields_Inr)
  have "fold add_field t = fold add_field t'"
  proof (rule fold_multiset_equiv[OF _ assms(2)])
    fix x y assume xy: "x \<in> set t" "y \<in> set t"
    have "x = y \<or> fst x \<noteq> fst y"
      using xy assms(1) by (metis distinct_map inj_on_eq_iff keys_def tables_ok_def)
    with ok xy show "add_field x \<circ> add_field y = add_field y \<circ> add_field x"
      unfolding list_all_iff field_ok_def add_field_def comp_def
      by (intro ext) (metis set_field_commute)
  qed
  moreover have "list_all (field_ok hosts) t'"
    using ok assms(2) by (metis list_all_iff set_mset_mset)
  ultimately show ?thesis using s by (simp add: parse_fields_Inr)
qed

lemma parse_selector_checked: "parse_selector hosts t = Inr s \<Longrightarrow> checked s"
  by (auto simp: parse_selector_def check_selector_None[symmetric] split: toml.splits sum.splits option.splits)

lemma set_field_host: "k \<noteq> ''host'' \<Longrightarrow> k \<in> set [''os'', ''arch'', ''libc'', ''host''] \<Longrightarrow> s_host (set_field k v s) = s_host s"
  by (auto simp: set_field_def)

lemma fold_no_host: "list_all (field_ok False) t \<Longrightarrow> s_host (fold add_field t s) = s_host s"
  by (induction t arbitrary: s) (auto simp: field_ok_def add_field_def set_field_host)

lemma parse_selector_host: "parse_selector False t = Inr s \<Longrightarrow> s_host s = []"
  by (auto simp: parse_selector_def parse_fields_Inr fold_no_host empty_selector_def
      split: toml.splits sum.splits option.splits)

lemma parse_when_selectors:
  "parse_when hosts v = Inr w \<Longrightarrow> s \<in> set w \<Longrightarrow> \<exists>t. parse_selector hosts t = Inr s"
  by (auto simp: parse_when_def map_res_Inr list_all2_conv_all_nth in_set_conv_nth
      split: option.splits toml.splits if_splits sum.splits)

subsection \<open>Covering\<close>

lemma full_selector_exact:
  assumes "p \<in> set all_platforms" "q \<in> set all_platforms"
    "sel_matches (empty_selector\<lparr>s_os := p_os p, s_arch := p_arch p, s_libc := p_libc p\<rparr>) q"
  shows "q = p"
proof -
  have "list_all (\<lambda>p. list_all (\<lambda>q.
      sel_matches (empty_selector\<lparr>s_os := p_os p, s_arch := p_arch p, s_libc := p_libc p\<rparr>) q \<longrightarrow> q = p)
      all_platforms) all_platforms" by code_simp
  with assms show ?thesis unfolding list_all_iff by blast
qed

lemma candidates_match: "s \<in> set (candidates p) \<Longrightarrow> sel_matches s p"
  by (auto simp: candidates_def sel_matches_def empty_selector_def)

lemma inside_iff: "inside ps s \<longleftrightarrow> (\<forall>q\<in>set all_platforms. sel_matches s q \<longrightarrow> q \<in> set ps)"
  by (auto simp: inside_def list_ex_iff)

lemma candidate_found:
  assumes "p \<in> set all_platforms" "p \<in> set ps"
  shows "\<exists>s. find (inside ps) (candidates p) = Some s"
proof (rule ccontr)
  let ?s = "empty_selector\<lparr>s_os := p_os p, s_arch := p_arch p, s_libc := p_libc p\<rparr>"
  assume "\<nexists>s. find (inside ps) (candidates p) = Some s"
  then have "\<not> inside ps ?s"
    by (cases "find (inside ps) (candidates p)") (simp_all only: find_None_iff, auto simp: candidates_def)
  with assms full_selector_exact show False unfolding inside_iff by blast
qed

lemma cover_loop_sound:
  "set rest \<subseteq> set all_platforms \<Longrightarrow> \<forall>s\<in>set w. inside ps s \<Longrightarrow>
   \<forall>s\<in>set (cover_loop ps rest w covered). inside ps s"
proof (induction ps rest w covered rule: cover_loop.induct)
  case (2 ps p rest w covered)
  show ?case
  proof (cases "p \<notin> set ps \<or> p \<in> set covered")
    case True
    with 2(1)[OF True] "2.prems" show ?thesis by simp
  next
    case False
    show ?thesis
    proof (cases "find (inside ps) (candidates p)")
      case None
      with False 2(2)[OF False None] "2.prems" show ?thesis by simp
    next
      case (Some s)
      then have "inside ps s" by (auto simp: find_Some_iff)
      with False Some 2(3)[OF False Some] "2.prems" show ?thesis by simp
    qed
  qed
qed simp

lemma cover_loop_complete:
  "set rest \<subseteq> set all_platforms \<Longrightarrow> \<forall>c\<in>set covered. \<exists>s\<in>set w. sel_matches s c \<Longrightarrow>
   q \<in> set covered \<or> q \<in> set rest \<and> q \<in> set ps \<Longrightarrow>
   \<exists>s\<in>set (cover_loop ps rest w covered). sel_matches s q"
proof (induction ps rest w covered rule: cover_loop.induct)
  case (2 ps p rest w covered)
  show ?case
  proof (cases "p \<notin> set ps \<or> p \<in> set covered")
    case True
    with 2 show ?thesis by auto
  next
    case False
    with 2 obtain s where s: "find (inside ps) (candidates p) = Some s"
      using candidate_found[of p ps] by auto
    have p: "sel_matches s p" using s candidates_match by (auto simp: find_Some_iff)
    have "\<exists>t\<in>set (cover_loop ps rest (w @ [s]) (filter (sel_matches s) all_platforms @ covered)). sel_matches t q"
      using 2(3)[OF False s] "2.prems" p by auto
    with False s show ?thesis by simp
  qed
qed auto

lemma cover_matches:
  assumes "ps \<noteq> []" "set ps \<subseteq> set all_platforms" "p \<in> set all_platforms"
  shows "when_matches (cover ps) p \<longleftrightarrow> p \<in> set ps"
proof (cases "inside ps empty_selector")
  case True
  then have "p \<in> set ps" using assms(3) unfolding inside_iff by (simp add: sel_matches_def empty_selector_def)
  moreover have "cover ps = []" using True by (simp add: cover_def)
  ultimately show ?thesis by (simp add: when_matches_def)
next
  case False
  then have c: "cover ps = cover_loop ps all_platforms [] []" by (simp add: cover_def)
  have in_cover: "\<exists>s\<in>set (cover ps). sel_matches s q" if "q \<in> set ps" for q
    unfolding c using cover_loop_complete[of all_platforms "[]" "[]" q ps] that assms(2) by auto
  have "cover ps \<noteq> []" using in_cover[of "hd ps"] assms(1) by auto
  moreover have "p \<in> set ps" if "s \<in> set (cover ps)" "sel_matches s p" for s
    using cover_loop_sound[of all_platforms "[]" ps "[]"] that assms(3) unfolding c inside_iff by auto
  ultimately show ?thesis
    using in_cover by (auto simp: when_matches_def list_ex_iff)
qed

lemma distinct_all_platforms: "distinct (map platform_string all_platforms)"
  by code_simp

lemma parse_table_perm:
  assumes "tables_ok t" "mset t = mset t'" "parse_selector hosts (TTab t) = Inr s"
  shows "parse_selector hosts (TTab t') = Inr s"
proof -
  obtain sel where "parse_fields hosts t empty_selector = Inr sel"
    using assms(3) by (auto simp: parse_selector_def split: sum.splits)
  with parse_fields_perm[OF assms(1,2) this] assms(3) show ?thesis
    by (simp add: parse_selector_def)
qed

lemma parse_when_table: "parse_when hosts (Some (TTab t)) = Inr w \<longleftrightarrow> (\<exists>s. w = [s] \<and> parse_selector hosts (TTab t) = Inr s)"
  by (auto simp: parse_when_def split: sum.splits)

subsection \<open>Properties\<close>

text \<open> C31. The conjunction of two lists of checked selectors matches exactly the machines that both
  lists match, and \<open>And\<close> reports false exactly when no machine can match both.\<close>
theorem when_and_exact:
  assumes "\<forall>s\<in>set w. check_selector s = None" "\<forall>s\<in>set v. check_selector s = None"
  shows "snd (when_and w v) \<and> when_here (fst (when_and w v)) p host
    \<longleftrightarrow> when_here w p host \<and> when_here v p host"
proof (cases "w = [] \<or> v = []")
  case True
  then show ?thesis by (auto simp: when_and_def when_here_def)
next
  case False
  with when_and_some[of w v p host] assms show ?thesis
    unfolding check_selector_None by (auto simp: when_here_def when_and_def Let_def)
qed

theorem when_and_exact_witness:
  "snd (when_and [empty_selector\<lparr>s_os := ''linux''\<rparr>] [empty_selector\<lparr>s_arch := ''arm64''\<rparr>])
   \<and> when_here (fst (when_and [empty_selector\<lparr>s_os := ''linux''\<rparr>] [empty_selector\<lparr>s_arch := ''arm64''\<rparr>]))
       \<lparr>p_os = ''linux'', p_arch = ''arm64'', p_libc = ''musl''\<rparr> ''box''"
  by (subst when_and_exact) code_simp+

text \<open> C33. The cover of a nonempty set of platforms oku supports matches exactly the platforms of the set.\<close>
theorem cover_exact:
  assumes "ps \<noteq> []" "set ps \<subseteq> set all_platforms"
  shows "platforms_of (cover ps) = filter (\<lambda>p. p \<in> set ps) all_platforms"
  unfolding platforms_of_def using cover_matches[OF assms] by (rule filter_cong[OF refl])

theorem cover_exact_witness:
  "platforms_of (cover [all_platforms ! 2, all_platforms ! 4]) = [all_platforms ! 2, all_platforms ! 4]"
  by (subst cover_exact) code_simp+

text \<open> The names of the platforms are unambiguous: \<open>Parse\<close> reads a text as a platform exactly when
  the platform is one that oku supports and the text is its name.\<close>
theorem parse_platform_iff:
  "parse_platform s = Inr p \<longleftrightarrow> p \<in> set all_platforms \<and> platform_string p = s"
proof
  assume "parse_platform s = Inr p"
  then show "p \<in> set all_platforms \<and> platform_string p = s"
    by (auto simp: parse_platform_def find_Some_iff split: option.splits)
next
  assume p: "p \<in> set all_platforms \<and> platform_string p = s"
  then obtain q where q: "find (\<lambda>p. platform_string p = s) all_platforms = Some q"
    by (cases "find (\<lambda>p. platform_string p = s) all_platforms") (auto simp: find_None_iff)
  then have "q \<in> set all_platforms" "platform_string q = s" by (auto simp: find_Some_iff)
  with p distinct_all_platforms have "q = p" by (auto simp: distinct_map dest: inj_onD)
  with q show "parse_platform s = Inr p" by (simp add: parse_platform_def)
qed

text \<open> A selector read from a manifest is the same for every order in which the table of the TOML
  decoder is walked, names only values that oku knows, and never names a host.\<close>
theorem parse_manifest_when_order:
  assumes "tables_ok t" "mset t = mset t'" "parse_manifest_when (Some (TTab t)) = Inr w"
  shows "parse_manifest_when (Some (TTab t')) = Inr w
    \<and> list_all (\<lambda>s. check_selector s = None \<and> s_host s = []) w"
proof -
  obtain s where s: "w = [s]" "parse_selector False (TTab t) = Inr s"
    using assms(3) by (auto simp: parse_manifest_when_def parse_when_table)
  with parse_table_perm[OF assms(1,2)] show ?thesis
    by (simp add: parse_manifest_when_def parse_when_table check_selector_None parse_selector_checked
        parse_selector_host)
qed

theorem parse_manifest_when_order_witness:
  "parse_manifest_when (Some (TTab [(''arch'', TStr ''arm64''), (''os'', TStr ''linux'')]))
     = Inr [empty_selector\<lparr>s_os := ''linux'', s_arch := ''arm64''\<rparr>]"
  by (rule parse_manifest_when_order[of "[(''os'', TStr ''linux''), (''arch'', TStr ''arm64'')]",
        THEN conjunct1]) (simp_all add: tables_ok_def keys_def add_mset_commute, code_simp)

text \<open> \<open>Cover\<close> of no platform is the empty list of selectors, which matches every platform.\<close>
theorem cover_empty: "cover [] = [] \<and> platforms_of (cover []) = all_platforms"
  by code_simp

end
