(* ===== verification/Go_Netip.thy ===== *)
theory Go_Netip
  imports Go_Num "HOL-Library.Word"
begin

text \<open>
  The IP addresses of Go's \<open>net/netip\<close>, as far as oku uses them: an IPv4 address is a 32 bit word, an
  IPv6 address a 128 bit word with a zone. The reader \<open>parse_addr\<close> and the predicates on ranges follow
  the package.
\<close>

unbundle bit_operations_syntax

subsection \<open>Addresses and their ranges\<close>

datatype addr = V4 "32 word" | V6 "128 word" string

definition is_4in6 :: "128 word \<Rightarrow> bool" where
  "is_4in6 w \<longleftrightarrow> drop_bit 32 w = 0xffff"

fun unmap :: "addr \<Rightarrow> addr" where
  "unmap (V4 w) = V4 w"
| "unmap (V6 w zone) = (if is_4in6 w then V4 (ucast w) else V6 w zone)"

fun is_loopback :: "addr \<Rightarrow> bool" where
  "is_loopback (V4 w) \<longleftrightarrow> drop_bit 24 w = 127"
| "is_loopback (V6 w _) \<longleftrightarrow> w = 1"

fun is_private_range :: "addr \<Rightarrow> bool" where
  "is_private_range (V4 w) \<longleftrightarrow> drop_bit 24 w = 10 \<or> drop_bit 20 w = 0xac1 \<or> drop_bit 16 w = 0xc0a8"
| "is_private_range (V6 w _) \<longleftrightarrow> drop_bit 120 w AND 0xfe = 0xfc"

fun is_link_local_unicast :: "addr \<Rightarrow> bool" where
  "is_link_local_unicast (V4 w) \<longleftrightarrow> drop_bit 16 w = 0xa9fe"
| "is_link_local_unicast (V6 w _) \<longleftrightarrow> drop_bit 112 w AND 0xffc0 = 0xfe80"

fun is_link_local_multicast :: "addr \<Rightarrow> bool" where
  "is_link_local_multicast (V4 w) \<longleftrightarrow> drop_bit 8 w = 0xe00000"
| "is_link_local_multicast (V6 w _) \<longleftrightarrow> drop_bit 112 w AND 0xff0f = 0xff02"

fun is_interface_local_multicast :: "addr \<Rightarrow> bool" where
  "is_interface_local_multicast (V4 _) \<longleftrightarrow> False"
| "is_interface_local_multicast (V6 w _) \<longleftrightarrow> drop_bit 112 w AND 0xff0f = 0xff01"

fun is_multicast :: "addr \<Rightarrow> bool" where
  "is_multicast (V4 w) \<longleftrightarrow> drop_bit 24 w AND 0xf0 = 0xe0"
| "is_multicast (V6 w _) \<longleftrightarrow> drop_bit 120 w = 0xff"

fun is_unspecified :: "addr \<Rightarrow> bool" where
  "is_unspecified (V4 w) \<longleftrightarrow> w = 0"
| "is_unspecified (V6 w zone) \<longleftrightarrow> w = 0 \<and> zone = []"

text \<open>\<open>prefix_contains\<close> for an IPv4 prefix of \<open>n\<close> bits.\<close>

fun prefix4_contains :: "32 word \<Rightarrow> nat \<Rightarrow> addr \<Rightarrow> bool" where
  "prefix4_contains base n (V4 w) \<longleftrightarrow> drop_bit (32 - n) w = drop_bit (32 - n) base"
| "prefix4_contains base n (V6 _ _) \<longleftrightarrow> False"

subsection \<open>Reading an address\<close>

text \<open>A field of an IPv4 address: no sign, no leading zero, at most 255.\<close>

definition octet :: "string \<Rightarrow> int option" where
  "octet s =
     (if s = [] \<or> \<not> list_all is_digit s \<or> (length s > 1 \<and> hd s = CHR ''0'') \<or> length s > 3
         \<or> digits_val s > 255
      then None else Some (int (digits_val s)))"

definition parse_ipv4 :: "string \<Rightarrow> 32 word option" where
  "parse_ipv4 s =
     (case map octet (split_char (CHR ''.'') s) of
        [Some a, Some b, Some c, Some d] \<Rightarrow>
          Some (word_of_int (((a * 256 + b) * 256 + c) * 256 + d))
      | _ \<Rightarrow> None)"

definition hex_nibble :: "char \<Rightarrow> nat option" where
  "hex_nibble c =
     (if is_digit c then Some (byte c - 48)
      else if 97 \<le> byte c \<and> byte c \<le> 102 then Some (byte c - 87)
      else if 65 \<le> byte c \<and> byte c \<le> 70 then Some (byte c - 55) else None)"

definition hex_val :: "string \<Rightarrow> int" where
  "hex_val = foldl (\<lambda>acc c. acc * 16 + (case hex_nibble c of Some d \<Rightarrow> int d | None \<Rightarrow> 0)) 0"

text \<open>
  The loop of \<open>parseIPv6\<close> over the groups of hex digits: the groups read so far, where the ellipsis
  stands among them, and the text left. An embedded IPv4 address counts as two groups. At most eight
  groups are read, which is the fuel.
\<close>

fun v6_groups :: "nat \<Rightarrow> int list \<Rightarrow> nat option \<Rightarrow> string \<Rightarrow> (int list \<times> nat option) option" where
  "v6_groups 0 gs ell s = (if s = [] then Some (gs, ell) else None)"
| "v6_groups (Suc n) gs ell s =
     (let hex = takeWhile (\<lambda>c. hex_nibble c \<noteq> None) s; rest = drop (length hex) s
      in if hex = [] \<or> length hex > 4 then None
         else if rest \<noteq> [] \<and> hd rest = CHR ''.''
         then (if (ell = None \<and> length gs \<noteq> 6) \<or> length gs > 6 then None
               else (case parse_ipv4 s of
                       None \<Rightarrow> None
                     | Some w \<Rightarrow> Some (gs @ [uint w div 65536, uint w mod 65536], ell)))
         else (let gs' = gs @ [hex_val hex]
               in case rest of
                    [] \<Rightarrow> Some (gs', ell)
                  | [c] \<Rightarrow> None
                  | c # d # more' \<Rightarrow>
                      if c \<noteq> CHR '':'' then None
                      else if d = CHR '':''
                      then (if ell \<noteq> None then None
                            else if more' = [] then Some (gs', Some (length gs'))
                            else v6_groups n gs' (Some (length gs')) more')
                      else v6_groups n gs' ell (d # more')))"

definition v6_word :: "int list \<Rightarrow> nat option \<Rightarrow> 128 word option" where
  "v6_word gs ell =
     (let val = \<lambda>groups. word_of_int (foldl (\<lambda>acc g. acc * 65536 + g) 0 groups)
      in if length gs = 8 then (if ell = None then Some (val gs) else None)
         else (case ell of
                 None \<Rightarrow> None
               | Some e \<Rightarrow> Some (val (take e gs @ replicate (8 - length gs) 0 @ drop e gs))))"

definition parse_ipv6 :: "string \<Rightarrow> addr option" where
  "parse_ipv6 s0 =
     (let (s, zone, bad_zone) =
            (case cut_char (CHR ''%'') s0 of
               None \<Rightarrow> (s0, [], False) | Some (s, zone) \<Rightarrow> (s, zone, zone = []));
          (start, ell) = (if has_prefix s ''::'' then (drop 2 s, Some 0) else (s, None))
      in if bad_zone then None
         else if ell = Some 0 \<and> start = [] then Some (V6 0 zone)
         else (case v6_groups 8 [] ell start of
                 None \<Rightarrow> None
               | Some (gs, e) \<Rightarrow> map_option (\<lambda>w. V6 w zone) (v6_word gs e)))"

definition parse_addr :: "string \<Rightarrow> addr option" where
  "parse_addr s =
     (case find (\<lambda>c. c \<in> set ''.:%'') s of
        None \<Rightarrow> None
      | Some c \<Rightarrow> (if c = CHR ''.'' then map_option V4 (parse_ipv4 s)
                   else if c = CHR '':'' then parse_ipv6 s else None))"

lemma parse_addr_examples:
  "parse_addr ''127.0.0.1'' = Some (V4 0x7f000001)" "parse_addr ''::1'' = Some (V6 1 [])"
  "parse_addr ''::ffff:10.0.0.1'' = Some (V6 0xffff0a000001 [])"
  "parse_addr ''fe80::1%en0'' = Some (V6 0xfe800000000000000000000000000001 ''en0'')"
  "parse_addr ''1:2:3:4:5:6:7:8'' = Some (V6 0x00010002000300040005000600070008 [])"
  "parse_addr ''1:2:3:4:5:6:7::'' = Some (V6 0x00010002000300040005000600070000 [])"
  "parse_addr ''01.2.3.4'' = None" "parse_addr ''1:2'' = None" "parse_addr ''localhost'' = None"
  by code_simp+

end
