(* ===== verification/Netpolicy.thy ===== *)
theory Netpolicy
  imports Go_Netip
begin

text \<open>
  The network policy of \<open>internal/netpolicy/netpolicy.go\<close>: the hosts and the addresses that oku connects
  to. The URL parser of Go, the resolver and the HTTP transport are arguments: \<open>parse_url\<close> gives the
  scheme and the host name of a URL, \<open>lookup\<close> the addresses of a host, and a request carries the URLs
  that redirected to it.
\<close>

subsection \<open>Hosts\<close>

record policy =
  allow_private :: bool
  allow :: "string list"
  private_hosts :: "string list"

definition valid_pattern :: "string \<Rightarrow> bool" where
  "valid_pattern pattern =
     (let host = trim_prefix pattern ''*.''
      in if parse_addr host \<noteq> None \<and> host = pattern then True
         else \<not> (host = [] \<or> contains_any host ''/:*@ '' \<or> contains host ''..''))"

definition pattern_matches :: "string \<Rightarrow> string \<Rightarrow> bool" where
  "pattern_matches pattern host =
     (case cut_prefix (to_lower pattern) ''*.'' of
        Some suffix \<Rightarrow> has_suffix host (''.'' @ suffix)
      | None \<Rightarrow> host = to_lower pattern)"

definition matches :: "string list \<Rightarrow> string \<Rightarrow> bool" where
  "matches patterns host =
     (let h = to_lower (trim_suffix host ''.'') in list_ex (\<lambda>pattern. pattern_matches pattern h) patterns)"

definition allowed :: "policy \<Rightarrow> string \<Rightarrow> bool" where
  "allowed p host \<longleftrightarrow> allow p = [] \<or> matches (allow p) host"

definition private_ok :: "policy \<Rightarrow> string \<Rightarrow> bool" where
  "private_ok p host \<longleftrightarrow> allow_private p \<or> matches (private_hosts p) host"

definition is_local :: "string \<Rightarrow> bool" where
  "is_local host \<longleftrightarrow> equal_fold host ''localhost'' \<or>
     (case parse_addr host of None \<Rightarrow> False | Some addr \<Rightarrow> is_loopback (unmap addr))"

subsection \<open>Addresses\<close>

definition cgnat :: "addr \<Rightarrow> bool" where
  "cgnat = prefix4_contains 0x64400000 10"

definition private_addr :: "addr \<Rightarrow> bool" where
  "private_addr addr0 =
     (let addr = unmap addr0
      in is_loopback addr \<or> is_private_range addr \<or> is_link_local_unicast addr
         \<or> is_link_local_multicast addr \<or> is_interface_local_multicast addr
         \<or> is_multicast addr \<or> is_unspecified addr \<or> cgnat addr)"

subsection \<open>Refusals\<close>

record refused =
  r_host :: string
  r_addr :: "addr option"
  r_chain :: "string list"

datatype refusal = ThisMachine | PrivateAddress addr | NotAllowed

text \<open>The reason that \<open>Error\<close> gives, which it finds again from the fields.\<close>

definition refusal_why :: "refused \<Rightarrow> refusal" where
  "refusal_why r =
     (if is_local (r_host r) then ThisMachine
      else (case r_addr r of Some a \<Rightarrow> PrivateAddress a | None \<Rightarrow> NotAllowed))"

definition check_host :: "policy \<Rightarrow> string \<Rightarrow> refused option" where
  "check_host p host =
     (if is_local host \<or> allowed p host then None
      else Some \<lparr>r_host = host, r_addr = None, r_chain = []\<rparr>)"

definition check_addr :: "policy \<Rightarrow> string \<Rightarrow> addr \<Rightarrow> refused option" where
  "check_addr p host addr =
     (if \<not> private_addr addr \<or> private_ok p host \<or> equal_fold host ''localhost'' then None
      else (case parse_addr host of
              Some named \<Rightarrow>
                (if is_loopback (unmap named) then None
                 else Some \<lparr>r_host = host, r_addr = Some addr, r_chain = []\<rparr>)
            | None \<Rightarrow> Some \<lparr>r_host = host, r_addr = Some addr, r_chain = []\<rparr>))"

text \<open>The errors of a check: a refusal, an error of the resolver, or the index panic of \<open>found[0]\<close>.\<close>

datatype 'e net_error = Refusal refused | LookupError 'e | IndexPanic

definition refusal_of :: "refused option \<Rightarrow> 'e net_error option" where
  "refusal_of = map_option Refusal"

definition resolves :: "(string \<Rightarrow> ('e, addr list) res) \<Rightarrow> policy \<Rightarrow> string \<Rightarrow> 'e net_error option" where
  "resolves lookup p host =
     (case parse_addr host of
        Some addr \<Rightarrow> refusal_of (check_addr p host addr)
      | None \<Rightarrow>
          (case lookup host of
             Inl e \<Rightarrow> Some (LookupError e)
           | Inr found \<Rightarrow>
               (if list_ex (\<lambda>addr. check_addr p host addr = None) found then None
                else (case found of
                        [] \<Rightarrow> Some IndexPanic
                      | addr # _ \<Rightarrow> Some (Refusal \<lparr>r_host = host, r_addr = Some addr, r_chain = []\<rparr>)))))"

subsection \<open>URLs for git\<close>

definition git_host :: "(string \<Rightarrow> (string \<times> string) option) \<Rightarrow> string \<Rightarrow> string" where
  "git_host parse_url raw =
     (let scp = (case cut_char (CHR '':'') raw of
                   None \<Rightarrow> []
                 | Some (first, _) \<Rightarrow>
                     (if CHR ''/'' \<in> set first \<or> length first < 2 then []
                      else trim_of (case cut_char (CHR ''@'') first of
                                      None \<Rightarrow> first | Some (_, host) \<Rightarrow> host) ''[]''))
      in case parse_url raw of
           Some (scheme, hostname) \<Rightarrow>
             (if length scheme > 1 then (if scheme = ''file'' then [] else hostname) else scp)
         | None \<Rightarrow> scp)"

definition check_url ::
  "(string \<Rightarrow> (string \<times> string) option) \<Rightarrow> (string \<Rightarrow> ('e, addr list) res) \<Rightarrow> policy \<Rightarrow> string
     \<Rightarrow> 'e net_error option" where
  "check_url parse_url lookup p raw =
     (let host = git_host parse_url raw
      in if host = [] then None
         else (case check_host p host of
                 Some r \<Rightarrow> Some (Refusal r) | None \<Rightarrow> resolves lookup p host))"

subsection \<open>Requests and connections\<close>

text \<open>A request: its URL, and the URLs of the requests that redirected to it, the last one first.\<close>

record request =
  q_scheme :: string
  q_hostname :: string
  q_prev :: "string list"

fun redirect_chain :: "string list \<Rightarrow> string list \<Rightarrow> string list" where
  "redirect_chain [] chain = chain"
| "redirect_chain (u # us) chain = redirect_chain us (u # chain)"

text \<open>The checks of \<open>RoundTrip\<close>, before it hands the request to the transport.\<close>

definition guard_check :: "(string \<Rightarrow> (string \<times> string) option) \<Rightarrow> policy \<Rightarrow> request \<Rightarrow> refused option" where
  "guard_check parse_url p req =
     (if q_scheme req = ''file'' then None
      else (let host = q_hostname req; chain = redirect_chain (q_prev req) [];
                refused = \<lparr>r_host = host, r_addr = None, r_chain = chain\<rparr>
            in if \<not> is_local host \<and> \<not> allowed p host then Some refused
               else if is_local host \<and> chain \<noteq> [] \<and> \<not> allow_private p
               then (case parse_url (hd chain) of
                       Some (_, first) \<Rightarrow> (if \<not> is_local first then Some refused else None)
                     | None \<Rightarrow> None)
               else None))"

definition join_host_port :: "string \<Rightarrow> string \<Rightarrow> string" where
  "join_host_port host port =
     (if CHR '':'' \<in> set host then ''['' @ host @ '']:'' @ port else host @ '':'' @ port)"

record proxy =
  x_scheme :: string
  x_host :: string
  x_hostname :: string
  x_port :: string

definition proxy_address :: "proxy \<Rightarrow> string" where
  "proxy_address x =
     (if x_port x \<noteq> [] then x_host x
      else join_host_port (x_hostname x)
        (if x_scheme x = ''https'' then ''443''
         else if x_scheme x \<in> {''socks5'', ''socks5h''} then ''1080'' else ''80''))"

text \<open>\<open>net.SplitHostPort\<close>: the host of an address, the port after its last colon.\<close>

definition split_host_port :: "string \<Rightarrow> (string \<times> string) option" where
  "split_host_port s =
     (case cut_char (CHR '':'') (rev s) of
        None \<Rightarrow> None
      | Some (rport, rfirst) \<Rightarrow>
          (let first = rev rfirst; port = rev rport
           in if s \<noteq> [] \<and> hd s = CHR ''[''
              then (case cut_char (CHR '']'') s of
                      None \<Rightarrow> None
                    | Some (inner, after) \<Rightarrow>
                        (if first \<noteq> inner @ '']'' \<or> CHR ''['' \<in> set (tl inner) \<or> CHR ''['' \<in> set after
                            \<or> CHR '']'' \<in> set after
                         then None else Some (tl inner, port)))
              else if CHR '':'' \<in> set first \<or> CHR ''['' \<in> set s \<or> CHR '']'' \<in> set s then None
              else Some (first, port)))"

text \<open>
  What the dialer of \<open>Transport\<close> does with one address of the host, where \<open>key\<close> is the address of the
  proxy in the context. Nothing says the address cannot be split, which is an error of its own.
\<close>

datatype dial = Dialed | DialRefused refused | BadAddress

definition dial_addr :: "policy \<Rightarrow> string option \<Rightarrow> string \<Rightarrow> addr \<Rightarrow> dial" where
  "dial_addr p key address addr =
     (if key = Some address then Dialed
      else (case split_host_port address of
              None \<Rightarrow> BadAddress
            | Some (host, _) \<Rightarrow>
                (case check_addr p host addr of None \<Rightarrow> Dialed | Some r \<Rightarrow> DialRefused r)))"

end
