(* ===== verification/Netpolicy_Props.thy ===== *)
theory Netpolicy_Props
  imports Netpolicy
begin

text \<open>What the network policy lets oku reach.\<close>

lemma check_addr_None: "check_addr p host addr = None \<longleftrightarrow> \<not> private_addr addr \<or> private_ok p host \<or> is_local host"
  by (auto simp: check_addr_def is_local_def split: option.splits)

lemma check_host_None: "check_host p host = None \<longleftrightarrow> is_local host \<or> allowed p host"
  by (simp add: check_host_def)

lemma redirect_chain_rev: "redirect_chain us chain = rev us @ chain"
  by (induction us arbitrary: chain) auto

lemma cut_char_rev_last:
  "c \<notin> set port \<Longrightarrow> cut_char c (rev (host @ c # port)) = Some (rev port, rev host)"
  using cut_char_append[of c "rev port" "rev host"] by simp

lemma split_join_host_port:
  assumes "set host \<inter> set ''[]'' = {}" "set port \<inter> set '':[]'' = {}"
  shows "split_host_port (join_host_port host port) = Some (host, port)"
proof (cases "CHR '':'' \<in> set host")
  case True
  have "cut_char (CHR '':'') (rev (join_host_port host port)) = Some (rev port, rev (''['' @ host @ '']''))"
    using cut_char_rev_last[of "CHR '':''" port "''['' @ host @ '']''"] assms(2) True
    by (simp add: join_host_port_def)
  moreover have "cut_char (CHR '']'') (''['' @ host @ '']:'' @ port) = Some (''['' @ host, '':'' @ port)"
    using cut_char_append[of "CHR '']''" "''['' @ host" "'':'' @ port"] assms(1) by auto
  ultimately show ?thesis
    using assms True by (auto simp: split_host_port_def join_host_port_def)
next
  case False
  then have "cut_char (CHR '':'') (rev (join_host_port host port)) = Some (rev port, rev host)"
    using cut_char_rev_last[of "CHR '':''" port host] assms(2) by (simp add: join_host_port_def)
  moreover have "host @ CHR '':'' # port = [] \<or> hd (host @ CHR '':'' # port) \<noteq> CHR ''[''"
    using assms by (cases host) auto
  ultimately show ?thesis
    using assms False by (auto simp: split_host_port_def join_host_port_def)
qed

text \<open>The ranges of private IPv4 addresses, as the first and the last address of each.\<close>

definition private_ranges :: "(int \<times> int) list" where
  "private_ranges =
     [(0, 0), (0x0a000000, 0x0affffff), (0x64400000, 0x647fffff), (0x7f000000, 0x7fffffff),
      (0xa9fe0000, 0xa9feffff), (0xac100000, 0xac1fffff), (0xc0a80000, 0xc0a8ffff),
      (0xe0000000, 0xefffffff)]"

lemma uint_range: "0 \<le> uint (w :: 32 word)" "uint (w :: 32 word) < 2 ^ 32"
  using uint_lt2p[of w] by simp_all

lemma uint_drop_bit: "uint (drop_bit n (w :: 32 word)) = uint w div 2 ^ n"
proof -
  have "take_bit 32 (uint w) = uint w" by (simp add: take_bit_int_eq_self uint_range[simplified])
  then show ?thesis unfolding unsigned_drop_bit_eq by (simp add: drop_bit_eq_div)
qed

lemma drop_bit_eq_iff:
  fixes w :: "32 word"
  assumes "0 \<le> k" "k < 2 ^ 32"
  shows "drop_bit n w = word_of_int k \<longleftrightarrow> uint w div 2 ^ n = k"
proof -
  have "uint (word_of_int k :: 32 word) = k" using assms by (simp add: uint_word_of_int)
  then show ?thesis by (metis word_eq_iff_unsigned uint_drop_bit)
qed

lemma high_nibble: "0 \<le> x \<Longrightarrow> x < 256 \<Longrightarrow> x AND 240 = 224 \<longleftrightarrow> 224 \<le> x \<and> x \<le> (239::int)"
proof -
  have "list_all (\<lambda>x. (x AND 240 = 224) = (224 \<le> x \<and> x \<le> (239::int))) [0..255]" by code_simp
  then show "0 \<le> x \<Longrightarrow> x < 256 \<Longrightarrow> x AND 240 = 224 \<longleftrightarrow> 224 \<le> x \<and> x \<le> (239::int)"
    by (simp add: list_all_iff)
qed


lemma div_range: "0 < d \<Longrightarrow> (x :: int) div d = k \<longleftrightarrow> k * d \<le> x \<and> x < (k + 1) * d"
  by (smt (verit) div_mult_self_is_m mult.commute nonzero_mult_div_cancel_right pos_imp_zdiv_neg_iff
      zdiv_mono1 int_div_less_self div_pos_pos_trivial mult_less_cancel_right minus_mod_eq_mult_div
      pos_mod_bound pos_mod_sign mod_div_mult_eq)

lemma multicast_v4: "drop_bit 24 w AND 0xf0 = (0xe0 :: 32 word) \<longleftrightarrow> 0xe0000000 \<le> uint w \<and> uint w \<le> 0xefffffff"
proof -
  have "drop_bit 24 w AND 0xf0 = (0xe0 :: 32 word) \<longleftrightarrow> uint (drop_bit 24 w AND 0xf0) = uint (0xe0 :: 32 word)"
    by (simp only: word_eq_iff_unsigned)
  also have "\<dots> \<longleftrightarrow> (uint w div 2 ^ 24) AND 240 = 224"
    by (simp only: unsigned_and_eq uint_drop_bit) simp
  also have "\<dots> \<longleftrightarrow> 224 \<le> uint w div 2 ^ 24 \<and> uint w div 2 ^ 24 \<le> 239"
    by (rule high_nibble) (use uint_range[of w] in \<open>simp_all add: pos_imp_zdiv_nonneg_iff div_less_iff_less_mult\<close>)
  finally show ?thesis by auto
qed

lemma private_v4: "private_addr (V4 w) \<longleftrightarrow> list_ex (\<lambda>(lo, hi). lo \<le> uint w \<and> uint w \<le> hi) private_ranges"
proof -
  have eq: "drop_bit n w = numeral k \<longleftrightarrow> uint w div 2 ^ n = numeral k" if "(numeral k :: int) < 2 ^ 32" for n k
    using drop_bit_eq_iff[of "numeral k" n w] that by simp
  have base: "drop_bit (32 - 10) (0x64400000 :: 32 word) = 0x191" by code_simp
  have "w = 0 \<longleftrightarrow> uint w = 0" by (simp add: unsigned_eq_0_iff)
  then show ?thesis
    by (simp add: private_addr_def cgnat_def base eq multicast_v4 private_ranges_def div_range) arith
qed

lemma resolves_None:
  "resolves lookup p host = None \<longleftrightarrow>
   (\<exists>addr\<in>(case parse_addr host of
              Some addr \<Rightarrow> {addr}
            | None \<Rightarrow> (case lookup host of Inl _ \<Rightarrow> {} | Inr found \<Rightarrow> set found)).
      \<not> private_addr addr \<or> private_ok p host \<or> is_local host)"
proof (cases "parse_addr host")
  case None
  then show ?thesis
    by (cases "lookup host") (auto simp: resolves_def check_addr_None list_ex_iff split: list.splits)
next
  case (Some a)
  then show ?thesis by (simp add: resolves_def refusal_of_def check_addr_None)
qed

lemma mapped_4in6:
  "is_4in6 (0xffff00000000 + ucast (w :: 32 word))" "ucast (0xffff00000000 + ucast w :: 128 word) = w"
proof -
  let ?v = "0xffff00000000 + ucast w :: 128 word"
  have v: "uint ?v = 0xffff00000000 + uint w"
    using uint_range[of w] by (simp add: uint_word_ariths unsigned_ucast_eq take_bit_int_eq_self)
  have "uint (drop_bit 32 ?v) = uint ?v div 2 ^ 32"
  proof -
    have "take_bit 128 (uint ?v) = uint ?v" using v uint_range[of w] by (simp add: take_bit_int_eq_self)
    then show ?thesis unfolding unsigned_drop_bit_eq by (simp add: drop_bit_eq_div)
  qed
  also have "\<dots> = uint (0xffff :: 128 word)"
    using v uint_range[of w] by (simp add: div_range[of "2 ^ 32"] div_range[of 4294967296])
  finally show "is_4in6 ?v" unfolding is_4in6_def by (rule word_uint_eqI)
  show "ucast ?v = w"
  proof (rule word_uint_eqI)
    have "uint (ucast ?v :: 32 word) = (0xffff00000000 + uint w) mod 2 ^ 32"
      using v by (simp add: unsigned_ucast_eq take_bit_eq_mod)
    also have "\<dots> = (uint w + 0xffff * 2 ^ 32) mod 2 ^ 32" by (simp add: add.commute)
    also have "\<dots> = uint w mod 2 ^ 32" by (rule mod_mult_self1)
    also have "\<dots> = uint w" using uint_range[of w] by simp
    finally show "uint (ucast ?v :: 32 word) = uint w" .
  qed
qed

lemma lower_star: "has_prefix (to_lower pattern) ''*.'' = has_prefix pattern ''*.''"
  by (cases pattern; cases "tl pattern") (auto simp: lower_char_eq is_letter_def is_upper_def is_lower_def)

lemma to_lower_drop: "to_lower (drop n s) = drop n (to_lower s)"
  by (simp add: to_lower_def drop_map)

subsection \<open>Properties\<close>



text \<open> \<open>CheckURL\<close> lets git use a URL exactly when it is local, or its host is this machine or allowed
  and one address that it has may be connected to.\<close>
theorem check_url_iff:
  "check_url parse_url lookup p raw = None \<longleftrightarrow>
   (let host = git_host parse_url raw;
        addrs = (case parse_addr host of
                   Some addr \<Rightarrow> {addr}
                 | None \<Rightarrow> (case lookup host of Inl _ \<Rightarrow> {} | Inr found \<Rightarrow> set found))
    in host = [] \<or> (is_local host \<or> allowed p host)
         \<and> (\<exists>addr\<in>addrs. \<not> private_addr addr \<or> private_ok p host \<or> is_local host))"
proof (cases "git_host parse_url raw = []")
  case False
  then show ?thesis
    using check_host_None[of p "git_host parse_url raw"] resolves_None[of lookup p "git_host parse_url raw"]
    by (cases "check_host p (git_host parse_url raw)") (simp_all add: check_url_def Let_def)
qed (simp add: check_url_def)

theorem check_url_iff_witness:
  "check_url (\<lambda>_. Some (''https'', ''10.0.0.1'')) (\<lambda>_. Inl ()) \<lparr>allow_private = False, allow = [], private_hosts = []\<rparr>
     ''https://10.0.0.1/x'' \<noteq> None
   \<and> check_url (\<lambda>_. Some (''https'', ''10.0.0.1'')) (\<lambda>_. Inl ()) \<lparr>allow_private = True, allow = [], private_hosts = []\<rparr>
     ''https://10.0.0.1/x'' = None"
proof -
  have h: "git_host (\<lambda>_. Some (''https'', ''10.0.0.1'')) ''https://10.0.0.1/x'' = ''10.0.0.1''"
    "parse_addr ''10.0.0.1'' = Some (V4 0x0a000001)" "\<not> is_local ''10.0.0.1''" "private_addr (V4 0x0a000001)"
    by code_simp+
  have "private_ok \<lparr>allow_private = b, allow = [], private_hosts = []\<rparr> ''10.0.0.1'' = b"
    "allowed \<lparr>allow_private = b, allow = [], private_hosts = []\<rparr> ''10.0.0.1''" for b
    by (simp_all add: private_ok_def matches_def allowed_def)
  with h show ?thesis unfolding check_url_iff by simp
qed

text \<open> The private IPv4 addresses are exactly eight ranges, and an IPv4 address written inside an IPv6
  one is private exactly when it is itself.\<close>
theorem private_ranges_exact:
  "private_addr (V4 w) = list_ex (\<lambda>(lo, hi). lo \<le> uint w \<and> uint w \<le> hi) private_ranges
   \<and> private_addr (V6 (0xffff00000000 + ucast w) zone) = private_addr (V4 w)"
  using private_v4[of w] mapped_4in6[of w] by (simp add: private_addr_def)

text \<open> A host matches a list of patterns exactly when, in lower case and without its final dot, it is an
  entry or ends in a dot and the name after the \<open>*.\<close> of an entry; so \<open>*.\<close> never matches the
  name itself.\<close>
theorem matches_iff:
  "matches patterns host \<longleftrightarrow>
     (let h = to_lower (trim_suffix host ''.'')
      in \<exists>pattern\<in>set patterns.
           if has_prefix pattern ''*.'' then \<exists>sub. h = sub @ ''.'' @ to_lower (drop 2 pattern)
           else h = to_lower pattern)"
proof -
  have "pattern_matches pattern h \<longleftrightarrow>
      (if has_prefix pattern ''*.'' then \<exists>sub. h = sub @ ''.'' @ to_lower (drop 2 pattern)
       else h = to_lower pattern)" for pattern h
    using lower_star[of pattern]
    by (auto simp: pattern_matches_def cut_prefix_def has_suffix_iff to_lower_drop numeral_2_eq_2)
  then show ?thesis by (simp add: matches_def list_ex_iff Let_def)
qed

text \<open> An entry that ends in a dot is valid, but it never matches its host, with or without the dot.\<close>
theorem trailing_dot_never_matches:
  "valid_pattern ''example.com.'' \<and> \<not> matches [''example.com.''] ''example.com''
   \<and> \<not> matches [''example.com.''] ''example.com.''"
  by code_simp

text \<open> The broadcast address and the reserved range from 240.0.0.0 count as public.\<close>
theorem reserved_is_public:
  "0xf0000000 \<le> uint w \<Longrightarrow> \<not> private_addr (V4 w)"
  by (simp add: private_v4 private_ranges_def)

theorem reserved_is_public_witness: "\<not> private_addr (V4 0xffffffff)"
  by (rule reserved_is_public) simp

end
