(* ===== verification/Dotenv.thy ===== *)
theory Dotenv
  imports Go_Num
begin

text \<open>
  The reader of .env files, \<open>internal/list/dotenv.go\<close>, and the rule for names of environment variables of
  \<open>internal/manifest/manifest.go\<close>. The variables of the process are the argument \<open>lookup\<close>.
\<close>

subsection \<open>Names\<close>

definition is_name_byte :: "char \<Rightarrow> bool \<Rightarrow> bool" where
  "is_name_byte c first \<longleftrightarrow>
     c = CHR ''_'' \<or> is_upper c \<or> is_lower c \<or> (\<not> first \<and> is_digit c)"

text \<open>The expression \<open>^[A-Za-z_][A-Za-z0-9_]*$\<close>.\<close>

definition valid_env_name :: "string \<Rightarrow> bool" where
  "valid_env_name name \<longleftrightarrow>
     (case name of [] \<Rightarrow> False
      | c # cs \<Rightarrow> is_name_byte c True \<and> list_all (\<lambda>d. is_name_byte d False) cs)"

definition reserved_env :: "string \<Rightarrow> bool" where
  "reserved_env name \<longleftrightarrow>
     has_any_prefix (to_upper name) [''LD_'', ''DYLD_'', ''OKU_'']
     \<or> to_upper name \<in> set [''PATH'', ''HOME'', ''SHELL'', ''IFS'', ''ENV'', ''BASH_ENV'',
          ''PROMPT_COMMAND'', ''PS1'', ''USER'']"

subsection \<open>Characters\<close>

abbreviation newline :: char where "newline \<equiv> CHR 0x0A"
abbreviation tab :: char where "tab \<equiv> CHR 0x09"
abbreviation cr :: char where "cr \<equiv> CHR 0x0D"
abbreviation backslash :: char where "backslash \<equiv> CHR 0x5C"
abbreviation dquote :: char where "dquote \<equiv> CHR 0x22"
abbreviation squote :: char where "squote \<equiv> CHR 0x27"
abbreviation dollar :: char where "dollar \<equiv> CHR 0x24"

fun replace_crlf :: "string \<Rightarrow> string" where
  "replace_crlf (c # d # s) =
     (if c = cr \<and> d = newline then newline # replace_crlf s else c # replace_crlf (d # s))"
| "replace_crlf s = s"

text \<open>\<open>strings.Cut(input, "\n")\<close>, without its third result.\<close>

definition cut_line :: "string \<Rightarrow> string \<times> string" where
  "cut_line input = (case cut_char newline input of None \<Rightarrow> (input, []) | Some p \<Rightarrow> p)"

lemma cut_line_shorter: "input \<noteq> [] \<Longrightarrow> length (snd (cut_line input)) < length input"
  by (auto simp: cut_line_def split: option.splits dest!: cut_char_SomeD)

subsection \<open>Values\<close>

fun closing :: "char \<Rightarrow> string \<Rightarrow> nat option" where
  "closing q [] = None"
| "closing q (c # cs) =
     (if q = dquote \<and> c = backslash
      then (case cs of [] \<Rightarrow> None | _ # cs' \<Rightarrow> map_option (\<lambda>i. i + 2) (closing q cs'))
      else if c = q then Some 0 else map_option Suc (closing q cs))"

fun unescape :: "string \<Rightarrow> string" where
  "unescape [] = []"
| "unescape [c] = [c]"
| "unescape (c # d # s) =
     (if c \<noteq> backslash then c # unescape (d # s)
      else (if d = CHR ''n'' then [newline] else if d = CHR ''t'' then [tab]
            else if d = dollar then [backslash, dollar] else [d]) @ unescape s)"

text \<open>The longest name at the start of a text, empty when there is none.\<close>

definition name_prefix :: "string \<Rightarrow> string" where
  "name_prefix s =
     (case s of [] \<Rightarrow> []
      | c # cs \<Rightarrow> if is_name_byte c True then c # takeWhile (\<lambda>d. is_name_byte d False) cs else [])"

text \<open>The value of the text between \<open>${\<close> and its brace.\<close>

definition braced :: "(string \<Rightarrow> string option) \<Rightarrow> string \<Rightarrow> string" where
  "braced read inner =
     (let (name, fallback, has_default) =
            (case cut_str '':-'' inner of
               None \<Rightarrow> (inner, [], False) | Some (name, fallback) \<Rightarrow> (name, fallback, True));
          got = (case read name of None \<Rightarrow> [] | Some v \<Rightarrow> v)
      in if (read name = None \<or> got = []) \<and> has_default then fallback else got)"

function expand_dotenv :: "(string \<Rightarrow> string option) \<Rightarrow> string \<Rightarrow> string" where
  "expand_dotenv read s =
     (case s of [] \<Rightarrow> []
      | c # cs \<Rightarrow>
          if c = backslash \<and> cs \<noteq> [] \<and> hd cs = dollar then dollar # expand_dotenv read (tl cs)
          else if c \<noteq> dollar then c # expand_dotenv read cs
          else if cs \<noteq> [] \<and> hd cs = CHR ''{''
          then (case cut_char (CHR ''}'') s of
                  None \<Rightarrow> s
                | Some (inner, rest) \<Rightarrow> braced read (drop 2 inner) @ expand_dotenv read rest)
          else if name_prefix cs = [] then dollar # expand_dotenv read cs
          else (case read (name_prefix cs) of None \<Rightarrow> [] | Some v \<Rightarrow> v)
                 @ expand_dotenv read (drop (length (name_prefix cs)) cs))"
  by pat_completeness auto
termination
  by (relation "measure (\<lambda>(_, s). length s)")
    (auto dest!: cut_char_SomeD dest: arg_cong[where f = length] simp del: cut_char.simps split: if_splits)

declare expand_dotenv.simps [simp del]

subsection \<open>The file\<close>

record dotenv_var =
  v_name :: string
  v_value :: string

datatype dotenv_error =
    WantNameValue nat
  | NotVariableName nat string
  | QuoteOpen nat char
  | AfterQuote nat string

text \<open>A quoted value goes on over the next lines until its quote closes.\<close>

function gather :: "char \<Rightarrow> string \<Rightarrow> string \<Rightarrow> nat \<Rightarrow> string \<times> string \<times> nat" where
  "gather q body input line =
     (if closing q body = None \<and> input \<noteq> []
      then gather q (body @ newline # fst (cut_line input)) (snd (cut_line input)) (line + 1)
      else (body, input, line))"
  by pat_completeness auto
termination
  by (relation "measure (\<lambda>(_, _, input, _). length input)") (auto simp: cut_line_shorter)

declare gather.simps [simp del]

lemma gather_shorter: "gather q body input line = (b, t, l) \<Longrightarrow> length t \<le> length input"
proof (induction q body input line rule: gather.induct)
  case (1 q body input line)
  show ?case
  proof (cases "closing q body = None \<and> input \<noteq> []")
    case True
    with 1 cut_line_shorter[of input] show ?thesis by (simp add: gather.simps[of q body input])
  next
    case False
    with "1.prems" show ?thesis by (subst (asm) gather.simps) (simp split: if_splits)
  qed
qed

text \<open>
  The value of a line from its \<open>=\<close> on, with the text that is left: \<open>at\<close> is the line of the
  assignment and \<open>line\<close> the number of the next one.
\<close>

definition quoted_value ::
  "(string \<Rightarrow> string option) \<Rightarrow> char \<Rightarrow> string \<Rightarrow> nat \<Rightarrow> string \<Rightarrow> nat
     \<Rightarrow> (dotenv_error, string \<times> string \<times> nat) res" where
  "quoted_value read q body0 at input line =
     (let (body, input', line') = gather q body0 input line
      in case closing q body of
           None \<Rightarrow> Inl (QuoteOpen at q)
         | Some e \<Rightarrow>
             (let rest = trim_space (drop (e + 1) body)
              in if rest \<noteq> [] \<and> \<not> has_prefix rest ''#'' then Inl (AfterQuote at rest)
                 else Inr (if q = dquote then expand_dotenv read (unescape (take e body)) else take e body,
                           input', line')))"

definition bare_value :: "(string \<Rightarrow> string option) \<Rightarrow> string \<Rightarrow> string" where
  "bare_value read value =
     expand_dotenv read (trim_space (case cut_str '' #'' value of None \<Rightarrow> value | Some (v, _) \<Rightarrow> v))"

definition read_value ::
  "(string \<Rightarrow> string option) \<Rightarrow> string \<Rightarrow> nat \<Rightarrow> string \<Rightarrow> nat
     \<Rightarrow> (dotenv_error, string \<times> string \<times> nat) res" where
  "read_value read value at input line =
     (case trim_left_of value [CHR '' '', tab] of
        [] \<Rightarrow> Inr (bare_value read [], input, line)
      | c # body \<Rightarrow>
          if c = squote \<or> c = dquote then quoted_value read c body at input line
          else Inr (bare_value read (c # body), input, line))"

lemma read_value_shorter:
  "read_value read value at input line = Inr (v, input', line') \<Longrightarrow> length input' \<le> length input"
  by (auto simp: read_value_def quoted_value_def Let_def split: list.splits if_splits prod.splits option.splits
      dest: gather_shorter)

text \<open>The loop over the lines. \<open>own\<close> is the map of the variables read so far.\<close>

function dotenv_loop ::
  "(string \<Rightarrow> string option) \<Rightarrow> string \<Rightarrow> nat \<Rightarrow> (string \<rightharpoonup> string) \<Rightarrow> dotenv_var list
     \<Rightarrow> (dotenv_error, dotenv_var list) res" where
  "dotenv_loop lookup input0 line own vars =
     (if input0 = [] then Inr vars
      else (let (entry0, input) = cut_line input0; at = line; line1 = line + 1;
                entry = trim_space entry0
            in if entry = [] \<or> has_prefix entry ''#'' then dotenv_loop lookup input line1 own vars
               else (case cut_char (CHR ''='') (trim_prefix entry ''export '') of
                       None \<Rightarrow> Inl (WantNameValue at)
                     | Some (name0, value) \<Rightarrow>
                         (let name = trim_space name0
                          in if \<not> valid_env_name name then Inl (NotVariableName at name)
                             else (case read_value (\<lambda>n. case own n of Some v \<Rightarrow> Some v | None \<Rightarrow> lookup n)
                                          value at input line1 of
                                     Inl e \<Rightarrow> Inl e
                                   | Inr (v, input', line2) \<Rightarrow>
                                       dotenv_loop lookup input' line2 (own(name \<mapsto> v))
                                         (vars @ [\<lparr>v_name = name, v_value = v\<rparr>]))))))"
  by pat_completeness auto
termination
proof (relation "measure (\<lambda>(_, input, _, _, _). length input)", goal_cases)
  case 1
  then show ?case by simp
next
  case (2 lookup input0 line own vars p entry0 input)
  then have "input = snd (cut_line input0)" by (metis snd_conv)
  with 2(1) cut_line_shorter[of input0] show ?case by simp
next
  case (3 lookup input0 line own vars p entry0 input)
  then have "input = snd (cut_line input0)" by (metis snd_conv)
  with 3 cut_line_shorter[of input0] show ?case by (auto dest!: read_value_shorter)
qed

declare dotenv_loop.simps [simp del]

definition parse_dotenv :: "string \<Rightarrow> (string \<Rightarrow> string option) \<Rightarrow> (dotenv_error, dotenv_var list) res" where
  "parse_dotenv data lookup = dotenv_loop lookup (replace_crlf data) 1 (\<lambda>_. None) []"

end
