(* ===== verification/Dotenv_Props.thy ===== *)
theory Dotenv_Props
  imports Dotenv
begin

text \<open>The round trip of the .env reader, and where it differs from its description.\<close>

subsection \<open>Writing a variable\<close>

definition escape_char :: "char \<Rightarrow> string" where
  "escape_char c =
     (if c \<in> {dquote, backslash, dollar} then [backslash, c]
      else if c = newline then [backslash, CHR ''n''] else [c])"

definition escape :: "string \<Rightarrow> string" where
  "escape v = concat (map escape_char v)"

definition double_quoted :: "dotenv_var \<Rightarrow> string" where
  "double_quoted v = v_name v @ [CHR ''='', dquote] @ escape (v_value v) @ [dquote, newline]"

definition single_quoted :: "dotenv_var \<Rightarrow> string" where
  "single_quoted v = v_name v @ [CHR ''='', squote] @ v_value v @ [squote, newline]"

definition half_escaped :: "string \<Rightarrow> string" where
  "half_escaped v = concat (map (\<lambda>c. if c = dollar then [backslash, dollar] else [c]) v)"

lemma unescape_escape: "unescape (escape v) = half_escaped v"
proof (induction v)
  case (Cons c v)
  have plain_char: "unescape (c # escape v) = c # unescape (escape v)" if "c \<noteq> backslash"
    using that by (cases "escape v") auto
  show ?case
    using Cons plain_char by (auto simp: escape_def half_escaped_def escape_char_def)
qed (simp add: escape_def half_escaped_def)

lemma expand_half_escaped: "expand_dotenv read (half_escaped v) = v"
proof (induction v)
  case (Cons c v)
  have "half_escaped v = [] \<or> hd (half_escaped v) \<noteq> dollar"
    by (cases v) (auto simp: half_escaped_def)
  with Cons show ?case
    by (auto simp: half_escaped_def expand_dotenv.simps[of read "_ # _"])
qed (simp add: half_escaped_def expand_dotenv.simps)

lemma closing_escape: "closing dquote (escape v @ dquote # s) = Some (length (escape v))"
  by (induction v) (auto simp: escape_def escape_char_def)

lemma closing_plain: "q \<noteq> dquote \<Longrightarrow> q \<notin> set v \<Longrightarrow> closing q (v @ q # s) = Some (length v)"
  by (induction v) auto

lemma closing_none: "q \<noteq> dquote \<Longrightarrow> q \<notin> set v \<Longrightarrow> closing q v = None"
  by (induction v) auto

subsection \<open>Reading a line\<close>

lemma valid_name_chars:
  assumes "valid_env_name n"
  shows "n \<noteq> []" "\<forall>c\<in>set n. is_name_byte c False"
  using assms by (auto simp: valid_env_name_def is_name_byte_def list_all_iff split: list.splits)

lemma name_byte_plain: "is_name_byte c b \<Longrightarrow> plain c \<and> c \<notin> {CHR ''='', CHR '' '', CHR ''#'', newline, cr}"
  by (auto simp: is_name_byte_def plain_def is_upper_def is_lower_def is_digit_def)

lemma valid_name_plain:
  assumes "valid_env_name n"
  shows "n \<noteq> []" "\<forall>c\<in>set n. plain c \<and> c \<notin> {CHR ''='', CHR '' '', CHR ''#'', newline, cr}"
    "plain (hd n)" "plain (last n)"
proof -
  show n: "n \<noteq> []" by (rule valid_name_chars(1)[OF assms])
  show c: "\<forall>c\<in>set n. plain c \<and> c \<notin> {CHR ''='', CHR '' '', CHR ''#'', newline, cr}"
    using valid_name_chars(2)[OF assms] name_byte_plain by blast
  show "plain (hd n)" "plain (last n)" using n c by simp_all
qed

lemma valid_name_trim: "valid_env_name n \<Longrightarrow> trim_space n = n"
  by (intro trim_space_plain) (simp_all add: valid_name_plain)

lemma no_export: "valid_env_name n \<Longrightarrow> trim_prefix (n @ CHR ''='' # r) ''export '' = n @ CHR ''='' # r"
proof -
  assume n: "valid_env_name n"
  have "\<not> has_prefix (n @ CHR ''='' # r) ''export ''"
  proof
    assume "has_prefix (n @ CHR ''='' # r) ''export ''"
    then obtain t where t: "n @ CHR ''='' # r = ''export '' @ t" by (auto simp: has_prefix_iff)
    have "CHR '' '' \<notin> set n" using valid_name_plain(2)[OF n] by blast
    with t show False by (auto simp: append_eq_append_conv2 append_eq_Cons_conv Cons_eq_append_conv)
  qed
  then show ?thesis by (simp add: trim_prefix_def)
qed

lemma replace_crlf_line:
  "newline \<notin> set w \<Longrightarrow> w = [] \<or> last w \<noteq> cr \<Longrightarrow>
   replace_crlf (w @ newline # s) = w @ newline # replace_crlf s"
proof (induction w)
  case Nil
  then show ?case by (cases s) auto
next
  case (Cons c w)
  then show ?case by (cases w) (auto split: if_splits)
qed

lemma loop_line:
  assumes "valid_env_name n" "newline \<notin> set w" "w \<noteq> []" "plain (last w)"
  shows "dotenv_loop lookup (n @ CHR ''='' # w @ newline # s) line own vars =
    (case read_value (\<lambda>n. case own n of Some v \<Rightarrow> Some v | None \<Rightarrow> lookup n) w line s (line + 1) of
       Inl e \<Rightarrow> Inl e
     | Inr (v, input', line2) \<Rightarrow>
         dotenv_loop lookup input' line2 (own(n \<mapsto> v)) (vars @ [\<lparr>v_name = n, v_value = v\<rparr>]))"
proof -
  let ?e = "n @ CHR ''='' # w"
  note n = valid_name_plain[OF assms(1)]
  have "newline \<notin> set ?e" using n(2) assms(2) by auto
  then have cut: "cut_line (?e @ newline # s) = (?e, s)"
    unfolding cut_line_def by (simp only: cut_char_append option.case not_False_eq_True)
  have trim: "trim_space ?e = ?e"
    using n assms(3,4) by (intro trim_space_plain) auto
  have hash: "\<not> has_prefix ?e ''#''" "?e \<noteq> []" using n(1,2) by (cases n; auto)+
  have eq: "cut_char (CHR ''='') ?e = Some (n, w)"
    using n(2) by (intro cut_char_append) auto
  have all: "(n @ CHR ''='' # w @ newline # s = []) = False" "?e @ newline # s = n @ CHR ''='' # w @ newline # s"
    by simp_all
  show ?thesis
    by (subst dotenv_loop.simps)
      (simp only: all(1) if_False cut[unfolded all(2)] Let_def prod.case trim hash simp_thms no_export[OF assms(1)] eq
        option.case valid_name_trim[OF assms(1)] assms(1))
qed

lemma read_double_quoted:
  "read_value read (dquote # escape v @ [dquote]) at s line = Inr (v, s, line)"
  using closing_escape[of v "[]"]
  by (simp add: read_value_def trim_left_of_def quoted_value_def gather.simps unescape_escape
      expand_half_escaped)

lemma escape_no_newline: "newline \<notin> set (escape v)"
  by (auto simp: escape_def escape_char_def)

lemma loop_double_quoted:
  "list_all (\<lambda>v. valid_env_name (v_name v)) vs \<Longrightarrow>
   dotenv_loop lookup (concat (map double_quoted vs)) line own vars = Inr (vars @ vs)"
proof (induction vs arbitrary: line own vars)
  case (Cons v vs)
  let ?w = "dquote # escape (v_value v) @ [dquote]"
  have "dotenv_loop lookup (v_name v @ CHR ''='' # ?w @ newline # concat (map double_quoted vs)) line own vars
      = Inr (vars @ v # vs)"
    using Cons escape_no_newline
    by (subst loop_line) (auto simp: plain_def read_double_quoted[simplified])
  then show ?case by (simp add: double_quoted_def[of v])
qed (simp add: dotenv_loop.simps)

lemma crlf_double_quoted:
  "list_all (\<lambda>v. valid_env_name (v_name v)) vs \<Longrightarrow>
   replace_crlf (concat (map double_quoted vs)) = concat (map double_quoted vs)"
proof (induction vs)
  case (Cons v vs)
  let ?w = "v_name v @ [CHR ''='', dquote] @ escape (v_value v) @ [dquote]"
  have "\<forall>c\<in>set (v_name v). c \<noteq> newline"
    using valid_name_chars(2)[of "v_name v"] name_byte_plain Cons.prems by auto
  then have "replace_crlf (?w @ newline # concat (map double_quoted vs)) =
      ?w @ newline # replace_crlf (concat (map double_quoted vs))"
    using escape_no_newline by (intro replace_crlf_line) auto
  with Cons show ?case by (simp add: double_quoted_def[of v])
qed simp


subsection \<open>Single quotes\<close>

lemma gather_to:
  "q \<noteq> dquote \<Longrightarrow> q \<notin> set body \<Longrightarrow> q \<notin> set w \<Longrightarrow>
   \<exists>line'. gather q body (w @ q # newline # s) line = (body @ newline # w @ [q], s, line')"
  if "q \<noteq> newline" for q
proof (induction "length w" arbitrary: w body line rule: less_induct)
  case less
  have none: "closing q body = None" using less.prems by (simp add: closing_none)
  show ?case
  proof (cases "newline \<in> set w")
    case False
    then have "cut_char newline ((w @ [q]) @ newline # s) = Some (w @ [q], s)"
      using that by (intro cut_char_append) auto
    then have "cut_line (w @ q # newline # s) = (w @ [q], s)" by (simp add: cut_line_def)
    moreover have "closing q (body @ newline # w @ [q]) \<noteq> None"
      using closing_plain[of q "body @ newline # w" "[]"] that less.prems by simp
    ultimately show ?thesis using none
      by (auto simp add: gather.simps[of q body] gather.simps[of q "body @ newline # w @ [q]"])
  next
    case True
    then obtain a b where w: "w = a @ newline # b" "newline \<notin> set a" by (metis split_list_first)
    then have "cut_line (w @ q # newline # s) = (a, b @ q # newline # s)"
      using cut_char_append[of newline a "b @ q # newline # s"] by (simp add: cut_line_def)
    moreover obtain line' where
      "gather q (body @ newline # a) (b @ q # newline # s) (line + 1)
        = ((body @ newline # a) @ newline # b @ [q], s, line')"
      using less.hyps[of b "body @ newline # a" "line + 1"] less.prems that w by auto
    ultimately show ?thesis using none w by (simp add: gather.simps[of q body])
  qed
qed

definition literal :: "dotenv_var \<Rightarrow> bool" where
  "literal v \<longleftrightarrow>
     valid_env_name (v_name v) \<and> squote \<notin> set (v_value v) \<and> cr \<notin> set (v_value v)
     \<and> (let a = fst (cut_line (v_value v)) in a = [] \<or> plain (last a) \<or> newline \<notin> set (v_value v))"

lemma quoted_closed:
  assumes "gather squote body0 input line = (v @ [squote], s, line')" "squote \<notin> set v"
  shows "quoted_value read squote body0 at input line = Inr (v, s, line')"
  using assms closing_plain[of squote v "[]"] by (simp add: quoted_value_def)

lemma loop_single_quoted:
  "list_all literal vs \<Longrightarrow>
   dotenv_loop lookup (concat (map single_quoted vs)) line own vars = Inr (vars @ vs)"
proof (induction vs arbitrary: line own vars)
  case (Cons v vs)
  let ?n = "v_name v" and ?v = "v_value v" and ?s = "concat (map single_quoted vs)"
  have v: "valid_env_name ?n" "squote \<notin> set ?v" using Cons.prems by (simp_all add: literal_def)
  have next_vars: "dotenv_loop lookup ?s line' own' (vars @ [\<lparr>v_name = ?n, v_value = ?v\<rparr>]) = Inr (vars @ v # vs)"
    for line' own' using Cons by simp
  have "dotenv_loop lookup (?n @ CHR ''='' # squote # ?v @ squote # newline # ?s) line own vars = Inr (vars @ v # vs)"
  proof (cases "newline \<in> set ?v")
    case False
    have "quoted_value read squote (?v @ [squote]) line ?s (line + 1) = Inr (?v, ?s, line + 1)" for read
      using closing_plain[of squote ?v "[]"] v(2) by (intro quoted_closed) (auto simp: gather.simps)
    then show ?thesis
      using loop_line[OF v(1), of "squote # ?v @ [squote]" lookup ?s line own vars] False next_vars
      by (simp add: plain_def read_value_def trim_left_of_def)
  next
    case True
    then obtain a b where w: "?v = a @ newline # b" "newline \<notin> set a" by (metis split_list_first)
    then have "cut_line ?v = (a, b)" by (simp add: cut_line_def cut_char_append)
    with Cons.prems True have a: "a = [] \<or> plain (last a)" by (simp add: literal_def Let_def)
    obtain line' where
      "gather squote a (b @ squote # newline # ?s) (line + 1) = (a @ newline # b @ [squote], ?s, line')"
      using gather_to[of squote a b ?s "line + 1"] v(2) w by auto
    then have "quoted_value read squote a line (b @ squote # newline # ?s) (line + 1) = Inr (?v, ?s, line')"
      for read using v(2) w by (intro quoted_closed) auto
    then show ?thesis
      using loop_line[OF v(1), of "squote # a" lookup "b @ squote # newline # ?s" line own vars] w a next_vars
      by (auto simp: plain_def read_value_def trim_left_of_def)
  qed
  then show ?case by (simp add: single_quoted_def[of v])
qed (simp add: dotenv_loop.simps)

lemma replace_crlf_id: "cr \<notin> set s \<Longrightarrow> replace_crlf s = s"
  by (induction s rule: replace_crlf.induct) auto

subsection \<open>Properties\<close>

text \<open> C34. Every value survives a .env file in double quotes: a file that assigns any texts to valid names,
  with quotes, backslashes, dollars and newlines escaped, is read back as exactly these variables,
  whatever the environment holds.\<close>
theorem dotenv_round_trip:
  assumes "list_all (\<lambda>v. valid_env_name (v_name v)) vs"
  shows "parse_dotenv (concat (map double_quoted vs)) lookup = Inr vs"
  using crlf_double_quoted[OF assms] loop_double_quoted[OF assms, of lookup 1 "\<lambda>_. None" "[]"]
  by (simp add: parse_dotenv_def)

theorem dotenv_round_trip_witness:
  "parse_dotenv (concat (map double_quoted
       [\<lparr>v_name = ''A_1'', v_value = [dollar, CHR ''B'', newline, backslash]\<rparr>,
        \<lparr>v_name = ''B'', v_value = [dquote, CHR ''#'']\<rparr>])) (\<lambda>_. None)
   = Inr [\<lparr>v_name = ''A_1'', v_value = [dollar, CHR ''B'', newline, backslash]\<rparr>,
          \<lparr>v_name = ''B'', v_value = [dquote, CHR ''#'']\<rparr>]"
  by (rule dotenv_round_trip) code_simp

text \<open> Single quotes keep a value as it is, over several lines too, when the first line of a value of
  several lines does not end in a space.\<close>
theorem dotenv_literal:
  assumes "list_all literal vs"
  shows "parse_dotenv (concat (map single_quoted vs)) lookup = Inr vs"
proof -
  have "cr \<notin> set (concat (map single_quoted vs))"
    using assms valid_name_plain(2) by (auto simp: list_all_iff literal_def single_quoted_def)
  then show ?thesis
    using loop_single_quoted[OF assms, of lookup 1 "\<lambda>_. None" "[]"]
    by (simp add: parse_dotenv_def replace_crlf_id)
qed

theorem dotenv_literal_witness:
  "parse_dotenv (concat (map single_quoted
       [\<lparr>v_name = ''KEY'', v_value = ''BEGIN'' @ newline # ''  x y'' @ newline # [dollar]\<rparr>])) (\<lambda>_. None)
   = Inr [\<lparr>v_name = ''KEY'', v_value = ''BEGIN'' @ newline # ''  x y'' @ newline # [dollar]\<rparr>]"
  by (rule dotenv_literal) code_simp

text \<open> Spaces at the end of the first line of a quoted value of several lines are lost, in single
  quotes too, though single quotes keep a value as it is.\<close>
theorem dotenv_first_line_trimmed:
  "parse_dotenv (''A='' @ squote # ''x '' @ newline # ''y'' @ [squote]) (\<lambda>_. None)
     = Inr [\<lparr>v_name = ''A'', v_value = ''x'' @ newline # ''y''\<rparr>]"
proof -
  have "trim_space (''A='' @ squote # ''x '') = ''A='' @ squote # ''x''"
    using trim_right_space[of "''A='' @ squote # ''x''"] trim_right_plain[of "CHR ''x''" "''A='' @ [squote]"]
    by (simp add: trim_space_def trim_left_plain plain_def)
  moreover have "trim_space ''A'' = ''A''" by (rule trim_space_plain) (simp_all add: plain_def)
  ultimately show ?thesis
    by (simp add: parse_dotenv_def dotenv_loop.simps cut_line_def Let_def trim_prefix_def valid_env_name_def
        is_name_byte_def is_upper_def read_value_def trim_left_of_def quoted_value_def gather.simps)
qed

text \<open> In double quotes an escaped backslash before a variable is lost and the variable is not
  expanded: the two characters become one backslash, which then escapes the dollar.\<close>
theorem dotenv_backslash_dollar:
  "parse_dotenv (''A='' @ dquote # backslash # backslash # dollar # ''B'' @ [dquote]) (\<lambda>_. Some ''v'')
     = Inr [\<lparr>v_name = ''A'', v_value = dollar # ''B''\<rparr>]"
proof -
  have "trim_space (''A='' @ dquote # backslash # backslash # dollar # ''B'' @ [dquote])
      = ''A='' @ dquote # backslash # backslash # dollar # ''B'' @ [dquote]" "trim_space ''A'' = ''A''"
    by (rule trim_space_plain; simp add: plain_def)+
  then show ?thesis
    by (simp add: parse_dotenv_def dotenv_loop.simps cut_line_def Let_def trim_prefix_def valid_env_name_def
        is_name_byte_def is_upper_def read_value_def trim_left_of_def quoted_value_def gather.simps
        expand_dotenv.simps)
qed

end
