(* ===== verification/Go_Path.thy ===== *)
theory Go_Path
  imports Prelude
begin

text \<open>
  The functions of \<open>path/filepath\<close> that the sources use, for Unix paths: the separator is a slash, there
  are no volumes, and \<open>ToSlash\<close> and \<open>FromSlash\<close> change nothing.
\<close>

definition is_abs :: "string \<Rightarrow> bool" where
  "is_abs p \<longleftrightarrow> has_prefix p ''/''"

text \<open>\<open>Clean\<close> reads the elements of a path from left to right and keeps a stack of them.\<close>

definition clean_elem :: "bool \<Rightarrow> string \<Rightarrow> string list \<Rightarrow> string list" where
  "clean_elem rooted e out =
     (if e = [] \<or> e = ''.'' then out
      else if e = ''..''
      then (if out \<noteq> [] \<and> last out \<noteq> ''..'' then butlast out
            else if \<not> rooted then out @ [''..''] else out)
      else out @ [e])"

definition clean_elems :: "string \<Rightarrow> string list" where
  "clean_elems p = fold (clean_elem (is_abs p)) (split_char (CHR ''/'') p) []"

definition render_path :: "bool \<Rightarrow> string list \<Rightarrow> string" where
  "render_path rooted es =
     (if rooted then ''/'' @ join ''/'' es else if es = [] then ''.'' else join ''/'' es)"

definition path_clean :: "string \<Rightarrow> string" where
  "path_clean p = (if p = [] then ''.'' else render_path (is_abs p) (clean_elems p))"

definition path_join :: "string list \<Rightarrow> string" where
  "path_join es =
     (case dropWhile (\<lambda>e. e = []) es of [] \<Rightarrow> [] | es' \<Rightarrow> path_clean (join ''/'' es'))"

text \<open>\<open>Base\<close> and \<open>Dir\<close>.\<close>

definition path_base :: "string \<Rightarrow> string" where
  "path_base p =
     (if p = [] then ''.''
      else (let q = rev (dropWhile (\<lambda>c. c = CHR ''/'') (rev p))
            in if q = [] then ''/'' else last (split_char (CHR ''/'') q)))"

definition path_dir :: "string \<Rightarrow> string" where
  "path_dir p = path_clean (rev (dropWhile (\<lambda>c. c \<noteq> CHR ''/'') (rev p)))"

text \<open>
  \<open>Abs\<close> with the working directory as an argument, \<open>IsLocal\<close>, and \<open>Rel\<close>, which compares the
  elements of the cleaned paths.
\<close>

definition path_abs :: "string \<Rightarrow> string \<Rightarrow> string" where
  "path_abs cwd p = (if is_abs p then path_clean p else path_join [cwd, p])"

definition is_local_path :: "string \<Rightarrow> bool" where
  "is_local_path p \<longleftrightarrow>
     \<not> is_abs p \<and> p \<noteq> []
     \<and> (let q = (if list_ex (\<lambda>e. e = ''.'' \<or> e = ''..'') (split_char (CHR ''/'') p) then path_clean p else p)
        in q \<noteq> ''..'' \<and> \<not> has_prefix q ''../'')"

fun drop_common :: "string list \<Rightarrow> string list \<Rightarrow> string list \<times> string list" where
  "drop_common (b # bs) (t # ts) = (if b = t then drop_common bs ts else (b # bs, t # ts))"
| "drop_common bs ts = (bs, ts)"

definition path_rel :: "string \<Rightarrow> string \<Rightarrow> string option" where
  "path_rel base target =
     (if is_abs base \<noteq> is_abs target then None
      else (let (bs, ts) = drop_common (clean_elems base) (clean_elems target)
            in if bs \<noteq> [] \<and> hd bs = ''..'' then None
               else Some (render_path False (replicate (length bs) ''..'' @ ts))))"

text \<open>
  The elements that \<open>Clean\<close> leaves: no empty one and no dot, and parent elements only at the front of a
  path that is not rooted.
\<close>

definition clean_stack :: "bool \<Rightarrow> string list \<Rightarrow> bool" where
  "clean_stack rooted es \<longleftrightarrow>
     (\<exists>n names. es = replicate n ''..'' @ names \<and> (rooted \<longrightarrow> n = 0)
        \<and> (\<forall>e\<in>set names. e \<notin> {[], ''.'', ''..''} \<and> CHR ''/'' \<notin> set e))"

lemma clean_elem_stack:
  assumes "clean_stack rooted out" "CHR ''/'' \<notin> set e"
  shows "clean_stack rooted (clean_elem rooted e out)"
proof -
  obtain n names where out: "out = replicate n ''..'' @ names" "rooted \<longrightarrow> n = 0"
    and names: "\<forall>e\<in>set names. e \<notin> {[], ''.'', ''..''} \<and> CHR ''/'' \<notin> set e"
    using assms(1) by (auto simp: clean_stack_def)
  consider "e = [] \<or> e = ''.''" | "e = ''..''" "names = []" | "e = ''..''" "names \<noteq> []"
    | "e \<notin> {[], ''.'', ''..''}" by blast
  then show ?thesis
  proof cases
    case 1
    then show ?thesis using assms(1) by (auto simp: clean_elem_def)
  next
    case 2
    show ?thesis
    proof (cases rooted)
      case True
      with 2 out show ?thesis using assms(1) by (simp add: clean_elem_def)
    next
      case False
      have "n = 0 \<or> last out = ''..''" using 2 out by (cases n) auto
      then have "clean_elem rooted e out = replicate (Suc n) ''..'' @ []"
        using 2 out False by (auto simp: clean_elem_def replicate_append_same)
      with False show ?thesis unfolding clean_stack_def by (metis empty_iff empty_set)
    qed
  next
    case 3
    then have "last out \<noteq> ''..''" using names out by (metis insertCI last_appendR last_in_set)
    with 3 out have "clean_elem rooted e out = replicate n ''..'' @ butlast names"
      by (simp add: clean_elem_def butlast_append)
    with out names show ?thesis unfolding clean_stack_def by (metis in_set_butlastD)
  next
    case 4
    with out have "clean_elem rooted e out = replicate n ''..'' @ (names @ [e])"
      by (simp add: clean_elem_def)
    moreover have "\<forall>x\<in>set (names @ [e]). x \<notin> {[], ''.'', ''..''} \<and> CHR ''/'' \<notin> set x"
      using 4 names assms(2) by auto
    ultimately show ?thesis using out unfolding clean_stack_def by blast
  qed
qed

lemma fold_clean_stack:
  "clean_stack rooted out \<Longrightarrow> \<forall>e\<in>set es. CHR ''/'' \<notin> set e \<Longrightarrow>
   clean_stack rooted (fold (clean_elem rooted) es out)"
  by (induction es arbitrary: out) (auto simp: clean_elem_stack)

lemma clean_stack_Nil [simp]: "clean_stack rooted []"
  unfolding clean_stack_def by (rule exI[of _ 0]) simp

lemma clean_elems_stack: "clean_stack (is_abs p) (clean_elems p)"
  unfolding clean_elems_def by (rule fold_clean_stack) (auto dest: split_char_no_sep)

subsection \<open>Cleaned paths\<close>

definition plain_names :: "string list \<Rightarrow> bool" where
  "plain_names es \<longleftrightarrow> (\<forall>e\<in>set es. e \<notin> {[], ''.'', ''..''} \<and> CHR ''/'' \<notin> set e)"

lemma clean_stack_iff:
  "clean_stack rooted es \<longleftrightarrow> (\<exists>n names. es = replicate n ''..'' @ names \<and> (rooted \<longrightarrow> n = 0) \<and> plain_names names)"
  by (simp add: clean_stack_def plain_names_def)

lemma clean_stack_rooted: "clean_stack True es \<longleftrightarrow> plain_names es"
  by (auto simp: clean_stack_iff)

lemma clean_stack_no_slash: "clean_stack r es \<Longrightarrow> \<forall>e\<in>set es. CHR ''/'' \<notin> set e \<and> e \<noteq> []"
proof -
  assume "clean_stack r es"
  then obtain n names where es: "es = replicate n ''..'' @ names" and names: "plain_names names"
    unfolding clean_stack_iff by blast
  show ?thesis
  proof
    fix e assume "e \<in> set es"
    then have "e = ''..'' \<or> e \<in> set names" using es by (metis Un_iff in_set_replicate set_append)
    then show "CHR ''/'' \<notin> set e \<and> e \<noteq> []"
    proof
      assume "e \<in> set names"
      with names show ?thesis unfolding plain_names_def by blast
    qed simp
  qed
qed

lemma fold_clean_names: "plain_names names \<Longrightarrow> fold (clean_elem r) names out = out @ names"
  by (induction names arbitrary: out) (auto simp: plain_names_def clean_elem_def)

lemma fold_clean_ups: "fold (clean_elem False) (replicate n ''..'') (replicate k ''..'') = replicate (k + n) ''..''"
proof (induction n arbitrary: k)
  case (Suc n)
  have "clean_elem False ''..'' (replicate k ''..'') = replicate (Suc k) ''..''"
    by (cases k) (auto simp: clean_elem_def replicate_append_same)
  with Suc[of "Suc k"] show ?case by simp
qed simp

lemma fold_clean_id: "clean_stack r es \<Longrightarrow> fold (clean_elem r) es [] = es"
proof -
  assume "clean_stack r es"
  then obtain n names where es: "es = replicate n ''..'' @ names" "r \<longrightarrow> n = 0" "plain_names names"
    by (auto simp: clean_stack_iff)
  with fold_clean_ups[of n 0] fold_clean_names show ?thesis by (cases r) auto
qed

lemma split_render_path:
  "clean_stack r es \<Longrightarrow> fold (clean_elem r) (split_char (CHR ''/'') (render_path r es)) out = fold (clean_elem r) es out"
proof -
  assume c: "clean_stack r es"
  show ?thesis
  proof (cases "es = []")
    case True
    then show ?thesis by (cases r) (simp_all add: render_path_def clean_elem_def)
  next
    case False
    then have "split_char (CHR ''/'') (join ''/'' es) = es"
      using clean_stack_no_slash[OF c] by (intro split_char_join) auto
    with False show ?thesis
      using split_char_sep[of "CHR ''/''" "[]" "join ''/'' es"]
      by (auto simp: render_path_def clean_elem_def)
  qed
qed

lemma is_abs_render [simp]: "clean_stack r es \<Longrightarrow> is_abs (render_path r es) = r"
proof -
  assume c: "clean_stack r es"
  show ?thesis
  proof (cases "r \<or> es = []")
    case True
    then show ?thesis by (auto simp: render_path_def is_abs_def)
  next
    case False
    then obtain e es' where e: "es = e # es'" by (cases es) auto
    with clean_stack_no_slash[OF c] have "e \<noteq> []" "hd e \<noteq> CHR ''/''" by (auto simp: hd_in_set dest: hd_in_set)
    with False e show ?thesis by (cases e; cases es') (auto simp: render_path_def is_abs_def)
  qed
qed

lemma render_not_Nil: "clean_stack r es \<Longrightarrow> render_path r es \<noteq> []"
proof
  assume c: "clean_stack r es" "render_path r es = []"
  then obtain e es' where e: "es = e # es'" "\<not> r" by (cases es) (auto simp: render_path_def split: if_splits)
  with clean_stack_no_slash[OF c(1)] have "e \<noteq> []" by simp
  with c(2) e show False by (cases es') (auto simp: render_path_def)
qed

lemma clean_elems_render [simp]: "clean_stack r es \<Longrightarrow> clean_elems (render_path r es) = es"
  by (simp add: clean_elems_def split_render_path fold_clean_id)

lemma path_clean_render [simp]: "clean_stack r es \<Longrightarrow> path_clean (render_path r es) = render_path r es"
  by (simp add: path_clean_def render_not_Nil)

lemma path_clean_idem: "path_clean (path_clean p) = path_clean p"
proof (cases "p = []")
  case True
  have "path_clean ''.'' = ''.''" by code_simp
  then show ?thesis by (simp add: True path_clean_def)
next
  case False
  then show ?thesis using path_clean_render[OF clean_elems_stack[of p]] by (simp add: path_clean_def)
qed

lemma clean_path_render:
  "path_clean p = p \<Longrightarrow> is_abs p \<Longrightarrow> p = render_path True (clean_elems p) \<and> plain_names (clean_elems p)"
  using clean_elems_stack[of p] by (auto simp: path_clean_def clean_stack_rooted is_abs_def split: if_splits)

lemma join_below:
  assumes "is_abs d" "path_clean d = d"
  shows "path_join [d, p] = render_path True (fold (clean_elem True) (split_char (CHR ''/'') p) (clean_elems d))"
proof -
  have d: "d \<noteq> []" "is_abs (d @ ''/'' @ p)" using assms(1) by (auto simp: is_abs_def has_prefix_iff)
  have "clean_elems (d @ CHR ''/'' # p) = fold (clean_elem True) (split_char (CHR ''/'') p) (clean_elems d)"
    using d(2) assms(1) by (simp add: clean_elems_def split_char_sep)
  with d show ?thesis by (simp add: path_join_def path_clean_def)
qed

subsection \<open>Local paths\<close>

lemma ups_stay: "out \<noteq> [] \<Longrightarrow> hd out = ''..'' \<Longrightarrow> clean_elem False e out \<noteq> [] \<and> hd (clean_elem False e out) = ''..''"
proof (cases "length out = 1")
  case True
  assume "out \<noteq> []" "hd out = ''..''"
  with True have "out = [''..'']" by (cases out) auto
  then show ?thesis by (simp add: clean_elem_def)
next
  case False
  assume o: "out \<noteq> []" "hd out = ''..''"
  with False have "butlast out \<noteq> []" "hd (butlast out) = ''..''" by (cases out; cases "tl out"; simp)+
  with o show ?thesis by (simp add: clean_elem_def)
qed

lemma clean_below:
  "fold (clean_elem False) es [] = [] \<or> hd (fold (clean_elem False) es []) \<noteq> ''..'' \<Longrightarrow>
   \<forall>e\<in>set es. CHR ''/'' \<notin> set e \<Longrightarrow>
   fold (clean_elem True) es base = base @ fold (clean_elem False) es []
   \<and> plain_names (fold (clean_elem False) es [])"
proof (induction es rule: rev_induct)
  case (snoc e es)
  let ?st = "fold (clean_elem False) es []"
  have low: "?st = [] \<or> hd ?st \<noteq> ''..''" using snoc.prems(1) ups_stay[of ?st e] by auto
  with snoc have IH: "fold (clean_elem True) es base = base @ ?st" "plain_names ?st" by auto
  have "e = ''..'' \<longrightarrow> ?st \<noteq> []"
  proof (intro impI notI)
    assume "e = ''..''" "?st = []"
    moreover have "clean_elem False ''..'' [] = [''..'']" by (simp add: clean_elem_def)
    ultimately show False using snoc.prems(1) by simp
  qed
  moreover have "last ?st \<noteq> ''..''" if "?st \<noteq> []"
    using IH(2) that by (auto simp: plain_names_def)
  ultimately show ?case using IH snoc.prems(2)
    by (auto simp: clean_elem_def[of _ e] butlast_append plain_names_def dest: in_set_butlastD)
qed (simp add: plain_names_def)

lemma no_ups_names:
  "\<forall>e\<in>set es. e \<noteq> ''..'' \<Longrightarrow> fold (clean_elem False) es out = out @ filter (\<lambda>e. e \<notin> {[], ''.''}) es"
  by (induction es arbitrary: out) (auto simp: clean_elem_def)

lemma is_local_path_low:
  assumes "is_local_path p"
  shows "clean_elems p = [] \<or> hd (clean_elems p) \<noteq> ''..''"
proof -
  have p: "\<not> is_abs p" "p \<noteq> []" using assms by (auto simp: is_local_path_def)
  show ?thesis
  proof (cases "list_ex (\<lambda>e. e = ''.'' \<or> e = ''..'') (split_char (CHR ''/'') p)")
    case True
    then have q: "path_clean p \<noteq> ''..''" "\<not> has_prefix (path_clean p) ''../''"
      using assms by (auto simp: is_local_path_def Let_def)
    have "path_clean p = render_path False (clean_elems p)" using p by (simp add: path_clean_def)
    with q show ?thesis
      by (cases "clean_elems p"; cases "tl (clean_elems p)") (auto simp: render_path_def)
  next
    case False
    then have "\<forall>e\<in>set (split_char (CHR ''/'') p). e \<noteq> ''..''" by (auto simp: list_ex_iff)
    then have "clean_elems p = filter (\<lambda>e. e \<notin> {[], ''.''}) (split_char (CHR ''/'') p)"
      using p no_ups_names[of _ "[]"] by (simp add: clean_elems_def)
    with \<open>\<forall>e\<in>set _. e \<noteq> ''..''\<close> show ?thesis
      by (metis (no_types, lifting) filter_is_subset hd_in_set subsetD)
  qed
qed

text \<open>A local path stays below every directory.\<close>

lemma local_below:
  assumes "is_local_path p" "is_abs d" "path_clean d = d"
  shows "path_join [d, p] = render_path True (clean_elems d @ clean_elems p) \<and> plain_names (clean_elems p)"
proof -
  have "\<not> is_abs p" using assms(1) by (auto simp: is_local_path_def)
  then have c: "clean_elems p = fold (clean_elem False) (split_char (CHR ''/'') p) []"
    by (simp add: clean_elems_def)
  have slash: "\<forall>e\<in>set (split_char (CHR ''/'') p). CHR ''/'' \<notin> set e" by (auto dest: split_char_no_sep)
  from clean_below[OF _ slash, of "clean_elems d"] is_local_path_low[OF assms(1)]
  show ?thesis unfolding c join_below[OF assms(2,3)] by simp
qed

lemma local_render_iff:
  assumes "clean_stack False es"
  shows "is_local_path (render_path False es) \<longleftrightarrow> es = [] \<or> hd es \<noteq> ''..''"
proof
  assume "is_local_path (render_path False es)"
  from is_local_path_low[OF this] show "es = [] \<or> hd es \<noteq> ''..''"
    by (simp only: clean_elems_render[OF assms])
next
  let ?p = "render_path False es"
  assume low: "es = [] \<or> hd es \<noteq> ''..''"
  have "?p \<noteq> ''..'' \<and> \<not> has_prefix ?p ''../''"
  proof (cases es)
    case Nil
    then show ?thesis by (simp add: render_path_def)
  next
    case (Cons e es')
    with low have e: "e \<noteq> ''..''" by simp
    have slash: "CHR ''/'' \<notin> set e" using clean_stack_no_slash[OF assms] Cons by simp
    show ?thesis
    proof (rule ccontr)
      assume "\<not> ?thesis"
      then obtain x where "?p = ''..'' @ x" "x = [] \<or> hd x = CHR ''/''" by (auto simp: has_prefix_iff)
      then have "split_char (CHR ''/'') ?p \<noteq> [] \<and> hd (split_char (CHR ''/'') ?p) = ''..''"
        by (cases x) auto
      moreover have "hd (split_char (CHR ''/'') ?p) = e"
      proof (cases es')
        case Nil
        with Cons slash show ?thesis by (simp add: render_path_def split_char_single)
      next
        case (Cons f fs)
        with \<open>es = e # es'\<close> slash show ?thesis by (simp add: render_path_def split_char_append)
      qed
      ultimately show False using e by simp
    qed
  qed
  then show "is_local_path ?p"
    using path_clean_render[OF assms] is_abs_render[OF assms] render_not_Nil[OF assms]
    by (simp add: is_local_path_def Let_def)
qed

subsection \<open>The last element\<close>

lemma join_snoc: "ds \<noteq> [] \<Longrightarrow> join sep (ds @ [b]) = join sep ds @ sep @ b"
proof (induction ds)
  case (Cons d ds)
  then show ?case by (cases ds) simp_all
qed simp

lemma clean_slash:
  assumes "plain_names ds" "ds \<noteq> []"
  shows "path_clean (render_path True ds @ ''/'') = render_path True ds"
proof -
  have c: "clean_stack True ds" using assms(1) by (simp add: clean_stack_rooted)
  have "clean_elems (render_path True ds @ ''/'') = ds"
    using split_char_sep[of "CHR ''/''" "render_path True ds" "[]"] split_render_path[OF c, of "[]"] fold_clean_id[OF c]
    by (simp add: clean_elems_def render_path_def is_abs_def clean_elem_def)
  then show ?thesis by (simp add: path_clean_def render_path_def is_abs_def)
qed

end
