(* ===== verification/Env.thy ===== *)
theory Env
  imports Dotenv Toml Go_Path
begin

text \<open>
  The \<open>[env]\<close> table of a list, \<open>internal/list/env.go\<close>: how oku reads it, and what it does to an
  environment. The variables of the process are the argument \<open>lookup\<close>.
\<close>

subsection \<open>Reading the table\<close>

text \<open>
  \<open>prepend\<close> is a nil slice when no entry was read, which no accepted table makes: it is the empty list
  here.
\<close>

record env_value =
  e_value :: string
  e_unset :: bool
  e_prepend :: "string list"
  e_required :: string

definition empty_value :: env_value where
  "empty_value = \<lparr>e_value = [], e_unset = False, e_prepend = [], e_required = []\<rparr>"

definition is_value :: "env_value \<Rightarrow> bool" where
  "is_value v \<longleftrightarrow> \<not> e_unset v \<and> e_prepend v = [] \<and> e_required v = []"

record env_file =
  ef_path :: string
  ef_optional :: bool
  ef_unless :: "string list"
  ef_secret :: bool
  ef_exec_only :: bool

definition empty_file :: env_file where
  "empty_file = \<lparr>ef_path = [], ef_optional = False, ef_unless = [], ef_secret = False, ef_exec_only = False\<rparr>"

datatype env_error =
    NotName string
  | ReservedName string
  | NotTable
  | NotBool string
  | BadScope
  | BadUnless
  | UnknownKey string
  | NoPath
  | TrueValue
  | BadPrepend
  | BadRequired
  | OneOfTwo
  | BadValue
  | NamesItself string "string list"

definition check_env_name :: "string \<Rightarrow> bool \<Rightarrow> env_error option" where
  "check_env_name name prepend =
     (if \<not> valid_env_name name then Some (NotName name)
      else if reserved_env name \<and> (name \<noteq> ''PATH'' \<or> \<not> prepend) then Some (ReservedName name)
      else None)"

fun env_file_fields :: "table \<Rightarrow> env_file \<Rightarrow> (env_error, env_file) res" where
  "env_file_fields [] f = Inr f"
| "env_file_fields ((key, field) # rest) f =
     (if key = ''path'' then env_file_fields rest (f\<lparr>ef_path := as_string (Some field)\<rparr>)
      else if key = ''optional''
      then (case field of TBool b \<Rightarrow> env_file_fields rest (f\<lparr>ef_optional := b\<rparr>) | _ \<Rightarrow> Inl (NotBool key))
      else if key = ''secret''
      then (case field of TBool b \<Rightarrow> env_file_fields rest (f\<lparr>ef_secret := b\<rparr>) | _ \<Rightarrow> Inl (NotBool key))
      else if key = ''scope''
      then (if field = TStr ''shell'' then env_file_fields rest f
            else if field = TStr ''exec'' then env_file_fields rest (f\<lparr>ef_exec_only := True\<rparr>)
            else Inl BadScope)
      else if key = ''unless''
      then (case field of
              TArr names \<Rightarrow>
                (if list_all (\<lambda>n. is_string n \<and> valid_env_name (as_string (Some n))) names
                 then env_file_fields rest
                   (f\<lparr>ef_unless := ef_unless f @ map (\<lambda>n. as_string (Some n)) names\<rparr>)
                 else Inl BadUnless)
            | _ \<Rightarrow> Inl BadUnless)
      else Inl (UnknownKey key))"

definition to_env_file :: "toml \<Rightarrow> (env_error, env_file) res" where
  "to_env_file value =
     (case value of
        TTab table \<Rightarrow>
          and_then (env_file_fields table empty_file)
            (\<lambda>f. if ef_path f = [] then Inl NoPath else Inr f)
      | _ \<Rightarrow> Inl NotTable)"

definition skipped :: "env_file \<Rightarrow> (string \<Rightarrow> string option) \<Rightarrow> bool" where
  "skipped f lookup \<longleftrightarrow>
     list_ex (\<lambda>n. case lookup n of None \<Rightarrow> False | Some v \<Rightarrow> v \<noteq> []) (ef_unless f)"

definition env_file_abs :: "env_file \<Rightarrow> string \<Rightarrow> string" where
  "env_file_abs f dir = (if is_abs (ef_path f) then ef_path f else path_join [dir, ef_path f])"

definition required_default :: string where
  "required_default = ''set it before you use this project''"

fun env_value_fields :: "table \<Rightarrow> env_value \<Rightarrow> (env_error, env_value) res" where
  "env_value_fields [] v = Inr v"
| "env_value_fields ((key, field) # rest) v =
     (if key = ''prepend''
      then (case field of
              TArr entries \<Rightarrow>
                (if entries \<noteq> [] \<and> list_all (\<lambda>e. is_string e \<and> as_string (Some e) \<noteq> []) entries
                 then env_value_fields rest
                   (v\<lparr>e_prepend := e_prepend v @ map (\<lambda>e. as_string (Some e)) entries\<rparr>)
                 else Inl BadPrepend)
            | _ \<Rightarrow> Inl BadPrepend)
      else if key = ''required''
      then (case field of
              TStr hint \<Rightarrow>
                env_value_fields rest (v\<lparr>e_required := (if hint \<noteq> [] then hint else required_default)\<rparr>)
            | _ \<Rightarrow> Inl BadRequired)
      else Inl (UnknownKey key))"

definition to_env_value :: "toml \<Rightarrow> (env_error, env_value) res" where
  "to_env_value value =
     (case value of
        TStr s \<Rightarrow> Inr (empty_value\<lparr>e_value := s\<rparr>)
      | TBool b \<Rightarrow> (if b then Inl TrueValue else Inr (empty_value\<lparr>e_unset := True\<rparr>))
      | TTab t \<Rightarrow>
          and_then (env_value_fields t empty_value)
            (\<lambda>v. if (e_prepend v \<noteq> []) = (e_required v \<noteq> []) then Inl OneOfTwo else Inr v)
      | _ \<Rightarrow> Inl BadValue)"

type_synonym env_table = "(string \<times> env_value) list"

text \<open>The tables of the key \<open>file\<close>, when it is \<open>[[env.file]]\<close> and not a variable of that name.\<close>

definition file_tables :: "string \<Rightarrow> toml \<Rightarrow> toml list option" where
  "file_tables name value =
     (case value of TArr tables \<Rightarrow> (if name = ''file'' then Some tables else None) | _ \<Rightarrow> None)"

text \<open>\<open>toEnv\<close>, over the table in the order in which one range visits it.\<close>

fun to_env :: "table \<Rightarrow> env_table \<Rightarrow> env_file list \<Rightarrow> (env_error, env_table \<times> env_file list) res" where
  "to_env [] env files = Inr (env, files)"
| "to_env ((name, value) # rest) env files =
     (case file_tables name value of
        Some tables \<Rightarrow>
          and_then (map_res to_env_file tables) (\<lambda>fs. to_env rest env (files @ fs))
      | None \<Rightarrow>
          and_then (to_env_value value)
            (\<lambda>v. case check_env_name name (e_prepend v \<noteq> []) of
                   Some e \<Rightarrow> Inl e
                 | None \<Rightarrow> to_env rest (env @ [(name, v)]) files))"

subsection \<open>References in a value\<close>

text \<open>The parts of a text that \<open>referenceRe\<close> finds: single characters, and references with a default.\<close>

datatype piece = Lit char | Ref string "string option"

text \<open>A reference at the start of a text, and the text after it.\<close>

definition reference :: "string \<Rightarrow> (string \<times> string option \<times> string) option" where
  "reference s =
     (if has_prefix s (dollar # ''{'')
      then (let name = name_prefix (drop 2 s); rest = drop (2 + length name) s
            in if name = [] then None
               else if has_prefix rest ''}'' then Some (name, None, drop 1 rest)
               else if has_prefix rest '':-''
               then (case cut_char (CHR ''}'') (drop 2 rest) of
                       None \<Rightarrow> None | Some (fallback, rest') \<Rightarrow> Some (name, Some fallback, rest'))
               else None)
      else None)"

lemma reference_shorter: "reference s = Some (n, d, r) \<Longrightarrow> length r < length s"
  by (auto simp: reference_def Let_def has_prefix_iff cut_char_Some split: if_splits option.splits
      dest!: arg_cong[where f = length])

function pieces :: "string \<Rightarrow> piece list" where
  "pieces s =
     (case s of [] \<Rightarrow> []
      | c # cs \<Rightarrow>
          (case reference s of
             None \<Rightarrow> Lit c # pieces cs
           | Some (name, d, rest) \<Rightarrow> Ref name d # pieces rest))"
  by pat_completeness auto
termination
  by (relation "measure length") (auto dest: reference_shorter)

declare pieces.simps [simp del]

subsection \<open>Resolving\<close>

text \<open>
  \<open>resolve\<close> and \<open>expand\<close> call each other and share the map \<open>memo\<close> of the values found so far. A failed
  reference gives an empty text and the walk over the text goes on; the first error is kept.
\<close>

type_synonym memo = "string \<rightharpoonup> string"

definition defaulted :: "string option \<Rightarrow> string option \<Rightarrow> string" where
  "defaulted got d =
     (case d of
        Some fallback \<Rightarrow> (case got of None \<Rightarrow> fallback | Some v \<Rightarrow> if v = [] then fallback else v)
      | None \<Rightarrow> (case got of None \<Rightarrow> [] | Some v \<Rightarrow> v))"

function (sequential)
  resolve :: "env_table \<Rightarrow> (string \<Rightarrow> string option) \<Rightarrow> string \<Rightarrow> string list \<Rightarrow> memo
    \<Rightarrow> (env_error, string option) res \<times> memo" and
  expand :: "env_table \<Rightarrow> (string \<Rightarrow> string option) \<Rightarrow> piece list \<Rightarrow> string list \<Rightarrow> memo
    \<Rightarrow> string \<times> env_error option \<times> memo" where
  "resolve env lookup name seen memo =
     (case map_of env name of
        None \<Rightarrow> (Inr (lookup name), memo)
      | Some v \<Rightarrow>
          if e_unset v then (Inr None, memo)
          else if \<not> is_value v \<or> (seen \<noteq> [] \<and> last seen = name) then (Inr (lookup name), memo)
          else (case memo name of
                  Some value \<Rightarrow> (Inr (Some value), memo)
                | None \<Rightarrow>
                    if name \<in> set seen then (Inl (NamesItself name seen), memo)
                    else (case expand env lookup (pieces (e_value v)) (seen @ [name]) memo of
                            (value, Some e, memo') \<Rightarrow> (Inl e, memo')
                          | (value, None, memo') \<Rightarrow> (Inr (Some value), memo'(name \<mapsto> value)))))"
| "expand env lookup [] seen memo = ([], None, memo)"
| "expand env lookup (Lit c # ps) seen memo =
     (let (value, failed, memo') = expand env lookup ps seen memo in (c # value, failed, memo'))"
| "expand env lookup (Ref name d # ps) seen memo =
     (let (got, memo1) = resolve env lookup name seen memo;
          (value, failed, memo2) = expand env lookup ps seen memo1
      in (case got of
            Inl e \<Rightarrow> (defaulted None d @ value, Some e, memo2)
          | Inr v \<Rightarrow> (defaulted v d @ value, failed, memo2)))"
  by pat_completeness auto
termination
proof (relation "inv_image (less_than <*lex*> less_than)
    (\<lambda>p. case p of
       Inl (env, lookup, name, seen, memo) \<Rightarrow> (card (set (map fst env) - set seen), 0)
     | Inr (env, lookup, ps, seen, memo) \<Rightarrow> (card (set (map fst env) - set seen), Suc (length ps)))",
    goal_cases)
  case (2 env lookup name seen memo v)
  then have "name \<notin> set seen" by simp
  moreover have "name \<in> set (map fst env)" using 2(1) by (metis domI dom_map_of_conv_image_fst set_map)
  ultimately have "card (set (map fst env) - set (seen @ [name])) < card (set (map fst env) - set seen)"
    by (intro psubset_card_mono) auto
  then show ?case by simp
qed auto

declare resolve.simps [simp del] expand.simps [simp del]

record env_change =
  c_set :: "(string \<times> string) list"
  c_unset :: "string list"
  c_prepend :: "(string \<times> string list) list"
  c_missing :: "(string \<times> string) list"

text \<open>The entries that a prepend puts in front, with the memo after them.\<close>

fun prepend_entries ::
  "env_table \<Rightarrow> (string \<Rightarrow> string option) \<Rightarrow> string \<Rightarrow> string \<Rightarrow> string list \<Rightarrow> memo
     \<Rightarrow> (env_error, string list \<times> memo) res" where
  "prepend_entries env lookup dir name [] memo = Inr ([], memo)"
| "prepend_entries env lookup dir name (entry # rest) memo =
     (case expand env lookup (pieces entry) [name] memo of
        (value, Some e, memo') \<Rightarrow> Inl e
      | (value, None, memo') \<Rightarrow>
          and_then (prepend_entries env lookup dir name rest memo')
            (\<lambda>(es, memo''). Inr ((if is_abs value then value else path_join [dir, value]) # es, memo'')))"

fun resolve_names ::
  "env_table \<Rightarrow> string \<Rightarrow> (string \<Rightarrow> string option) \<Rightarrow> string list \<Rightarrow> env_change \<Rightarrow> memo
     \<Rightarrow> (env_error, env_change) res" where
  "resolve_names env dir lookup [] change memo = Inr change"
| "resolve_names env dir lookup (name # rest) change memo =
     (case map_of env name of
        None \<Rightarrow> resolve_names env dir lookup rest change memo
      | Some v \<Rightarrow>
          if e_unset v
          then resolve_names env dir lookup rest (change\<lparr>c_unset := c_unset change @ [name]\<rparr>) memo
          else if e_prepend v \<noteq> []
          then and_then (prepend_entries env lookup dir name (e_prepend v) memo)
                 (\<lambda>(es, memo'). resolve_names env dir lookup rest
                    (change\<lparr>c_prepend := c_prepend change @ [(name, es)]\<rparr>) memo')
          else if e_required v \<noteq> []
          then resolve_names env dir lookup rest
                 (if lookup name = None \<or> lookup name = Some []
                  then change\<lparr>c_missing := c_missing change @ [(name, e_required v)]\<rparr> else change) memo
          else (case resolve env lookup name [] memo of
                  (Inl e, _) \<Rightarrow> Inl e
                | (Inr value, memo') \<Rightarrow>
                    resolve_names env dir lookup rest
                      (change\<lparr>c_set := c_set change @ [(name, case value of None \<Rightarrow> [] | Some x \<Rightarrow> x)]\<rparr>) memo'))"

definition empty_change :: env_change where
  "empty_change = \<lparr>c_set = [], c_unset = [], c_prepend = [], c_missing = []\<rparr>"

definition resolve_env :: "env_table \<Rightarrow> string \<Rightarrow> (string \<Rightarrow> string option) \<Rightarrow> (env_error, env_change) res" where
  "resolve_env env dir lookup =
     resolve_names env dir lookup (sort_func str_cmp (map fst env)) empty_change (\<lambda>_. None)"

end
