(* ===== verification/Env_Props.thy ===== *)
theory Env_Props
  imports Env
begin

text \<open>
  What \<open>ResolveEnv\<close> computes: its values solve the equations that the table states, and it fails only
  when values name each other in a circle.
\<close>

subsection \<open>The equations\<close>

text \<open>What a reference to a variable reads, where \<open>self\<close> is the variable whose value holds it.\<close>

definition reads ::
  "env_table \<Rightarrow> (string \<Rightarrow> string option) \<Rightarrow> (string \<Rightarrow> string option) \<Rightarrow> string option \<Rightarrow> string
     \<Rightarrow> string option" where
  "reads env lookup vals self n =
     (case map_of env n of
        None \<Rightarrow> lookup n
      | Some v \<Rightarrow> if e_unset v then None
                  else if \<not> is_value v \<or> self = Some n then lookup n else vals n)"

definition piece_text :: "(string \<Rightarrow> string option) \<Rightarrow> piece \<Rightarrow> string" where
  "piece_text read p = (case p of Lit c \<Rightarrow> [c] | Ref n d \<Rightarrow> defaulted (read n) d)"

definition text_of :: "(string \<Rightarrow> string option) \<Rightarrow> piece list \<Rightarrow> string" where
  "text_of read ps = concat (map (piece_text read) ps)"

definition own_value :: "env_table \<Rightarrow> string \<Rightarrow> bool" where
  "own_value env n \<longleftrightarrow> (\<exists>v. map_of env n = Some v \<and> is_value v)"

definition known :: "env_table \<Rightarrow> memo \<Rightarrow> string option \<Rightarrow> string \<Rightarrow> bool" where
  "known env memo self n \<longleftrightarrow> (own_value env n \<and> self \<noteq> Some n \<longrightarrow> memo n \<noteq> None)"

definition all_known :: "env_table \<Rightarrow> memo \<Rightarrow> string option \<Rightarrow> piece list \<Rightarrow> bool" where
  "all_known env memo self ps \<longleftrightarrow> (\<forall>n d. Ref n d \<in> set ps \<longrightarrow> known env memo self n)"

text \<open>A memo is good when it holds, for variables with a value, texts that solve their equations.\<close>

definition good_memo :: "env_table \<Rightarrow> (string \<Rightarrow> string option) \<Rightarrow> memo \<Rightarrow> bool" where
  "good_memo env lookup memo \<longleftrightarrow>
     (\<forall>n x. memo n = Some x \<longrightarrow>
        (\<exists>v. map_of env n = Some v \<and> is_value v \<and> all_known env memo (Some n) (pieces (e_value v))
           \<and> x = text_of (reads env lookup memo (Some n)) (pieces (e_value v))))"

lemma is_value_set: "is_value v \<Longrightarrow> \<not> e_unset v"
  by (simp add: is_value_def)

lemma known_mono: "known env m self n \<Longrightarrow> m \<subseteq>\<^sub>m m' \<Longrightarrow> known env m' self n"
  by (metis domIff known_def map_le_implies_dom_le subsetD)

lemma all_known_mono: "all_known env m self ps \<Longrightarrow> m \<subseteq>\<^sub>m m' \<Longrightarrow> all_known env m' self ps"
  unfolding all_known_def using known_mono by blast

lemma reads_mono: "known env m self n \<Longrightarrow> m \<subseteq>\<^sub>m m' \<Longrightarrow> reads env lookup m' self n = reads env lookup m self n"
  by (auto simp: reads_def known_def own_value_def map_le_def dom_def split: option.splits)

lemma text_of_cong:
  "(\<And>n d. Ref n d \<in> set ps \<Longrightarrow> f n = g n) \<Longrightarrow> text_of f ps = text_of g ps"
  unfolding text_of_def by (intro arg_cong[where f = concat] map_cong) (auto simp: piece_text_def split: piece.splits)

lemma text_of_mono:
  "all_known env m self ps \<Longrightarrow> m \<subseteq>\<^sub>m m' \<Longrightarrow>
   text_of (reads env lookup m' self) ps = text_of (reads env lookup m self) ps"
  by (rule text_of_cong) (auto simp: all_known_def intro: reads_mono)

lemma good_memo_insert:
  assumes "good_memo env lookup m" "map_of env n = Some v" "is_value v" "m n = None"
    and "all_known env m (Some n) (pieces (e_value v))"
    and "x = text_of (reads env lookup m (Some n)) (pieces (e_value v))"
  shows "good_memo env lookup (m(n \<mapsto> x))"
  unfolding good_memo_def
proof (intro allI impI)
  let ?m = "m(n \<mapsto> x)"
  have le: "m \<subseteq>\<^sub>m ?m" using assms(4) by (simp add: map_le_def dom_def)
  fix k y assume ky: "?m k = Some y"
  show "\<exists>v. map_of env k = Some v \<and> is_value v \<and> all_known env ?m (Some k) (pieces (e_value v))
      \<and> y = text_of (reads env lookup ?m (Some k)) (pieces (e_value v))"
  proof (cases "k = n")
    case True
    with ky assms all_known_mono[OF assms(5) le] text_of_mono[OF assms(5) le] show ?thesis by auto
  next
    case False
    with ky have "m k = Some y" by simp
    with assms(1) obtain w where w: "map_of env k = Some w" "is_value w"
      "all_known env m (Some k) (pieces (e_value w))"
      "y = text_of (reads env lookup m (Some k)) (pieces (e_value w))"
      unfolding good_memo_def by metis
    with all_known_mono[OF w(3) le] text_of_mono[OF w(3) le] show ?thesis by metis
  qed
qed

definition self_of :: "string list \<Rightarrow> string option" where
  "self_of seen = (if seen = [] then None else Some (last seen))"

definition keeps :: "string list \<Rightarrow> memo \<Rightarrow> memo \<Rightarrow> bool" where
  "keeps seen m m' \<longleftrightarrow> m \<subseteq>\<^sub>m m' \<and> (\<forall>n\<in>set seen. m n = None \<longrightarrow> m' n = None)"

lemma keeps_refl [simp]: "keeps seen m m"
  by (simp add: keeps_def)

lemma keeps_trans: "keeps seen m m' \<Longrightarrow> keeps seen m' m'' \<Longrightarrow> keeps seen m m''"
  unfolding keeps_def by (metis map_le_trans)

lemma resolve_expand_good:
  "good_memo env lookup memo \<Longrightarrow>
   good_memo env lookup (snd (resolve env lookup name seen memo))
   \<and> keeps seen memo (snd (resolve env lookup name seen memo))
   \<and> (\<forall>r. fst (resolve env lookup name seen memo) = Inr r \<longrightarrow>
        r = reads env lookup (snd (resolve env lookup name seen memo)) (self_of seen) name
        \<and> known env (snd (resolve env lookup name seen memo)) (self_of seen) name)"
  "good_memo env lookup memo \<Longrightarrow>
   good_memo env lookup (snd (snd (expand env lookup ps seen memo)))
   \<and> keeps seen memo (snd (snd (expand env lookup ps seen memo)))
   \<and> (fst (snd (expand env lookup ps seen memo)) = None \<longrightarrow>
        fst (expand env lookup ps seen memo)
          = text_of (reads env lookup (snd (snd (expand env lookup ps seen memo))) (self_of seen)) ps
        \<and> all_known env (snd (snd (expand env lookup ps seen memo))) (self_of seen) ps)"
proof (induction env lookup name seen memo and env lookup ps seen memo rule: resolve_expand.induct)
  case (1 env lookup name seen memo)
  show ?case
  proof (cases "map_of env name")
    case None
    then show ?thesis using "1.prems" by (simp add: resolve.simps reads_def known_def own_value_def)
  next
    case (Some v)
    show ?thesis
    proof (cases "e_unset v \<or> \<not> is_value v \<or> (seen \<noteq> [] \<and> last seen = name)")
      case True
      then show ?thesis using "1.prems" Some is_value_set[of v]
        by (auto simp: resolve.simps reads_def known_def own_value_def self_of_def)
    next
      case False
      then have v: "\<not> e_unset v" "is_value v" "self_of seen \<noteq> Some name"
        "\<not> (\<not> is_value v \<or> (seen \<noteq> [] \<and> last seen = name))" by (auto simp: self_of_def)
      show ?thesis
      proof (cases "memo name")
        case (Some x)
        then show ?thesis using "1.prems" \<open>map_of env name = Some v\<close> v
          by (auto simp: resolve.simps reads_def known_def)
      next
        case None
        show ?thesis
        proof (cases "name \<in> set seen")
          case True
          then show ?thesis using "1.prems" \<open>map_of env name = Some v\<close> v None by (auto simp: resolve.simps)
        next
          case False
          obtain x failed m where e: "expand env lookup (pieces (e_value v)) (seen @ [name]) memo = (x, failed, m)"
            by (metis prod_cases3)
          note IH = "1.IH"[OF \<open>map_of env name = Some v\<close> v(1,4) None False "1.prems", unfolded e snd_conv fst_conv]
          have self: "self_of (seen @ [name]) = Some name" by (simp add: self_of_def)
          have keep: "keeps seen memo m" "m name = None"
            using IH None by (auto simp: keeps_def)
          show ?thesis
          proof (cases failed)
            case (Some err)
            then show ?thesis using IH keep \<open>map_of env name = Some v\<close> v None False e
              by (auto simp: resolve.simps)
          next
            case None
            then have "good_memo env lookup (m(name \<mapsto> x))"
              using IH keep(2) \<open>map_of env name = Some v\<close> v self by (intro good_memo_insert) auto
            moreover have "keeps seen memo (m(name \<mapsto> x))"
              using keep False \<open>memo name = None\<close> unfolding keeps_def map_le_def dom_def by auto
            moreover have "resolve env lookup name seen memo = (Inr (Some x), m(name \<mapsto> x))"
              using None \<open>map_of env name = Some v\<close> v \<open>memo name = None\<close> False e
              by (subst resolve.simps) (auto simp del: fun_upd_apply)
            ultimately show ?thesis
              using \<open>map_of env name = Some v\<close> v
              by (simp add: reads_def known_def fun_upd_same del: fun_upd_apply)
          qed
        qed
      qed
    qed
  qed
next
  case (2 env lookup seen memo)
  then show ?case by (simp add: expand.simps text_of_def all_known_def)
next
  case (3 env lookup c ps seen memo)
  then show ?case
    by (auto simp: expand.simps(2) text_of_def piece_text_def all_known_def split: prod.splits)
next
  case (4 env lookup name d ps seen memo)
  obtain got m1 where r: "resolve env lookup name seen memo = (got, m1)" by fastforce
  obtain x failed m2 where e: "expand env lookup ps seen m1 = (x, failed, m2)" by (metis prod_cases3)
  note A = "4.IH"(1)[OF "4.prems", unfolded r snd_conv fst_conv]
  note B = "4.IH"(2)[OF r[symmetric] refl, unfolded e snd_conv fst_conv]
  have le: "m1 \<subseteq>\<^sub>m m2" and good: "good_memo env lookup m2" and keep: "keeps seen memo m2"
    using A B keeps_trans by (auto simp: keeps_def)
  show ?case
  proof (cases got)
    case (Inl err)
    with r e good keep show ?thesis by (simp add: expand.simps(3))
  next
    case (Inr v)
    with A have v: "v = reads env lookup m1 (self_of seen) name" "known env m1 (self_of seen) name" by auto
    then have "v = reads env lookup m2 (self_of seen) name" "known env m2 (self_of seen) name"
      using reads_mono[OF v(2) le] known_mono[OF v(2) le] by auto
    with Inr r e good keep B A show ?thesis
      by (auto simp: expand.simps(3) text_of_def piece_text_def all_known_def)
  qed
qed

subsection \<open>The change as a solution\<close>

definition abs_entry :: "string \<Rightarrow> string \<Rightarrow> string" where
  "abs_entry dir x = (if is_abs x then x else path_join [dir, x])"

definition value_text :: "env_table \<Rightarrow> (string \<Rightarrow> string option) \<Rightarrow> (string \<Rightarrow> string option) \<Rightarrow> string \<Rightarrow> string \<Rightarrow> string" where
  "value_text env lookup vals n s = text_of (reads env lookup vals (Some n)) (pieces s)"

text \<open>What the variable \<open>n\<close> adds to the change, when the variables with a value have the values \<open>vals\<close>.\<close>

definition entry_change ::
  "env_table \<Rightarrow> string \<Rightarrow> (string \<Rightarrow> string option) \<Rightarrow> (string \<Rightarrow> string option) \<Rightarrow> string \<Rightarrow> env_change" where
  "entry_change env dir lookup vals n =
     (case map_of env n of
        None \<Rightarrow> empty_change
      | Some v \<Rightarrow>
          if e_unset v then empty_change\<lparr>c_unset := [n]\<rparr>
          else if e_prepend v \<noteq> []
          then empty_change\<lparr>c_prepend :=
            [(n, map (\<lambda>e. abs_entry dir (value_text env lookup vals n e)) (e_prepend v))]\<rparr>
          else if e_required v \<noteq> []
          then (if lookup n = None \<or> lookup n = Some [] then empty_change\<lparr>c_missing := [(n, e_required v)]\<rparr>
                else empty_change)
          else empty_change\<lparr>c_set := [(n, value_text env lookup vals n (e_value v))]\<rparr>)"

definition join_change :: "env_change \<Rightarrow> env_change \<Rightarrow> env_change" where
  "join_change a b =
     \<lparr>c_set = c_set a @ c_set b, c_unset = c_unset a @ c_unset b, c_prepend = c_prepend a @ c_prepend b,
      c_missing = c_missing a @ c_missing b\<rparr>"

fun solution ::
  "env_table \<Rightarrow> string \<Rightarrow> (string \<Rightarrow> string option) \<Rightarrow> (string \<Rightarrow> string option) \<Rightarrow> string list \<Rightarrow> env_change" where
  "solution env dir lookup vals [] = empty_change"
| "solution env dir lookup vals (n # ns) =
     join_change (entry_change env dir lookup vals n) (solution env dir lookup vals ns)"

lemma join_change_simps [simp]:
  "join_change empty_change b = b" "join_change a empty_change = a"
  "join_change (join_change a b) c = join_change a (join_change b c)"
  "c_set (join_change a b) = c_set a @ c_set b"
  by (simp_all add: join_change_def empty_change_def)

lemma join_updates:
  "join_change c (empty_change\<lparr>c_set := s\<rparr>) = c\<lparr>c_set := c_set c @ s\<rparr>"
  "join_change c (empty_change\<lparr>c_unset := u\<rparr>) = c\<lparr>c_unset := c_unset c @ u\<rparr>"
  "join_change c (empty_change\<lparr>c_prepend := p\<rparr>) = c\<lparr>c_prepend := c_prepend c @ p\<rparr>"
  "join_change c (empty_change\<lparr>c_missing := m\<rparr>) = c\<lparr>c_missing := c_missing c @ m\<rparr>"
  by (cases c; simp add: join_change_def empty_change_def)+

definition change_known :: "env_table \<Rightarrow> memo \<Rightarrow> string \<Rightarrow> bool" where
  "change_known env m n \<longleftrightarrow>
     (\<forall>v. map_of env n = Some v \<longrightarrow>
        (is_value v \<longrightarrow> m n \<noteq> None \<and> all_known env m (Some n) (pieces (e_value v)))
        \<and> (\<not> e_unset v \<longrightarrow> (\<forall>e\<in>set (e_prepend v). all_known env m (Some n) (pieces e))))"

lemma entry_change_mono:
  assumes "change_known env m n" "m \<subseteq>\<^sub>m m'"
  shows "entry_change env dir lookup m' n = entry_change env dir lookup m n"
proof (cases "map_of env n")
  case (Some v)
  have "value_text env lookup m' n e = value_text env lookup m n e"
    if "all_known env m (Some n) (pieces e)" for e
    unfolding value_text_def using that assms(2) by (rule text_of_mono)
  with assms(1) Some show ?thesis
    by (auto simp: entry_change_def change_known_def is_value_def)
qed (simp add: entry_change_def)

lemma prepend_entries_good:
  "good_memo env lookup m \<Longrightarrow> prepend_entries env lookup dir n es m = Inr (xs, m') \<Longrightarrow>
   good_memo env lookup m' \<and> m \<subseteq>\<^sub>m m' \<and> (\<forall>e\<in>set es. all_known env m' (Some n) (pieces e))
   \<and> xs = map (\<lambda>e. abs_entry dir (value_text env lookup m' n e)) es"
proof (induction es arbitrary: m xs m')
  case (Cons e es)
  obtain x failed m1 where e: "expand env lookup (pieces e) [n] m = (x, failed, m1)" by (metis prod_cases3)
  with Cons.prems obtain ys where ys: "failed = None" "prepend_entries env lookup dir n es m1 = Inr (ys, m')"
    "xs = abs_entry dir x # ys"
    by (auto simp: and_then_Inr abs_entry_def split: option.splits)
  note A = resolve_expand_good(2)[OF Cons.prems(1), of "pieces e" "[n]", unfolded e]
  then have m1: "good_memo env lookup m1" "m \<subseteq>\<^sub>m m1" "all_known env m1 (Some n) (pieces e)"
    "x = value_text env lookup m1 n e"
    using ys(1) by (auto simp: keeps_def self_of_def value_text_def)
  note B = Cons.IH[OF m1(1) ys(2)]
  then have "value_text env lookup m' n e = x" "all_known env m' (Some n) (pieces e)" "m \<subseteq>\<^sub>m m'"
    using m1 text_of_mono[of env m1 "Some n" "pieces e" m'] all_known_mono map_le_trans
    by (auto simp: value_text_def)
  with B ys(3) show ?case by auto
qed simp

lemma resolve_names_solution:
  "good_memo env lookup m \<Longrightarrow> resolve_names env dir lookup ns change m = Inr change' \<Longrightarrow>
   \<exists>m'. good_memo env lookup m' \<and> m \<subseteq>\<^sub>m m' \<and> (\<forall>n\<in>set ns. change_known env m' n)
     \<and> change' = join_change change (solution env dir lookup m' ns)"
proof (induction ns arbitrary: change m)
  case (Cons n ns)
  have step: ?case
    if g: "good_memo env lookup m1" and le: "m \<subseteq>\<^sub>m m1" and k: "change_known env m1 n"
      and r: "resolve_names env dir lookup ns (join_change change (entry_change env dir lookup m1 n)) m1 = Inr change'"
    for m1
  proof -
    obtain m' where m': "good_memo env lookup m'" "m1 \<subseteq>\<^sub>m m'" "\<forall>k\<in>set ns. change_known env m' k"
      "change' = join_change (join_change change (entry_change env dir lookup m1 n)) (solution env dir lookup m' ns)"
      using Cons.IH[OF g r] by blast
    have "change_known env m' n"
      using k m'(2) all_known_mono unfolding change_known_def
      by (metis domIff map_le_implies_dom_le subsetD)
    moreover have "m \<subseteq>\<^sub>m m'" using le m'(2) by (rule map_le_trans)
    ultimately show ?thesis
      using m' entry_change_mono[OF k m'(2), of dir lookup] by auto
  qed
  show ?case
  proof (cases "map_of env n")
    case None
    then show ?thesis using Cons.prems by (intro step[of m]) (auto simp: entry_change_def change_known_def)
  next
    case (Some v)
    consider "e_unset v" | "\<not> e_unset v" "e_prepend v \<noteq> []" | "\<not> e_unset v" "e_prepend v = []" "e_required v \<noteq> []"
      | "is_value v" by (auto simp: is_value_def)
    then show ?thesis
    proof cases
      case 1
      then show ?thesis using Some Cons.prems
        by (intro step[of m])
          (auto simp: entry_change_def change_known_def is_value_def join_updates)
    next
      case 2
      with Some Cons.prems obtain es m1 where
        p: "prepend_entries env lookup dir n (e_prepend v) m = Inr (es, m1)"
        and r: "resolve_names env dir lookup ns (change\<lparr>c_prepend := c_prepend change @ [(n, es)]\<rparr>) m1 = Inr change'"
        by (auto simp: and_then_Inr)
      have "entry_change env dir lookup m1 n = empty_change\<lparr>c_prepend := [(n, es)]\<rparr>"
        using prepend_entries_good[OF Cons.prems(1) p] Some 2 by (simp add: entry_change_def)
      then show ?thesis
        using prepend_entries_good[OF Cons.prems(1) p] r Some 2
        by (intro step[of m1]) (auto simp: change_known_def is_value_def join_updates)
    next
      case 3
      then show ?thesis using Some Cons.prems
        by (intro step[of m])
          (auto simp: entry_change_def change_known_def is_value_def join_updates)
    next
      case 4
      then have v: "\<not> e_unset v" "e_prepend v = []" "e_required v = []" by (auto simp: is_value_def)
      obtain x m1 where r: "resolve env lookup n [] m = (Inr x, m1)"
        and rest: "resolve_names env dir lookup ns
          (change\<lparr>c_set := c_set change @ [(n, case x of None \<Rightarrow> [] | Some y \<Rightarrow> y)]\<rparr>) m1 = Inr change'"
        using Cons.prems(2) Some v by (auto split: prod.splits sum.splits)
      have A: "good_memo env lookup m1" "m \<subseteq>\<^sub>m m1" "x = m1 n" "m1 n \<noteq> None"
        using resolve_expand_good(1)[OF Cons.prems(1), of n "[]", unfolded r] Some 4 v
        by (auto simp: keeps_def self_of_def reads_def known_def own_value_def)
      then obtain y where y: "m1 n = Some y" by blast
      then have k: "all_known env m1 (Some n) (pieces (e_value v))" "y = value_text env lookup m1 n (e_value v)"
        using A(1) Some unfolding good_memo_def value_text_def by force+
      show ?thesis
        using A y k rest Some v 4
        by (intro step[of m1]) (auto simp: entry_change_def change_known_def is_value_def join_updates)
    qed
  qed
qed auto

lemma c_set_solution:
  "c_set (solution env dir lookup vals ns) =
   map (\<lambda>n. (n, value_text env lookup vals n (e_value (the (map_of env n))))) (filter (own_value env) ns)"
  by (induction ns)
    (auto simp: entry_change_def own_value_def is_value_def empty_change_def split: option.splits)

lemma map_of_pairs: "map_of (map (\<lambda>n. (n, f n)) ns) k = (if k \<in> set ns then Some (f k) else None)"
  by (induction ns) auto

lemma reads_cong:
  "(\<And>k. own_value env k \<Longrightarrow> f k = g k) \<Longrightarrow> reads env lookup f self n = reads env lookup g self n"
  by (auto simp: reads_def own_value_def split: option.splits)

lemma solution_cong:
  assumes "\<And>k. own_value env k \<Longrightarrow> f k = g k"
  shows "solution env dir lookup f ns = solution env dir lookup g ns"
proof -
  have "value_text env lookup f n e = value_text env lookup g n e" for n e
    unfolding value_text_def by (intro text_of_cong reads_cong assms)
  then have "entry_change env dir lookup f n = entry_change env dir lookup g n" for n
    by (cases "map_of env n") (simp_all add: entry_change_def)
  then show ?thesis by (induction ns) simp_all
qed

subsection \<open>Circles\<close>

definition texts_of :: "env_table \<Rightarrow> string \<Rightarrow> string list" where
  "texts_of env n = (case map_of env n of None \<Rightarrow> [] | Some v \<Rightarrow> e_value v # e_prepend v)"

text \<open>An edge leads from a variable to another one, with a value, that a text of the first names.\<close>

definition edges :: "env_table \<Rightarrow> (string \<times> string) set" where
  "edges env =
     {(a, b). own_value env b \<and> a \<noteq> b \<and> (\<exists>t\<in>set (texts_of env a). \<exists>d. Ref b d \<in> set (pieces t))}"

definition linked :: "env_table \<Rightarrow> string list \<Rightarrow> bool" where
  "linked env seen \<longleftrightarrow> successively (\<lambda>a b. (a, b) \<in> edges env) seen"

definition named_by_last :: "env_table \<Rightarrow> string list \<Rightarrow> string \<Rightarrow> bool" where
  "named_by_last env seen n \<longleftrightarrow>
     seen = [] \<or> (\<exists>t\<in>set (texts_of env (last seen)). \<exists>d. Ref n d \<in> set (pieces t))"

lemma linked_trancl:
  "linked env (xs @ a # ys) \<Longrightarrow> ys \<noteq> [] \<Longrightarrow> (a, last ys) \<in> (edges env)\<^sup>+"
proof (induction ys arbitrary: xs a)
  case (Cons y ys)
  have e: "(a, y) \<in> edges env" using Cons.prems(1) by (auto simp: linked_def successively_append_iff)
  show ?case
  proof (cases "ys = []")
    case True
    with e show ?thesis by auto
  next
    case False
    with Cons.IH[of "xs @ [a]" y] Cons.prems(1) e show ?thesis by (auto intro: trancl_into_trancl2)
  qed
qed simp

lemma resolve_expand_circle:
  "linked env seen \<Longrightarrow> named_by_last env seen name \<Longrightarrow>
   fst (resolve env lookup name seen memo) = Inl e \<Longrightarrow> \<exists>a. (a, a) \<in> (edges env)\<^sup>+"
  "linked env seen \<Longrightarrow> seen \<noteq> [] \<Longrightarrow> (\<forall>n d. Ref n d \<in> set ps \<longrightarrow> named_by_last env seen n) \<Longrightarrow>
   fst (snd (expand env lookup ps seen memo)) = Some e \<Longrightarrow> \<exists>a. (a, a) \<in> (edges env)\<^sup>+"
proof (induction env lookup name seen memo and env lookup ps seen memo
    arbitrary: e and e rule: resolve_expand.induct)
  case (1 env lookup name seen memo)
  then obtain v where v: "map_of env name = Some v" "\<not> e_unset v"
    "\<not> (\<not> is_value v \<or> (seen \<noteq> [] \<and> last seen = name))" "memo name = None"
    by (auto simp: resolve.simps split: option.splits if_splits)
  then have own: "own_value env name" by (simp add: own_value_def)
  have link: "(last seen, name) \<in> edges env" if "seen \<noteq> []"
    using that "1.prems"(2) own v(3) by (auto simp: edges_def named_by_last_def)
  show ?case
  proof (cases "name \<in> set seen")
    case True
    then obtain xs ys where s: "seen = xs @ name # ys" by (metis split_list)
    with v(3) have "ys \<noteq> []" by auto
    with linked_trancl[of env xs name ys] "1.prems"(1) s have "(name, last seen) \<in> (edges env)\<^sup>+" by simp
    with link s show ?thesis by (metis append_is_Nil_conv list.distinct(1) trancl.trancl_into_trancl)
  next
    case False
    obtain x failed m where ex: "expand env lookup (pieces (e_value v)) (seen @ [name]) memo = (x, failed, m)"
      by (metis prod_cases3)
    have "fst (snd (expand env lookup (pieces (e_value v)) (seen @ [name]) memo)) = Some e"
      using "1.prems"(3) v False ex by (auto simp: resolve.simps split: option.splits if_splits)
    moreover have "linked env (seen @ [name])"
      using "1.prems"(1) link by (auto simp: linked_def successively_append_iff)
    moreover have "\<forall>n d. Ref n d \<in> set (pieces (e_value v)) \<longrightarrow> named_by_last env (seen @ [name]) n"
      using v(1) by (auto simp: named_by_last_def texts_of_def)
    ultimately show ?thesis using "1.IH"[OF v False] by blast
  qed
next
  case (2 env lookup seen memo)
  then show ?case by (simp add: expand.simps)
next
  case (3 env lookup c ps seen memo)
  then show ?case by (auto simp: expand.simps(2) split: prod.splits)
next
  case (4 env lookup name d ps seen memo)
  obtain got m1 where r: "resolve env lookup name seen memo = (got, m1)" by fastforce
  obtain x failed m2 where ex: "expand env lookup ps seen m1 = (x, failed, m2)" by (metis prod_cases3)
  show ?case
  proof (cases got)
    case (Inl e1)
    with 4(1)[of e1] "4.prems" r show ?thesis by auto
  next
    case (Inr g)
    then have "failed = Some e" using "4.prems"(4) r ex by (simp add: expand.simps(3))
    with 4(2)[OF r[symmetric] refl, of e] "4.prems" ex show ?thesis by auto
  qed
qed

lemma prepend_circle:
  "prepend_entries env lookup dir n es m = Inl e \<Longrightarrow> set es \<subseteq> set (texts_of env n) \<Longrightarrow>
   \<exists>a. (a, a) \<in> (edges env)\<^sup>+"
proof (induction es arbitrary: m)
  case (Cons t es)
  obtain x failed m1 where ex: "expand env lookup (pieces t) [n] m = (x, failed, m1)" by (metis prod_cases3)
  show ?case
  proof (cases failed)
    case None
    with Cons ex show ?thesis by (auto simp: and_then_Inl)
  next
    case (Some e1)
    have "\<forall>k d. Ref k d \<in> set (pieces t) \<longrightarrow> named_by_last env [n] k"
      using Cons.prems(2) by (auto simp: named_by_last_def)
    with Some ex resolve_expand_circle(2)[of env "[n]" "pieces t" lookup m e1] show ?thesis
      by (simp add: linked_def)
  qed
qed simp

lemma resolve_names_circle:
  "resolve_names env dir lookup ns change m = Inl e \<Longrightarrow> \<exists>a. (a, a) \<in> (edges env)\<^sup>+"
proof (induction ns arbitrary: change m)
  case (Cons n ns)
  show ?case
  proof (cases "\<exists>v. map_of env n = Some v \<and> \<not> e_unset v \<and> e_prepend v \<noteq> []")
    case True
    then obtain v where v: "map_of env n = Some v" "\<not> e_unset v" "e_prepend v \<noteq> []" by blast
    with Cons prepend_circle[of env lookup dir n "e_prepend v" m] show ?thesis
      by (auto simp: and_then_Inl texts_of_def)
  next
    case False
    then show ?thesis
      using Cons resolve_expand_circle(1)[of env "[]" n lookup m]
      by (auto simp: linked_def named_by_last_def split: option.splits if_splits prod.splits sum.splits)
  qed
qed simp

definition safe_entry :: "string \<times> env_value \<Rightarrow> bool" where
  "safe_entry nv \<longleftrightarrow>
     valid_env_name (fst nv) \<and> (reserved_env (fst nv) \<longrightarrow> fst nv = ''PATH'' \<and> e_prepend (snd nv) \<noteq> [] \<and> \<not> e_unset (snd nv))"

lemma env_value_fields_unset: "env_value_fields t v = Inr w \<Longrightarrow> e_unset w = e_unset v"
  by (induction t v rule: env_value_fields.induct) (auto split: if_splits toml.splits)

lemma to_env_value_prepend: "to_env_value value = Inr v \<Longrightarrow> e_prepend v \<noteq> [] \<Longrightarrow> \<not> e_unset v"
  by (auto simp: to_env_value_def and_then_Inr empty_value_def dest!: env_value_fields_unset
      split: toml.splits if_splits)

lemma to_env_safe:
  "to_env t env files = Inr (env', files') \<Longrightarrow> list_all safe_entry env \<Longrightarrow> list_all safe_entry env'"
proof (induction t env files rule: to_env.induct)
  case (2 name val rest env files)
  show ?case
  proof (cases "file_tables name val")
    case (Some tables)
    with 2 show ?thesis by (auto simp: and_then_Inr)
  next
    case None
    with "2.prems"(1) obtain v where v: "to_env_value val = Inr v" "check_env_name name (e_prepend v \<noteq> []) = None"
      "to_env rest (env @ [(name, v)]) files = Inr (env', files')"
      by (auto simp: and_then_Inr split: option.splits)
    then have "safe_entry (name, v)"
      using to_env_value_prepend[OF v(1)] by (auto simp: safe_entry_def check_env_name_def split: if_splits)
    with 2 v None show ?thesis by simp
  qed
qed simp

lemma solution_names:
  "n \<in> fst ` set (c_set (solution env dir lookup vals ns)) \<Longrightarrow> own_value env n"
  "n \<in> set (c_unset (solution env dir lookup vals ns)) \<Longrightarrow> \<exists>v. map_of env n = Some v \<and> e_unset v"
  subgoal by (auto simp: c_set_solution)
  subgoal by (induction ns)
    (auto simp: entry_change_def empty_change_def join_change_def split: option.splits if_splits)
  done

definition example_env :: env_table where
  "example_env =
     [(''A'', empty_value\<lparr>e_value := ''x'' @ dollar # ''{B}'' @ dollar # ''{A:-z}''\<rparr>),
      (''PATH'', empty_value\<lparr>e_prepend := [''bin'']\<rparr>), (''B'', empty_value\<lparr>e_value := ''y''\<rparr>)]"

definition example_change :: env_change where
  "example_change =
     empty_change\<lparr>c_set := [(''A'', ''xyz''), (''B'', ''y'')], c_prepend := [(''PATH'', [''/d/bin''])]\<rparr>"

definition circle_env :: env_table where
  "circle_env =
     [(''A'', empty_value\<lparr>e_value := dollar # ''{B}''\<rparr>), (''B'', empty_value\<lparr>e_value := dollar # ''{A}''\<rparr>)]"

subsection \<open>Properties\<close>

text \<open> C16. When \<open>ResolveEnv\<close> succeeds, its result is a solution of the table: every variable with a value
  has the text of its value, where each reference reads the other variables as the result sets them and
  its own variable as it was before, and the variables to remove, the entries to prepend and the missing
  variables are those of the table, in the order of the names.\<close>
theorem resolve_env_solves:
  assumes "resolve_env env dir lookup = Inr change"
  shows "change = solution env dir lookup (map_of (c_set change)) (sort_func str_cmp (map fst env))"
proof -
  let ?ns = "sort_func str_cmp (map fst env)"
  have "good_memo env lookup (\<lambda>_. None)" by (simp add: good_memo_def)
  then obtain m where m: "good_memo env lookup m" "\<forall>n\<in>set ?ns. change_known env m n"
    "change = solution env dir lookup m ?ns"
    using resolve_names_solution assms unfolding resolve_env_def by fastforce
  have "map_of (c_set change) k = m k" if "own_value env k" for k
  proof -
    obtain v where v: "map_of env k = Some v" "is_value v" using \<open>own_value env k\<close> by (auto simp: own_value_def)
    then have k: "k \<in> set ?ns" by (metis domI dom_map_of_conv_image_fst set_map set_sort_func)
    with m(2) v have "m k \<noteq> None" by (auto simp: change_known_def)
    with m(1) v have "m k = Some (value_text env lookup m k (e_value v))"
      unfolding good_memo_def value_text_def by force
    with k that v show ?thesis by (simp add: m(3) c_set_solution map_of_pairs)
  qed
  with m(3) solution_cong[of env "map_of (c_set change)" m] show ?thesis by metis
qed

theorem resolve_env_solves_witness:
  "example_change = solution example_env ''/d'' (\<lambda>_. None) (map_of (c_set example_change))
     (sort_func str_cmp (map fst example_env))"
  by (rule resolve_env_solves) code_simp

text \<open> C35. \<open>ResolveEnv\<close> fails only when values name each other in a circle: on a table with no circle of
  references between different variables it returns a change.\<close>
theorem resolve_env_total:
  assumes "acyclic (edges env)"
  shows "\<exists>change. resolve_env env dir lookup = Inr change"
  using resolve_names_circle[of env dir lookup "sort_func str_cmp (map fst env)" empty_change "\<lambda>_. None"]
    assms unfolding resolve_env_def acyclic_def by (meson obj_sumE)

theorem resolve_env_total_witness:
  "\<exists>change. resolve_env [(''B'', empty_value\<lparr>e_value := ''y''\<rparr>)] ''/d'' (\<lambda>_. None) = Inr change"
proof (rule resolve_env_total)
  have "pieces ''y'' = [Lit (CHR ''y'')]" by code_simp
  then have "edges [(''B'', empty_value\<lparr>e_value := ''y''\<rparr>)] = {}"
    by (auto simp: edges_def texts_of_def empty_value_def split: if_splits)
  then show "acyclic (edges [(''B'', empty_value\<lparr>e_value := ''y''\<rparr>)])" by (simp add: acyclic_def)
qed

text \<open> Two variables that name each other are an error that says through which names.\<close>
theorem resolve_env_circle:
  "resolve_env circle_env ''/d'' (\<lambda>_. Some ''v'') = Inl (NamesItself ''A'' [''A'', ''B''])"
  by code_simp


text \<open> A list never controls the shell: whatever its \<open>[env]\<close> table holds, the variables that it sets or
  removes have valid names and none of them is reserved.\<close>
theorem env_never_sets_reserved:
  assumes "to_env table [] [] = Inr (env, files)" "resolve_env env dir lookup = Inr change"
    and "n \<in> set (c_unset change) \<union> fst ` set (c_set change)"
  shows "valid_env_name n \<and> \<not> reserved_env n"
proof -
  have "list_all safe_entry env" using to_env_safe[OF assms(1)] by simp
  then have safe: "safe_entry (n, v)" if "map_of env n = Some v" for v
    using that by (auto simp: list_all_iff dest: map_of_SomeD)
  have "good_memo env lookup (\<lambda>_. None)" by (simp add: good_memo_def)
  then obtain m where "change = solution env dir lookup m (sort_func str_cmp (map fst env))"
    using resolve_names_solution assms(2) unfolding resolve_env_def by fastforce
  with assms(3) solution_names[of n env dir lookup m "sort_func str_cmp (map fst env)"]
  obtain v where "map_of env n = Some v" "e_unset v \<or> is_value v" by (auto simp: own_value_def)
  with safe[of v] show ?thesis by (auto simp: safe_entry_def is_value_def)
qed

theorem env_never_sets_reserved_witness: "valid_env_name ''EDITOR'' \<and> \<not> reserved_env ''EDITOR''"
  by (rule env_never_sets_reserved[of "[(''EDITOR'', TStr ''vi''), (''PATH'', TTab [(''prepend'', TArr [TStr ''bin''])])]"
        "[(''EDITOR'', empty_value\<lparr>e_value := ''vi''\<rparr>), (''PATH'', empty_value\<lparr>e_prepend := [''bin'']\<rparr>)]" "[]"
        "''/d''" "\<lambda>_. None"
        "empty_change\<lparr>c_set := [(''EDITOR'', ''vi'')], c_prepend := [(''PATH'', [''/d/bin''])]\<rparr>"]) code_simp+

end
