(* ===== verification/Go_Regex.thy ===== *)
theory Go_Regex
  imports Prelude
begin

text \<open>
  The regular expressions of the sources: a syntax tree, the texts that it describes, and a matcher by
  derivatives, which agrees with them. A Go expression of the form \<open>^r$\<close> matches a text when the whole
  text is one that \<open>r\<close> describes.
\<close>

datatype rx =
    Never
  | Empty
  | Class "char \<Rightarrow> bool"
  | Seq rx rx
  | Or rx rx
  | Star rx

inductive describes :: "rx \<Rightarrow> string \<Rightarrow> bool" where
  describes_Empty: "describes Empty []"
| describes_Class: "P c \<Longrightarrow> describes (Class P) [c]"
| describes_Seq: "describes r s \<Longrightarrow> describes q t \<Longrightarrow> describes (Seq r q) (s @ t)"
| describes_Or1: "describes r s \<Longrightarrow> describes (Or r q) s"
| describes_Or2: "describes q s \<Longrightarrow> describes (Or r q) s"
| describes_Star0: "describes (Star r) []"
| describes_StarS: "describes r s \<Longrightarrow> describes (Star r) t \<Longrightarrow> describes (Star r) (s @ t)"

inductive_simps describes_simps [simp]:
  "describes Never s" "describes Empty s" "describes (Class P) s" "describes (Seq r q) s" "describes (Or r q) s"

inductive_cases describes_StarE: "describes (Star r) s"

fun nullable :: "rx \<Rightarrow> bool" where
  "nullable Never = False"
| "nullable Empty = True"
| "nullable (Class P) = False"
| "nullable (Seq r q) = (nullable r \<and> nullable q)"
| "nullable (Or r q) = (nullable r \<or> nullable q)"
| "nullable (Star r) = True"

fun deriv :: "char \<Rightarrow> rx \<Rightarrow> rx" where
  "deriv c Never = Never"
| "deriv c Empty = Never"
| "deriv c (Class P) = (if P c then Empty else Never)"
| "deriv c (Seq r q) = (if nullable r then Or (Seq (deriv c r) q) (deriv c q) else Seq (deriv c r) q)"
| "deriv c (Or r q) = Or (deriv c r) (deriv c q)"
| "deriv c (Star r) = Seq (deriv c r) (Star r)"

definition rx_match :: "rx \<Rightarrow> string \<Rightarrow> bool" where
  "rx_match r s = nullable (fold deriv s r)"

lemma nullable_iff: "nullable r \<longleftrightarrow> describes r []"
  by (induction r) (auto intro: describes_Star0)

lemma star_cons:
  "describes (Star r) (c # s) \<longleftrightarrow> (\<exists>a b. s = a @ b \<and> describes r (c # a) \<and> describes (Star r) b)"
proof
  have "describes q w \<Longrightarrow> q = Star r \<Longrightarrow> w = c # s \<Longrightarrow>
    \<exists>a b. s = a @ b \<and> describes r (c # a) \<and> describes (Star r) b" for q w
    by (induction rule: describes.induct) (auto simp: append_eq_Cons_conv)
  then show "describes (Star r) (c # s) \<Longrightarrow> \<exists>a b. s = a @ b \<and> describes r (c # a) \<and> describes (Star r) b"
    by blast
next
  assume "\<exists>a b. s = a @ b \<and> describes r (c # a) \<and> describes (Star r) b"
  then show "describes (Star r) (c # s)" using describes_StarS by fastforce
qed

lemma deriv_iff: "describes (deriv c r) s \<longleftrightarrow> describes r (c # s)"
proof (induction r arbitrary: s)
  case (Seq r q)
  then show ?case by (auto simp: nullable_iff Cons_eq_append_conv)
next
  case (Star r)
  then show ?case by (auto simp: star_cons)
qed auto

lemma rx_match_iff: "rx_match r s \<longleftrightarrow> describes r s"
  unfolding rx_match_def by (induction s arbitrary: r) (simp_all add: nullable_iff deriv_iff)

text \<open>The characters of the texts that an expression describes.\<close>

fun rx_chars :: "rx \<Rightarrow> char \<Rightarrow> bool" where
  "rx_chars Never c = False"
| "rx_chars Empty c = False"
| "rx_chars (Class P) c = P c"
| "rx_chars (Seq r q) c = (rx_chars r c \<or> rx_chars q c)"
| "rx_chars (Or r q) c = (rx_chars r c \<or> rx_chars q c)"
| "rx_chars (Star r) c = rx_chars r c"

lemma describes_chars: "describes r s \<Longrightarrow> c \<in> set s \<Longrightarrow> rx_chars r c"
  by (induction rule: describes.induct) auto

lemma rx_match_chars: "rx_match r s \<Longrightarrow> c \<in> set s \<Longrightarrow> rx_chars r c"
  by (auto simp: rx_match_iff intro: describes_chars)

subsection \<open>Abbreviations of the syntax\<close>

definition Plus :: "rx \<Rightarrow> rx" where "Plus r = Seq r (Star r)"

definition Opt :: "rx \<Rightarrow> rx" where "Opt r = Or r Empty"

fun Upto :: "nat \<Rightarrow> rx \<Rightarrow> rx" where
  "Upto 0 r = Empty"
| "Upto (Suc n) r = Opt (Seq r (Upto n r))"

definition Text :: "char \<Rightarrow> rx" where "Text c = Class (\<lambda>d. d = c)"

fun Concat :: "rx list \<Rightarrow> rx" where
  "Concat [] = Empty"
| "Concat [r] = r"
| "Concat (r # rs) = Seq r (Concat rs)"

definition alnum_or :: "string \<Rightarrow> char \<Rightarrow> bool" where
  "alnum_or extra c \<longleftrightarrow> is_letter c \<or> is_digit c \<or> c \<in> set extra"

definition lower_num_or :: "string \<Rightarrow> char \<Rightarrow> bool" where
  "lower_num_or extra c \<longleftrightarrow> is_lower c \<or> is_digit c \<or> c \<in> set extra"

lemma rx_chars_simps [simp]:
  "rx_chars (Plus r) c = rx_chars r c" "rx_chars (Opt r) c = rx_chars r c"
  "rx_chars (Text d) c = (c = d)" "rx_chars (Concat rs) c = (\<exists>r\<in>set rs. rx_chars r c)"
proof -
  show "rx_chars (Concat rs) c = (\<exists>r\<in>set rs. rx_chars r c)" by (induction rs rule: Concat.induct) auto
qed (auto simp: Plus_def Opt_def Text_def)

lemma rx_chars_Upto: "rx_chars (Upto n r) c \<Longrightarrow> rx_chars r c"
  by (induction n) auto

end
