(* ===== verification/Ref.thy ===== *)
theory Ref
  imports Go_Path Go_Regex Go_Netip
begin

text \<open>
  Refs, \<open>internal/ref/ref.go\<close> and \<open>internal/ref/origin.go\<close>: the pointers to manifests and lists, how oku
  reads and writes them, and who wrote what they point at. The URL parser of Go is the argument \<open>purl\<close>,
  the file system the argument \<open>exists\<close>, which says whether there is something at a path.
\<close>

subsection \<open>Refs\<close>

datatype kind = File | HTTP | Forge | Git | NPM | PyPI | Go | Cargo | Cask | Scoop | Aqua | Winget

record "ref" =
  r_kind :: kind
  r_location :: string
  r_scheme :: string
  r_fragment :: string
  r_version :: string

record url =
  u_scheme :: string
  u_user :: "string option"
  u_host :: string
  u_hostname :: string
  u_port :: string
  u_path :: string
  u_query :: string
  u_fragment :: string

text \<open>The expressions for the locations of refs.\<close>

definition dotted_host :: rx where
  "dotted_host =
     Concat [Class (alnum_or []), Star (Class (alnum_or ''-'')),
       Plus (Seq (Text (CHR ''.'')) (Plus (Class (alnum_or ''-''))))]"

definition github_re :: rx where
  "github_re =
     Concat [Opt (Seq dotted_host (Text (CHR ''/''))), Class (alnum_or []), Star (Class (alnum_or ''-'')),
       Text (CHR ''/''), Plus (Class (alnum_or ''._-''))]"

definition gitea_re :: rx where
  "gitea_re =
     Concat [dotted_host, Text (CHR ''/''), Class (alnum_or []), Star (Class (alnum_or ''._-'')),
       Text (CHR ''/''), Plus (Class (alnum_or ''._-''))]"

definition gitlab_re :: rx where
  "gitlab_re =
     Concat [Class (alnum_or []), Star (Class (alnum_or ''._-'')),
       Plus (Concat [Text (CHR ''/''), Class (alnum_or ''_''), Star (Class (alnum_or ''._-''))])]"

definition codeberg_re :: rx where
  "codeberg_re =
     Concat [Class (alnum_or []), Star (Class (alnum_or ''._-'')), Text (CHR ''/''),
       Plus (Class (alnum_or ''._-''))]"

definition npm_re :: rx where
  "npm_re =
     Concat [Opt (Concat [Text (CHR ''@''), Class (lower_num_or []), Star (Class (lower_num_or ''._~-'')),
         Text (CHR ''/'')]),
       Class (lower_num_or []), Star (Class (lower_num_or ''._~-''))]"

definition name_re :: rx where
  "name_re = Seq (Class (lower_num_or [])) (Star (Class (lower_num_or ''._-'')))"

text \<open>The names that the registries take.\<close>

definition valid_pypi :: "string \<Rightarrow> bool" where
  "valid_pypi = rx_match
     (Seq (Class (alnum_or [])) (Opt (Seq (Star (Class (alnum_or ''._-''))) (Class (alnum_or [])))))"

definition valid_go_path :: "string \<Rightarrow> bool" where
  "valid_go_path p \<longleftrightarrow>
     rx_match (Concat [Plus (Class (lower_num_or ''.-'')), Text (CHR ''.''), Class is_lower, Plus (Class is_lower),
       Plus (Seq (Text (CHR ''/'')) (Plus (Class (alnum_or ''._~+-''))))]) p
     \<and> \<not> contains p ''..''"

definition valid_crate :: "string \<Rightarrow> bool" where
  "valid_crate = rx_match (Seq (Class is_letter) (Upto 63 (Class (alnum_or ''_-''))))"

definition valid_cask :: "string \<Rightarrow> bool" where
  "valid_cask token \<longleftrightarrow>
     (let name = Seq (Class (lower_num_or [])) (Star (Class (lower_num_or ''@._+-'')))
      in rx_match name token
         \<or> rx_match (Concat [Plus (Class (alnum_or ''-'')), Text (CHR ''/''), Plus (Class (alnum_or ''._-'')),
              Text (CHR ''/''), name]) token)"

definition scoop_buckets :: "string list" where
  "scoop_buckets = [''main'', ''extras'', ''versions'', ''nirsoft'', ''sysinternals'', ''php'', ''nerd-fonts'',
     ''java'', ''games'']"

definition valid_scoop :: "string \<Rightarrow> bool" where
  "valid_scoop s \<longleftrightarrow>
     (let name = Seq (Class (alnum_or [])) (Star (Class (alnum_or ''._+-'')))
      in rx_match (Concat [Plus (Class (alnum_or ''-'')), Text (CHR ''/''), Plus (Class (alnum_or ''._-'')),
             Text (CHR ''/''), name]) s
         \<or> (rx_match (Seq (Opt (Seq (Plus (Class (\<lambda>c. is_lower c \<or> c = CHR ''-''))) (Text (CHR ''/'')))) name) s
            \<and> (case cut_char (CHR ''/'') s of
                  None \<Rightarrow> True | Some (bucket, _) \<Rightarrow> bucket \<in> set scoop_buckets)))"

definition valid_winget :: "string \<Rightarrow> bool" where
  "valid_winget = rx_match
     (Concat [Class (alnum_or []), Star (Class (alnum_or ''_+-'')),
        Plus (Seq (Text (CHR ''.'')) (Plus (Class (alnum_or ''_+-''))))])"

subsection \<open>Reading a ref\<close>

datatype ref_error =
    EmptyRef
  | EmptyFragment
  | BadLocation kind string
  | OutsideRepo string
  | NotManifestName string
  | NotGitURL
  | NotEncrypted
  | BadURL
  | UnsupportedScheme
  | UnknownScheme string

definition split_version :: "string \<Rightarrow> string \<times> string" where
  "split_version s =
     (case cut_char (CHR ''@'') (rev s) of
        None \<Rightarrow> (s, [])
      | Some (rversion, rbody) \<Rightarrow>
          if rbody = [] \<or> rversion = [] \<or> contains_any (rev rversion) ''/:#'' then (s, [])
          else (rev rbody, rev rversion))"

definition is_path :: "string \<Rightarrow> bool" where
  "is_path fragment \<longleftrightarrow> contains fragment ''/'' \<or> has_suffix fragment ''.toml''"

definition forge_hosts :: "string \<rightharpoonup> string" where
  "forge_hosts = map_of [(''github.com'', ''github''), (''gitlab.com'', ''gitlab''), (''codeberg.org'', ''codeberg'')]"

definition gitlab_routes :: "string list" where
  "gitlab_routes = [''-'', ''raw'', ''blob'', ''tree'']"

definition forge_ref :: "string \<Rightarrow> string \<Rightarrow> string option" where
  "forge_ref host p =
     (case forge_hosts (to_lower host) of
        None \<Rightarrow> None
      | Some scheme \<Rightarrow>
          (let repo = trim_suffix (trim_of p ''/'') ''.git''; parts = split_char (CHR ''/'') repo
           in if length parts < 2 \<or> (scheme \<noteq> ''gitlab'' \<and> length parts \<noteq> 2) then None
              else if scheme = ''gitlab'' \<and> list_ex (\<lambda>part. part \<in> set gitlab_routes) (tl parts) then None
              else if scheme = ''gitlab'' \<and> CHR ''.'' \<in> set (hd parts)
              then Some (scheme @ '':'' @ ''gitlab.com/'' @ repo)
              else Some (scheme @ '':'' @ repo)))"

definition repo_url :: "(string \<Rightarrow> url option) \<Rightarrow> string \<Rightarrow> string option" where
  "repo_url purl s =
     (if has_any_prefix s [''https://'', ''ssh://'']
      then (case purl s of
              None \<Rightarrow> None
            | Some u \<Rightarrow>
                if u_query u \<noteq> [] \<or> u_fragment u \<noteq> [] \<or> u_port u \<noteq> []
                   \<or> (u_user u \<noteq> None \<and> (u_scheme u = ''https'' \<or> u_user u \<noteq> Some ''git''))
                then None else forge_ref (u_host u) (u_path u))
      else if has_prefix s ''git@''
      then (case cut_char (CHR '':'') (drop 4 s) of
              None \<Rightarrow> forge_ref (drop 4 s) [] | Some (host, p) \<Rightarrow> forge_ref host p)
      else None)"

definition scheme_re :: rx where
  "scheme_re = Concat [Class is_letter, Plus (Class (alnum_or ''+.-''))]"

text \<open>\<open>schemeRe\<close> matches a prefix: the text before the first colon, which its class leaves out.\<close>

definition has_scheme :: "string \<Rightarrow> bool" where
  "has_scheme s =
     (case cut_char (CHR '':'') s of None \<Rightarrow> False | Some (scheme, _) \<Rightarrow> rx_match scheme_re scheme)"

definition encrypted :: "(string \<Rightarrow> url option) \<Rightarrow> string \<Rightarrow> ref_error option" where
  "encrypted purl location =
     (if \<not> has_prefix location ''http://'' then None
      else (case purl location of
              None \<Rightarrow> Some BadURL
            | Some u \<Rightarrow>
                if u_hostname u = ''localhost''
                   \<or> (case parse_addr (u_hostname u) of
                        Some (V6 w zone) \<Rightarrow> zone = [] \<and> is_loopback (unmap (V6 w zone))
                      | Some (V4 w) \<Rightarrow> is_loopback (V4 w)
                      | None \<Rightarrow> False)
                then None else Some NotEncrypted))"

definition empty_ref :: "ref" where
  "empty_ref = \<lparr>r_kind = File, r_location = [], r_scheme = [], r_fragment = [], r_version = []\<rparr>"

text \<open>The text before the first number sign and the one after it; \<open>None\<close> when nothing follows it.\<close>

definition cut_fragment :: "string \<Rightarrow> (string \<times> string) option" where
  "cut_fragment body =
     (case cut_char (CHR ''#'') body of
        None \<Rightarrow> Some (body, []) | Some (location, fragment) \<Rightarrow> if fragment = [] then None else Some (location, fragment))"

definition forge_schemes :: "(string \<times> rx) list" where
  "forge_schemes =
     [(''github'', github_re), (''gitea'', gitea_re), (''codeberg'', codeberg_re), (''gitlab'', gitlab_re)]"

definition parse_forge :: "string \<Rightarrow> rx \<Rightarrow> string \<Rightarrow> (ref_error, ref) res" where
  "parse_forge scheme re body =
     (case cut_fragment body of
        None \<Rightarrow> Inl EmptyFragment
      | Some (location, fragment) \<Rightarrow>
          if \<not> rx_match re location then Inl (BadLocation Forge scheme)
          else if is_path fragment \<and> \<not> is_local_path fragment then Inl (OutsideRepo fragment)
          else if fragment \<noteq> [] \<and> \<not> is_path fragment \<and> \<not> rx_match name_re fragment
          then Inl (NotManifestName fragment)
          else Inr (empty_ref\<lparr>r_kind := Forge, r_scheme := scheme, r_location := location,
                 r_fragment := fragment\<rparr>))"

definition git_schema :: "string list" where
  "git_schema = [''https://'', ''http://'', ''ssh://'', ''file://'']"

definition parse_git :: "(string \<Rightarrow> url option) \<Rightarrow> string \<Rightarrow> (ref_error, ref) res" where
  "parse_git purl body =
     (case cut_fragment body of
        None \<Rightarrow> Inl EmptyFragment
      | Some (location, fragment) \<Rightarrow>
          if \<not> has_any_prefix location git_schema then Inl NotGitURL
          else (case encrypted purl location of
                  Some e \<Rightarrow> Inl e
                | None \<Rightarrow>
                    if fragment \<noteq> [] \<and> \<not> is_local_path fragment then Inl (OutsideRepo fragment)
                    else Inr (empty_ref\<lparr>r_kind := Git, r_location := location, r_fragment := fragment\<rparr>)))"

text \<open>The schemes of registries, in the order of the code, with the names that each takes.\<close>

definition registries :: "(string \<times> kind \<times> (string \<Rightarrow> bool)) list" where
  "registries =
     [(''npm:'', NPM, rx_match npm_re), (''pypi:'', PyPI, valid_pypi), (''go:'', Go, valid_go_path),
      (''cargo:'', Cargo, valid_crate), (''cask:'', Cask, valid_cask), (''scoop:'', Scoop, valid_scoop),
      (''aqua:'', Aqua, rx_match codeberg_re), (''winget:'', Winget, valid_winget)]"

definition in_base :: "string \<Rightarrow> string \<Rightarrow> string" where
  "in_base dir p = (if dir = [] \<or> is_abs p then p else path_join [dir, p])"

text \<open>The switch over the schemes of a body, the version already cut off.\<close>

definition parse_body ::
  "(string \<Rightarrow> url option) \<Rightarrow> (string \<Rightarrow> bool) \<Rightarrow> string \<Rightarrow> string \<Rightarrow> string \<Rightarrow> (ref_error, ref) res" where
  "parse_body purl exists cwd dir body =
     (case find (\<lambda>(scheme, _). has_prefix body (scheme @ '':'')) forge_schemes of
        Some (scheme, re) \<Rightarrow> parse_forge scheme re (drop (length scheme + 1) body)
      | None \<Rightarrow>
          (case find (\<lambda>(prefix, _). has_prefix body prefix) registries of
             Some (prefix, k, valid) \<Rightarrow>
               (let location = drop (length prefix) body
                in if \<not> valid location then Inl (BadLocation k location)
                   else Inr (empty_ref\<lparr>r_kind := k, r_location := location\<rparr>))
           | None \<Rightarrow>
               if has_prefix body ''git+'' then parse_git purl (drop 4 body)
               else if has_any_prefix body [''https://'', ''http://'']
               then (case encrypted purl body of
                       Some e \<Rightarrow> Inl e | None \<Rightarrow> Inr (empty_ref\<lparr>r_kind := HTTP, r_location := body\<rparr>))
               else if contains body ''://'' then Inl UnsupportedScheme
               else if has_scheme body \<and> \<not> exists (in_base dir body)
               then Inl (UnknownScheme (fst (the (cut_char (CHR '':'') body))))
               else Inr (empty_ref\<lparr>r_kind := File, r_location := path_abs cwd (in_base dir body)\<rparr>)))"

definition parse_in ::
  "(string \<Rightarrow> url option) \<Rightarrow> (string \<Rightarrow> bool) \<Rightarrow> string \<Rightarrow> string \<Rightarrow> string \<Rightarrow> (ref_error, ref) res" where
  "parse_in purl exists cwd dir s =
     (if s = [] then Inl EmptyRef
      else (let (body0, version0) =
                  (if \<not> exists (in_base dir s) \<and> \<not> has_prefix s ''cask:'' then split_version s else (s, []));
                (body, version) =
                  (case repo_url purl body0 of
                     Some forge \<Rightarrow> (forge, version0)
                   | None \<Rightarrow>
                       if has_any_prefix s [''https://'', ''http://''] \<and> \<not> contains (path_base body0) ''.''
                       then (s, []) else (body0, version0))
            in map_sum id (\<lambda>r. r\<lparr>r_version := version\<rparr>) (parse_body purl exists cwd dir body)))"

subsection \<open>Writing a ref\<close>

definition kind_prefix :: "ref \<Rightarrow> string" where
  "kind_prefix r =
     (case r_kind r of
        Forge \<Rightarrow> r_scheme r @ '':'' | Git \<Rightarrow> ''git+'' | NPM \<Rightarrow> ''npm:'' | PyPI \<Rightarrow> ''pypi:'' | Go \<Rightarrow> ''go:''
      | Cargo \<Rightarrow> ''cargo:'' | Cask \<Rightarrow> ''cask:'' | Scoop \<Rightarrow> ''scoop:'' | Aqua \<Rightarrow> ''aqua:'' | Winget \<Rightarrow> ''winget:''
      | File \<Rightarrow> [] | HTTP \<Rightarrow> [])"

definition ref_string :: "ref \<Rightarrow> string" where
  "ref_string r =
     kind_prefix r @ r_location r @ (if r_fragment r \<noteq> [] then ''#'' @ r_fragment r else [])"

definition in_dir :: "string \<Rightarrow> string \<Rightarrow> string" where
  "in_dir dir s =
     (if \<not> is_abs s then s
      else (case path_rel dir s of
              None \<Rightarrow> s | Some rel \<Rightarrow> if is_local_path rel then ''./'' @ rel else s))"

definition from_dir :: "string \<Rightarrow> string \<Rightarrow> string" where
  "from_dir dir s = (if \<not> has_prefix s ''./'' then s else path_join [dir, s])"

definition is_relative :: "string \<Rightarrow> bool" where
  "is_relative s \<longleftrightarrow> \<not> contains s '':'' \<and> \<not> is_abs s \<and> \<not> has_prefix s ''/''"

text \<open>\<open>Beside\<close>: \<open>got\<close> is the path of the file that was read, and \<open>resolve_url\<close> the URL of a reference
  beside another.\<close>

datatype beside_error = BesideURL | BesideOutside | NotBeside

definition beside ::
  "(string \<Rightarrow> string \<Rightarrow> string option) \<Rightarrow> ref \<Rightarrow> string \<Rightarrow> string \<Rightarrow> (beside_error, ref) res" where
  "beside resolve_url r got rel =
     (case r_kind r of
        HTTP \<Rightarrow>
          (case resolve_url got rel of
             None \<Rightarrow> Inl BesideURL | Some location \<Rightarrow> Inr (empty_ref\<lparr>r_kind := HTTP, r_location := location\<rparr>))
      | Forge \<Rightarrow>
          (let at = path_join [path_dir got, rel]
           in if \<not> is_local_path at then Inl BesideOutside
              else Inr (r\<lparr>r_fragment := at, r_version := []\<rparr>))
      | Git \<Rightarrow>
          (let at = path_join [path_dir got, rel]
           in if \<not> is_local_path at then Inl BesideOutside
              else Inr (r\<lparr>r_fragment := at, r_version := []\<rparr>))
      | _ \<Rightarrow> Inl NotBeside)"

text \<open>Where the file of a forge ref may be, \<open>Target.paths\<close>, for the target's default name and directory.\<close>

definition target_paths :: "string \<Rightarrow> string \<Rightarrow> string \<Rightarrow> string list" where
  "target_paths default_name dir name =
     (if name = [] then [default_name]
      else if is_path name then [name] else [name @ ''.toml'', dir @ ''/'' @ name @ ''.toml''])"

text \<open>Where \<open>fetchGit\<close> looks in a clone: a fragment with a slash or a dot is a path.\<close>

definition git_paths :: "string \<Rightarrow> string \<Rightarrow> string \<Rightarrow> string list" where
  "git_paths default_name dir fragment =
     (if contains_any fragment ''/.'' then [fragment] else target_paths default_name dir fragment)"

subsection \<open>Origins\<close>

definition forge_split :: "string \<Rightarrow> string \<times> string" where
  "forge_split location =
     (case cut_char (CHR ''/'') location of
        Some (first, rest) \<Rightarrow> if CHR ''.'' \<in> set first then (first, rest) else ([], location)
      | None \<Rightarrow> ([], location))"

definition local_host :: "string \<Rightarrow> bool" where
  "local_host host \<longleftrightarrow> host \<in> {''localhost'', ''127.0.0.1'', ''::1''}"

definition origin :: "(string \<Rightarrow> url option) \<Rightarrow> ref \<Rightarrow> string" where
  "origin purl r =
     (case r_kind r of
        Forge \<Rightarrow>
          (let (host, repo) = forge_split (r_location r);
               owner = (case cut_char (CHR ''/'') repo of None \<Rightarrow> repo | Some (o', _) \<Rightarrow> o')
           in if host \<noteq> [] then r_scheme r @ '':'' @ host @ ''/'' @ owner else r_scheme r @ '':'' @ owner)
      | File \<Rightarrow> []
      | NPM \<Rightarrow>
          (case cut_char (CHR ''/'') (r_location r) of
             Some (scope, _) \<Rightarrow> ''npm:'' @ scope | None \<Rightarrow> ref_string r)
      | k \<Rightarrow>
          if k = Git \<or> k = HTTP
          then (case purl (r_location r) of
                  None \<Rightarrow> []
                | Some u \<Rightarrow> if u_scheme u = ''file'' \<or> local_host (u_hostname u) then [] else u_hostname u)
          else ref_string r)"

definition repo_origin :: "ref \<Rightarrow> string" where
  "repo_origin r = (if r_kind r \<noteq> Forge then [] else r_scheme r @ '':'' @ r_location r)"

end
