(* ===== verification/Ref_Props.thy ===== *)
theory Ref_Props
  imports Ref
begin

text \<open>
  What refs keep: a file ref survives the move of its list to another checkout, a path in a repository
  never leaves it, and a ref that oku writes is read back as it was.
\<close>

subsection \<open>Relative files\<close>

lemma drop_common_prefix:
  "drop_common bs ts = (bs', ts') \<Longrightarrow> \<exists>c. bs = c @ bs' \<and> ts = c @ ts'"
proof (induction bs ts rule: drop_common.induct)
  case (1 b bs t ts)
  show ?case
  proof (cases "b = t")
    case True
    with 1 obtain c where "bs = c @ bs' \<and> ts = c @ ts'" by auto
    with True show ?thesis by (intro exI[of _ "b # c"]) simp
  next
    case False
    with 1 show ?thesis by auto
  qed
qed auto

lemma drop_common_append: "drop_common bs (bs @ ts) = ([], ts)"
  by (induction bs) (cases ts; simp)+

lemma plain_stack: "plain_names es \<Longrightarrow> clean_stack r es"
  unfolding clean_stack_iff by (intro exI[of _ 0] exI[of _ es]) simp

lemma ups_stack: "plain_names es \<Longrightarrow> clean_stack False (replicate n ''..'' @ es)"
  unfolding clean_stack_iff by blast

lemma plain_names_append: "plain_names (a @ b) \<longleftrightarrow> plain_names a \<and> plain_names b"
  by (simp add: plain_names_def ball_Un)

lemma hd_plain: "plain_names ts \<Longrightarrow> ts = [] \<or> hd ts \<noteq> ''..''"
  unfolding plain_names_def by (cases ts) auto

text \<open>The relative path from a directory to a file, for cleaned absolute paths.\<close>

lemma path_rel_render:
  assumes "plain_names bs" "plain_names ts" "drop_common bs ts = (bs', ts')"
  shows "path_rel (render_path True bs) (render_path True ts)
    = Some (render_path False (replicate (length bs') ''..'' @ ts'))"
proof -
  obtain c where "bs = c @ bs'" using drop_common_prefix[OF assms(3)] by blast
  then have "bs' = [] \<or> hd bs' \<noteq> ''..''" using assms(1) hd_plain plain_names_append by blast
  then show ?thesis
    using plain_stack[OF assms(1), of True] plain_stack[OF assms(2), of True] assms(3)
    by (auto simp: path_rel_def)
qed

lemma from_dir_rel:
  assumes "plain_names ds" "plain_names es"
  shows "from_dir (render_path True ds) (''./'' @ render_path False es) = render_path True (ds @ es)"
proof -
  let ?d = "render_path True ds"
  have d: "is_abs ?d" "path_clean ?d = ?d" "clean_elems ?d = ds"
    using plain_stack[OF assms(1), of True] by simp_all
  have "split_char (CHR ''/'') (''./'' @ render_path False es) = ''.'' # split_char (CHR ''/'') (render_path False es)"
    by simp
  moreover have "split_char (CHR ''/'') (render_path False es) = (if es = [] then [''.''] else es)"
    using assms(2) by (auto simp: render_path_def plain_names_def split_char_single intro!: split_char_join)
  ultimately have "fold (clean_elem True) (split_char (CHR ''/'') (''./'' @ render_path False es)) ds = ds @ es"
    using fold_clean_names[OF assms(2), of True ds] by (auto simp: clean_elem_def)
  with join_below[OF d(1,2), of "''./'' @ render_path False es"] d(3) show ?thesis
    by (simp add: from_dir_def)
qed

lemma in_dir_render:
  assumes "plain_names ds" "plain_names ts"
  shows "in_dir (render_path True ds) (render_path True ts) =
    (case drop_common ds ts of
       (ds', ts') \<Rightarrow> if ds' = [] then ''./'' @ render_path False ts' else render_path True ts)"
proof (cases "drop_common ds ts")
  case (Pair ds' ts')
  then obtain c where c: "ts = c @ ts'" using drop_common_prefix by blast
  then have "plain_names ts'" using assms(2) plain_names_append by blast
  from ups_stack[OF this] have stack: "clean_stack False (replicate (length ds') ''..'' @ ts')" .
  have "is_local_path (render_path False (replicate (length ds') ''..'' @ ts')) \<longleftrightarrow> ds' = []"
    using local_render_iff[OF stack] hd_plain[OF \<open>plain_names ts'\<close>] by (cases ds') auto
  then show ?thesis
    using path_rel_render[OF assms Pair] plain_stack[OF assms(2), of True] Pair
    by (simp add: in_dir_def)
qed

text \<open>A ref in the form in which oku keeps it in memory: a file is a cleaned absolute path.\<close>

definition stable_ref :: "string \<Rightarrow> bool" where
  "stable_ref s \<longleftrightarrow> (if is_abs s then path_clean s = s else \<not> has_prefix s ''./'')"

lemma in_dir_cases:
  assumes "is_abs dir" "path_clean dir = dir" "is_abs s" "path_clean s = s"
  obtains es where "clean_elems s = clean_elems dir @ es" "plain_names es" "in_dir dir s = ''./'' @ render_path False es"
    | "\<nexists>es. clean_elems s = clean_elems dir @ es" "in_dir dir s = s"
proof -
  obtain ds ts where d: "dir = render_path True ds" "plain_names ds" "clean_elems dir = ds"
    and t: "s = render_path True ts" "plain_names ts" "clean_elems s = ts"
    using clean_path_render assms by metis
  obtain ds' ts' where r: "drop_common ds ts = (ds', ts')" by fastforce
  then obtain c where c: "ds = c @ ds'" "ts = c @ ts'" using drop_common_prefix by blast
  show ?thesis
  proof (cases "ds' = []")
    case True
    with c t(2) have "plain_names ts'" "ts = ds @ ts'" using plain_names_append by auto
    moreover from True r in_dir_render[OF d(2) t(2)] have "in_dir dir s = ''./'' @ render_path False ts'"
      by (simp add: d(1) t(1))
    ultimately show ?thesis using that(1) d(3) t(3) by blast
  next
    case False
    then have "\<nexists>es. ts = ds @ es" using r drop_common_append by fastforce
    moreover from False r in_dir_render[OF d(2) t(2)] have "in_dir dir s = s" by (simp add: d(1) t(1))
    ultimately show ?thesis using that(2) d(3) t(3) by blast
  qed
qed

lemma stable_ref_dir:
  assumes "is_abs dir" "path_clean dir = dir" "stable_ref s"
  shows "from_dir dir (in_dir dir s) = s"
proof (cases "is_abs s")
  case True
  with assms(3) have s: "path_clean s = s" by (simp add: stable_ref_def)
  from assms(1,2) True s show ?thesis
  proof (cases rule: in_dir_cases)
    case (1 es)
    have d: "dir = render_path True (clean_elems dir)" "plain_names (clean_elems dir)"
      using clean_path_render[OF assms(2,1)] by auto
    have "s = render_path True (clean_elems dir @ es)" using clean_path_render[OF s True] 1(1) by simp
    with from_dir_rel[OF d(2) 1(2)] 1(3) d(1) show ?thesis by simp
  next
    case 2
    with True show ?thesis by (auto simp: from_dir_def is_abs_def has_prefix_iff)
  qed
next
  case False
  with assms(3) show ?thesis by (simp add: stable_ref_def in_dir_def from_dir_def)
qed

lemma in_dir_changes:
  assumes "is_abs dir" "path_clean dir = dir" "stable_ref s"
  shows "in_dir dir s \<noteq> s \<longleftrightarrow> is_abs s \<and> (\<exists>es. clean_elems s = clean_elems dir @ es)"
proof (cases "is_abs s")
  case True
  with assms(3) have s: "path_clean s = s" by (simp add: stable_ref_def)
  from assms(1,2) True s show ?thesis
  proof (cases rule: in_dir_cases)
    case (1 es)
    moreover have "in_dir dir s \<noteq> s" using 1(3) True by (auto simp: is_abs_def has_prefix_iff)
    ultimately show ?thesis using True by auto
  qed (use True in auto)
qed (simp add: in_dir_def)

subsection \<open>Paths in a repository\<close>

lemma no_slash_local: "CHR ''/'' \<notin> set p \<Longrightarrow> p \<notin> {[], ''.'', ''..''} \<Longrightarrow> is_local_path p"
  by (auto simp: is_local_path_def is_abs_def has_prefix_iff split_char_single)

lemma name_toml_local:
  assumes "CHR ''/'' \<notin> set name" "plain_names [dir]"
  shows "is_local_path (name @ ''.toml'')" "is_local_path (dir @ ''/'' @ name @ ''.toml'')"
proof -
  have n: "name @ ''.toml'' \<notin> {[], ''.'', ''..''}"
    by (cases name; cases "tl name") auto
  then show "is_local_path (name @ ''.toml'')" using assms(1) by (intro no_slash_local) auto
  have "plain_names [dir, name @ ''.toml'']" using n assms by (auto simp: plain_names_def)
  from plain_stack[OF this] have "is_local_path (render_path False [dir, name @ ''.toml''])"
    using assms(2) by (subst local_render_iff) (auto simp: plain_names_def)
  then show "is_local_path (dir @ ''/'' @ name @ ''.toml'')" by (simp add: render_path_def)
qed

lemma is_path_slash: "\<not> is_path fragment \<Longrightarrow> CHR ''/'' \<notin> set fragment"
proof (rule ccontr)
  assume "\<not> is_path fragment" "\<not> CHR ''/'' \<notin> set fragment"
  then obtain a b where "fragment = a @ CHR ''/'' # b" by (metis split_list)
  moreover have "cut_str ''/'' (a @ CHR ''/'' # b) \<noteq> None" by (induction a) (auto simp: cut_str.simps[of _ "_ # _"] split: option.splits)
  ultimately show False using \<open>\<not> is_path fragment\<close> by (simp add: is_path_def contains_def)
qed

lemma target_paths_local:
  assumes "is_local_path default_name" "plain_names [dir]" "is_path name \<Longrightarrow> is_local_path name"
    and "p \<in> set (target_paths default_name dir name)"
  shows "is_local_path p"
  using assms is_path_slash[of name] name_toml_local[of name dir]
  by (auto simp: target_paths_def split: if_splits)

lemma parse_forge_local:
  "parse_forge scheme re body = Inr r \<Longrightarrow> is_path (r_fragment r) \<Longrightarrow> is_local_path (r_fragment r)"
  by (auto simp: parse_forge_def empty_ref_def split: option.splits if_splits)

lemma parse_git_local:
  "parse_git purl body = Inr r \<Longrightarrow> r_fragment r \<noteq> [] \<Longrightarrow> is_local_path (r_fragment r)"
  by (auto simp: parse_git_def empty_ref_def split: option.splits if_splits)

lemma parse_body_fragment:
  assumes "parse_body purl exists cwd dir body = Inr r"
  shows "r_kind r = Forge \<Longrightarrow> is_path (r_fragment r) \<Longrightarrow> is_local_path (r_fragment r)"
    and "r_kind r = Git \<Longrightarrow> r_fragment r \<noteq> [] \<Longrightarrow> is_local_path (r_fragment r)"
proof -
  have kind: "r_kind r' = Forge" if "parse_forge scheme re b = Inr r'" for scheme re b r'
    using that by (auto simp: parse_forge_def empty_ref_def split: option.splits if_splits)
  have kind': "r_kind r' = Git" if "parse_git purl b = Inr r'" for b r'
    using that by (auto simp: parse_git_def empty_ref_def split: option.splits if_splits)
  have reg: "k \<noteq> Forge \<and> k \<noteq> Git" if "find P registries = Some (pre, k, v)" for P pre k v
  proof -
    have "(pre, k, v) \<in> set registries" using that by (auto simp: find_Some_iff)
    then show ?thesis by (auto simp: registries_def)
  qed
  show "r_kind r = Forge \<Longrightarrow> is_path (r_fragment r) \<Longrightarrow> is_local_path (r_fragment r)"
    using assms by (auto simp: parse_body_def Let_def empty_ref_def dest: parse_forge_local kind' dest!: reg
        split: option.splits if_splits)
  show "r_kind r = Git \<Longrightarrow> r_fragment r \<noteq> [] \<Longrightarrow> is_local_path (r_fragment r)"
    using assms by (auto simp: parse_body_def Let_def empty_ref_def dest: parse_git_local kind dest!: reg
        split: option.splits if_splits)
qed

lemma parse_in_body:
  "parse_in purl exists cwd dir s = Inr r \<Longrightarrow>
   \<exists>body r0 v. parse_body purl exists cwd dir body = Inr r0 \<and> r = r0\<lparr>r_version := v\<rparr>"
  by (auto simp: parse_in_def Let_def map_sum_def split: if_splits prod.splits sum.splits)

subsection \<open>Writing and reading\<close>

lemma cut_fragment_Some:
  "cut_fragment body = Some (location, fragment) \<Longrightarrow>
   cut_fragment (location @ (if fragment \<noteq> [] then ''#'' @ fragment else [])) = Some (location, fragment)
   \<and> CHR ''#'' \<notin> set location"
proof (cases "cut_char (CHR ''#'') body")
  case None
  then show "cut_fragment body = Some (location, fragment) \<Longrightarrow> ?thesis"
    using cut_char_None[THEN iffD1, OF None] by (auto simp: cut_fragment_def)
next
  case (Some ab)
  then obtain a b where ab: "cut_char (CHR ''#'') body = Some (a, b)" by (cases ab) auto
  then have "CHR ''#'' \<notin> set a" using cut_char_SomeD by blast
  with ab show "cut_fragment body = Some (location, fragment) \<Longrightarrow> ?thesis"
    by (auto simp: cut_fragment_def cut_char_append split: if_splits)
qed

lemma parse_forge_string:
  assumes "parse_forge scheme re body = Inr r"
  shows "r_kind r = Forge \<and> r_scheme r = scheme \<and> rx_match re (r_location r)
    \<and> parse_forge scheme re (drop (length scheme + 1) (ref_string r)) = Inr r \<and> has_prefix (ref_string r) (scheme @ '':'')"
proof -
  obtain location fragment where c: "cut_fragment body = Some (location, fragment)"
    and r: "r = empty_ref\<lparr>r_kind := Forge, r_scheme := scheme, r_location := location, r_fragment := fragment\<rparr>"
    and ok: "rx_match re location" "is_path fragment \<Longrightarrow> is_local_path fragment"
      "fragment \<noteq> [] \<and> \<not> is_path fragment \<Longrightarrow> rx_match name_re fragment"
    using assms by (auto simp: parse_forge_def split: option.splits if_splits)
  have "drop (length scheme + 1) (ref_string r) = location @ (if fragment \<noteq> [] then ''#'' @ fragment else [])"
    by (simp add: r ref_string_def kind_prefix_def)
  with cut_fragment_Some[OF c] ok r show ?thesis
    by (auto simp: parse_forge_def ref_string_def kind_prefix_def has_prefix_iff)
qed

definition registry_kind :: "kind \<Rightarrow> bool" where
  "registry_kind k \<longleftrightarrow> k \<in> {NPM, PyPI, Go, Cargo, Cask, Scoop, Aqua, Winget}"

lemma registry_prefixes:
  assumes "(pre, k, valid) \<in> set registries"
  shows "find (\<lambda>(scheme, _). has_prefix (pre @ location) (scheme @ '':'')) forge_schemes = None
    \<and> find (\<lambda>(prefix, _). has_prefix (pre @ location) prefix) registries = Some (pre, k, valid)"
proof -
  have "list_all (\<lambda>(pre, k, valid).
      find (\<lambda>(scheme, _). has_prefix (pre @ location) (scheme @ '':'')) forge_schemes = None
      \<and> find (\<lambda>(prefix, _). has_prefix (pre @ location) prefix) registries = Some (pre, k, valid)) registries"
    by (simp add: registries_def forge_schemes_def)
  with assms show ?thesis by (auto simp: list_all_iff)
qed

text \<open>What a body of a forge or a registry parses to, and that its text parses to the same.\<close>

lemma parse_body_string:
  assumes "parse_body purl exists cwd dir body = Inr r" "r_kind r = Forge \<or> registry_kind (r_kind r)"
  shows "parse_body purl' exists' cwd' dir' (ref_string r) = Inr r
    \<and> ((\<exists>re. r_kind r = Forge \<and> (r_scheme r, re) \<in> set forge_schemes \<and> rx_match re (r_location r)
           \<and> has_prefix (ref_string r) (r_scheme r @ '':''))
       \<or> (\<exists>pre valid. (pre, r_kind r, valid) \<in> set registries \<and> valid (r_location r) \<and> ref_string r = pre @ r_location r))"
proof (cases "find (\<lambda>(scheme, _). has_prefix body (scheme @ '':'')) forge_schemes")
  case (Some a)
  obtain scheme re where a: "a = (scheme, re)" by fastforce
  have in_set: "(scheme, re) \<in> set forge_schemes" using Some a find_SomeD by metis
  have p: "parse_forge scheme re (drop (length scheme + 1) body) = Inr r"
    using assms(1) Some a by (simp add: parse_body_def)
  note f = parse_forge_string[OF p]
  have "find (\<lambda>(scheme, _). has_prefix (ref_string r) (scheme @ '':'')) forge_schemes = Some (scheme, re)"
    using in_set f by (auto simp: forge_schemes_def has_prefix_iff)
  with f in_set show ?thesis by (auto simp: parse_body_def)
next
  case None
  show ?thesis
  proof (cases "find (\<lambda>(prefix, _). has_prefix body prefix) registries")
    case (Some a)
    obtain pre k valid where a: "a = (pre, k, valid)" by (metis prod_cases3)
    have in_set: "(pre, k, valid) \<in> set registries" using Some a find_SomeD by metis
    obtain location where v: "valid location" "r = empty_ref\<lparr>r_kind := k, r_location := location\<rparr>"
      using assms(1) None Some a by (auto simp: parse_body_def Let_def split: if_splits)
    have s: "ref_string r = pre @ location"
      using in_set v(2) by (auto simp: registries_def ref_string_def kind_prefix_def empty_ref_def)
    moreover have f: "find (\<lambda>(scheme, _). has_prefix (pre @ location) (scheme @ '':'')) forge_schemes = None"
      "find (\<lambda>(prefix, _). has_prefix (pre @ location) prefix) registries = Some (pre, k, valid)"
      using registry_prefixes[OF in_set, of location] by simp_all
    then have "parse_body purl' exists' cwd' dir' (pre @ location) = Inr r"
      using v by (simp add: parse_body_def f)
    moreover have "r_kind r = k" "r_location r = location" using v(2) by simp_all
    ultimately show ?thesis using in_set v(1) by metis
  next
    case no: None
    have "r_kind r \<noteq> Forge \<and> \<not> registry_kind (r_kind r)"
      using assms(1) None no
      by (auto simp: parse_body_def parse_git_def empty_ref_def registry_kind_def split: option.splits if_splits)
    with assms(2) show ?thesis by simp
  qed
qed

text \<open>The text of such a ref has no version to split off.\<close>

lemma alnum_or_at: "CHR ''@'' \<notin> set extra \<Longrightarrow> \<not> alnum_or extra (CHR ''@'')"
  by (simp add: alnum_or_def is_letter_def is_upper_def is_lower_def is_digit_def)

lemma lower_num_or_at: "CHR ''@'' \<notin> set extra \<Longrightarrow> \<not> lower_num_or extra (CHR ''@'')"
  by (simp add: lower_num_or_def is_lower_def is_digit_def)

lemma at_not_letter: "\<not> is_letter (CHR ''@'')" "\<not> is_lower (CHR ''@'')"
  by (simp_all add: is_letter_def is_upper_def is_lower_def)

lemma split_version_no_at: "CHR ''@'' \<notin> set s \<Longrightarrow> split_version s = (s, [])"
  using cut_char_None[of "CHR ''@''" "rev s"] by (simp add: split_version_def)

lemma split_version_scope:
  "CHR ''@'' \<notin> set b \<Longrightarrow> CHR ''/'' \<in> set b \<Longrightarrow> split_version (a @ CHR ''@'' # b) = (a @ CHR ''@'' # b, [])"
  using cut_char_append[of "CHR ''@''" "rev b" "rev a"]
  by (auto simp: split_version_def contains_any_def list_ex_iff)

lemma forge_no_at: "(scheme, re) \<in> set forge_schemes \<Longrightarrow> rx_match re l \<Longrightarrow> CHR ''@'' \<notin> set l"
  by (auto simp: forge_schemes_def github_re_def gitea_re_def codeberg_re_def gitlab_re_def dotted_host_def
      alnum_or_at dest!: rx_match_chars[of _ l "CHR ''@''"])

lemma npm_at:
  assumes "rx_match npm_re l"
  shows "CHR ''@'' \<notin> set l \<or> (\<exists>b. l = CHR ''@'' # b \<and> CHR ''@'' \<notin> set b \<and> CHR ''/'' \<in> set b)"
proof -
  let ?first = "Class (lower_num_or [])" and ?rest = "Star (Class (lower_num_or ''._~-''))"
  have first: "CHR ''@'' \<notin> set w" if "describes ?first w" for w
    using describes_chars[OF that, of "CHR ''@''"] by (auto simp: lower_num_or_at)
  have rest: "CHR ''@'' \<notin> set w" if "describes ?rest w" for w
    using describes_chars[OF that, of "CHR ''@''"] by (auto simp: lower_num_or_at)
  define scope where "scope = Seq (Text (CHR ''@'')) (Seq ?first (Seq ?rest (Text (CHR ''/''))))"
  have "describes (Seq (Or scope Empty) (Seq ?first ?rest)) l"
    using assms by (simp only: rx_match_iff npm_re_def Concat.simps Opt_def scope_def)
  then obtain x t where xt: "l = x @ t" "describes (Or scope Empty) x" "describes (Seq ?first ?rest) t"
    unfolding describes_simps(4) by blast
  from xt(3) obtain y z where yz: "t = y @ z" "describes ?first y" "describes ?rest z"
    unfolding describes_simps(4) by blast
  have "x = [] \<or> (\<exists>u v. x = CHR ''@'' # u @ v @ ''/'' \<and> describes ?first u \<and> describes ?rest v)"
  proof (cases "x = []")
    case False
    with xt(2) have "describes scope x" by (simp only: describes_simps(2,5)) blast
    then obtain q r where qr: "x = q @ r" "describes (Text (CHR ''@'')) q" "describes (Seq ?first (Seq ?rest (Text (CHR ''/'')))) r"
      unfolding scope_def describes_simps(4) by blast
    from qr(3) obtain u r2 where u: "r = u @ r2" "describes ?first u" "describes (Seq ?rest (Text (CHR ''/''))) r2"
      unfolding describes_simps(4)[of ?first] by blast
    from u(3) obtain v w where v: "r2 = v @ w" "describes ?rest v" "describes (Text (CHR ''/'')) w"
      unfolding describes_simps(4) by blast
    have "q = ''@''" "w = ''/''" using qr(2) v(3) by (auto simp: Text_def)
    with qr(1) u v show ?thesis by auto
  qed simp
  with xt(1) yz have l: "l = x @ y @ z" "describes ?first y" "describes ?rest z"
    and x: "x = [] \<or> (\<exists>u v. x = CHR ''@'' # u @ v @ ''/'' \<and> describes ?first u \<and> describes ?rest v)"
    by simp_all
  from x show ?thesis
  proof
    assume "x = []"
    with l first rest show ?thesis by simp
  next
    assume "\<exists>u v. x = CHR ''@'' # u @ v @ ''/'' \<and> describes ?first u \<and> describes ?rest v"
    then obtain u v where "x = CHR ''@'' # u @ v @ ''/''" "describes ?first u" "describes ?rest v" by blast
    with l first rest show ?thesis by (intro disjI2 exI[of _ "u @ v @ ''/'' @ y @ z"]) simp
  qed
qed

lemma registry_no_split:
  assumes "(pre, k, valid) \<in> set registries" "valid l" "k \<noteq> Cask"
  shows "split_version (pre @ l) = (pre @ l, [])"
proof (cases "k = NPM")
  case True
  with assms(1) have pre: "pre = ''npm:''" "valid = rx_match npm_re" by (auto simp: registries_def)
  with npm_at[of l] assms(2) show ?thesis
    using split_version_no_at[of "''npm:'' @ l"] split_version_scope[of _ "''npm:''"] by auto
next
  case False
  have chars: "CHR ''@'' \<notin> set l" if "rx_match re l" "\<not> rx_chars re (CHR ''@'')" for re
    using that rx_match_chars by blast
  have "CHR ''@'' \<notin> set l"
    using assms False
    by (auto simp: registries_def valid_pypi_def valid_go_path_def valid_crate_def valid_scoop_def valid_winget_def
        Let_def codeberg_re_def alnum_or_at lower_num_or_at at_not_letter
        dest!: rx_match_chars[of _ l "CHR ''@''"] rx_chars_Upto)
  moreover have "CHR ''@'' \<notin> set pre" using assms(1) by (auto simp: registries_def)
  ultimately show ?thesis by (intro split_version_no_at) simp
qed

lemma ref_string_version: "ref_string (r\<lparr>r_version := v\<rparr>) = ref_string r"
  by (simp add: ref_string_def kind_prefix_def split: kind.splits)

lemma no_repo_url:
  assumes "has_any_prefix s (map (\<lambda>x. fst x @ '':'') forge_schemes @ map fst registries)"
  shows "repo_url purl s = None" "\<not> has_any_prefix s [''https://'', ''http://'']" "s \<noteq> []"
  using assms by (auto simp: forge_schemes_def registries_def repo_url_def has_any_prefix_def has_prefix_iff)

text \<open> The text that oku stores for a ref of a forge or a registry is read back as the same ref without
  its version, from any directory in which no file has that name, when its fragment holds no at sign.\<close>
theorem ref_round_trip:
  assumes "parse_in purl exists cwd dir s = Inr r" "r_kind r = Forge \<or> registry_kind (r_kind r)"
    and "CHR ''@'' \<notin> set (r_fragment r)" "\<not> exists' (in_base dir' (ref_string r))"
  shows "parse_in purl' exists' cwd' dir' (ref_string r) = Inr (r\<lparr>r_version := []\<rparr>)"
proof -
  obtain body r0 v where r0: "parse_body purl exists cwd dir body = Inr r0" "r = r0\<lparr>r_version := v\<rparr>"
    using parse_in_body[OF assms(1)] by blast
  let ?s = "ref_string r0"
  have kind: "r_kind r0 = Forge \<or> registry_kind (r_kind r0)" using assms(2) r0(2) by simp
  note P = parse_body_string[OF r0(1) kind, of purl' exists' cwd' dir']
  have pre: "has_any_prefix ?s (map (\<lambda>x. fst x @ '':'') forge_schemes @ map fst registries)"
    unfolding has_any_prefix_def list_ex_iff using P
  proof (elim conjE disjE exE)
    fix re assume "(r_scheme r0, re) \<in> set forge_schemes" "has_prefix ?s (r_scheme r0 @ '':'')"
    then show "\<exists>p\<in>set (map (\<lambda>x. fst x @ '':'') forge_schemes @ map fst registries). has_prefix ?s p"
      by (intro bexI[of _ "r_scheme r0 @ '':''"]) (simp_all add: rev_image_eqI)
  next
    fix pr valid assume "(pr, r_kind r0, valid) \<in> set registries" "?s = pr @ r_location r0"
    then show "\<exists>p\<in>set (map (\<lambda>x. fst x @ '':'') forge_schemes @ map fst registries). has_prefix ?s p"
      by (intro bexI[of _ pr]) (simp_all add: rev_image_eqI)
  qed
  have ver: "r_version r0 = []"
    using r0(1) by (auto simp: parse_body_def Let_def parse_forge_def parse_git_def empty_ref_def
        split: option.splits if_splits)
  have split: "has_prefix ?s ''cask:'' \<or> split_version ?s = (?s, [])"
    using P
  proof (elim conjE disjE exE)
    fix re assume f: "r_kind r0 = Forge" "(r_scheme r0, re) \<in> set forge_schemes" "rx_match re (r_location r0)"
    have "CHR ''@'' \<notin> set (r_scheme r0)" using f(2) by (auto simp: forge_schemes_def)
    with forge_no_at[OF f(2,3)] assms(3) r0(2) f(1) have "CHR ''@'' \<notin> set ?s"
      by (auto simp: ref_string_def kind_prefix_def)
    then show ?thesis using split_version_no_at by blast
  next
    fix pre valid assume g: "(pre, r_kind r0, valid) \<in> set registries" "valid (r_location r0)"
      "?s = pre @ r_location r0"
    show ?thesis
    proof (cases "r_kind r0 = Cask")
      case True
      with g(1) have "pre = ''cask:''" by (auto simp: registries_def)
      with g(3) show ?thesis by (simp only: has_prefix_append simp_thms)
    next
      case False
      from registry_no_split[OF g(1,2) False] g(3) show ?thesis by simp
    qed
  qed
  show ?thesis
    using no_repo_url[OF pre] split P ver assms(4)
    by (auto simp: r0(2) ref_string_version parse_in_def)
qed

theorem ref_round_trip_witness:
  "parse_in (\<lambda>_. None) (\<lambda>_. False) ''/w'' [] ''npm:@scope/tool''
     = Inr \<lparr>r_kind = NPM, r_location = ''@scope/tool'', r_scheme = [], r_fragment = [], r_version = []\<rparr>"
proof -
  let ?r = "\<lparr>r_kind = NPM, r_location = ''@scope/tool'', r_scheme = [], r_fragment = [], r_version = ''2.1''\<rparr>"
  have "parse_in (\<lambda>_. None) (\<lambda>_. False) ''/w'' [] ''npm:@scope/tool@2.1'' = Inr ?r" by code_simp
  from ref_round_trip[OF this, of "\<lambda>_. False" "[]" "\<lambda>_. None" "''/w''"] show ?thesis
    by (simp add: registry_kind_def ref_string_def kind_prefix_def)
qed

text \<open> A fragment with an at sign is stored in a form that is read back as another ref: the text after the
  at sign becomes a version.\<close>
theorem ref_at_sign_lost:
  "map_sum id ref_string (parse_in (\<lambda>_. None) (\<lambda>_. False) ''/w'' [] ''github:o/r#a/b@c@1.0'')
     = Inr ''github:o/r#a/b@c''
   \<and> map_sum id r_fragment (parse_in (\<lambda>_. None) (\<lambda>_. False) ''/w'' [] ''github:o/r#a/b@c@1.0'') = Inr ''a/b@c''
   \<and> map_sum id r_fragment (parse_in (\<lambda>_. None) (\<lambda>_. False) ''/w'' [] ''github:o/r#a/b@c'') = Inr ''a/b''"
  by (intro conjI; code_simp)

text \<open> Writing a ref relative to a directory and reading it back gives the ref, and exactly the files below
  the directory are written relative to it.\<close>
theorem from_dir_in_dir:
  assumes "is_abs dir" "path_clean dir = dir" "stable_ref s"
  shows "from_dir dir (in_dir dir s) = s
    \<and> (in_dir dir s \<noteq> s) = (is_abs s \<and> (\<exists>es. clean_elems s = clean_elems dir @ es))"
  using stable_ref_dir[OF assms] in_dir_changes[OF assms] by blast

theorem from_dir_in_dir_witness:
  "from_dir ''/home/me/list'' (in_dir ''/home/me/list'' ''/home/me/list/packages/fd.toml'') = ''/home/me/list/packages/fd.toml''"
  by (rule from_dir_in_dir[THEN conjunct1]) code_simp+

text \<open> A list in another checkout finds its files: the ref of a file below a directory, written relative
  to it, is the same file below any other directory that reads it.\<close>
theorem in_dir_portable:
  assumes "is_abs dir" "path_clean dir = dir" "is_abs other" "path_clean other = other" "is_local_path p"
  shows "from_dir other (in_dir dir (path_join [dir, p])) = path_join [other, p]"
proof -
  obtain ds where d: "dir = render_path True ds" "plain_names ds" "clean_elems dir = ds"
    using clean_path_render assms(1,2) by metis
  obtain os where o: "other = render_path True os" "plain_names os" "clean_elems other = os"
    using clean_path_render assms(3,4) by metis
  let ?es = "clean_elems p"
  have es: "plain_names ?es" "path_join [dir, p] = render_path True (ds @ ?es)"
    "path_join [other, p] = render_path True (os @ ?es)"
    using local_below[OF assms(5,1,2)] local_below[OF assms(5,3,4)] d(3) o(3) by simp_all
  have "in_dir dir (render_path True (ds @ ?es)) = ''./'' @ render_path False ?es"
    using in_dir_render[OF d(2), of "ds @ ?es"] d(2) es(1)
    by (simp add: d(1) drop_common_append plain_names_append)
  with from_dir_rel[OF o(2) es(1)]
  have "from_dir other (in_dir dir (path_join [dir, p])) = render_path True (os @ ?es)"
    by (simp add: es(2) o(1))
  then show ?thesis by (simp only: es(3))
qed

theorem in_dir_portable_witness:
  "from_dir ''/ci'' (in_dir ''/home/me'' (path_join [''/home/me'', ''pkg/../fd.toml''])) = path_join [''/ci'', ''pkg/../fd.toml'']"
  by (rule in_dir_portable) code_simp+

text \<open> C28. A ref never leaves its repository: every path at which oku looks for the file of an accepted ref of
  a forge or a git repository stays below the directory of the repository, wherever that is.\<close>
theorem ref_stays_in_repo:
  assumes "parse_in purl exists cwd base s = Inr r" "is_local_path default_name" "plain_names [dir]"
    and "(r_kind r = Forge \<and> p \<in> set (target_paths default_name dir (r_fragment r)))
      \<or> (r_kind r = Git \<and> p \<in> set (git_paths default_name dir (r_fragment r)))"
    and "is_abs repo" "path_clean repo = repo"
  shows "\<exists>names. plain_names names \<and> path_join [repo, p] = render_path True (clean_elems repo @ names)"
proof -
  obtain body r0 v where r0: "parse_body purl exists cwd base body = Inr r0" "r = r0\<lparr>r_version := v\<rparr>"
    using parse_in_body[OF assms(1)] by blast
  note loc = parse_body_fragment[OF r0(1)]
  have "is_local_path p"
  proof (cases "r_kind r = Forge")
    case True
    with assms(4) have "p \<in> set (target_paths default_name dir (r_fragment r0))" by (auto simp: r0(2))
    from target_paths_local[OF assms(2,3) _ this] loc(1) True show ?thesis by (auto simp: r0(2))
  next
    case False
    with assms(4) have g: "r_kind r0 = Git" "p \<in> set (git_paths default_name dir (r_fragment r0))"
      by (auto simp: r0(2))
    have name: "is_path (r_fragment r0) \<Longrightarrow> is_local_path (r_fragment r0)"
      using loc(2) g(1) by (cases "r_fragment r0 = []") (auto simp: is_path_def contains_def has_suffix_def cut_str.simps[of _ "[]"])
    have "r_fragment r0 \<noteq> []" if "contains_any (r_fragment r0) ''/.''"
      using that by (auto simp: contains_any_def)
    with g loc(2) target_paths_local[OF assms(2,3) name, of p] show ?thesis
      by (auto simp: git_paths_def split: if_splits)
  qed
  from local_below[OF this assms(5,6)] show ?thesis by blast
qed

theorem ref_stays_in_repo_witness:
  "\<exists>names. plain_names names \<and> path_join [''/clone'', ''packages/fd.toml'']
     = render_path True (clean_elems ''/clone'' @ names)"
  by (rule ref_stays_in_repo[of "\<lambda>_. None" "\<lambda>_. False" "''/w''" "[]" "''github:o/r#fd@1.2''"
        "\<lparr>r_kind = Forge, r_location = ''o/r'', r_scheme = ''github'', r_fragment = ''fd'', r_version = ''1.2''\<rparr>"
        "''oku.pkg.toml''" "''packages''"]) code_simp+

end
