(* ===== verification/Keyed.thy ===== *)
theory Keyed
  imports Prelude
begin

text \<open>
  The contract of a table with a key, which the lock, the list file and other stores of oku keep: what a
  lookup gives after a write or a removal. The clients' lemmas are about sequences of operations.
\<close>

datatype ('k, 'v) table_op = PutOp 'v | DelOp 'k

locale keyed_on =
  fixes lookup :: "'s \<Rightarrow> 'k \<Rightarrow> 'v option"
    and put :: "'v \<Rightarrow> 's \<Rightarrow> 's"
    and remove :: "'k \<Rightarrow> 's \<Rightarrow> 's"
    and key :: "'v \<Rightarrow> 'k"
    and inv :: "'s \<Rightarrow> bool"
    and okv :: "'v \<Rightarrow> bool"
    and good :: "'k \<Rightarrow> bool"
  assumes lookup_put: "inv s \<Longrightarrow> okv v \<Longrightarrow> good (key v) \<Longrightarrow> good k \<Longrightarrow>
      lookup (put v s) k = (if k = key v then Some v else lookup s k)"
    and lookup_remove: "inv s \<Longrightarrow> good j \<Longrightarrow> good k \<Longrightarrow>
      lookup (remove j s) k = (if k = j then None else lookup s k)"
    and inv_put: "inv s \<Longrightarrow> okv v \<Longrightarrow> good (key v) \<Longrightarrow> inv (put v s)"
    and inv_remove: "inv s \<Longrightarrow> good j \<Longrightarrow> inv (remove j s)"
begin

fun run_op :: "('k, 'v) table_op \<Rightarrow> 's \<Rightarrow> 's" where
  "run_op (PutOp v) s = put v s"
| "run_op (DelOp k) s = remove k s"

fun op_good :: "('k, 'v) table_op \<Rightarrow> bool" where
  "op_good (PutOp v) = (okv v \<and> good (key v))"
| "op_good (DelOp k) = good k"

text \<open>What the last operation on a key left there.\<close>

fun history :: "('k, 'v) table_op list \<Rightarrow> ('k \<Rightarrow> 'v option) \<Rightarrow> 'k \<Rightarrow> 'v option" where
  "history [] m = m"
| "history (PutOp v # ops) m = history ops (m(key v := Some v))"
| "history (DelOp k # ops) m = history ops (m(k := None))"

lemma run_inv: "inv s \<Longrightarrow> list_all op_good ops \<Longrightarrow> inv (fold run_op ops s)"
proof (induction ops arbitrary: s)
  case (Cons p ops)
  then show ?case by (cases p) (simp_all add: inv_put inv_remove)
qed simp

lemma history_cong: "m k = m' k \<Longrightarrow> history ops m k = history ops m' k"
proof (induction ops arbitrary: m m')
  case (Cons p ops)
  show ?case
  proof (cases p)
    case (PutOp v)
    have "(m(key v := Some v)) k = (m'(key v := Some v)) k" using Cons.prems by simp
    from Cons.IH[of "m(key v := Some v)" "m'(key v := Some v)", OF this] PutOp show ?thesis by (simp del: fun_upd_apply)
  next
    case (DelOp j)
    have "(m(j := None)) k = (m'(j := None)) k" using Cons.prems by simp
    from Cons.IH[of "m(j := None)" "m'(j := None)", OF this] DelOp show ?thesis by (simp del: fun_upd_apply)
  qed
qed simp

lemma run_history_on:
  "inv s \<Longrightarrow> list_all op_good ops \<Longrightarrow> good k \<Longrightarrow> lookup (fold run_op ops s) k = history ops (lookup s) k"
proof (induction ops arbitrary: s)
  case (Cons p ops)
  show ?case
  proof (cases p)
    case (PutOp v)
    with Cons.prems have "lookup (put v s) k = ((lookup s)(key v := Some v)) k" by (simp add: lookup_put)
    with PutOp Cons show ?thesis
      using history_cong[of "lookup (put v s)" k "(lookup s)(key v := Some v)" ops] inv_put by (simp del: fun_upd_apply)
  next
    case (DelOp j)
    with Cons.prems have "lookup (remove j s) k = ((lookup s)(j := None)) k" by (simp add: lookup_remove)
    with DelOp Cons show ?thesis
      using history_cong[of "lookup (remove j s)" k "(lookup s)(j := None)" ops] inv_remove by (simp del: fun_upd_apply)
  qed
qed simp

lemma put_put_same:
  "inv s \<Longrightarrow> okv v \<Longrightarrow> okv w \<Longrightarrow> good (key v) \<Longrightarrow> key v = key w \<Longrightarrow> good k \<Longrightarrow> lookup (put w (put v s)) k = lookup (put w s) k"
  by (simp add: lookup_put inv_put)

lemma put_commute:
  "inv s \<Longrightarrow> okv v \<Longrightarrow> okv w \<Longrightarrow> good (key v) \<Longrightarrow> good (key w) \<Longrightarrow> key v \<noteq> key w \<Longrightarrow> good k \<Longrightarrow>
   lookup (put w (put v s)) k = lookup (put v (put w s)) k"
  by (auto simp: lookup_put inv_put)

end

text \<open>The contract when every key is good.\<close>

locale keyed = keyed_on lookup put remove key inv "\<lambda>_. True" "\<lambda>_. True"
  for lookup :: "'s \<Rightarrow> 'k \<Rightarrow> 'v option"
    and put :: "'v \<Rightarrow> 's \<Rightarrow> 's"
    and remove :: "'k \<Rightarrow> 's \<Rightarrow> 's"
    and key :: "'v \<Rightarrow> 'k"
    and inv :: "'s \<Rightarrow> bool"
begin

lemma all_good [simp]: "list_all op_good ops"
proof (induction ops)
  case (Cons p ops)
  then show ?case by (cases p) simp_all
qed simp

lemma run_history: "inv s \<Longrightarrow> lookup (fold run_op ops s) = history ops (lookup s)"
  by (rule ext) (simp add: run_history_on)

end

end
