(* ===== verification/Lock.thy ===== *)
theory Lock
  imports Keyed Ref Go_Order
begin

text \<open>
  The lock file, \<open>internal/lock/lock.go\<close>: the packages and lists that it pins, the operations on them, and
  how oku reads and writes it. The TOML library is the argument \<open>marshal\<close> or \<open>unmarshal\<close>.
\<close>

subsection \<open>The data\<close>

record lock_platform =
  l_strategy :: string
  l_url :: string
  l_sha256 :: string
  l_verified :: string
  l_impure :: bool
  l_commands :: bool
  l_vendor_sha256 :: string
  l_version :: string
  l_tag :: string
  l_signed_at :: int

text \<open>A package holds the packages that it depends on. The map of its platforms is a list of entries.\<close>

datatype package =
  Package
    (k_name: string) (k_ref: string) (k_commit: string) (k_manifest_sha256: string) (k_version: string)
    (k_signing_key: string) (k_signer_workflow: string) (k_tag: string) (k_tag_commit: string)
    (k_inferred: bool) (k_manifest: string) (k_asset: string) (k_bins: "string list")
    (k_platforms: "(string \<times> lock_platform) list") (k_deps: "package list")

definition empty_package :: package where
  "empty_package = Package [] [] [] [] [] [] [] [] [] False [] [] [] [] []"

record lock_include =
  i_ref :: string
  i_commit :: string
  i_sha256 :: string

record lock =
  lock_includes :: "lock_include list"
  lock_packages :: "package list"

definition empty_lock :: lock where
  "empty_lock = \<lparr>lock_includes = [], lock_packages = []\<rparr>"

subsection \<open>Lookups\<close>

definition find_include :: "lock \<Rightarrow> string \<Rightarrow> lock_include option" where
  "find_include l r = find (\<lambda>inc. i_ref inc = r) (lock_includes l)"

definition platform_at :: "package \<Rightarrow> string \<Rightarrow> lock_platform option" where
  "platform_at p key = map_of (k_platforms p) key"

definition version_on :: "package \<Rightarrow> string \<Rightarrow> string" where
  "version_on p key =
     (case platform_at p key of
        Some at \<Rightarrow> if l_version at \<noteq> [] then l_version at else k_version p
      | None \<Rightarrow> k_version p)"

definition find_dep :: "package \<Rightarrow> string \<Rightarrow> package" where
  "find_dep p r = (case find (\<lambda>dep. k_ref dep = r) (k_deps p) of Some dep \<Rightarrow> dep | None \<Rightarrow> empty_package)"

definition find_dep_for :: "package \<Rightarrow> string \<Rightarrow> string list \<Rightarrow> package" where
  "find_dep_for p r keys =
     (case find (\<lambda>dep. k_ref dep = r \<and> list_ex (\<lambda>key. platform_at dep key \<noteq> None) keys) (k_deps p) of
        Some dep \<Rightarrow> dep | None \<Rightarrow> find_dep p r)"

definition lock_find :: "lock \<Rightarrow> string \<Rightarrow> package option" where
  "lock_find l name = find (\<lambda>p. k_name p = name) (lock_packages l)"

definition lock_delete :: "string \<Rightarrow> lock \<Rightarrow> lock" where
  "lock_delete name l = l\<lparr>lock_packages := filter (\<lambda>p. k_name p \<noteq> name) (lock_packages l)\<rparr>"

definition lock_set :: "package \<Rightarrow> lock \<Rightarrow> lock" where
  "lock_set pkg l =
     (let l' = lock_delete (k_name pkg) l in l'\<lparr>lock_packages := lock_packages l' @ [pkg]\<rparr>)"

subsection \<open>Checks of downloads\<close>

definition verified_rank :: "string \<rightharpoonup> nat" where
  "verified_rank = map_of [(''sigstore'', 3), (''minisign'', 3), (''cosign'', 3), (''manifest'', 2),
     (''checksum-file'', 1), (''published'', 1), (''first-use'', 0)]"

definition weaker :: "string \<Rightarrow> string \<Rightarrow> bool" where
  "weaker now was =
     (case (verified_rank now, verified_rank was) of (Some n, Some w) \<Rightarrow> n < w | _ \<Rightarrow> False)"

text \<open>The index of a Go map, which is zero for a missing key.\<close>

definition rank_or_zero :: "string \<Rightarrow> nat" where
  "rank_or_zero v = (case verified_rank v of Some n \<Rightarrow> n | None \<Rightarrow> 0)"

definition checked_signature :: "package \<Rightarrow> bool" where
  "checked_signature p \<longleftrightarrow>
     list_ex (\<lambda>(_, at). rank_or_zero (l_verified at) = rank_or_zero ''sigstore'') (k_platforms p)"

subsection \<open>Reading\<close>

text \<open>\<open>strings.Lines\<close>: each line with its newline.\<close>

fun lines :: "string \<Rightarrow> string list" where
  "lines [] = []"
| "lines (c # cs) =
     (if c = CHR 0x0A then [c] # lines cs
      else (case lines cs of [] \<Rightarrow> [[c]] | l # ls \<Rightarrow> (c # l) # ls))"

definition or_else :: "string \<Rightarrow> string \<Rightarrow> string" where
  "or_else a b = (if a \<noteq> [] then a else b)"

definition conflict_line :: "string \<Rightarrow> (string \<times> string) \<times> bool \<Rightarrow> (string \<times> string) \<times> bool" where
  "conflict_line line st =
     (let marker = take 7 line; label = trim_space (drop 7 line); ((ours, theirs), found) = st
      in if marker = ''<<<<<<<'' then ((or_else label ''ours'', theirs), True)
         else if marker = ''>>>>>>>'' then ((ours, or_else label ''theirs''), found)
         else st)"

definition conflicted :: "string \<Rightarrow> (string \<times> string) \<times> bool" where
  "conflicted data = fold conflict_line (lines data) (([], []), False)"

fun map_package_refs :: "(string \<Rightarrow> string) \<Rightarrow> package \<Rightarrow> package" where
  "map_package_refs f (Package n r c m v sk sw t tc ifd man as bs ps ds) =
     Package n (f r) c m v sk sw t tc ifd man as bs ps (map (map_package_refs f) ds)"

definition map_refs :: "(string \<Rightarrow> string) \<Rightarrow> lock \<Rightarrow> lock" where
  "map_refs f l =
     \<lparr>lock_includes = map (\<lambda>i. i\<lparr>i_ref := f (i_ref i)\<rparr>) (lock_includes l),
      lock_packages = map (map_package_refs f) (lock_packages l)\<rparr>"

datatype version_error = TooLong | HasSeparator | HasControl

text \<open>\<open>unicode.IsControl\<close> on UTF-8: the control bytes of ASCII, and C1 as the two bytes that encode it.\<close>

fun has_control :: "string \<Rightarrow> bool" where
  "has_control [] = False"
| "has_control (c # cs) =
     (byte c < 32 \<or> byte c = 127
      \<or> (byte c = 194 \<and> (case cs of [] \<Rightarrow> False | d # _ \<Rightarrow> 128 \<le> byte d \<and> byte d < 160))
      \<or> has_control cs)"

definition check_version :: "string \<Rightarrow> version_error option" where
  "check_version v =
     (if length v > 128 then Some TooLong
      else if contains_any v [CHR ''/'', CHR 0x5C] then Some HasSeparator
      else if has_control v then Some HasControl else None)"

datatype lock_error =
    Conflict
  | ParseError string
  | VersionError string "string option" version_error

fun check_package :: "package \<Rightarrow> lock_error option" and
  check_packages :: "package list \<Rightarrow> lock_error option" where
  "check_package (Package n r c m v sk sw t tc ifd man as bs ps ds) =
     (case check_version v of
        Some e \<Rightarrow> Some (VersionError n None e)
      | None \<Rightarrow>
          (case find (\<lambda>(_, at). check_version (l_version at) \<noteq> None) ps of
             Some (key, at) \<Rightarrow> Some (VersionError n (Some key) (the (check_version (l_version at))))
           | None \<Rightarrow> check_packages ds))"
| "check_packages [] = None"
| "check_packages (p # ps) = (case check_package p of Some e \<Rightarrow> Some e | None \<Rightarrow> check_packages ps)"

definition parse_lock :: "(string \<Rightarrow> (string, lock) res) \<Rightarrow> string \<Rightarrow> (lock_error, lock) res" where
  "parse_lock unmarshal data =
     (if snd (conflicted data) then Inl Conflict
      else (case unmarshal data of
              Inl e \<Rightarrow> Inl (ParseError e)
            | Inr l \<Rightarrow> (case check_packages (lock_packages l) of Some e \<Rightarrow> Inl e | None \<Rightarrow> Inr l)))"

definition parse_lock_file :: "(string \<Rightarrow> (string, lock) res) \<Rightarrow> string \<Rightarrow> string \<Rightarrow> (lock_error, lock) res" where
  "parse_lock_file unmarshal data path =
     and_then (parse_lock unmarshal data) (\<lambda>l. Inr (map_refs (from_dir (path_dir path)) l))"

subsection \<open>Writing\<close>

definition lock_header :: string where
  "lock_header = ''# Written by oku. Commit this file, and change it with oku commands only.'' @ [CHR 0x0A, CHR 0x0A]"

definition sort_packages :: "lock \<Rightarrow> lock" where
  "sort_packages l = l\<lparr>lock_packages := sort_func (by_name k_name) (lock_packages l)\<rparr>"

text \<open>\<open>Bytes\<close> gives the text and leaves the lock sorted.\<close>

definition lock_bytes :: "(lock \<Rightarrow> string) \<Rightarrow> lock \<Rightarrow> string \<Rightarrow> string \<times> lock" where
  "lock_bytes marshal l path =
     (let l' = sort_packages l
      in (lock_header @ marshal (map_refs (in_dir (path_dir path)) l'), l'))"

end
