(* ===== verification/Lock_Props.thy ===== *)
theory Lock_Props
  imports Lock Ref_Props
begin

text \<open>The lock as a table, its text, and what an accepted lock can name.\<close>

subsection \<open>The table of packages\<close>

lemma find_filter_key:
  "find (\<lambda>p. f p = k) (filter (\<lambda>p. f p \<noteq> j) xs) = (if k = j then None else find (\<lambda>p. f p = k) xs)"
  by (induction xs) auto

lemma find_snoc: "find P (xs @ [x]) = (case find P xs of Some y \<Rightarrow> Some y | None \<Rightarrow> if P x then Some x else None)"
  by (induction xs) auto

lemma lock_find_delete: "lock_find (lock_delete j l) k = (if k = j then None else lock_find l k)"
  by (simp add: lock_find_def lock_delete_def find_filter_key)

lemma lock_find_set: "lock_find (lock_set p l) k = (if k = k_name p then Some p else lock_find l k)"
  by (simp add: lock_find_def lock_set_def lock_delete_def Let_def find_snoc find_filter_key split: option.split)

definition distinct_names :: "lock \<Rightarrow> bool" where
  "distinct_names l \<longleftrightarrow> distinct (map k_name (lock_packages l))"

lemma distinct_names_delete: "distinct_names l \<Longrightarrow> distinct_names (lock_delete n l)"
  by (simp add: distinct_names_def lock_delete_def distinct_map_filter)

lemma distinct_names_set: "distinct_names l \<Longrightarrow> distinct_names (lock_set p l)"
  by (auto simp: distinct_names_def lock_set_def lock_delete_def Let_def distinct_map_filter)

interpretation locks: keyed lock_find lock_set lock_delete k_name distinct_names
  by unfold_locales (simp_all add: lock_find_set lock_find_delete distinct_names_set distinct_names_delete)

subsection \<open>Conflicts\<close>

lemma concat_lines: "concat (lines s) = s"
  by (induction s rule: lines.induct) (auto split: list.splits)

lemma conflict_found:
  "snd (fold conflict_line ls st) \<longleftrightarrow> snd st \<or> (\<exists>l\<in>set ls. take 7 l = ''<<<<<<<'')"
proof (induction ls arbitrary: st)
  case (Cons l ls)
  obtain a b f where st: "st = ((a, b), f)" by (metis prod.exhaust)
  have "snd (conflict_line l st) \<longleftrightarrow> f \<or> take 7 l = ''<<<<<<<''"
    by (simp add: st conflict_line_def Let_def)
  with Cons[of "conflict_line l st"] st show ?case by auto
qed simp

subsection \<open>Versions\<close>

text \<open>The packages inside a package: itself, and those inside the packages it depends on.\<close>

inductive inside :: "package \<Rightarrow> package \<Rightarrow> bool" where
  inside_self: "inside p p"
| inside_dep: "d \<in> set (k_deps p) \<Longrightarrow> inside q d \<Longrightarrow> inside q p"

definition safe_version :: "string \<Rightarrow> bool" where
  "safe_version v \<longleftrightarrow>
     length v \<le> 128 \<and> CHR ''/'' \<notin> set v \<and> CHR 0x5C \<notin> set v \<and> (\<forall>c\<in>set v. 32 \<le> byte c)"

lemma has_control_byte: "c \<in> set v \<Longrightarrow> byte c < 32 \<Longrightarrow> has_control v"
  by (induction v) auto

lemma check_version_safe: "check_version v = None \<Longrightarrow> safe_version v"
  using has_control_byte[of _ v] by (force simp: check_version_def safe_version_def contains_any_def list_ex_iff
      split: if_splits)

lemma check_packages_mem: "check_packages ps = None \<Longrightarrow> p \<in> set ps \<Longrightarrow> check_package p = None"
  by (induction ps) (auto split: option.splits)

lemma check_package_self:
  assumes "check_package p = None"
  shows "check_version (k_version p) = None" "(key, at) \<in> set (k_platforms p) \<Longrightarrow> check_version (l_version at) = None"
    "check_packages (k_deps p) = None"
proof -
  obtain n r c m v sk sw t tc ifd man as bs ps ds
    where p: "p = Package n r c m v sk sw t tc ifd man as bs ps ds" by (cases p)
  have none: "check_version v = None" "find (\<lambda>(_, at). check_version (l_version at) \<noteq> None) ps = None"
    "check_packages ds = None"
    using assms by (auto simp: p split: option.splits prod.splits)
  then show "check_version (k_version p) = None" "check_packages (k_deps p) = None" by (simp_all add: p)
  show "(key, at) \<in> set (k_platforms p) \<Longrightarrow> check_version (l_version at) = None"
    using none(2) by (auto simp: p find_None_iff)
qed

lemma check_package_inside: "inside q p \<Longrightarrow> check_package p = None \<Longrightarrow> check_package q = None"
proof (induction rule: inside.induct)
  case (inside_dep d p q)
  from check_package_self(3)[OF inside_dep.prems] inside_dep.hyps(1) have "check_package d = None"
    by (rule check_packages_mem)
  with inside_dep.IH show ?case .
qed

subsection \<open>Reading and writing\<close>

fun refs_of :: "package \<Rightarrow> string list" where
  "refs_of (Package n r c m v sk sw t tc ifd man as bs ps ds) = r # concat (map refs_of ds)"

definition lock_refs :: "lock \<Rightarrow> string list" where
  "lock_refs l = map i_ref (lock_includes l) @ concat (map refs_of (lock_packages l))"

lemma map_package_refs_comp: "map_package_refs f (map_package_refs g p) = map_package_refs (f \<circ> g) p"
  by (induction g p rule: map_package_refs.induct) simp

lemma map_package_refs_id: "\<forall>r\<in>set (refs_of p). f r = r \<Longrightarrow> map_package_refs f p = p"
  by (induction f p rule: map_package_refs.induct) (simp add: map_idI)

lemma map_refs_id: "\<forall>r\<in>set (lock_refs l). f (g r) = r \<Longrightarrow> map_refs f (map_refs g l) = l"
proof -
  assume f: "\<forall>r\<in>set (lock_refs l). f (g r) = r"
  then have "map (\<lambda>i. i\<lparr>i_ref := f (g (i_ref i))\<rparr>) (lock_includes l) = lock_includes l"
    by (intro map_idI) (auto simp: lock_refs_def)
  moreover have "map (map_package_refs (f \<circ> g)) (lock_packages l) = lock_packages l"
    using f by (intro map_idI map_package_refs_id) (auto simp: lock_refs_def)
  ultimately show ?thesis by (simp add: map_refs_def map_package_refs_comp comp_def)
qed

lemma round_trip_refs:
  assumes "is_abs dir" "path_clean dir = dir" "list_all stable_ref (lock_refs l)"
  shows "map_refs (from_dir dir) (map_refs (in_dir dir) l) = l"
  using stable_ref_dir[OF assms(1,2)] assms(3) by (intro map_refs_id) (auto simp: list_all_iff)

lemma lock_refs_sort: "set (lock_refs (sort_packages l)) = set (lock_refs l)"
  by (simp add: lock_refs_def sort_packages_def)

lemma check_map:
  "check_package (map_package_refs f p) = check_package p"
  "check_packages (map (map_package_refs f) ps) = check_packages ps"
  by (induction p and ps rule: check_package_check_packages.induct) (simp_all cong: option.case_cong)

text \<open>Packages for the examples.\<close>

definition pinned :: "string \<Rightarrow> string \<Rightarrow> string \<Rightarrow> package list \<Rightarrow> package" where
  "pinned name r v deps = Package name r [] [] v [] [] [] [] False [] [] [] [] deps"

definition example_lock :: lock where
  "example_lock =
     \<lparr>lock_includes = [],
      lock_packages = [pinned ''rg'' ''github:o/rg'' ''14.1'' [pinned ''lib'' ''/d/lib.toml'' ''1.0'' []],
                       pinned ''fd'' ''/d/fd.toml'' ''9.0'' []]\<rparr>"

subsection \<open>Properties\<close>

text \<open> C11. After any sequence of \<open>Set\<close> and \<open>Delete\<close> the lock holds each name at most once, and under each
  name exactly what the last operation on it left.\<close>
theorem lock_operations:
  "lock_find (fold locks.run_op ops empty_lock) = locks.history ops (\<lambda>_. None)
   \<and> distinct_names (fold locks.run_op ops empty_lock)"
proof -
  have "distinct_names empty_lock" by (simp add: distinct_names_def empty_lock_def)
  moreover have "lock_find empty_lock = (\<lambda>_. None)" by (auto simp: lock_find_def empty_lock_def)
  ultimately show ?thesis using locks.run_history[of empty_lock ops] locks.run_inv[of empty_lock ops] by simp
qed

text \<open> The same state gives the same bytes: two locks that pin the same packages, in any order, are written
  as the same text.\<close>
theorem lock_bytes_canonical:
  assumes "mset (lock_packages l) = mset (lock_packages l')" "lock_includes l = lock_includes l'" "distinct_names l"
  shows "lock_bytes marshal l path = lock_bytes marshal l' path"
proof -
  have "sort_packages l = sort_packages l'"
    using sort_by_name_perm[OF assms(1), of k_name] assms(2,3)
    by (cases l; cases l') (simp add: sort_packages_def distinct_names_def)
  then show ?thesis by (simp add: lock_bytes_def)
qed

theorem lock_bytes_canonical_witness:
  "lock_bytes (\<lambda>_. ''x'') example_lock ''/d/oku.lock''
     = lock_bytes (\<lambda>_. ''x'') (example_lock\<lparr>lock_packages := rev (lock_packages example_lock)\<rparr>) ''/d/oku.lock''"
  by (rule lock_bytes_canonical) (simp_all add: example_lock_def distinct_names_def pinned_def)



text \<open> A lock that is accepted names no path: the version of every package in it, of each of its platforms
  and of every package that it depends on, at any depth, holds no separator and no control byte.\<close>
theorem accepted_versions_safe:
  assumes "parse_lock unmarshal data = Inr l" "p \<in> set (lock_packages l)" "inside q p"
  shows "safe_version (k_version q) \<and> list_all (\<lambda>(_, at). safe_version (l_version at)) (k_platforms q)"
proof -
  have "check_package p = None"
    using assms(1,2) by (auto simp: parse_lock_def dest: check_packages_mem split: if_splits sum.splits option.splits)
  from check_package_inside[OF assms(3) this] check_package_self(1,2)[of q] check_version_safe
  show ?thesis by (auto simp: list_all_iff)
qed

theorem accepted_versions_safe_witness:
  "safe_version (k_version (pinned ''lib'' ''/d/lib.toml'' ''1.0'' []))
   \<and> list_all (\<lambda>(_, at). safe_version (l_version at)) (k_platforms (pinned ''lib'' ''/d/lib.toml'' ''1.0'' []))"
proof (rule accepted_versions_safe[of "\<lambda>_. Inr example_lock" "[]" example_lock])
  show "parse_lock (\<lambda>_. Inr example_lock) [] = Inr example_lock" by code_simp
  show "hd (lock_packages example_lock) \<in> set (lock_packages example_lock)" by (simp add: example_lock_def)
  show "inside (pinned ''lib'' ''/d/lib.toml'' ''1.0'' []) (hd (lock_packages example_lock))"
    by (rule inside_dep[of "pinned ''lib'' ''/d/lib.toml'' ''1.0'' []"])
      (simp_all add: example_lock_def pinned_def inside_self)
qed

text \<open> Data is taken for a conflict exactly when a line of it starts with the marker of git, and such data
  is never accepted.\<close>
theorem conflict_iff_marker:
  "(snd (conflicted data) \<longleftrightarrow> (\<exists>l\<in>set (lines data). take 7 l = ''<<<<<<<'')) \<and> concat (lines data) = data
   \<and> (snd (conflicted data) \<longleftrightarrow> parse_lock (\<lambda>_. Inr empty_lock) data = Inl Conflict)"
  by (simp add: conflicted_def conflict_found concat_lines parse_lock_def empty_lock_def)

text \<open> Being weaker is a strict order on checks, it separates the checks by a signature from all others, and
  \<open>CheckedSignature\<close> holds exactly for a package with such a check.\<close>
theorem weaker_order:
  "\<not> weaker a a \<and> \<not> (weaker a b \<and> weaker b c \<and> \<not> weaker a c)
   \<and> (checked_signature p = list_ex (\<lambda>(_, at). l_verified at \<in> {''sigstore'', ''minisign'', ''cosign''}) (k_platforms p))"
proof -
  have "rank_or_zero v = rank_or_zero ''sigstore'' \<longleftrightarrow> v \<in> {''sigstore'', ''minisign'', ''cosign''}" for v
    by (simp add: rank_or_zero_def verified_rank_def)
  then show ?thesis
    by (auto simp: weaker_def checked_signature_def list_ex_iff split: option.splits)
qed

end
