(* ===== verification/Profile_Tree.thy ===== *)
theory Profile_Tree
  imports Prelude
begin

text \<open>
  The links of a generation, \<open>internal/profile/profile.go\<close> on Unix: the files that its packages provide,
  and the links to them, where a folder that one package fills becomes one link. A path is the list of its
  elements, and the file system is the argument \<open>files\<close>: the files below a directory, in the order of
  \<open>filepath.WalkDir\<close>, or nothing when the directory is not there.
\<close>

subsection \<open>The files of the packages\<close>

type_synonym path = "string list"

record tree_package =
  tp_name :: string
  tp_store :: path

record tree_entry =
  te_path :: path
  te_rel :: path
  te_pkg :: tree_package

datatype tree_error = BothProvide string string path

text \<open>\<open>treeEntries\<close>: \<open>owners\<close> maps each file of the tree to the package that provides it.\<close>

fun tree_walk ::
  "tree_package \<Rightarrow> path \<Rightarrow> path \<Rightarrow> path list \<Rightarrow> (path \<rightharpoonup> string) \<Rightarrow> (tree_error, tree_entry list \<times> (path \<rightharpoonup> string)) res"
  where
  "tree_walk pkg root into [] owners = Inr ([], owners)"
| "tree_walk pkg root into (rel0 # rest) owners =
     (let rel = into @ rel0
      in case owners rel of
           Some owner \<Rightarrow> Inl (BothProvide owner (tp_name pkg) rel)
         | None \<Rightarrow>
             and_then (tree_walk pkg root into rest (owners(rel \<mapsto> tp_name pkg)))
               (\<lambda>(es, owners'). Inr (\<lparr>te_path = root @ rel0, te_rel = rel, te_pkg = pkg\<rparr> # es, owners')))"

definition tree_entries ::
  "(path \<Rightarrow> path list option) \<Rightarrow> tree_package \<Rightarrow> path \<times> path \<Rightarrow> (path \<rightharpoonup> string)
     \<Rightarrow> (tree_error, tree_entry list \<times> (path \<rightharpoonup> string)) res" where
  "tree_entries files pkg sub_into owners =
     (let root = tp_store pkg @ fst sub_into
      in case files root of
           None \<Rightarrow> Inr ([], owners)
         | Some rels \<Rightarrow> tree_walk pkg root (snd sub_into) rels owners)"

definition tree_subs :: "(path \<times> path) list" where
  "tree_subs = [([''bin''], [''bin'']), ([''share''], [''share'']), ([''man''], [''share'', ''man''])]"

fun gather_entries ::
  "(path \<Rightarrow> path list option) \<Rightarrow> (tree_package \<times> path \<times> path) list \<Rightarrow> (path \<rightharpoonup> string)
     \<Rightarrow> (tree_error, tree_entry list) res" where
  "gather_entries files [] owners = Inr []"
| "gather_entries files ((pkg, sub_into) # rest) owners =
     and_then (tree_entries files pkg sub_into owners)
       (\<lambda>(es, owners'). and_then (gather_entries files rest owners') (\<lambda>es'. Inr (es @ es')))"

definition build_entries :: "(path \<Rightarrow> path list option) \<Rightarrow> tree_package list \<Rightarrow> (tree_error, tree_entry list) res" where
  "build_entries files pkgs =
     gather_entries files (concat (map (\<lambda>pkg. map (Pair pkg) tree_subs) pkgs)) (\<lambda>_. None)"

subsection \<open>Whole folders\<close>

text \<open>
  The folders above a file that are below \<open>bin\<close> or \<open>share\<close>, innermost first, each with the folder of the
  package that fills it. A folder of one element, such as \<open>bin\<close>, has no separator and ends the walk.
\<close>

function ups :: "path \<Rightarrow> path \<Rightarrow> (path \<times> path) list" where
  "ups rel source =
     (if length rel \<le> 2 then []
      else (butlast rel, butlast source) # ups (butlast rel) (butlast source))"
  by pat_completeness auto
termination
  by (relation "measure (\<lambda>(rel, _). length rel)") auto

declare ups.simps [simp del]

definition sources :: "tree_entry list \<Rightarrow> path \<Rightarrow> path list" where
  "sources es dir =
     remdups (map snd (filter (\<lambda>p. fst p = dir) (concat (map (\<lambda>e. ups (te_rel e) (te_path e)) es))))"

definition whole_folder :: "tree_entry list \<Rightarrow> path \<Rightarrow> path option" where
  "whole_folder es dir = (case sources es dir of [s] \<Rightarrow> Some s | _ \<Rightarrow> None)"

text \<open>The link of an entry: through the outermost folder that one package fills.\<close>

definition link_of :: "tree_entry list \<Rightarrow> tree_entry \<Rightarrow> path \<times> path" where
  "link_of es e =
     fold (\<lambda>(dir, _) best. case whole_folder es dir of Some s \<Rightarrow> (dir, s) | None \<Rightarrow> best)
       (ups (te_rel e) (te_path e)) (te_rel e, te_path e)"

fun link_loop :: "tree_entry list \<Rightarrow> tree_entry list \<Rightarrow> path set \<Rightarrow> (path \<times> path) list" where
  "link_loop all [] linked = []"
| "link_loop all (e # es) linked =
     (let (rel, target) = link_of all e
      in if rel \<in> linked then link_loop all es linked
         else (rel, target) # link_loop all es (insert rel linked))"

definition link_entries :: "tree_entry list \<Rightarrow> (path \<times> path) list" where
  "link_entries es = link_loop es es {}"

definition build_tree :: "(path \<Rightarrow> path list option) \<Rightarrow> tree_package list \<Rightarrow> (tree_error, (path \<times> path) list) res" where
  "build_tree files pkgs = and_then (build_entries files pkgs) (\<lambda>es. Inr (link_entries es))"

subsection \<open>What the links reach\<close>

text \<open>An entry as \<open>treeEntries\<close> makes it: its path and its place in the tree end in the same elements.\<close>

definition entry_ok :: "tree_entry \<Rightarrow> bool" where
  "entry_ok e \<longleftrightarrow>
     (\<exists>root into r. te_path e = root @ r \<and> te_rel e = into @ r \<and> length into \<le> 2)"

lemma ups_short: "length rel \<le> 2 \<Longrightarrow> ups rel p = []"
  and ups_long: "\<not> length rel \<le> 2 \<Longrightarrow> ups rel p = (butlast rel, butlast p) # ups (butlast rel) (butlast p)"
  by (subst ups.simps, simp)+

lemma ups_suffix:
  "(dir, source) \<in> set (ups rel p) \<Longrightarrow> p = root @ r \<Longrightarrow> rel = into @ r \<Longrightarrow> length into \<le> 2 \<Longrightarrow>
   \<exists>s. s \<noteq> [] \<and> rel = dir @ s \<and> p = source @ s \<and> 2 \<le> length dir"
proof (induction rel p arbitrary: r rule: ups.induct)
  case (1 rel p)
  have len: "\<not> length rel \<le> 2"
  proof
    assume "length rel \<le> 2"
    from ups_short[OF this, of p] "1.prems"(1) show False by simp
  qed
  with "1.prems" have r: "r \<noteq> []" by auto
  have one: "p = butlast p @ [last r]" "rel = butlast rel @ [last r]"
    using r "1.prems" by (auto simp: butlast_append)
  have b: "butlast p = root @ butlast r" "butlast rel = into @ butlast r"
    using r "1.prems" by (auto simp: butlast_append)
  from "1.prems"(1) len consider "dir = butlast rel" "source = butlast p"
    | "(dir, source) \<in> set (ups (butlast rel) (butlast p))"
    unfolding ups_long[OF len] by auto
  then show ?case
  proof cases
    case 1
    with one len show ?thesis by (intro exI[of _ "[last r]"]) auto
  next
    case 2
    from "1.IH"[OF len 2 b "1.prems"(4)] obtain s where
      "s \<noteq> []" "butlast rel = dir @ s" "butlast p = source @ s" "2 \<le> length dir" by blast
    with one show ?thesis by (intro exI[of _ "s @ [last r]"]) auto
  qed
qed

lemma ups_all:
  "rel = dir @ s \<Longrightarrow> s \<noteq> [] \<Longrightarrow> 2 \<le> length dir \<Longrightarrow> \<exists>source. (dir, source) \<in> set (ups rel p)"
proof (induction rel p arbitrary: s rule: ups.induct)
  case (1 rel p)
  then have len: "\<not> length rel \<le> 2" by (cases s) auto
  show ?case
  proof (cases "butlast s = []")
    case True
    with "1.prems" have "dir = butlast rel" by (simp add: butlast_append)
    with ups_long[OF len, of p] show ?thesis by auto
  next
    case False
    moreover have "butlast rel = dir @ butlast s" using "1.prems" by (simp add: butlast_append)
    ultimately obtain source where "(dir, source) \<in> set (ups (butlast rel) (butlast p))"
      using "1.IH"[OF len, of "butlast s"] "1.prems"(3) by blast
    with ups_long[OF len, of p] show ?thesis by auto
  qed
qed

text \<open>A folder of the link of an entry is the shortest one that one package fills.\<close>

lemma ups_fst: "map fst (ups rel p) = rev (map (\<lambda>k. take k rel) [2..<length rel])"
proof (induction rel p rule: ups.induct)
  case (1 rel p)
  show ?case
  proof (cases "length rel \<le> 2")
    case False
    then obtain n where n: "length rel = Suc n" "2 \<le> n" by (cases "length rel") auto
    then have "map (\<lambda>k. take k (butlast rel)) [2..<n] = map (\<lambda>k. take k rel) [2..<n]"
      by (simp add: take_butlast)
    with 1 False n show ?thesis by (simp add: ups_long butlast_conv_take)
  qed (simp add: ups_short)
qed

lemma fold_last_found:
  "fold (\<lambda>(dir, _) best. case w dir of Some s \<Rightarrow> (dir, s) | None \<Rightarrow> best) xs b =
     (case find (\<lambda>dir. w dir \<noteq> None) (rev (map fst xs)) of None \<Rightarrow> b | Some dir \<Rightarrow> (dir, the (w dir)))"
  by (induction xs rule: rev_induct) (auto split: option.splits)

lemma find_map_comp: "find P (map f xs) = map_option f (find (\<lambda>x. P (f x)) xs)"
  by (induction xs) auto

definition folder_at :: "tree_entry list \<Rightarrow> path \<Rightarrow> nat option" where
  "folder_at es rel = find (\<lambda>k. whole_folder es (take k rel) \<noteq> None) [2..<length rel]"

lemma link_of_folder:
  "link_of es e =
     (case folder_at es (te_rel e) of
        None \<Rightarrow> (te_rel e, te_path e)
      | Some k \<Rightarrow> (take k (te_rel e), the (whole_folder es (take k (te_rel e)))))"
  unfolding link_of_def fold_last_found ups_fst folder_at_def rev_rev_ident find_map_comp
  by (simp split: option.split)

lemma folder_at_Some:
  "folder_at es rel = Some k \<longleftrightarrow>
     2 \<le> k \<and> k < length rel \<and> whole_folder es (take k rel) \<noteq> None
     \<and> (\<forall>j. 2 \<le> j \<and> j < k \<longrightarrow> whole_folder es (take j rel) = None)"
proof
  assume "folder_at es rel = Some k"
  then obtain i where i: "i < length rel - 2" "k = i + 2" "whole_folder es (take k rel) \<noteq> None"
    and before_none: "\<forall>j<i. whole_folder es (take (j + 2) rel) = None"
    by (auto simp: folder_at_def find_Some_iff)
  have "whole_folder es (take j rel) = None" if "2 \<le> j" "j < k" for j
  proof -
    have "j - 2 + 2 = j" using that by simp
    with before_none[rule_format, of "j - 2"] that i(2) show ?thesis by (simp only:)
  qed
  with i show "2 \<le> k \<and> k < length rel \<and> whole_folder es (take k rel) \<noteq> None
     \<and> (\<forall>j. 2 \<le> j \<and> j < k \<longrightarrow> whole_folder es (take j rel) = None)" by auto
next
  assume k: "2 \<le> k \<and> k < length rel \<and> whole_folder es (take k rel) \<noteq> None
     \<and> (\<forall>j. 2 \<le> j \<and> j < k \<longrightarrow> whole_folder es (take j rel) = None)"
  then have "2 \<le> k" by blast
  then have "Suc (Suc (k - 2)) = k" by simp
  with k show "folder_at es rel = Some k"
    unfolding folder_at_def find_Some_iff by (intro exI[of _ "k - 2"]) auto
qed

lemma whole_source:
  assumes "e \<in> set es" "entry_ok e" "te_rel e = dir @ s" "s \<noteq> []" "2 \<le> length dir"
    and "whole_folder es dir = Some source"
  shows "te_path e = source @ s"
proof -
  from ups_all[OF assms(3-5)] obtain src where src: "(dir, src) \<in> set (ups (te_rel e) (te_path e))" by blast
  with assms(1) have "src \<in> set (sources es dir)" by (force simp: sources_def)
  moreover from assms(6) have "sources es dir = [source]"
    by (auto simp: whole_folder_def split: list.splits)
  ultimately have "src = source" by simp
  moreover obtain root into r where "te_path e = root @ r" "te_rel e = into @ r" "length into \<le> 2"
    using assms(2) by (auto simp: entry_ok_def)
  with ups_suffix[OF src] obtain s' where "te_rel e = dir @ s'" "te_path e = src @ s'" by blast
  ultimately show ?thesis using assms(3) by simp
qed

lemma link_of_reaches:
  assumes "e \<in> set es" "entry_ok e" "link_of es e = (r, t)"
  shows "\<exists>s. te_rel e = r @ s \<and> te_path e = t @ s"
proof (cases "folder_at es (te_rel e)")
  case (Some k)
  then have k: "2 \<le> k" "k < length (te_rel e)" "whole_folder es (take k (te_rel e)) \<noteq> None"
    by (auto simp: folder_at_Some)
  then have "te_path e = the (whole_folder es (take k (te_rel e))) @ drop k (te_rel e)"
    by (intro whole_source[OF assms(1,2)]) auto
  with Some assms(3) show ?thesis
    by (intro exI[of _ "drop k (te_rel e)"]) (auto simp: link_of_folder)
qed (use assms(3) in \<open>simp add: link_of_folder\<close>)

text \<open>Whatever lies below the folder of a link has the same link.\<close>

lemma link_of_below:
  assumes "link_of es e = (r, t)" "r \<noteq> te_rel e" "te_rel e' = r @ s" "s \<noteq> []"
  shows "link_of es e' = (r, t)"
proof -
  obtain k where k: "folder_at es (te_rel e) = Some k" and r: "r = take k (te_rel e)"
    and t: "t = the (whole_folder es r)"
    using assms(1,2) by (auto simp: link_of_folder split: option.splits)
  have kr: "length r = k" using k r by (auto simp: folder_at_Some)
  have "take j (te_rel e') = take j (te_rel e)" if "j \<le> k" for j
    using that assms(3) kr r by (simp add: take_append min_def take_take)
  with k kr r assms(3,4) have "folder_at es (te_rel e') = Some k"
    unfolding folder_at_Some by simp
  with kr assms(3) t show ?thesis by (simp add: link_of_folder)
qed

lemma link_loop_Cons:
  "link_loop all (e # es) linked =
     (if fst (link_of all e) \<in> linked then link_loop all es linked
      else link_of all e # link_loop all es (insert (fst (link_of all e)) linked))"
  by (simp add: Let_def case_prod_unfold)

declare link_loop.simps(2) [simp del]

lemma link_loop_sub: "set (link_loop all es linked) \<subseteq> link_of all ` set es"
  by (induction es arbitrary: linked) (auto simp: link_loop_Cons)

lemma link_loop_fresh:
  "distinct (map fst (link_loop all es linked)) \<and> fst ` set (link_loop all es linked) \<inter> linked = {}"
proof (induction es arbitrary: linked)
  case (Cons e es)
  from Cons[of linked] Cons[of "insert (fst (link_of all e)) linked"] show ?case
    by (auto simp: link_loop_Cons)
qed simp

lemma link_loop_all: "e \<in> set es \<Longrightarrow> fst (link_of all e) \<in> linked \<union> fst ` set (link_loop all es linked)"
proof (induction es arbitrary: linked)
  case (Cons a es)
  from Cons.IH[of linked] Cons.IH[of "insert (fst (link_of all a)) linked"] Cons.prems show ?case
    by (auto simp: link_loop_Cons)
qed simp

end
