(* ===== verification/Host.thy ===== *)
theory Host
  imports Platform
begin

text \<open>
  What a machine must have, \<open>internal/host/host.go\<close>: the entries of \<open>[host]\<close> and the check of a machine.
  Whether a program is on PATH, whether a path exists and whether the package manager has a package are
  arguments, and so is the text of \<open>/etc/os-release\<close>.
\<close>

subsection \<open>Reading an entry\<close>

text \<open>
  A Go map from strings is the list of its entries in the order of their keys, so \<open>maps.Equal\<close> is equality.
\<close>

record requirement =
  rq_name :: string
  rq_package :: string
  rq_command :: string
  rq_path :: string
  rq_packages :: "(string \<times> string) list"
  rq_install :: string
  rq_when :: when_list

definition managers :: "(string \<times> string) list" where
  "managers = [(''apt'', ''sudo apt-get install''), (''dnf'', ''sudo dnf install''),
     (''pacman'', ''sudo pacman -S''), (''apk'', ''sudo apk add''), (''zypper'', ''sudo zypper install'')]"

datatype host_error =
    HostNotTable string
  | HostWhen string platform_error
  | HostNotString string string
  | HostUnknownKey string string
  | NothingToCheck string

text \<open>A write to the map \<open>Packages\<close>.\<close>

fun put_sorted :: "string \<Rightarrow> string \<Rightarrow> (string \<times> string) list \<Rightarrow> (string \<times> string) list" where
  "put_sorted k v [] = [(k, v)]"
| "put_sorted k v ((j, w) # rest) =
     (if j = k then (k, v) # rest else if str_cmp k j < 0 then (k, v) # (j, w) # rest
      else (j, w) # put_sorted k v rest)"

fun host_fields ::
  "(toml option \<Rightarrow> (platform_error, when_list) res) \<Rightarrow> string \<Rightarrow> (string \<times> toml) list \<Rightarrow> requirement \<Rightarrow> (host_error, requirement) res" where
  "host_fields parse name [] r = Inr r"
| "host_fields parse name ((key, v) # rest) r =
     (if key = ''when''
      then (case parse (Some v) of
              Inl e \<Rightarrow> Inl (HostWhen name e)
            | Inr w \<Rightarrow> host_fields parse name rest (r\<lparr>rq_when := w\<rparr>))
      else (case v of
              TStr txt \<Rightarrow>
                if txt = [] then Inl (HostNotString name key)
                else if key = ''command'' then host_fields parse name rest (r\<lparr>rq_command := txt\<rparr>)
                else if key = ''path'' then host_fields parse name rest (r\<lparr>rq_path := txt\<rparr>)
                else if key = ''install'' then host_fields parse name rest (r\<lparr>rq_install := txt\<rparr>)
                else if map_of managers key = None then Inl (HostUnknownKey name key)
                else host_fields parse name rest (r\<lparr>rq_packages := put_sorted key txt (rq_packages r)\<rparr>)
            | _ \<Rightarrow> Inl (HostNotString name key)))"

definition empty_requirement :: "string \<Rightarrow> requirement" where
  "empty_requirement name = \<lparr>rq_name = name, rq_package = [], rq_command = [], rq_path = [], rq_packages = [],
     rq_install = [], rq_when = []\<rparr>"

text \<open>\<open>parse\<close> reads the entry's when.\<close>

definition parse_host ::
  "(toml option \<Rightarrow> (platform_error, when_list) res) \<Rightarrow> string \<Rightarrow> toml \<Rightarrow> (host_error, requirement) res" where
  "parse_host parse name value =
     (case value of
        TTab t \<Rightarrow>
          and_then (host_fields parse name t (empty_requirement name)) (\<lambda>r.
            if rq_command r = [] \<and> rq_path r = [] \<and> rq_packages r = [] then Inl (NothingToCheck name) else Inr r)
      | _ \<Rightarrow> Inl (HostNotTable name))"

subsection \<open>Checking a machine\<close>

record host_system =
  hs_manager :: string
  hs_installed :: "(string \<Rightarrow> (string, bool) res) option"

record missing =
  ms_requirement :: requirement
  ms_fix :: string
  ms_command :: bool
  ms_unchecked :: bool

text \<open>\<open>strings.Fields\<close> on ASCII space.\<close>

definition fields :: "string \<Rightarrow> string list" where
  "fields s =
     filter (\<lambda>w. w \<noteq> [])
       (split_char (CHR '' '') (map (\<lambda>c. if byte c \<in> {9, 10, 11, 12, 13, 32} then CHR '' '' else c) s))"

definition os_ids :: "string \<Rightarrow> string list" where
  "os_ids release =
     concat (map (\<lambda>l. case cut_char (CHR ''='') (trim_suffix l [CHR 0x0D]) of
         None \<Rightarrow> []
       | Some (key, value) \<Rightarrow>
           if key \<in> {''ID'', ''ID_LIKE''} then fields (trim_of value [CHR 0x22, CHR 0x27]) else [])
       (split_char (CHR 0x0A) release))"

text \<open>The ids of \<open>/etc/os-release\<close> in order, with the package manager that each one has.\<close>

fun manager_of :: "string list \<Rightarrow> string" where
  "manager_of [] = []"
| "manager_of (i # rest) =
     (if i \<in> {''debian'', ''ubuntu''} then ''apt''
      else if i \<in> {''fedora'', ''rhel'', ''centos''} then ''dnf''
      else if i = ''arch'' then ''pacman''
      else if i = ''alpine'' then ''apk''
      else if has_prefix i ''opensuse'' \<or> i = ''suse'' then ''zypper''
      else manager_of rest)"

definition detect_manager :: "string \<Rightarrow> string" where
  "detect_manager release = manager_of (os_ids release)"

text \<open>One round of \<open>Check\<close>: nothing when the requirement is met.\<close>

definition check_one ::
  "(string \<Rightarrow> bool) \<Rightarrow> (string \<Rightarrow> bool) \<Rightarrow> host_system \<Rightarrow> requirement \<Rightarrow> (string, missing option) res" where
  "check_one on_path exists s r =
     (let met = (rq_command r \<noteq> [] \<longrightarrow> on_path (rq_command r)) \<and> (rq_path r \<noteq> [] \<longrightarrow> exists (rq_path r));
          pkg = map_of (rq_packages r) (hs_manager s);
          unchecked = (rq_packages r \<noteq> [] \<and> pkg = None \<and> rq_command r = [] \<and> rq_path r = [])
      in and_then
           (case (pkg, hs_installed s) of
              (Some name, Some installed) \<Rightarrow> and_then (installed name) (\<lambda>ok. Inr (met \<and> ok))
            | _ \<Rightarrow> Inr met)
           (\<lambda>met.
              if met \<and> \<not> unchecked then Inr None
              else Inr (Some \<lparr>ms_requirement = r,
                  ms_fix = (case pkg of None \<Rightarrow> rq_install r
                            | Some name \<Rightarrow> (case map_of managers (hs_manager s) of None \<Rightarrow> [] | Some c \<Rightarrow> c)
                                @ '' '' @ name),
                  ms_command = (pkg \<noteq> None), ms_unchecked = unchecked\<rparr>)))"

fun host_check ::
  "(string \<Rightarrow> bool) \<Rightarrow> (string \<Rightarrow> bool) \<Rightarrow> host_system \<Rightarrow> requirement list \<Rightarrow> (string, missing list) res" where
  "host_check on_path exists s [] = Inr []"
| "host_check on_path exists s (r # rs) =
     and_then (check_one on_path exists s r) (\<lambda>found.
       and_then (host_check on_path exists s rs) (\<lambda>rest.
         Inr (case found of None \<Rightarrow> rest | Some m \<Rightarrow> m # rest)))"

end
