(* ===== verification/Profile.thy ===== *)
theory Profile
  imports Profile_Tree Host Resolve Go_Path "HOL-Library.Word"
begin

unbundle bit_operations_syntax

text \<open>
  The profiles of \<open>internal/profile/profile.go\<close>, on Unix: a directory of numbered generations, the link
  \<open>current\<close> to the active one, and the trees of links that generations share. A generation holds its
  files and its copy of the lock as inodes, so that a hard link from one generation to the next is an
  inode that both name. The files that the packages provide, the hash that names a tree and the clock are
  arguments; errors of the file system that do not follow from the state are not modelled.
\<close>

subsection \<open>Data\<close>

type_synonym mode = "32 word"

record gen_package =
  g_name :: string
  g_version :: string
  g_ref :: string
  g_store :: string
  g_closure :: "string list"
  g_build_only :: "string list"
  g_env :: "(string \<times> string) list"
  g_service :: bool
  g_system :: bool
  g_run_as :: string

record secret_ref =
  sr_name :: string
  sr_source :: string
  sr_key :: string
  sr_cipher :: string
  sr_data :: string

record gen_file =
  f_target :: string
  f_link :: string
  f_content :: string
  f_mode :: mode
  f_hash :: string
  f_text :: string
  f_secrets :: "secret_ref list"

record setting =
  st_domain :: string
  st_key :: string
  st_value :: string

record gen_state =
  gs_created :: time
  gs_packages :: "gen_package list"
  gs_files :: "gen_file list"
  gs_settings :: "setting list"
  gs_host :: "requirement list"
  gs_from :: int

definition no_state :: gen_state where
  "no_state = \<lparr>gs_created = zero_time, gs_packages = [], gs_files = [], gs_settings = [], gs_host = [],
     gs_from = 0\<rparr>"

text \<open>What the state file keeps of a state: the fields that are tagged \<open>-\<close> come back empty.\<close>

definition on_disk :: "gen_state \<Rightarrow> gen_state" where
  "on_disk s = s\<lparr>
     gs_files := map (\<lambda>f. f\<lparr>f_text := [], f_secrets := map (sr_data_update (\<lambda>_. [])) (f_secrets f)\<rparr>) (gs_files s),
     gs_host := map (rq_when_update (\<lambda>_. [])) (gs_host s)\<rparr>"

text \<open>
  The state file of a generation: none, one without bytes, one that is not a state, or a state. Of the
  directory, \<open>d_data\<close> gives the inode of each file that \<open>build\<close> writes, and \<open>d_links\<close> the tree behind
  \<open>bin\<close> and \<open>share\<close>.
\<close>

datatype state_file = NoState | EmptyState | BadState | State gen_state

record gen_dir =
  d_state :: state_file
  d_data :: "(string \<times> nat) list"
  d_links :: "(string \<times> string) list"

text \<open>
  A profile: its directories in the order of \<open>os.ReadDir\<close>, the name behind \<open>current\<close>, the trees by name,
  and the contents and the mode of every inode.
\<close>

record profile =
  pr_dirs :: "(string \<times> gen_dir) list"
  pr_current :: "string option"
  pr_trees :: "(string \<times> (path \<times> path) list) list"
  pr_heap :: "(string \<times> mode) list"

datatype profile_error =
    EmptyStateFile string
  | BadStateFile string
  | MissingContent string
  | NotInstalled string
  | Tree tree_error
  | GenerationExists int
  | NoGeneration int

definition gen_name :: "int \<Rightarrow> string" where
  "gen_name n = ''gen-'' @ itoa n"

definition is_gen :: "string \<Rightarrow> bool" where
  "is_gen name = has_prefix name ''gen-''"

subsection \<open>Reading\<close>

definition dir_at :: "profile \<Rightarrow> string \<Rightarrow> gen_dir option" where
  "dir_at p gen =
     (if gen = ''current'' then Option.bind (pr_current p) (map_of (pr_dirs p)) else map_of (pr_dirs p) gen)"

definition read_state :: "string \<Rightarrow> state_file \<Rightarrow> (profile_error, gen_state option) res" where
  "read_state gen f =
     (case f of NoState \<Rightarrow> Inr None | EmptyState \<Rightarrow> Inl (EmptyStateFile gen)
      | BadState \<Rightarrow> Inl (BadStateFile gen) | State s \<Rightarrow> Inr (Some s))"

definition state_in :: "profile \<Rightarrow> string \<Rightarrow> (profile_error, gen_state) res" where
  "state_in p gen =
     (case dir_at p gen of
        None \<Rightarrow> Inr no_state
      | Some d \<Rightarrow> and_then (read_state gen (d_state d)) (\<lambda>s. Inr (case s of None \<Rightarrow> no_state | Some s \<Rightarrow> s)))"

definition packages_in :: "profile \<Rightarrow> string \<Rightarrow> (profile_error, gen_package list) res" where
  "packages_in p gen = and_then (state_in p gen) (\<lambda>s. Inr (gs_packages s))"

definition packages_of :: "profile \<Rightarrow> int \<Rightarrow> (profile_error, gen_package list) res" where
  "packages_of p n = (if n = 0 then Inr [] else packages_in p (gen_name n))"

definition settings_of :: "profile \<Rightarrow> int \<Rightarrow> (profile_error, setting list) res" where
  "settings_of p n =
     (if n = 0 then Inr [] else and_then (state_in p (gen_name n)) (\<lambda>s. Inr (gs_settings s)))"

definition host_of :: "profile \<Rightarrow> int \<Rightarrow> (profile_error, requirement list) res" where
  "host_of p n = (if n = 0 then Inr [] else and_then (state_in p (gen_name n)) (\<lambda>s. Inr (gs_host s)))"

definition files_of :: "profile \<Rightarrow> int \<Rightarrow> (profile_error, gen_file list) res" where
  "files_of p n = (if n = 0 then Inr [] else and_then (state_in p (gen_name n)) (\<lambda>s. Inr (gs_files s)))"

text \<open>The bytes at a path below a generation. The names of contents and ciphers are single elements.\<close>

definition read_at :: "profile \<Rightarrow> string \<Rightarrow> string \<Rightarrow> string option" where
  "read_at p gen rel =
     Option.bind (dir_at p gen) (\<lambda>d. map_option (\<lambda>i. fst (pr_heap p ! i)) (map_of (d_data d) rel))"

definition in_files :: "string \<Rightarrow> string" where
  "in_files name = ''files/'' @ name"

definition read_content :: "profile \<Rightarrow> string \<Rightarrow> string \<Rightarrow> (profile_error, string) res" where
  "read_content p gen name =
     (case read_at p gen (in_files name) of None \<Rightarrow> Inl (MissingContent name) | Some data \<Rightarrow> Inr data)"

definition file_in :: "profile \<Rightarrow> string \<Rightarrow> gen_file \<Rightarrow> (profile_error, gen_file) res" where
  "file_in p gen f =
     (if f_content f = [] then Inr f
      else and_then (read_content p gen (f_content f)) (\<lambda>text.
             and_then
               (map_res (\<lambda>r. and_then (read_content p gen (sr_cipher r)) (\<lambda>data. Inr (r\<lparr>sr_data := data\<rparr>)))
                  (f_secrets f))
               (\<lambda>refs. Inr (f\<lparr>f_text := text, f_secrets := refs\<rparr>))))"

definition files_in :: "profile \<Rightarrow> string \<Rightarrow> (profile_error, gen_file list) res" where
  "files_in p gen = and_then (state_in p gen) (\<lambda>s. map_res (file_in p gen) (gs_files s))"

definition files_with_content :: "profile \<Rightarrow> int \<Rightarrow> (profile_error, gen_file list) res" where
  "files_with_content p n = (if n = 0 then Inr [] else files_in p (gen_name n))"

definition lock_of_current :: "profile \<Rightarrow> string option" where
  "lock_of_current p = read_at p ''current'' ''oku.lock''"

definition lock_snapshot_of :: "profile \<Rightarrow> int \<Rightarrow> (profile_error, string option) res" where
  "lock_snapshot_of p n =
     (case dir_at p (gen_name n) of
        None \<Rightarrow> Inl (NoGeneration n)
      | Some d \<Rightarrow> if d_state d = NoState then Inl (NoGeneration n) else Inr (read_at p (gen_name n) ''oku.lock''))"

definition current_number :: "profile \<Rightarrow> int" where
  "current_number p =
     (case pr_current p of None \<Rightarrow> 0 | Some active \<Rightarrow> atoi_value (trim_prefix (path_base active) ''gen-''))"

definition has_package :: "profile \<Rightarrow> string \<Rightarrow> bool" where
  "has_package p name =
     (case packages_in p ''current'' of
        Inl _ \<Rightarrow> False | Inr pkgs \<Rightarrow> list_ex (\<lambda>have. g_name have = name) pkgs)"

subsection \<open>Writing a generation\<close>

text \<open>
  Modes are written in octal in the source: 0x92 is 222, 0x124 is 444, 0x180 is 600 and 0x1FF is 777.
\<close>

definition writable :: "mode \<Rightarrow> bool" where
  "writable m \<longleftrightarrow> m AND 0x92 \<noteq> 0"

definition perm :: "mode \<Rightarrow> mode" where
  "perm m = m AND 0x1FF"

definition reusable :: "(string \<times> mode) list \<Rightarrow> (string \<times> nat) list \<Rightarrow> string \<Rightarrow> string \<Rightarrow> mode \<Rightarrow> nat option" where
  "reusable heap prev rel data mode =
     (if writable mode then None
      else (case map_of prev rel of
              None \<Rightarrow> None
            | Some i \<Rightarrow> if perm (snd (heap ! i)) = mode \<and> fst (heap ! i) = data then Some i else None))"

text \<open>\<open>writeOrReuse\<close>: \<open>dat\<close> is the directory that is built and \<open>prev\<close> the one that it replaces.\<close>

definition write_or_reuse ::
  "(string \<times> nat) list \<Rightarrow> string \<times> string \<times> mode \<Rightarrow> (string \<times> mode) list \<times> (string \<times> nat) list
     \<Rightarrow> (string \<times> mode) list \<times> (string \<times> nat) list" where
  "write_or_reuse prev w st =
     (let (rel, data, mode) = w; (heap, dat) = st
      in if map_of dat rel \<noteq> None then (heap, dat)
         else (case reusable heap prev rel data mode of
                 Some i \<Rightarrow> (heap, dat @ [(rel, i)])
               | None \<Rightarrow> (heap @ [(data, mode)], dat @ [(rel, length heap)])))"

text \<open>The calls of \<open>writeOrReuse\<close> for one file, and for a generation.\<close>

definition file_writes :: "gen_file \<Rightarrow> (string \<times> string \<times> mode) list" where
  "file_writes f =
     (if f_content f = [] then []
      else (in_files (f_content f), f_text f, if f_mode f = 0 then 0x124 else f_mode f)
             # map (\<lambda>r. (in_files (sr_cipher r), sr_data r, 0x180)) (f_secrets f))"

definition gen_writes :: "gen_file list \<Rightarrow> string option \<Rightarrow> (string \<times> string \<times> mode) list" where
  "gen_writes fs lock =
     concat (map file_writes fs)
       @ (case lock of None \<Rightarrow> [] | Some data \<Rightarrow> [(''oku.lock'', data, 0x124)])"

text \<open>\<open>build\<close>, on the directory whose links are \<open>links\<close>.\<close>

definition build_gen ::
  "profile \<Rightarrow> time \<Rightarrow> (string \<times> string) list \<Rightarrow> int \<Rightarrow> gen_package list \<Rightarrow> gen_file list \<Rightarrow> setting list
     \<Rightarrow> requirement list \<Rightarrow> string option \<Rightarrow> (string \<times> mode) list \<times> gen_dir" where
  "build_gen p clock links from pkgs fs settings reqs lock =
     (let prev = (if from > 0 then (case map_of (pr_dirs p) (gen_name from) of None \<Rightarrow> [] | Some d \<Rightarrow> d_data d)
                  else []);
          (heap, dat) = fold (write_or_reuse prev) (gen_writes fs lock) (pr_heap p, []);
          s = \<lparr>gs_created = clock, gs_packages = pkgs, gs_files = fs, gs_settings = settings, gs_host = reqs,
                gs_from = from\<rparr>
      in (heap, \<lparr>d_state = State (on_disk s), d_data = dat, d_links = links\<rparr>))"

definition tree_package_of :: "gen_package \<Rightarrow> tree_package" where
  "tree_package_of g =
     \<lparr>tp_name = g_name g, tp_store = filter (\<lambda>e. e \<noteq> []) (split_char (CHR ''/'') (g_store g))\<rparr>"

definition has_sub :: "string \<Rightarrow> (path \<times> path) list \<Rightarrow> bool" where
  "has_sub sub tree \<longleftrightarrow> list_ex (\<lambda>(rel, _). rel \<noteq> [] \<and> hd rel = sub) tree"

text \<open>\<open>linkPackages\<close>: the profile with the tree of the packages, and the links to its folders.\<close>

definition link_packages ::
  "(gen_package list \<Rightarrow> string) \<Rightarrow> (path \<Rightarrow> path list option) \<Rightarrow> gen_package list \<Rightarrow> profile
     \<Rightarrow> (profile_error, profile \<times> (string \<times> string) list) res" where
  "link_packages tree_key files pkgs p =
     (if pkgs = [] then Inr (p, [])
      else (let key = tree_key pkgs
            in and_then
                 (case map_of (pr_trees p) key of
                    Some tree \<Rightarrow> Inr (p, tree)
                  | None \<Rightarrow>
                      (case build_tree files (map tree_package_of pkgs) of
                         Inl e \<Rightarrow> Inl (Tree e)
                       | Inr tree \<Rightarrow> Inr (p\<lparr>pr_trees := pr_trees p @ [(key, tree)]\<rparr>, tree)))
                 (\<lambda>(p', tree). Inr (p', map (\<lambda>sub. (sub, key))
                    (filter (\<lambda>sub. has_sub sub tree) [''bin'', ''share''])))))"

text \<open>The loop body of \<open>nextGeneration\<close>, which takes any name that is a number for a generation.\<close>

definition higher :: "string \<times> gen_dir \<Rightarrow> int \<Rightarrow> int" where
  "higher nd highest =
     (case atoi (trim_prefix (fst nd) ''gen-'') of
        Some n \<Rightarrow> if n > highest then n else highest | None \<Rightarrow> highest)"

definition next_generation :: "profile \<Rightarrow> int" where
  "next_generation p = wrap (fold higher (pr_dirs p) 0 + 1)"

text \<open>\<open>stage\<close>: the number of the new generation, and the profile with it.\<close>

definition stage ::
  "(gen_package list \<Rightarrow> string) \<Rightarrow> (path \<Rightarrow> path list option) \<Rightarrow> time \<Rightarrow> gen_package list \<Rightarrow> gen_file list
     \<Rightarrow> setting list \<Rightarrow> requirement list \<Rightarrow> string option \<Rightarrow> profile \<Rightarrow> (profile_error, int) res \<times> profile" where
  "stage tree_key files clock pkgs fs settings reqs lock p =
     (let sorted = sort_func (by_name g_name) pkgs; number = next_generation p;
          gen = gen_name number; tmp = ''.tmp-'' @ gen;
          p0 = p\<lparr>pr_dirs := filter (\<lambda>d. fst d \<noteq> tmp) (pr_dirs p)\<rparr>
      in case link_packages tree_key files sorted p0 of
           Inl e \<Rightarrow> (Inl e, p0)
         | Inr (p1, links) \<Rightarrow>
             (let (heap, d) = build_gen p1 clock links (current_number p) sorted fs settings reqs lock
              in if map_of (pr_dirs p1) gen \<noteq> None then (Inl (GenerationExists number), p1)
                 else (Inr number, p1\<lparr>pr_dirs := pr_dirs p1 @ [(gen, d)], pr_heap := heap\<rparr>)))"

subsection \<open>Adding, removing and replacing packages\<close>

definition read_current ::
  "profile \<Rightarrow> (profile_error, gen_package list \<times> gen_file list \<times> setting list \<times> requirement list) res" where
  "read_current p =
     and_then (packages_in p ''current'') (\<lambda>pkgs.
     and_then (files_in p ''current'') (\<lambda>fs.
     and_then (settings_of p (current_number p)) (\<lambda>settings.
     and_then (host_of p (current_number p)) (\<lambda>reqs. Inr (pkgs, fs, settings, reqs)))))"

definition add_package ::
  "(gen_package list \<Rightarrow> string) \<Rightarrow> (path \<Rightarrow> path list option) \<Rightarrow> time \<Rightarrow> gen_package \<Rightarrow> requirement list
     \<Rightarrow> string option \<Rightarrow> profile \<Rightarrow> (profile_error, int) res \<times> profile" where
  "add_package tree_key files clock pkg new lock p =
     (case read_current p of
        Inl e \<Rightarrow> (Inl e, p)
      | Inr (pkgs, fs, settings, reqs) \<Rightarrow>
          stage tree_key files clock (filter (\<lambda>have. g_name have \<noteq> g_name pkg) pkgs @ [pkg]) fs settings
            (filter (\<lambda>r. rq_package r \<noteq> g_name pkg) reqs @ new) lock p)"

definition remove_packages ::
  "(gen_package list \<Rightarrow> string) \<Rightarrow> (path \<Rightarrow> path list option) \<Rightarrow> time \<Rightarrow> string list
     \<Rightarrow> string option \<Rightarrow> profile \<Rightarrow> (profile_error, int) res \<times> profile" where
  "remove_packages tree_key files clock names lock p =
     (case packages_in p ''current'' of
        Inl e \<Rightarrow> (Inl e, p)
      | Inr pkgs \<Rightarrow>
          (case find (\<lambda>name. \<not> list_ex (\<lambda>have. g_name have = name) pkgs) names of
             Some name \<Rightarrow> (Inl (NotInstalled name), p)
           | None \<Rightarrow>
               (case read_current p of
                  Inl e \<Rightarrow> (Inl e, p)
                | Inr (_, fs, settings, reqs) \<Rightarrow>
                    stage tree_key files clock (filter (\<lambda>have. g_name have \<notin> set names) pkgs) fs settings
                      (filter (\<lambda>r. rq_package r \<notin> set names) reqs) lock p)))"

definition same_package :: "gen_package \<Rightarrow> gen_package \<Rightarrow> bool" where
  "same_package a b \<longleftrightarrow>
     g_name a = g_name b \<and> g_version a = g_version b \<and> g_ref a = g_ref b \<and> g_store a = g_store b
     \<and> g_closure a = g_closure b \<and> g_build_only a = g_build_only b \<and> g_env a = g_env b
     \<and> g_service a = g_service b \<and> g_system a = g_system b \<and> g_run_as a = g_run_as b"

definition same_file :: "gen_file \<Rightarrow> gen_file \<Rightarrow> bool" where
  "same_file a b \<longleftrightarrow>
     f_target a = f_target b \<and> f_link a = f_link b \<and> f_mode a = f_mode b \<and> f_hash a = f_hash b
     \<and> f_text a = f_text b"

definition same_requirement :: "requirement \<Rightarrow> requirement \<Rightarrow> bool" where
  "same_requirement a b \<longleftrightarrow>
     rq_name a = rq_name b \<and> rq_package a = rq_package b \<and> rq_command a = rq_command b
     \<and> rq_path a = rq_path b \<and> rq_install a = rq_install b \<and> rq_packages a = rq_packages b"

text \<open>\<open>bytes.Equal\<close> takes a lock that is missing as one without bytes.\<close>

definition lock_text :: "string option \<Rightarrow> string" where
  "lock_text lock = (case lock of None \<Rightarrow> [] | Some data \<Rightarrow> data)"

definition replace ::
  "(gen_package list \<Rightarrow> string) \<Rightarrow> (path \<Rightarrow> path list option) \<Rightarrow> time \<Rightarrow> gen_package list \<Rightarrow> gen_file list
     \<Rightarrow> setting list \<Rightarrow> requirement list \<Rightarrow> string option \<Rightarrow> profile \<Rightarrow> (profile_error, int) res \<times> profile" where
  "replace tree_key files clock pkgs fs settings reqs lock p =
     (case read_current p of
        Inl e \<Rightarrow> (Inl e, p)
      | Inr (have, have_files, have_settings, have_reqs) \<Rightarrow>
          (let sorted = sort_func (by_name g_name) pkgs
           in if list_all2 same_package have sorted \<and> list_all2 same_file have_files fs
                 \<and> have_settings = settings \<and> list_all2 same_requirement have_reqs reqs
                 \<and> lock_text lock = lock_text (lock_of_current p)
              then (Inr 0, p)
              else stage tree_key files clock sorted fs settings reqs lock p))"

subsection \<open>Listing, activating and deleting\<close>

record generation =
  n_number :: int
  n_created :: time
  n_packages :: "gen_package list"
  n_files :: "gen_file list"
  n_settings :: "setting list"
  n_from :: int
  n_current :: bool

text \<open>The loop of \<open>Generations\<close>: a generation without a state file is left out.\<close>

fun list_generations ::
  "profile \<Rightarrow> (string \<times> gen_dir) list \<Rightarrow> (profile_error, generation list) res" where
  "list_generations p [] = Inr []"
| "list_generations p ((name, d) # rest) =
     (case atoi (trim_prefix name ''gen-'') of
        None \<Rightarrow> list_generations p rest
      | Some n \<Rightarrow>
          if \<not> is_gen name then list_generations p rest
          else and_then (read_state name (d_state d)) (\<lambda>found.
                 case found of
                   None \<Rightarrow> list_generations p rest
                 | Some s \<Rightarrow>
                     and_then (list_generations p rest) (\<lambda>gens.
                       Inr (\<lparr>n_number = n, n_created = gs_created s, n_packages = gs_packages s,
                              n_files = gs_files s, n_settings = gs_settings s, n_from = gs_from s,
                              n_current = (name = path_base (case pr_current p of None \<Rightarrow> [] | Some a \<Rightarrow> a))\<rparr>
                            # gens))))"

definition by_number :: "generation \<Rightarrow> generation \<Rightarrow> int" where
  "by_number a b = wrap (n_number a - n_number b)"

definition generations :: "profile \<Rightarrow> (profile_error, generation list) res" where
  "generations p = and_then (list_generations p (pr_dirs p)) (\<lambda>gens. Inr (sort_func by_number gens))"

definition activate :: "int \<Rightarrow> profile \<Rightarrow> profile" where
  "activate n p = p\<lparr>pr_current := if n = 0 then None else Some (gen_name n)\<rparr>"

definition used_trees :: "profile \<Rightarrow> string list" where
  "used_trees p = concat (map (\<lambda>(_, d). map snd (d_links d)) (filter (\<lambda>(name, _). is_gen name) (pr_dirs p)))"

definition drop_trees :: "profile \<Rightarrow> profile" where
  "drop_trees p = p\<lparr>pr_trees := filter (\<lambda>t. fst t \<in> set (used_trees p)) (pr_trees p)\<rparr>"

definition remove_gen :: "int \<Rightarrow> profile \<Rightarrow> profile" where
  "remove_gen n p = p\<lparr>pr_dirs := filter (\<lambda>d. fst d \<noteq> gen_name n) (pr_dirs p)\<rparr>"

definition discard :: "int \<Rightarrow> profile \<Rightarrow> profile" where
  "discard n p = drop_trees (remove_gen n p)"

definition unfinished :: "string \<times> gen_dir \<Rightarrow> bool" where
  "unfinished d = (if is_gen (fst d) then d_state (snd d) = NoState else has_prefix (fst d) ''.tmp-'')"

definition drop_unfinished :: "profile \<Rightarrow> profile" where
  "drop_unfinished p = p\<lparr>pr_dirs := filter (\<lambda>d. \<not> unfinished d) (pr_dirs p)\<rparr>"

subsection \<open>Pruning\<close>

record retention =
  r_keep :: int
  r_since :: time

text \<open>The index of the newest generation before \<open>Since\<close>, or -1.\<close>

fun last_before :: "time \<Rightarrow> int \<Rightarrow> generation list \<Rightarrow> int \<Rightarrow> int" where
  "last_before since i [] found = found"
| "last_before since i (g # gs) found =
     last_before since (i + 1) gs (if since \<noteq> zero_time \<and> n_created g < since then i else found)"

definition kept :: "retention \<Rightarrow> generation list \<Rightarrow> nat \<Rightarrow> bool" where
  "kept r gens i \<longleftrightarrow>
     n_current (gens ! i)
     \<or> (r_keep r > 0 \<and> int i \<ge> int (length gens) - r_keep r)
     \<or> (r_since r \<noteq> zero_time \<and> int i \<ge> last_before (r_since r) 0 gens (-1))"

definition prune_numbers :: "retention \<Rightarrow> generation list \<Rightarrow> int list" where
  "prune_numbers r gens =
     map (\<lambda>i. n_number (gens ! i)) (filter (\<lambda>i. \<not> kept r gens i) [0..<length gens])"

definition prune :: "retention \<Rightarrow> bool \<Rightarrow> profile \<Rightarrow> (profile_error, int list) res \<times> profile" where
  "prune r dry p =
     (case generations p of
        Inl e \<Rightarrow> (Inl e, p)
      | Inr gens \<Rightarrow>
          (let removed = prune_numbers r gens
           in (Inr removed, if dry \<or> removed = [] then p else drop_trees (fold remove_gen removed p))))"

end
