(* ===== verification/Profile_Laws.thy ===== *)
theory Profile_Laws
  imports Profile
begin

text \<open>
  The profile as a transition system: what a user of the profile can do to it, with the crashes and the
  edits of files that happen between, and the invariant that every reachable profile has.
\<close>

subsection \<open>Names and numbers\<close>

lemma gen_name_is_gen [simp]: "is_gen (gen_name n)"
  by (simp add: is_gen_def gen_name_def)

lemma gen_name_number [simp]: "trim_prefix (gen_name n) ''gen-'' = itoa n"
  by (simp add: trim_prefix_def gen_name_def)

lemma gen_name_inj: "in_int m \<Longrightarrow> in_int n \<Longrightarrow> gen_name m = gen_name n \<longleftrightarrow> m = n"
  using atoi_itoa by (metis gen_name_def option.inject same_append_eq)

lemma gen_name_not_current [simp]: "gen_name n \<noteq> ''current''" "gen_name n \<noteq> []"
  by (simp_all add: gen_name_def)

lemma tmp_not_gen [simp]: "\<not> is_gen (''.tmp-'' @ s)"
  by (simp add: is_gen_def)

lemma itoa_no_slash: "CHR ''/'' \<notin> set (itoa n)"
  using show_nat_digits[of "nat n"] show_nat_digits[of "nat (- n)"]
  by (auto simp: itoa_def list_all_iff is_digit_def)

lemma dropWhile_none: "\<forall>x\<in>set xs. \<not> P x \<Longrightarrow> dropWhile P xs = xs"
  by (cases xs) auto

lemma path_base_gen_name [simp]: "path_base (gen_name n) = gen_name n"
proof -
  have ns: "CHR ''/'' \<notin> set (gen_name n)" using itoa_no_slash by (simp add: gen_name_def)
  then have "dropWhile (\<lambda>c. c = CHR ''/'') (rev (gen_name n)) = rev (gen_name n)"
    by (intro dropWhile_none) auto
  then show ?thesis using ns by (simp add: path_base_def split_char_single Let_def)
qed

lemma atoi_value_itoa: "in_int n \<Longrightarrow> atoi_value (itoa n) = n"
  by (simp add: atoi_value_def atoi_itoa)

lemma current_number_gen: "pr_current p = Some (gen_name n) \<Longrightarrow> in_int n \<Longrightarrow> current_number p = n"
  by (simp add: current_number_def atoi_value_itoa)

subsection \<open>Modes\<close>

lemma writable_perm: "writable (perm m) = writable m"
proof -
  have "perm m AND 0x92 = m AND (0x1FF AND 0x92)" by (simp only: perm_def and.assoc)
  then show ?thesis by (simp add: writable_def)
qed

lemma owner_write_writable: "m AND 0x80 \<noteq> 0 \<Longrightarrow> writable m"
proof (rule ccontr)
  assume m: "m AND 0x80 \<noteq> 0" and "\<not> writable m"
  then have "(m AND 0x92) AND 0x80 = 0" by (simp add: writable_def)
  then have "m AND (0x92 AND 0x80) = 0" by (simp only: and.assoc)
  with m show False by simp
qed

lemma reusable_Some:
  assumes "reusable heap prev rel data mode = Some i"
  shows "\<not> writable (snd (heap ! i)) \<and> fst (heap ! i) = data \<and> (rel, i) \<in> set prev"
proof -
  from assms have "\<not> writable mode" "perm (snd (heap ! i)) = mode" "fst (heap ! i) = data" "map_of prev rel = Some i"
    by (auto simp: reusable_def split: if_splits option.splits)
  then show ?thesis using writable_perm by (auto dest: map_of_SomeD)
qed

subsection \<open>The writes of a generation\<close>

text \<open>
  What holds after the writes \<open>ws\<close> of a new generation onto the inodes \<open>heap0\<close>: the old inodes stay, an old
  inode of the generation is one that nobody may write, a new one has one name, and every write can be read.
\<close>

definition built :: "(string \<times> mode) list \<Rightarrow> (string \<times> string \<times> mode) list \<Rightarrow> (string \<times> mode) list \<times> (string \<times> nat) list
    \<Rightarrow> bool" where
  "built heap0 ws st \<longleftrightarrow>
     (let (heap, dat) = st
      in (\<exists>ext. heap = heap0 @ ext) \<and> distinct (map fst dat)
         \<and> (\<forall>(rel, i)\<in>set dat. i < length heap \<and> (i < length heap0 \<longrightarrow> \<not> writable (snd (heap0 ! i))))
         \<and> (\<forall>(rel, i)\<in>set dat. \<forall>(rel', j)\<in>set dat. i = j \<longrightarrow> length heap0 \<le> i \<longrightarrow> rel = rel')
         \<and> (\<forall>(rel, i)\<in>set dat. \<exists>mode. (rel, fst (heap ! i), mode) \<in> set ws)
         \<and> (\<forall>(rel, data, mode)\<in>set ws. rel \<in> fst ` set dat))"

lemma built_Nil: "built heap0 [] (heap0, [])"
  by (simp add: built_def)

lemma built_step:
  assumes "built heap0 ws (heap, dat)" "\<forall>(rel, i)\<in>set prev. i < length heap0"
  shows "built heap0 (ws @ [w]) (write_or_reuse prev w (heap, dat))"
proof -
  obtain rel data mode where w: "w = (rel, data, mode)" by (cases w)
  from assms(1) obtain ext where ext: "heap = heap0 @ ext" by (auto simp: built_def)
  consider (held) "map_of dat rel \<noteq> None"
    | (reuse) i where "map_of dat rel = None" "reusable heap prev rel data mode = Some i"
    | (new) "map_of dat rel = None" "reusable heap prev rel data mode = None" by fastforce
  then show ?thesis
  proof cases
    case held
    then have "rel \<in> fst ` set dat" by (meson map_of_eq_None_iff)
    with held assms(1) w show ?thesis by (auto simp: built_def write_or_reuse_def)
  next
    case reuse
    then have i: "i < length heap0" "fst (heap ! i) = data" "\<not> writable (snd (heap0 ! i))"
      and fresh: "rel \<notin> fst ` set dat"
      using reusable_Some[OF reuse(2)] assms(2) ext by (auto simp: nth_append map_of_eq_None_iff)
    with reuse assms(1) w ext show ?thesis
      by (auto simp: built_def write_or_reuse_def)
  next
    case new
    then have fresh: "rel \<notin> fst ` set dat" by (simp add: map_of_eq_None_iff)
    have st: "write_or_reuse prev w (heap, dat) = (heap @ [(data, mode)], dat @ [(rel, length heap)])"
      using new w by (simp add: write_or_reuse_def)
    have dat: "\<forall>(r, i)\<in>set dat. i < length heap \<and> (i < length heap0 \<longrightarrow> \<not> writable (snd (heap0 ! i)))"
      "\<forall>(r, i)\<in>set dat. \<forall>(r', j)\<in>set dat. i = j \<longrightarrow> length heap0 \<le> i \<longrightarrow> r = r'"
      "\<forall>(r, i)\<in>set dat. \<exists>mode. (r, fst (heap ! i), mode) \<in> set ws"
      "\<forall>(r, d, m)\<in>set ws. r \<in> fst ` set dat" "distinct (map fst dat)"
      using assms(1) by (simp_all add: built_def)
    have "\<forall>(r, i)\<in>set (dat @ [(rel, length heap)]). i < length (heap @ [(data, mode)])
        \<and> (i < length heap0 \<longrightarrow> \<not> writable (snd (heap0 ! i)))"
      using dat(1) ext by auto
    moreover have "\<forall>(r, i)\<in>set (dat @ [(rel, length heap)]). \<forall>(r', j)\<in>set (dat @ [(rel, length heap)]).
        i = j \<longrightarrow> length heap0 \<le> i \<longrightarrow> r = r'"
      using dat(1,2) by auto
    moreover have "\<forall>(r, i)\<in>set (dat @ [(rel, length heap)]).
        \<exists>m. (r, fst ((heap @ [(data, mode)]) ! i), m) \<in> set (ws @ [w])"
      using dat(1,3) w by (auto simp: nth_append)
    moreover have "\<forall>(r, d, m)\<in>set (ws @ [w]). r \<in> fst ` set (dat @ [(rel, length heap)])"
      using dat(4) w by auto
    moreover have "distinct (map fst (dat @ [(rel, length heap)]))" using dat(5) fresh by simp
    ultimately show ?thesis unfolding st built_def using ext by simp
  qed
qed

lemma built_fold:
  assumes "\<forall>(rel, i)\<in>set prev. i < length heap0"
  shows "built heap0 ws (fold (write_or_reuse prev) ws (heap0, []))"
proof (induction ws rule: rev_induct)
  case (snoc w ws)
  obtain heap dat where "fold (write_or_reuse prev) ws (heap0, []) = (heap, dat)" by fastforce
  with snoc built_step[OF _ assms, of ws heap dat w] show ?case by simp
qed (simp add: built_Nil)

subsection \<open>The invariant\<close>

definition gen_ok :: "profile \<Rightarrow> string \<times> gen_dir \<Rightarrow> bool" where
  "gen_ok p nd \<longleftrightarrow>
     (\<exists>n. n \<noteq> 0 \<and> in_int n \<and> fst nd = gen_name n) \<and> (\<exists>s. d_state (snd nd) = State s)
     \<and> snd ` set (d_links (snd nd)) \<subseteq> fst ` set (pr_trees p)
     \<and> (\<forall>(rel, i)\<in>set (d_data (snd nd)). i < length (pr_heap p)) \<and> distinct (map fst (d_data (snd nd)))"

definition gens :: "profile \<Rightarrow> (string \<times> gen_dir) set" where
  "gens p = {nd \<in> set (pr_dirs p). is_gen (fst nd)}"

text \<open>A file that someone may write is a file of one generation, under one name.\<close>

definition unshared :: "profile \<Rightarrow> bool" where
  "unshared p \<longleftrightarrow>
     (\<forall>nd\<in>gens p. \<forall>nd'\<in>gens p. \<forall>rel rel' i.
        (rel, i) \<in> set (d_data (snd nd)) \<longrightarrow> (rel', i) \<in> set (d_data (snd nd')) \<longrightarrow>
        writable (snd (pr_heap p ! i)) \<longrightarrow> fst nd = fst nd' \<and> rel = rel')"

lemma unsharedD:
  "unshared p \<Longrightarrow> nd \<in> gens p \<Longrightarrow> nd' \<in> gens p \<Longrightarrow> (rel, i) \<in> set (d_data (snd nd)) \<Longrightarrow>
   (rel', i) \<in> set (d_data (snd nd')) \<Longrightarrow> writable (snd (pr_heap p ! i)) \<Longrightarrow> fst nd = fst nd' \<and> rel = rel'"
  unfolding unshared_def by blast

definition current_ok :: "profile \<Rightarrow> bool" where
  "current_ok p \<longleftrightarrow>
     (case pr_current p of None \<Rightarrow> True
      | Some a \<Rightarrow> (\<exists>n. n \<noteq> 0 \<and> in_int n \<and> a = gen_name n) \<and> a \<in> fst ` set (pr_dirs p))"

definition profile_ok :: "profile \<Rightarrow> bool" where
  "profile_ok p \<longleftrightarrow>
     distinct (map fst (pr_dirs p)) \<and> (\<forall>nd\<in>gens p. gen_ok p nd) \<and> current_ok p \<and> unshared p"

lemmas profile_ok_defs = profile_ok_def gens_def gen_ok_def current_ok_def unshared_def

lemma gen_okD: "profile_ok p \<Longrightarrow> nd \<in> set (pr_dirs p) \<Longrightarrow> is_gen (fst nd) \<Longrightarrow> gen_ok p nd"
  unfolding profile_ok_def gens_def by blast

lemma profile_ok_empty: "profile_ok \<lparr>pr_dirs = [], pr_current = None, pr_trees = [], pr_heap = []\<rparr>"
  by (simp add: profile_ok_defs)

lemma profile_ok_filter:
  assumes "profile_ok p" "\<And>a d. pr_current p = Some a \<Longrightarrow> (a, d) \<in> set (pr_dirs p) \<Longrightarrow> P (a, d)"
  shows "profile_ok (p\<lparr>pr_dirs := filter P (pr_dirs p)\<rparr>)"
proof -
  let ?q = "p\<lparr>pr_dirs := filter P (pr_dirs p)\<rparr>"
  have sub: "gens ?q \<subseteq> gens p" by (auto simp: gens_def)
  moreover have "gen_ok ?q nd = gen_ok p nd" for nd by (simp add: gen_ok_def)
  moreover have "unshared ?q"
    using assms(1) sub unfolding profile_ok_def unshared_def by simp blast
  moreover have "current_ok ?q"
    using assms by (auto simp: profile_ok_def current_ok_def image_iff split: option.splits)
  moreover have "distinct (map fst (pr_dirs ?q))"
    using assms(1) by (simp add: profile_ok_def distinct_map_filter)
  ultimately show ?thesis using assms(1) by (auto simp: profile_ok_def)
qed

lemma profile_parts_trees [simp]:
  "gens (p\<lparr>pr_trees := ts\<rparr>) = gens p" "unshared (p\<lparr>pr_trees := ts\<rparr>) = unshared p"
  "current_ok (p\<lparr>pr_trees := ts\<rparr>) = current_ok p"
  by (simp_all add: gens_def unshared_def current_ok_def split: option.split)

lemma set_used_trees: "set (used_trees p) = (\<Union>nd\<in>gens p. snd ` set (d_links (snd nd)))"
  by (force simp: used_trees_def gens_def)

lemma profile_ok_trees:
  assumes "profile_ok p" "\<And>nd. nd \<in> gens p \<Longrightarrow> snd ` set (d_links (snd nd)) \<subseteq> fst ` set ts"
  shows "profile_ok (p\<lparr>pr_trees := ts\<rparr>)"
  using assms by (simp add: profile_ok_def) (simp add: gen_ok_def)

lemma profile_ok_drop_trees: "profile_ok p \<Longrightarrow> profile_ok (drop_trees p)"
  unfolding drop_trees_def
proof (rule profile_ok_trees)
  fix nd assume p: "profile_ok p" and nd: "nd \<in> gens p"
  then have "snd ` set (d_links (snd nd)) \<subseteq> fst ` set (pr_trees p)" by (simp add: profile_ok_def gen_ok_def)
  moreover have "snd ` set (d_links (snd nd)) \<subseteq> set (used_trees p)"
    using nd by (auto simp: set_used_trees)
  moreover have "fst ` set (filter (\<lambda>t. fst t \<in> U) T) = fst ` set T \<inter> U" for U and T :: "(string \<times> (path \<times> path) list) list"
    by auto
  ultimately show "snd ` set (d_links (snd nd)) \<subseteq> fst ` set (filter (\<lambda>t. fst t \<in> set (used_trees p)) (pr_trees p))"
    by simp
qed

lemma profile_ok_remove:
  "profile_ok p \<Longrightarrow> pr_current p \<noteq> Some (gen_name n) \<Longrightarrow> profile_ok (remove_gen n p)"
  unfolding remove_gen_def by (rule profile_ok_filter) auto

lemma remove_gen_current [simp]: "pr_current (remove_gen n p) = pr_current p"
  by (simp add: remove_gen_def)

lemma profile_ok_removes:
  "profile_ok p \<Longrightarrow> \<forall>n\<in>set ns. pr_current p \<noteq> Some (gen_name n) \<Longrightarrow> profile_ok (fold remove_gen ns p)"
  by (induction ns arbitrary: p) (simp_all add: profile_ok_remove)

lemma profile_ok_activate:
  assumes "profile_ok p" "n = 0 \<or> in_int n \<and> gen_name n \<in> fst ` set (pr_dirs p)"
  shows "profile_ok (activate n p)"
proof -
  have "gens (activate n p) = gens p" "gen_ok (activate n p) nd = gen_ok p nd" "unshared (activate n p) = unshared p" for nd
    by (simp_all add: activate_def gens_def gen_ok_def unshared_def)
  moreover have "current_ok (activate n p)"
    using assms(2) by (auto simp: activate_def current_ok_def)
  ultimately show ?thesis using assms(1) by (simp add: profile_ok_def) (simp add: activate_def)
qed

lemma profile_ok_drop_unfinished: "profile_ok p \<Longrightarrow> profile_ok (drop_unfinished p)"
  unfolding drop_unfinished_def
proof (rule profile_ok_filter)
  fix a d assume p: "profile_ok p" and a: "pr_current p = Some a" "(a, d) \<in> set (pr_dirs p)"
  then obtain n where "a = gen_name n" by (auto simp: profile_ok_def current_ok_def)
  with a(2) have "(a, d) \<in> gens p" by (simp add: gens_def)
  with p have "\<exists>s. d_state d = State s" by (auto simp: profile_ok_def gen_ok_def)
  then show "\<not> unfinished (a, d)" using \<open>a = gen_name n\<close> by (auto simp: unfinished_def)
qed

text \<open>A new directory whose files are new inodes or old ones that nobody may write.\<close>

lemma profile_ok_add:
  assumes "profile_ok p" "n \<noteq> 0" "in_int n" "gen_name n \<notin> fst ` set (pr_dirs p)"
    and "built (pr_heap p) ws (heap, d_data d)" "d_state d = State s"
    and "snd ` set (d_links d) \<subseteq> fst ` set (pr_trees p)"
  shows "profile_ok (p\<lparr>pr_dirs := pr_dirs p @ [(gen_name n, d)], pr_heap := heap\<rparr>)"
proof -
  let ?q = "p\<lparr>pr_dirs := pr_dirs p @ [(gen_name n, d)], pr_heap := heap\<rparr>"
  obtain ext where heap: "heap = pr_heap p @ ext" using assms(5) by (auto simp: built_def)
  have g: "gens ?q = insert (gen_name n, d) (gens p)" by (auto simp: gens_def)
  have old: "gen_ok ?q nd" "\<forall>(rel, i)\<in>set (d_data (snd nd)). i < length (pr_heap p)" if "nd \<in> gens p" for nd
    using that assms(1) heap by (fastforce simp: profile_ok_def gen_ok_def)+
  have new: "gen_ok ?q (gen_name n, d)"
    using assms(2,3,5-7) by (auto simp: gen_ok_def built_def)
  have mix: "\<not> writable (snd (heap ! i))"
    if "nd \<in> gens p" "(rel, i) \<in> set (d_data (snd nd))" "(rel', i) \<in> set (d_data d)" for nd rel rel' i
  proof -
    have "i < length (pr_heap p)" using old(2)[OF that(1)] that(2) by blast
    with assms(5) that(3) heap show ?thesis by (auto simp: built_def nth_append)
  qed
  have self: "rel = rel'" if "(rel, i) \<in> set (d_data d)" "(rel', i) \<in> set (d_data d)" "writable (snd (heap ! i))" for rel rel' i
  proof -
    from assms(5) that(1) heap that(3) have "length (pr_heap p) \<le> i"
      by (auto simp: built_def nth_append not_less[symmetric])
    with assms(5) that(1,2) show ?thesis unfolding built_def by simp blast
  qed
  have kept: "fst nd = fst nd' \<and> rel = rel'"
    if "nd \<in> gens p" "nd' \<in> gens p" "(rel, i) \<in> set (d_data (snd nd))" "(rel', i) \<in> set (d_data (snd nd'))"
      "writable (snd (heap ! i))" for nd nd' rel rel' i
  proof -
    have "i < length (pr_heap p)" using old(2)[OF that(1)] that(3) by blast
    with that(5) heap have "writable (snd (pr_heap p ! i))" by (simp add: nth_append)
    with assms(1) that show ?thesis unfolding profile_ok_def by (blast dest: unsharedD)
  qed
  have "unshared ?q"
    unfolding unshared_def
  proof (intro ballI allI impI)
    fix nd nd' rel rel' i
    assume "nd \<in> gens ?q" "nd' \<in> gens ?q"
      and i: "(rel, i) \<in> set (d_data (snd nd))" "(rel', i) \<in> set (d_data (snd nd'))"
      and "writable (snd (pr_heap ?q ! i))"
    then have w: "writable (snd (heap ! i))"
      and nd: "nd \<in> insert (gen_name n, d) (gens p)" "nd' \<in> insert (gen_name n, d) (gens p)"
      by (simp_all add: g)
    have "nd \<in> gens p \<longleftrightarrow> nd' \<in> gens p" using nd i mix w by fastforce
    then show "fst nd = fst nd' \<and> rel = rel'"
      using nd i w self kept[of nd nd' rel i rel'] by auto
  qed
  moreover have "current_ok ?q" using assms(1) by (auto simp: profile_ok_def current_ok_def split: option.splits)
  moreover have "distinct (map fst (pr_dirs ?q))" using assms(1,4) by (simp add: profile_ok_def)
  ultimately show ?thesis using old new by (auto simp: profile_ok_def g)
qed

subsection \<open>Staging\<close>

definition highest :: "profile \<Rightarrow> int" where
  "highest p = fold higher (pr_dirs p) 0"

lemma next_generation_highest: "next_generation p = wrap (highest p + 1)"
  by (simp add: next_generation_def highest_def)

lemma higher_ge: "h \<le> higher nd h" "higher nd h \<le> max h max_int"
  by (auto simp: higher_def split: option.split dest: atoi_in_int[unfolded in_int_def])

lemma higher_gen: "in_int n \<Longrightarrow> n \<le> higher (gen_name n, d) h"
  by (simp add: higher_def atoi_itoa)

lemma fold_higher_ge: "h \<le> fold higher xs h"
proof (induction xs arbitrary: h)
  case (Cons x xs)
  from order_trans[OF higher_ge(1)[of h x] Cons[of "higher x h"]] show ?case by simp
qed simp

lemma fold_higher_le: "h \<le> max_int \<Longrightarrow> fold higher xs h \<le> max_int"
proof (induction xs arbitrary: h)
  case (Cons x xs)
  with higher_ge(2)[of x h] show ?case by simp
qed simp

lemma fold_higher_gen: "in_int n \<Longrightarrow> (gen_name n, d) \<in> set xs \<Longrightarrow> n \<le> fold higher xs h"
proof (induction xs arbitrary: h)
  case (Cons x xs)
  then show ?case
    using order_trans[OF higher_gen fold_higher_ge[of "higher (gen_name n, d) h" xs]] by auto
qed simp

lemma highest_bounds: "0 \<le> highest p \<and> highest p \<le> max_int"
proof -
  have "(0::int) \<le> max_int" by (simp add: max_int_def)
  then show ?thesis unfolding highest_def by (intro conjI fold_higher_ge fold_higher_le)
qed

lemma highest_upper: "(gen_name n, d) \<in> set (pr_dirs p) \<Longrightarrow> in_int n \<Longrightarrow> n \<le> highest p"
  by (simp add: highest_def fold_higher_gen)

lemma next_generation_bounds: "in_int (next_generation p) \<and> next_generation p \<noteq> 0"
proof (cases "highest p = max_int")
  case True
  then show ?thesis by (simp add: next_generation_highest wrap_def in_int_def max_int_def min_int_def)
next
  case False
  with highest_bounds[of p] have "in_int (highest p + 1)" by (simp add: in_int_def min_int_def)
  with highest_bounds[of p] show ?thesis by (simp add: next_generation_highest)
qed

lemma next_generation_fresh:
  assumes "highest p < max_int" "(gen_name n, d) \<in> set (pr_dirs p)" "in_int n"
  shows "n < next_generation p"
proof -
  have "in_int (highest p + 1)" using assms(1) highest_bounds[of p] by (simp add: in_int_def min_int_def)
  with highest_upper[OF assms(2,3)] show ?thesis by (simp add: next_generation_highest)
qed

lemma link_packages_ok:
  assumes "link_packages tree_key files pkgs p = Inr (q, links)"
  shows "\<exists>ts. q = p\<lparr>pr_trees := pr_trees p @ ts\<rparr> \<and> snd ` set links \<subseteq> fst ` set (pr_trees p @ ts)"
proof (cases "pkgs = []")
  case True
  with assms show ?thesis by (intro exI[of _ "[]"]) (auto simp: link_packages_def)
next
  case False
  show ?thesis
  proof (cases "map_of (pr_trees p) (tree_key pkgs)")
    case None
    with assms False obtain tree where "q = p\<lparr>pr_trees := pr_trees p @ [(tree_key pkgs, tree)]\<rparr>"
      "snd ` set links \<subseteq> {tree_key pkgs}"
      by (cases "build_tree files (map tree_package_of pkgs)") (auto simp: link_packages_def Let_def)
    then show ?thesis by (intro exI[of _ "[(tree_key pkgs, tree)]"]) auto
  next
    case (Some t)
    then have "tree_key pkgs \<in> fst ` set (pr_trees p)" by (force dest: map_of_SomeD)
    moreover from Some assms False have q: "q = p" and "snd ` set links \<subseteq> {tree_key pkgs}"
      by (auto simp: link_packages_def Let_def)
    ultimately have "snd ` set links \<subseteq> fst ` set (pr_trees p)" by (metis insert_subset empty_subsetI order_trans)
    then show ?thesis unfolding q by (intro exI[of _ "[]"]) simp
  qed
qed

lemma map_of_filter_other: "(\<And>d. P (k, d)) \<Longrightarrow> map_of (filter P xs) k = map_of xs k"
  by (induction xs) auto

definition without_tmp :: "profile \<Rightarrow> (string \<times> gen_dir) list" where
  "without_tmp p = filter (\<lambda>d. fst d \<noteq> ''.tmp-'' @ gen_name (next_generation p)) (pr_dirs p)"

lemma without_tmp_gen: "map_of (without_tmp p) (gen_name n) = map_of (pr_dirs p) (gen_name n)"
  unfolding without_tmp_def by (rule map_of_filter_other) (simp add: gen_name_def)

text \<open>The two ends of \<open>stage\<close>.\<close>

definition staged_dir ::
  "profile \<Rightarrow> time \<Rightarrow> gen_package list \<Rightarrow> gen_file list \<Rightarrow> setting list \<Rightarrow> requirement list \<Rightarrow> string option
     \<Rightarrow> (string \<times> mode) list \<Rightarrow> gen_dir \<Rightarrow> bool" where
  "staged_dir p clock pkgs fs settings reqs lock heap d \<longleftrightarrow>
     d_state d = State (on_disk \<lparr>gs_created = clock, gs_packages = sort_func (by_name g_name) pkgs, gs_files = fs,
          gs_settings = settings, gs_host = reqs, gs_from = current_number p\<rparr>)
     \<and> (\<exists>prev. fold (write_or_reuse prev) (gen_writes fs lock) (pr_heap p, []) = (heap, d_data d)
         \<and> (prev = [] \<or> (\<exists>n d'. (gen_name n, d') \<in> set (pr_dirs p) \<and> prev = d_data d')))"

lemma build_gen_staged:
  assumes "build_gen (p\<lparr>pr_dirs := without_tmp p, pr_trees := ts\<rparr>) clock links (current_number p)
      (sort_func (by_name g_name) pkgs) fs settings reqs lock = (heap, d)"
  shows "staged_dir p clock pkgs fs settings reqs lock heap d \<and> d_links d = links"
proof -
  let ?q = "p\<lparr>pr_dirs := without_tmp p, pr_trees := ts\<rparr>"
  let ?prev = "if current_number p > 0
      then (case map_of (pr_dirs ?q) (gen_name (current_number p)) of None \<Rightarrow> [] | Some d \<Rightarrow> d_data d) else []"
  obtain dat where hd: "fold (write_or_reuse ?prev) (gen_writes fs lock) (pr_heap p, []) = (heap, dat)"
    and d: "d_data d = dat" "d_links d = links"
      "d_state d = State (on_disk \<lparr>gs_created = clock, gs_packages = sort_func (by_name g_name) pkgs, gs_files = fs,
          gs_settings = settings, gs_host = reqs, gs_from = current_number p\<rparr>)"
    using assms by (auto simp: build_gen_def Let_def split: prod.splits)
  have "?prev = [] \<or> (\<exists>n d'. (gen_name n, d') \<in> set (pr_dirs p) \<and> ?prev = d_data d')"
    by (auto simp: without_tmp_gen split: option.split dest!: map_of_SomeD)
  with hd d show ?thesis unfolding staged_dir_def by blast
qed

lemma stage_cases:
  assumes "stage tree_key files clock pkgs fs settings reqs lock p = (r, p')"
  obtains (failed) ts e where "p' = p\<lparr>pr_dirs := without_tmp p, pr_trees := pr_trees p @ ts\<rparr>" "r = Inl e"
  | (staged) ts heap d where "r = Inr (next_generation p)"
      "p' = p\<lparr>pr_dirs := without_tmp p @ [(gen_name (next_generation p), d)],
              pr_trees := pr_trees p @ ts, pr_heap := heap\<rparr>"
      "gen_name (next_generation p) \<notin> fst ` set (pr_dirs p)"
      "snd ` set (d_links d) \<subseteq> fst ` set (pr_trees p @ ts)"
      "staged_dir p clock pkgs fs settings reqs lock heap d"
proof -
  let ?n = "next_generation p" and ?sorted = "sort_func (by_name g_name) pkgs"
  let ?p0 = "p\<lparr>pr_dirs := without_tmp p\<rparr>"
  show thesis
  proof (cases "link_packages tree_key files ?sorted ?p0")
    case (Inl e)
    with assms show thesis by (intro failed[of "[]"]) (auto simp: stage_def Let_def without_tmp_def)
  next
    case (Inr ql)
    obtain q links where q: "ql = (q, links)" by (cases ql)
    from link_packages_ok[OF Inr[unfolded q]] obtain ts where
      qs: "q = p\<lparr>pr_dirs := without_tmp p, pr_trees := pr_trees p @ ts\<rparr>"
      "snd ` set links \<subseteq> fst ` set (pr_trees p @ ts)" by auto
    obtain heap d where b: "build_gen q clock links (current_number p) ?sorted fs settings reqs lock = (heap, d)"
      by fastforce
    have st: "stage tree_key files clock pkgs fs settings reqs lock p =
      (if map_of (pr_dirs p) (gen_name ?n) \<noteq> None then (Inl (GenerationExists ?n), q)
       else (Inr ?n, q\<lparr>pr_dirs := pr_dirs q @ [(gen_name ?n, d)], pr_heap := heap\<rparr>))"
      unfolding stage_def Let_def without_tmp_def[symmetric] Inr q
      by (simp add: b) (simp add: qs without_tmp_gen)
    note built = build_gen_staged[OF b[unfolded qs(1)]]
    show thesis
    proof (cases "map_of (pr_dirs p) (gen_name ?n)")
      case None
      with assms st qs built show thesis
        by (intro staged[of heap ts d]) (auto simp: map_of_eq_None_iff)
    next
      case (Some d')
      with assms st qs show thesis by (intro failed[of ts]) auto
    qed
  qed
qed

lemma stage_succeeds:
  assumes "link_packages tree_key files (sort_func (by_name g_name) pkgs) (p\<lparr>pr_dirs := without_tmp p\<rparr>) = Inr (q, links)"
    and "map_of (pr_dirs p) (gen_name (next_generation p)) = None"
  shows "\<exists>p'. stage tree_key files clock pkgs fs settings reqs lock p = (Inr (next_generation p), p')"
proof -
  obtain ts where q: "pr_dirs q = without_tmp p" using link_packages_ok[OF assms(1)] by auto
  obtain heap d where b: "build_gen q clock links (current_number p) (sort_func (by_name g_name) pkgs) fs settings reqs lock
      = (heap, d)" by fastforce
  show ?thesis
    unfolding stage_def Let_def without_tmp_def[symmetric] assms(1)
    by (simp add: b q without_tmp_gen assms(2))
qed

lemma without_tmp_sub: "set (without_tmp p) \<subseteq> set (pr_dirs p)"
  by (auto simp: without_tmp_def)

lemma profile_ok_without_tmp: "profile_ok p \<Longrightarrow> profile_ok (p\<lparr>pr_dirs := without_tmp p\<rparr>)"
  unfolding without_tmp_def
  by (rule profile_ok_filter) (auto simp: profile_ok_def current_ok_def gen_name_def)

lemma profile_ok_more_trees: "profile_ok p \<Longrightarrow> profile_ok (p\<lparr>pr_trees := pr_trees p @ ts\<rparr>)"
proof (rule profile_ok_trees)
  fix nd assume "profile_ok p" "nd \<in> gens p"
  then have "snd ` set (d_links (snd nd)) \<subseteq> fst ` set (pr_trees p)" by (simp add: profile_ok_def gen_ok_def)
  then show "snd ` set (d_links (snd nd)) \<subseteq> fst ` set (pr_trees p @ ts)" by (simp add: image_Un le_supI1)
qed

lemma staged_dir_built:
  assumes "profile_ok p" "staged_dir p clock pkgs fs settings reqs lock heap d"
  shows "built (pr_heap p) (gen_writes fs lock) (heap, d_data d)"
proof -
  obtain prev where f: "fold (write_or_reuse prev) (gen_writes fs lock) (pr_heap p, []) = (heap, d_data d)"
    and prev: "prev = [] \<or> (\<exists>n d'. (gen_name n, d') \<in> set (pr_dirs p) \<and> prev = d_data d')"
    using assms(2) by (auto simp: staged_dir_def)
  have "\<forall>(rel, i)\<in>set prev. i < length (pr_heap p)"
  proof (cases "prev = []")
    case False
    with prev obtain n d' where "(gen_name n, d') \<in> gens p" "prev = d_data d'" by (auto simp: gens_def)
    with assms(1) show ?thesis by (auto simp: profile_ok_def gen_ok_def)
  qed simp
  from built_fold[OF this, of "gen_writes fs lock"] f show ?thesis by simp
qed

lemma profile_ok_stage:
  assumes "profile_ok p" "stage tree_key files clock pkgs fs settings reqs lock p = (r, p')"
  shows "profile_ok p'"
  using assms(2)
proof (cases rule: stage_cases)
  case (failed ts e)
  from profile_ok_more_trees[OF profile_ok_without_tmp[OF assms(1)], of ts] failed show ?thesis by simp
next
  case (staged ts heap d)
  let ?q = "p\<lparr>pr_dirs := without_tmp p, pr_trees := pr_trees p @ ts\<rparr>"
  have ok: "profile_ok ?q"
    using profile_ok_more_trees[OF profile_ok_without_tmp[OF assms(1)], of ts] by simp
  have "profile_ok (?q\<lparr>pr_dirs := pr_dirs ?q @ [(gen_name (next_generation p), d)], pr_heap := heap\<rparr>)"
    using ok staged staged_dir_built[OF assms(1)] next_generation_bounds[of p] without_tmp_sub[of p]
    by (intro profile_ok_add[where ws = "gen_writes fs lock"]) (auto simp: staged_dir_def)
  moreover have "?q\<lparr>pr_dirs := pr_dirs ?q @ [(gen_name (next_generation p), d)], pr_heap := heap\<rparr> = p'"
    using staged(2) by (intro profile.equality) simp_all
  ultimately show ?thesis by simp
qed

subsection \<open>Steps\<close>

text \<open>A program of the user writes to a file of a generation, which it may when the owner may.\<close>

definition user_write :: "string \<Rightarrow> string \<Rightarrow> string \<Rightarrow> profile \<Rightarrow> profile" where
  "user_write gen rel data p =
     (case Option.bind (dir_at p gen) (\<lambda>d. map_of (d_data d) rel) of
        None \<Rightarrow> p
      | Some i \<Rightarrow>
          if snd (pr_heap p ! i) AND 0x80 = 0 then p
          else p\<lparr>pr_heap := (pr_heap p)[i := (data, snd (pr_heap p ! i))]\<rparr>)"

text \<open>
  The steps of a profile. A generation is activated when it exists and discarded when it is not active, as
  the commands do; \<open>killed\<close> is an oku that stops while it builds or deletes a generation, which leaves a
  directory under a \<open>.tmp-\<close> name.
\<close>

inductive profile_step :: "(gen_package list \<Rightarrow> string) \<Rightarrow> profile \<Rightarrow> profile \<Rightarrow> bool" for tree_key where
  staging: "stage tree_key files clock pkgs fs settings reqs lock p = (r, p') \<Longrightarrow> profile_step tree_key p p'"
| adding: "add_package tree_key files clock pkg reqs lock p = (r, p') \<Longrightarrow> profile_step tree_key p p'"
| removing: "remove_packages tree_key files clock names lock p = (r, p') \<Longrightarrow> profile_step tree_key p p'"
| replacing: "replace tree_key files clock pkgs fs settings reqs lock p = (r, p') \<Longrightarrow> profile_step tree_key p p'"
| activating: "n = 0 \<or> in_int n \<and> gen_name n \<in> fst ` set (pr_dirs p) \<Longrightarrow> profile_step tree_key p (activate n p)"
| discarding: "pr_current p \<noteq> Some (gen_name n) \<Longrightarrow> profile_step tree_key p (discard n p)"
| pruning: "prune ret dry p = (r, p') \<Longrightarrow> profile_step tree_key p p'"
| cleaning: "profile_step tree_key p (drop_unfinished p)"
| killed: "''.tmp-'' @ s \<notin> fst ` set (pr_dirs p) \<Longrightarrow>
    profile_step tree_key p (p\<lparr>pr_dirs := pr_dirs p @ [(''.tmp-'' @ s, d)]\<rparr>)"
| writing: "profile_step tree_key p (user_write gen rel data p)"

inductive reachable :: "(gen_package list \<Rightarrow> string) \<Rightarrow> profile \<Rightarrow> bool" for tree_key where
  start: "reachable tree_key \<lparr>pr_dirs = [], pr_current = None, pr_trees = [], pr_heap = []\<rparr>"
| step: "reachable tree_key p \<Longrightarrow> profile_step tree_key p p' \<Longrightarrow> reachable tree_key p'"

lemma user_write_parts:
  "pr_dirs (user_write gen rel data p) = pr_dirs p" "pr_current (user_write gen rel data p) = pr_current p"
  "pr_trees (user_write gen rel data p) = pr_trees p"
  "length (pr_heap (user_write gen rel data p)) = length (pr_heap p)"
  "snd (pr_heap (user_write gen rel data p) ! i) = snd (pr_heap p ! i)"
  by (auto simp: user_write_def split: option.split)
    (metis list_update_beyond not_less nth_list_update_eq nth_list_update_neq snd_conv)

lemma current_ok_mono:
  "current_ok p \<Longrightarrow> pr_current q = pr_current p \<Longrightarrow> fst ` set (pr_dirs p) \<subseteq> fst ` set (pr_dirs q) \<Longrightarrow> current_ok q"
  by (auto simp: current_ok_def split: option.splits)

lemma profile_ok_current: "profile_ok p \<Longrightarrow> current_ok p"
  by (simp add: profile_ok_def)

lemma profile_ok_user_write:
  assumes "profile_ok p"
  shows "profile_ok (user_write gen rel data p)"
proof -
  have g: "gens (user_write gen rel data p) = gens p" by (simp add: gens_def user_write_parts)
  have "unshared (user_write gen rel data p) = unshared p"
    by (simp only: unshared_def g user_write_parts)
  moreover have "gen_ok (user_write gen rel data p) nd = gen_ok p nd" for nd
    by (simp add: gen_ok_def user_write_parts)
  moreover have "current_ok (user_write gen rel data p)"
    by (rule current_ok_mono[OF profile_ok_current[OF assms]]) (simp_all add: user_write_parts)
  ultimately show ?thesis using assms g by (simp add: profile_ok_def user_write_parts)
qed

lemma profile_ok_killed:
  assumes "profile_ok p" "''.tmp-'' @ s \<notin> fst ` set (pr_dirs p)"
  shows "profile_ok (p\<lparr>pr_dirs := pr_dirs p @ [(''.tmp-'' @ s, d)]\<rparr>)"
proof -
  let ?q = "p\<lparr>pr_dirs := pr_dirs p @ [(''.tmp-'' @ s, d)]\<rparr>"
  have g: "gens ?q = gens p" by (auto simp: gens_def is_gen_def)
  then have "unshared ?q = unshared p" by (simp only: unshared_def) simp
  moreover have "gen_ok ?q nd = gen_ok p nd" for nd by (simp add: gen_ok_def)
  moreover have "current_ok ?q"
    by (rule current_ok_mono[OF profile_ok_current[OF assms(1)]]) (simp_all add: image_Un subset_insertI)
  ultimately show ?thesis using assms g by (simp add: profile_ok_def)
qed

lemma replace_stage:
  assumes "replace tree_key files clock pkgs fs settings reqs lock p = (r, p')"
  shows "p' = p \<or> stage tree_key files clock (sort_func (by_name g_name) pkgs) fs settings reqs lock p = (r, p')"
proof (cases "read_current p")
  case (Inr c)
  with assms show ?thesis by (cases c) (simp add: replace_def Let_def split: if_splits)
qed (use assms in \<open>simp add: replace_def\<close>)

lemma add_stage:
  assumes "add_package tree_key files clock pkg reqs lock p = (r, p')"
  shows "p' = p \<or> (\<exists>pkgs fs settings rs. stage tree_key files clock pkgs fs settings rs lock p = (r, p'))"
proof (cases "read_current p")
  case (Inr c)
  with assms show ?thesis by (cases c) (auto simp: add_package_def)
qed (use assms in \<open>simp add: add_package_def\<close>)

lemma remove_stage:
  assumes "remove_packages tree_key files clock names lock p = (r, p')"
  shows "p' = p \<or> (\<exists>pkgs fs settings rs. stage tree_key files clock pkgs fs settings rs lock p = (r, p'))"
proof (cases "packages_in p ''current''")
  case (Inr pkgs)
  show ?thesis
  proof (cases "find (\<lambda>name. \<not> list_ex (\<lambda>have. g_name have = name) pkgs) names")
    case None
    show ?thesis
    proof (cases "read_current p")
      case (Inr c)
      with assms None \<open>packages_in p ''current'' = Inr pkgs\<close> show ?thesis
        by (cases c) (auto simp: remove_packages_def)
    qed (use assms None Inr in \<open>simp add: remove_packages_def\<close>)
  qed (use assms Inr in \<open>simp add: remove_packages_def\<close>)
qed (use assms in \<open>simp add: remove_packages_def\<close>)

subsection \<open>Listing\<close>

definition gen_of :: "profile \<Rightarrow> string \<times> gen_dir \<Rightarrow> generation" where
  "gen_of p nd =
     (let s = (case d_state (snd nd) of State s \<Rightarrow> s | _ \<Rightarrow> no_state)
      in \<lparr>n_number = the (atoi (trim_prefix (fst nd) ''gen-'')), n_created = gs_created s,
           n_packages = gs_packages s, n_files = gs_files s, n_settings = gs_settings s, n_from = gs_from s,
           n_current = (pr_current p = Some (fst nd))\<rparr>)"

lemma list_generations_ok:
  assumes "profile_ok p"
  shows "\<forall>nd\<in>set xs. is_gen (fst nd) \<longrightarrow> gen_ok p nd \<Longrightarrow>
    list_generations p xs = Inr (map (gen_of p) (filter (\<lambda>nd. is_gen (fst nd)) xs))"
proof (induction xs)
  case (Cons x xs)
  obtain name d where x: "x = (name, d)" by (cases x)
  show ?case
  proof (cases "is_gen name")
    case True
    with Cons.prems x obtain n s where g: "in_int n" "name = gen_name n" "d_state d = State s"
      by (auto simp: gen_ok_def)
    have "(name = path_base (case pr_current p of None \<Rightarrow> [] | Some a \<Rightarrow> a)) = (pr_current p = Some name)"
    proof (cases "pr_current p")
      case None
      then show ?thesis by (simp add: path_base_def g(2) gen_name_def)
    next
      case (Some a)
      with assms obtain m where "a = gen_name m" by (auto simp: profile_ok_def current_ok_def)
      with Some show ?thesis by auto
    qed
    with Cons x g show ?thesis by (simp add: atoi_itoa read_state_def gen_of_def)
  next
    case False
    with Cons x show ?thesis by (auto split: option.split)
  qed
qed simp

lemma generations_ok:
  "profile_ok p \<Longrightarrow> generations p =
     Inr (sort_func by_number (map (gen_of p) (filter (\<lambda>nd. is_gen (fst nd)) (pr_dirs p))))"
  using list_generations_ok[of p "pr_dirs p"] unfolding generations_def profile_ok_def gens_def by fastforce

end
