(* ===== verification/Profile_Tree_Props.thy ===== *)
theory Profile_Tree_Props
  imports Profile_Tree
begin

text \<open>The properties of the links of a generation: which files they reach, and when none are built.\<close>

subsection \<open>The entries\<close>

text \<open>Every file below \<open>bin\<close>, \<open>share\<close> and \<open>man\<close> of the packages, with its place in the tree.\<close>

definition sub_files ::
  "(path \<Rightarrow> path list option) \<Rightarrow> tree_package \<Rightarrow> path \<times> path \<Rightarrow> tree_entry list" where
  "sub_files files pkg sub_into =
     (case files (tp_store pkg @ fst sub_into) of
        None \<Rightarrow> []
      | Some rels \<Rightarrow>
          map (\<lambda>r. \<lparr>te_path = tp_store pkg @ fst sub_into @ r, te_rel = snd sub_into @ r, te_pkg = pkg\<rparr>) rels)"

definition package_files :: "(path \<Rightarrow> path list option) \<Rightarrow> tree_package list \<Rightarrow> tree_entry list" where
  "package_files files pkgs = concat (map (\<lambda>pkg. concat (map (sub_files files pkg) tree_subs)) pkgs)"

definition owned :: "tree_entry list \<Rightarrow> (path \<rightharpoonup> string) \<Rightarrow> (path \<rightharpoonup> string)" where
  "owned es owners = owners ++ map_of (rev (map (\<lambda>e. (te_rel e, tp_name (te_pkg e))) es))"

lemma owned_Nil [simp]: "owned [] owners = owners"
  and owned_Cons: "owned (e # es) owners = owned es (owners(te_rel e \<mapsto> tp_name (te_pkg e)))"
  and owned_append: "owned (es @ es') owners = owned es' (owned es owners)"
  by (simp_all add: owned_def)

lemma dom_owned: "dom (owned es owners) = dom owners \<union> te_rel ` set es"
  by (induction es arbitrary: owners) (auto simp: owned_Cons)

definition fresh_for :: "tree_entry list \<Rightarrow> (path \<rightharpoonup> string) \<Rightarrow> bool" where
  "fresh_for es owners \<longleftrightarrow> distinct (map te_rel es) \<and> te_rel ` set es \<inter> dom owners = {}"

lemma fresh_for_append:
  "fresh_for (es @ es') owners \<longleftrightarrow> fresh_for es owners \<and> fresh_for es' (owned es owners)"
  by (auto simp: fresh_for_def dom_owned)

lemma tree_walk_spec:
  fixes pkg root into rels owners
  defines "es \<equiv> map (\<lambda>r. \<lparr>te_path = root @ r, te_rel = into @ r, te_pkg = pkg\<rparr>) rels"
  shows "if fresh_for es owners then tree_walk pkg root into rels owners = Inr (es, owned es owners)
    else \<not> is_ok (tree_walk pkg root into rels owners)"
  unfolding es_def
proof (induction rels arbitrary: owners)
  case (Cons r rels)
  show ?case
  proof (cases "owners (into @ r)")
    case None
    let ?o = "owners(into @ r \<mapsto> tp_name pkg)"
    have "fresh_for (map (\<lambda>r. \<lparr>te_path = root @ r, te_rel = into @ r, te_pkg = pkg\<rparr>) (r # rels)) owners
      \<longleftrightarrow> fresh_for (map (\<lambda>r. \<lparr>te_path = root @ r, te_rel = into @ r, te_pkg = pkg\<rparr>) rels) ?o"
      using None by (auto simp: fresh_for_def image_image comp_def)
    with Cons[of ?o] None show ?thesis
      by (auto simp: owned_Cons Let_def is_ok_iff and_then_Inr simp del: fun_upd_apply split: if_splits)
  qed (auto simp: fresh_for_def Let_def)
qed (simp add: fresh_for_def)

lemma gather_spec:
  "if fresh_for (concat (map (\<lambda>(pkg, si). sub_files files pkg si) todo)) owners
   then gather_entries files todo owners = Inr (concat (map (\<lambda>(pkg, si). sub_files files pkg si) todo))
   else \<not> is_ok (gather_entries files todo owners)"
proof (induction todo arbitrary: owners)
  case (Cons x todo)
  obtain pkg si where x: "x = (pkg, si)" by (cases x)
  show ?case
  proof (cases "files (tp_store pkg @ fst si)")
    case None
    with Cons[of owners] x show ?thesis by (auto simp: sub_files_def tree_entries_def is_ok_iff and_then_Inr)
  next
    case (Some rels)
    have e: "tree_entries files pkg si owners = tree_walk pkg (tp_store pkg @ fst si) (snd si) rels owners"
      using Some by (simp add: tree_entries_def)
    have s: "sub_files files pkg si
        = map (\<lambda>r. \<lparr>te_path = (tp_store pkg @ fst si) @ r, te_rel = snd si @ r, te_pkg = pkg\<rparr>) rels"
      using Some by (simp add: sub_files_def)
    note w = tree_walk_spec[of "tp_store pkg @ fst si" "snd si" pkg rels owners, folded s e]
    show ?thesis
    proof (cases "fresh_for (sub_files files pkg si) owners")
      case True
      with w Cons[of "owned (sub_files files pkg si) owners"] x show ?thesis
        by (auto simp: fresh_for_append is_ok_iff and_then_Inr split: if_splits)
    next
      case False
      with w x show ?thesis by (auto simp: fresh_for_append is_ok_iff and_then_Inr)
    qed
  qed
qed (simp add: fresh_for_def)

lemma concat_pairs:
  "concat (map (\<lambda>(pkg, si). f pkg si) (concat (map (\<lambda>pkg. map (Pair pkg) subs) pkgs)))
     = concat (map (\<lambda>pkg. concat (map (f pkg) subs)) pkgs)"
  by (induction pkgs) (simp_all add: comp_def)

lemma build_entries_spec:
  "if distinct (map te_rel (package_files files pkgs)) then build_entries files pkgs = Inr (package_files files pkgs)
   else \<not> is_ok (build_entries files pkgs)"
  using gather_spec[of files "concat (map (\<lambda>pkg. map (Pair pkg) tree_subs) pkgs)" "\<lambda>_. None"]
  by (simp add: build_entries_def package_files_def concat_pairs fresh_for_def dom_def)

lemma package_files_ok: "e \<in> set (package_files files pkgs) \<Longrightarrow> entry_ok e"
  by (auto simp: package_files_def sub_files_def entry_ok_def tree_subs_def split: option.splits) fastforce+

subsection \<open>The properties\<close>

text \<open>
  The files of a set of packages are all found, in order, unless two packages provide the same file,
  and then no tree is built.
\<close>

theorem tree_both_provide:
  "is_ok (build_tree files pkgs) = distinct (map te_rel (package_files files pkgs))
   \<and> (\<forall>es. build_entries files pkgs = Inr es \<longrightarrow> es = package_files files pkgs)"
  using build_entries_spec[of files pkgs]
  by (auto simp: build_tree_def is_ok_iff and_then_Inr split: if_splits)

theorem tree_both_provide_witness:
  "\<not> is_ok (build_tree (map_of [([''a'', ''bin''], [[''x'']]), ([''b'', ''bin''], [[''x'']])])
     [\<lparr>tp_name = ''a'', tp_store = [''a'']\<rparr>, \<lparr>tp_name = ''b'', tp_store = [''b'']\<rparr>])"
  using tree_both_provide[of "map_of [([''a'', ''bin''], [[''x'']]), ([''b'', ''bin''], [[''x'']])]"
      "[\<lparr>tp_name = ''a'', tp_store = [''a'']\<rparr>, \<lparr>tp_name = ''b'', tp_store = [''b'']\<rparr>]"]
  by (simp add: package_files_def sub_files_def tree_subs_def)

lemma same_rel: "distinct (map f xs) \<Longrightarrow> x \<in> set xs \<Longrightarrow> y \<in> set xs \<Longrightarrow> f x = f y \<Longrightarrow> x = y"
  by (auto simp: distinct_map inj_on_def)

lemma link_of_fst:
  assumes "distinct (map te_rel es)" "\<forall>e\<in>set es. \<forall>e'\<in>set es. \<forall>s. te_rel e' = te_rel e @ s \<longrightarrow> s = []"
    and "\<forall>e\<in>set es. entry_ok e" "e \<in> set es" "e' \<in> set es"
    and "link_of es e = (r, t)" "link_of es e' = (r @ u, t')"
  shows "link_of es e' = (r, t)"
proof -
  obtain s s' where s: "te_rel e = r @ s" "te_rel e' = (r @ u) @ s'"
    using link_of_reaches assms(3-7) by blast
  show ?thesis
  proof (cases "r = te_rel e")
    case True
    then have eq: "te_rel e' = te_rel e @ (u @ s')" using s(2) by simp
    have "u @ s' = []" by (rule assms(2)[rule_format, OF assms(4,5) eq])
    with eq have "te_rel e' = te_rel e" by (simp only: append_Nil2)
    from same_rel[OF assms(1,5,4) this] have "e' = e" .
    with assms(6) show ?thesis by simp
  next
    case False
    show ?thesis
    proof (cases "u @ s' = []")
      case True
      with s False have "te_rel e = te_rel e' @ s" "s \<noteq> []" by auto
      with assms(2)[rule_format, OF assms(5,4)] show ?thesis by blast
    next
      case ne: False
      from link_of_below[OF assms(6) False, of e' "u @ s'"] s ne show ?thesis by simp
    qed
  qed
qed

text \<open>
  C26. When no file of a package lies where another package has a folder, every file is reached through
  exactly one link, at its own place below the folder that the link names: the links are an antichain,
  so none lies inside the folder behind another.
\<close>

theorem tree_reaches_every_file:
  assumes "build_tree files pkgs = Inr links"
    and "\<forall>e\<in>set (package_files files pkgs). \<forall>e'\<in>set (package_files files pkgs).
      \<forall>s. te_rel e' = te_rel e @ s \<longrightarrow> s = []"
  shows "(\<forall>e\<in>set (package_files files pkgs). \<exists>(r, t)\<in>set links. \<exists>s. te_rel e = r @ s \<and> te_path e = t @ s)
    \<and> (\<forall>(r, t)\<in>set links. \<forall>(r', t')\<in>set links. \<forall>u. r' = r @ u \<longrightarrow> (r', t') = (r, t))
    \<and> distinct (map fst links)"
proof -
  let ?es = "package_files files pkgs"
  have d: "distinct (map te_rel ?es)" and links: "links = link_loop ?es ?es {}"
    using assms(1) build_entries_spec[of files pkgs]
    by (auto simp: build_tree_def and_then_Inr link_entries_def is_ok_iff split: if_splits)
  have ok: "\<forall>e\<in>set ?es. entry_ok e" by (simp add: package_files_ok)
  have sub: "\<exists>e\<in>set ?es. link_of ?es e = l" if "l \<in> set links" for l
    using link_loop_sub[of ?es ?es "{}"] that links by (auto dest: subsetD)
  note one = link_of_fst[OF d assms(2) ok]
  have anti: "(r', t') = (r, t)" if "(r, t) \<in> set links" "(r', t') \<in> set links" "r' = r @ u" for r t r' t' u
  proof -
    from sub[OF that(1)] sub[OF that(2)] obtain e e' where e: "e \<in> set ?es" "link_of ?es e = (r, t)"
      and e': "e' \<in> set ?es" "link_of ?es e' = (r', t')" by blast
    from one[OF e(1) e'(1) e(2), of u t'] e'(2) that(3) show ?thesis by simp
  qed
  have reach: "\<exists>(r, t)\<in>set links. \<exists>s. te_rel e = r @ s \<and> te_path e = t @ s" if e: "e \<in> set ?es" for e
  proof -
    obtain r t where rt: "link_of ?es e = (r, t)" by (cases "link_of ?es e")
    with link_loop_all[OF e, of ?es "{}"] obtain t' where l: "(r, t') \<in> set links" by (auto simp: links)
    from sub[OF this] obtain e' where e': "e' \<in> set ?es" "link_of ?es e' = (r, t')" by blast
    from one[OF e e'(1) rt, of "[]" t'] e'(2) have "t' = t" by simp
    with l link_of_reaches[OF e _ rt] ok e show ?thesis by blast
  qed
  have "distinct (map fst links)" using link_loop_fresh[of ?es ?es "{}"] links by simp
  moreover have "\<forall>(r, t)\<in>set links. \<forall>(r', t')\<in>set links. \<forall>u. r' = r @ u \<longrightarrow> (r', t') = (r, t)"
    using anti by (simp add: case_prod_unfold) (metis prod.collapse prod.inject)
  ultimately show ?thesis using reach by blast
qed

definition example_files :: "path \<Rightarrow> path list option" where
  "example_files = map_of [([''a'', ''bin''], [[''fd'']]),
     ([''a'', ''share''], [[''man'', ''man1'', ''fd.1''], [''fd'', ''x''], [''fd'', ''y'']]),
     ([''b'', ''share''], [[''man'', ''man1'', ''rg.1'']])]"

definition example_pkgs :: "tree_package list" where
  "example_pkgs = [\<lparr>tp_name = ''fd'', tp_store = [''a'']\<rparr>, \<lparr>tp_name = ''rg'', tp_store = [''b'']\<rparr>]"

lemma example_tree:
  "build_tree example_files example_pkgs = Inr [([''bin'', ''fd''], [''a'', ''bin'', ''fd'']),
     ([''share'', ''man'', ''man1'', ''fd.1''], [''a'', ''share'', ''man'', ''man1'', ''fd.1'']),
     ([''share'', ''fd''], [''a'', ''share'', ''fd'']),
     ([''share'', ''man'', ''man1'', ''rg.1''], [''b'', ''share'', ''man'', ''man1'', ''rg.1''])]"
  by code_simp

lemma example_files_found:
  "map (\<lambda>e. (te_rel e, te_path e)) (package_files example_files example_pkgs) =
     [([''bin'', ''fd''], [''a'', ''bin'', ''fd'']),
      ([''share'', ''man'', ''man1'', ''fd.1''], [''a'', ''share'', ''man'', ''man1'', ''fd.1'']),
      ([''share'', ''fd'', ''x''], [''a'', ''share'', ''fd'', ''x'']),
      ([''share'', ''fd'', ''y''], [''a'', ''share'', ''fd'', ''y'']),
      ([''share'', ''man'', ''man1'', ''rg.1''], [''b'', ''share'', ''man'', ''man1'', ''rg.1''])]"
  by code_simp

theorem tree_reaches_every_file_witness:
  "\<exists>(r, t)\<in>set [([''bin'', ''fd''], [''a'', ''bin'', ''fd'']),
       ([''share'', ''man'', ''man1'', ''fd.1''], [''a'', ''share'', ''man'', ''man1'', ''fd.1'']),
       ([''share'', ''fd''], [''a'', ''share'', ''fd'']),
       ([''share'', ''man'', ''man1'', ''rg.1''], [''b'', ''share'', ''man'', ''man1'', ''rg.1''])].
     \<exists>s. [''share'', ''fd'', ''y''] = r @ s \<and> [''a'', ''share'', ''fd'', ''y''] = t @ s"
proof -
  have "\<forall>r\<in>te_rel ` set (package_files example_files example_pkgs).
      \<forall>r'\<in>te_rel ` set (package_files example_files example_pkgs). \<forall>s. r' = r @ s \<longrightarrow> s = []"
    using arg_cong[OF example_files_found, of "\<lambda>l. fst ` set l"] by (simp add: image_image)
  then have all: "\<forall>e\<in>set (package_files example_files example_pkgs). \<exists>(r, t)\<in>set [([''bin'', ''fd''], [''a'', ''bin'', ''fd'']),
       ([''share'', ''man'', ''man1'', ''fd.1''], [''a'', ''share'', ''man'', ''man1'', ''fd.1'']),
       ([''share'', ''fd''], [''a'', ''share'', ''fd'']),
       ([''share'', ''man'', ''man1'', ''rg.1''], [''b'', ''share'', ''man'', ''man1'', ''rg.1''])].
     \<exists>s. te_rel e = r @ s \<and> te_path e = t @ s"
    using tree_reaches_every_file[OF example_tree] by blast
  have "([''share'', ''fd'', ''y''], [''a'', ''share'', ''fd'', ''y''])
      \<in> (\<lambda>e. (te_rel e, te_path e)) ` set (package_files example_files example_pkgs)"
    using arg_cong[OF example_files_found, of set] by simp
  then obtain e where "e \<in> set (package_files example_files example_pkgs)"
    "te_rel e = [''share'', ''fd'', ''y'']" "te_path e = [''a'', ''share'', ''fd'', ''y'']" by auto
  from all[rule_format, OF this(1)] this(2,3) show ?thesis by simp
qed

text \<open>
  A file of one package where another package has a folder is not noticed: the folder is one link, the
  file has the same place, and whichever package comes second gets no link, without an error.
\<close>

theorem tree_file_hides_folder:
  "build_tree (map_of [([''a'', ''share''], [[''x'']]), ([''b'', ''share''], [[''x'', ''y'']])])
     [\<lparr>tp_name = ''a'', tp_store = [''a'']\<rparr>, \<lparr>tp_name = ''b'', tp_store = [''b'']\<rparr>]
   = Inr [([''share'', ''x''], [''a'', ''share'', ''x''])]"
  by code_simp

end
