(* ===== verification/Profile_Props.thy ===== *)
theory Profile_Props
  imports Profile_Laws Profile_Tree_Props
begin

text \<open>
  The properties of profiles: what every reachable profile has, what a new generation holds, what a prune
  keeps, and that edits stay in one generation.
\<close>

subsection \<open>Every step keeps the invariant\<close>

lemma gen_of_number:
  "gen_ok p nd \<Longrightarrow> fst nd = gen_name (n_number (gen_of p nd)) \<and> in_int (n_number (gen_of p nd))"
  by (auto simp: gen_ok_def gen_of_def Let_def atoi_itoa)

lemma generations_set:
  "profile_ok p \<Longrightarrow> generations p = Inr gs \<Longrightarrow> set gs = gen_of p ` gens p"
  using generations_ok[of p] by (auto simp: gens_def)

lemma pruned_not_current:
  assumes "profile_ok p" "generations p = Inr gs" "n \<in> set (prune_numbers r gs)"
  shows "pr_current p \<noteq> Some (gen_name n)"
proof -
  from assms(3) obtain g where g: "g \<in> set gs" "\<not> n_current g" "n = n_number g"
    unfolding prune_numbers_def kept_def by (auto intro!: that nth_mem)
  then obtain nd where nd: "nd \<in> gens p" "g = gen_of p nd" using generations_set[OF assms(1,2)] by auto
  then have "fst nd = gen_name n" using assms(1) g(3) gen_of_number by (auto simp: profile_ok_def)
  with g(2) nd(2) show ?thesis by (simp add: gen_of_def Let_def)
qed

lemma profile_ok_prune:
  assumes "profile_ok p" "prune r dry p = (res, p')"
  shows "profile_ok p'"
proof (cases "generations p")
  case (Inr gs)
  have "profile_ok (fold remove_gen (prune_numbers r gs) p)"
    using assms(1) pruned_not_current[OF assms(1) Inr] by (intro profile_ok_removes) auto
  with assms Inr show ?thesis by (auto simp: prune_def Let_def profile_ok_drop_trees split: if_splits)
qed (use assms in \<open>simp add: prune_def\<close>)

lemma profile_ok_step: "profile_step tree_key p p' \<Longrightarrow> profile_ok p \<Longrightarrow> profile_ok p'"
proof (induction rule: profile_step.induct)
  case staging then show ?case by (blast intro: profile_ok_stage)
next
  case adding then show ?case by (blast intro: profile_ok_stage dest: add_stage)
next
  case removing then show ?case by (blast intro: profile_ok_stage dest: remove_stage)
next
  case replacing then show ?case by (blast intro: profile_ok_stage dest: replace_stage)
next
  case activating then show ?case by (rule profile_ok_activate[rotated])
next
  case discarding then show ?case by (simp add: discard_def profile_ok_drop_trees profile_ok_remove)
next
  case pruning then show ?case by (blast intro: profile_ok_prune)
next
  case cleaning then show ?case by (rule profile_ok_drop_unfinished)
next
  case killed then show ?case by (rule profile_ok_killed[rotated])
next
  case writing then show ?case by (rule profile_ok_user_write)
qed

lemma reachable_ok: "reachable tree_key p \<Longrightarrow> profile_ok p"
  by (induction rule: reachable.induct) (simp_all add: profile_ok_empty profile_ok_step)

subsection \<open>Examples\<close>

definition no_package :: gen_package where
  "no_package = \<lparr>g_name = ''fd'', g_version = ''1.0'', g_ref = ''github:o/fd'', g_store = ''/s/fd'', g_closure = [],
     g_build_only = [], g_env = [], g_service = False, g_system = False, g_run_as = []\<rparr>"

definition note_file :: gen_file where
  "note_file = \<lparr>f_target = ''~/note'', f_link = [], f_content = ''note'', f_mode = 0, f_hash = ''h'',
     f_text = ''hello'', f_secrets = []\<rparr>"

definition empty_profile :: profile where
  "empty_profile = \<lparr>pr_dirs = [], pr_current = None, pr_trees = [], pr_heap = []\<rparr>"

definition note_dir :: "time \<Rightarrow> int \<Rightarrow> gen_dir" where
  "note_dir clock from = \<lparr>d_state = State \<lparr>gs_created = clock, gs_packages = [], gs_files = [note_file\<lparr>f_text := []\<rparr>],
       gs_settings = [], gs_host = [], gs_from = from\<rparr>,
     d_data = [(''files/note'', 0)], d_links = []\<rparr>"

text \<open>One generation with a file, and the next one, which shares it.\<close>

definition one_gen :: profile where
  "one_gen = \<lparr>pr_dirs = [(''gen-1'', note_dir 10 0)], pr_current = None, pr_trees = [], pr_heap = [(''hello'', 0x124)]\<rparr>"

lemma gen_name_examples: "gen_name 1 = ''gen-1''" "gen_name 2 = ''gen-2''" "gen_name 3 = ''gen-3''" by code_simp+

lemma stage_one:
  "stage (\<lambda>_. ''k'') (\<lambda>_. None) 10 [] [note_file] [] [] None empty_profile = (Inr 1, one_gen)"
  by code_simp

lemma stage_two:
  "stage (\<lambda>_. ''k'') (\<lambda>_. None) 20 [] [note_file] [] [] None (activate 1 one_gen) =
     (Inr 2, \<lparr>pr_dirs = [(''gen-1'', note_dir 10 0), (''gen-2'', note_dir 20 1)], pr_current = Some ''gen-1'',
        pr_trees = [], pr_heap = [(''hello'', 0x124)]\<rparr>)"
  by code_simp

lemma reachable_one: "reachable (\<lambda>_. ''k'') (activate 1 one_gen)"
proof -
  have "reachable (\<lambda>_. ''k'') empty_profile" unfolding empty_profile_def by (rule reachable.start)
  from reachable.step[OF this profile_step.staging[OF stage_one]]
  have "reachable (\<lambda>_. ''k'') one_gen" .
  moreover have "1 = (0::int) \<or> in_int 1 \<and> gen_name 1 \<in> fst ` set (pr_dirs one_gen)"
    by (simp add: gen_name_examples one_gen_def in_int_def min_int_def max_int_def)
  ultimately show ?thesis by (blast intro: reachable.step profile_step.activating)
qed

subsection \<open>Reachable profiles\<close>

text \<open>
  C1. Whatever is staged, added, removed, replaced, activated, discarded, pruned or left behind by a killed
  oku, \<open>current\<close> names a generation that is there and has its state, the links of every generation lead
  to a tree that is there, and listing the generations does not fail.
\<close>

theorem reachable_profile:
  assumes "reachable tree_key p"
  shows "(\<forall>a. pr_current p = Some a \<longrightarrow> (\<exists>n d s. a = gen_name n \<and> current_number p = n \<and> n \<noteq> 0
            \<and> map_of (pr_dirs p) a = Some d \<and> d_state d = State s))
    \<and> (\<forall>(name, d)\<in>set (pr_dirs p). is_gen name \<longrightarrow>
         (\<exists>s. d_state d = State s) \<and> (\<forall>(sub, key)\<in>set (d_links d). map_of (pr_trees p) key \<noteq> None))
    \<and> is_ok (generations p)"
proof -
  have ok: "profile_ok p" using assms by (rule reachable_ok)
  have g: "gen_ok p nd" if "nd \<in> set (pr_dirs p)" "is_gen (fst nd)" for nd
    using ok that by (rule gen_okD)
  have "\<exists>n d s. a = gen_name n \<and> current_number p = n \<and> n \<noteq> 0 \<and> map_of (pr_dirs p) a = Some d \<and> d_state d = State s"
    if a: "pr_current p = Some a" for a
  proof -
    obtain n d where n: "n \<noteq> 0" "in_int n" "a = gen_name n" "(a, d) \<in> set (pr_dirs p)"
      using ok a by (auto simp: profile_ok_def current_ok_def)
    moreover have "map_of (pr_dirs p) a = Some d" using ok n(4) by (simp add: profile_ok_def)
    moreover have "\<exists>s. d_state d = State s" using g[OF n(4)] n(3) by (auto simp: gen_ok_def)
    ultimately show ?thesis using current_number_gen[of p n] a by auto
  qed
  moreover have "\<forall>(name, d)\<in>set (pr_dirs p). is_gen name \<longrightarrow>
      (\<exists>s. d_state d = State s) \<and> (\<forall>(sub, key)\<in>set (d_links d). map_of (pr_trees p) key \<noteq> None)"
  proof (clarify, intro conjI)
    fix name d assume "(name, d) \<in> set (pr_dirs p)" "is_gen name"
    then have "gen_ok p (name, d)" using g by simp
    then have d: "\<exists>s. d_state d = State s" "snd ` set (d_links d) \<subseteq> fst ` set (pr_trees p)"
      by (auto simp: gen_ok_def)
    show "\<exists>s. d_state d = State s" by (rule d(1))
    show "\<forall>(sub, key)\<in>set (d_links d). map_of (pr_trees p) key \<noteq> None"
      using d(2) by (simp add: case_prod_unfold map_of_eq_None_iff image_subset_iff)
  qed
  moreover have "is_ok (generations p)" using generations_ok[OF ok] by simp
  ultimately show ?thesis by blast
qed

theorem reachable_profile_witness:
  "(\<exists>n d s. ''gen-1'' = gen_name n \<and> current_number (activate 1 one_gen) = n \<and> n \<noteq> 0
      \<and> map_of (pr_dirs (activate 1 one_gen)) ''gen-1'' = Some d \<and> d_state d = State s)
   \<and> is_ok (generations (activate 1 one_gen))"
  using reachable_profile[OF reachable_one] by (simp add: activate_def gen_name_examples)

subsection \<open>Edits\<close>

lemma read_at_gen:
  "read_at p (gen_name n) rel =
     Option.bind (map_of (pr_dirs p) (gen_name n)) (\<lambda>d. map_option (\<lambda>i. fst (pr_heap p ! i)) (map_of (d_data d) rel))"
  by (simp add: read_at_def dir_at_def)

text \<open>
  C13. An edit of a file of one generation reaches no other file, of that generation or of another, although
  generations share the files that they have in common: what is shared cannot be written.
\<close>

theorem edit_reaches_one_file:
  assumes "reachable tree_key p" "gen_name m \<noteq> gen_name n \<or> rel' \<noteq> rel"
  shows "read_at (user_write (gen_name n) rel data p) (gen_name m) rel' = read_at p (gen_name m) rel'"
proof (cases "user_write (gen_name n) rel data p = p")
  case False
  then obtain d i where d: "map_of (pr_dirs p) (gen_name n) = Some d" "map_of (d_data d) rel = Some i"
    and w: "snd (pr_heap p ! i) AND 0x80 \<noteq> 0"
    and heap: "pr_heap (user_write (gen_name n) rel data p) = (pr_heap p)[i := (data, snd (pr_heap p ! i))]"
    by (auto simp: user_write_def dir_at_def bind_eq_Some_conv split: option.splits if_splits)
  have ok: "unshared p" using reachable_ok[OF assms(1)] by (simp add: profile_ok_def)
  have nd: "(gen_name n, d) \<in> gens p" using d(1) by (auto simp: gens_def dest: map_of_SomeD)
  have "i \<noteq> j" if j: "map_of (pr_dirs p) (gen_name m) = Some d'" "map_of (d_data d') rel' = Some j" for d' j
  proof
    assume "i = j"
    moreover have "(gen_name m, d') \<in> gens p" using j(1) by (auto simp: gens_def dest: map_of_SomeD)
    ultimately have "gen_name n = gen_name m \<and> rel = rel'"
      using unsharedD[OF ok nd, of "(gen_name m, d')" rel i rel'] d(2) j(2) owner_write_writable[OF w]
      by (auto dest: map_of_SomeD)
    with assms(2) show False by simp
  qed
  then have "map_option (\<lambda>j. fst ((pr_heap p)[i := x] ! j)) (map_of (d_data d') rel')
      = map_option (\<lambda>j. fst (pr_heap p ! j)) (map_of (d_data d') rel')"
    if "map_of (pr_dirs p) (gen_name m) = Some d'" for d' x
    using that by (cases "map_of (d_data d') rel'") auto
  then show ?thesis
    unfolding read_at_gen user_write_parts heap by (cases "map_of (pr_dirs p) (gen_name m)") simp_all
qed simp

theorem edit_reaches_one_file_witness:
  "read_at (user_write (gen_name 1) ''files/note'' ''bye'' (activate 1 one_gen)) (gen_name 1) ''oku.lock''
     = read_at (activate 1 one_gen) (gen_name 1) ''oku.lock''"
  by (rule edit_reaches_one_file[OF reachable_one]) simp

subsection \<open>A new generation\<close>

text \<open>The files as the commands give them: only a file with content has a text and secrets.\<close>

definition gen_file_ok :: "gen_file \<Rightarrow> bool" where
  "gen_file_ok f \<longleftrightarrow> (f_content f = [] \<longrightarrow> f_text f = [] \<and> f_secrets f = [])"

text \<open>Two files of a generation that have one name have the same bytes, as the names are hashes.\<close>

definition consistent :: "(string \<times> string \<times> mode) list \<Rightarrow> bool" where
  "consistent ws \<longleftrightarrow> (\<forall>(rel, data, mode)\<in>set ws. \<forall>(rel', data', mode')\<in>set ws. rel = rel' \<longrightarrow> data = data')"

lemma built_reads:
  assumes "built heap0 ws (heap, dat)" "consistent ws" "(rel, data, mode) \<in> set ws"
  shows "\<exists>i. map_of dat rel = Some i \<and> fst (heap ! i) = data"
proof -
  have "rel \<in> fst ` set dat" using assms(1,3) by (auto simp: built_def)
  then obtain i where i: "map_of dat rel = Some i" by (metis map_of_eq_None_iff not_Some_eq)
  then have "(rel, i) \<in> set dat" by (rule map_of_SomeD)
  with assms(1) obtain mode' where "(rel, fst (heap ! i), mode') \<in> set ws" by (auto simp: built_def)
  with assms(2,3) have "fst (heap ! i) = data" by (fastforce simp: consistent_def)
  with i show ?thesis by blast
qed

lemma built_no_write:
  assumes "built heap0 ws (heap, dat)" "rel \<notin> fst ` set ws"
  shows "map_of dat rel = None"
proof (rule ccontr)
  assume "map_of dat rel \<noteq> None"
  then obtain i where "(rel, i) \<in> set dat" by (auto dest: map_of_SomeD)
  with assms show False by (force simp: built_def)
qed

lemma file_writes_in_files: "(rel, data, mode) \<in> set (file_writes f) \<Longrightarrow> \<exists>s. rel = in_files s"
  by (auto simp: file_writes_def split: if_splits)

lemma lock_not_in_files [simp]: "''oku.lock'' \<noteq> in_files s" "in_files s \<noteq> ''oku.lock''"
  by (simp_all add: in_files_def)

lemma map_of_snoc: "map_of (xs @ [(k, d)]) j = (case map_of xs j of None \<Rightarrow> if j = k then Some d else None | Some v \<Rightarrow> Some v)"
  by (simp add: map_add_def split: option.split)

text \<open>The state and the bytes that the directory \<open>gen\<close> of a profile gives, and what is read from them.\<close>

definition holds_gen ::
  "profile \<Rightarrow> string \<Rightarrow> gen_state \<Rightarrow> string option \<Rightarrow> bool" where
  "holds_gen p gen s lock \<longleftrightarrow>
     (\<exists>d. dir_at p gen = Some d \<and> d_state d = State (on_disk s))
     \<and> (\<forall>(rel, data, mode)\<in>set (gen_writes (gs_files s) lock). read_at p gen rel = Some data)
     \<and> (lock = None \<longrightarrow> read_at p gen ''oku.lock'' = None)"

lemma holds_state: "holds_gen p gen s lock \<Longrightarrow> state_in p gen = Inr (on_disk s)"
  by (auto simp: holds_gen_def state_in_def read_state_def)

lemma holds_lock: "holds_gen p gen s lock \<Longrightarrow> read_at p gen ''oku.lock'' = lock"
  by (cases lock) (auto simp: holds_gen_def gen_writes_def)

lemma holds_read:
  "holds_gen p gen s lock \<Longrightarrow> f \<in> set (gs_files s) \<Longrightarrow> (in_files name, data, mode) \<in> set (file_writes f) \<Longrightarrow>
   read_content p gen name = Inr data"
proof -
  assume h: "holds_gen p gen s lock" and "f \<in> set (gs_files s)" "(in_files name, data, mode) \<in> set (file_writes f)"
  then have "(in_files name, data, mode) \<in> set (gen_writes (gs_files s) lock)" by (auto simp: gen_writes_def)
  with h have "read_at p gen (in_files name) = Some data" by (auto simp: holds_gen_def)
  then show ?thesis by (simp add: read_content_def)
qed

lemma map_res_map: "\<forall>x\<in>set xs. f (g x) = Inr x \<Longrightarrow> map_res f (map g xs) = Inr xs"
  by (induction xs) auto

lemma file_in_holds:
  assumes "holds_gen p gen s lock" "f \<in> set (gs_files s)" "gen_file_ok f"
  shows "file_in p gen (f\<lparr>f_text := [], f_secrets := map (sr_data_update (\<lambda>_. [])) (f_secrets f)\<rparr>) = Inr f"
proof (cases "f_content f = []")
  case True
  with assms(3) show ?thesis by (simp add: file_in_def gen_file_ok_def)
next
  case False
  then have w: "(in_files (f_content f), f_text f, if f_mode f = 0 then 0x124 else f_mode f) \<in> set (file_writes f)"
    "\<forall>r\<in>set (f_secrets f). (in_files (sr_cipher r), sr_data r, 0x180) \<in> set (file_writes f)"
    by (simp_all add: file_writes_def)
  have "map_res (\<lambda>r. and_then (read_content p gen (sr_cipher r)) (\<lambda>data. Inr (r\<lparr>sr_data := data\<rparr>)))
      (map (sr_data_update (\<lambda>_. [])) (f_secrets f)) = Inr (f_secrets f)"
    using w(2) holds_read[OF assms(1,2)] by (intro map_res_map) auto
  with False holds_read[OF assms(1,2) w(1)] show ?thesis by (simp add: file_in_def)
qed

lemma files_in_holds:
  assumes "holds_gen p gen s lock" "\<forall>f\<in>set (gs_files s). gen_file_ok f"
  shows "files_in p gen = Inr (gs_files s)"
proof -
  have "map_res (file_in p gen) (map (\<lambda>f. f\<lparr>f_text := [], f_secrets := map (sr_data_update (\<lambda>_. [])) (f_secrets f)\<rparr>)
      (gs_files s)) = Inr (gs_files s)"
    using file_in_holds[OF assms(1)] assms(2) by (intro map_res_map) simp
  with holds_state[OF assms(1)] show ?thesis by (simp add: files_in_def on_disk_def)
qed

text \<open>What \<open>stage\<close> leaves: the new generation, and every other one as it was.\<close>

lemma stage_effect:
  assumes "profile_ok p" "stage tree_key files clock pkgs fs settings reqs lock p = (Inr n, p')" "consistent (gen_writes fs lock)"
  shows "n = next_generation p \<and> gen_name n \<notin> fst ` set (pr_dirs p) \<and> gen_name n \<in> fst ` set (pr_dirs p')
    \<and> pr_current p' = pr_current p \<and> n \<noteq> 0 \<and> in_int n
    \<and> holds_gen p' (gen_name n) \<lparr>gs_created = clock, gs_packages = sort_func (by_name g_name) pkgs, gs_files = fs,
          gs_settings = settings, gs_host = reqs, gs_from = current_number p\<rparr> lock"
  using assms(2)
proof (cases rule: stage_cases)
  case (staged ts heap d)
  let ?n = "next_generation p"
  have n: "n = ?n" using staged(1) by simp
  have "map_of (pr_dirs p) (gen_name n) = None" using staged(3) by (simp add: n map_of_eq_None_iff)
  then have dir: "map_of (pr_dirs p') (gen_name n) = Some d"
    using staged(2) without_tmp_gen[of p ?n] by (simp add: n map_of_snoc del: map_of_append)
  note built = staged_dir_built[OF assms(1) staged(5)]
  have read: "read_at p' (gen_name n) rel = map_option (\<lambda>i. fst (heap ! i)) (map_of (d_data d) rel)" for rel
    unfolding read_at_gen dir using staged(2) by simp
  have "read_at p' (gen_name n) rel = Some data" if "(rel, data, mode) \<in> set (gen_writes fs lock)" for rel data mode
    using built_reads[OF built assms(3) that] by (auto simp: read)
  moreover have "read_at p' (gen_name n) ''oku.lock'' = None" if "lock = None"
  proof -
    have "''oku.lock'' \<notin> fst ` set (gen_writes fs lock)"
      using that by (auto simp: gen_writes_def dest: file_writes_in_files)
    from built_no_write[OF built this] show ?thesis by (simp add: read)
  qed
  moreover have "dir_at p' (gen_name n) = Some d" by (simp add: dir_at_def dir)
  ultimately show ?thesis
    using staged n next_generation_bounds[of p] by (auto simp: holds_gen_def staged_dir_def)
qed simp

lemma dir_at_gen: "dir_at p (gen_name m) = map_of (pr_dirs p) (gen_name m)"
  by (simp add: dir_at_def)

lemma stage_keeps:
  assumes "profile_ok p" "stage tree_key files clock pkgs fs settings reqs lock p = (r, p')"
    and "gen_name m \<in> fst ` set (pr_dirs p)"
  shows "dir_at p' (gen_name m) = dir_at p (gen_name m) \<and> read_at p' (gen_name m) rel = read_at p (gen_name m) rel"
  using assms(2)
proof (cases rule: stage_cases)
  case failed
  then show ?thesis by (simp add: dir_at_gen read_at_gen without_tmp_gen)
next
  case (staged ts heap d)
  obtain d' where d': "map_of (pr_dirs p) (gen_name m) = Some d'"
    using assms(3) by (metis map_of_eq_None_iff not_Some_eq)
  then have "map_of (pr_dirs p') (gen_name m) = map_of (pr_dirs p) (gen_name m)"
    using staged(2) without_tmp_gen[of p m] by (simp add: map_of_snoc del: map_of_append)
  moreover have "fst (heap ! i) = fst (pr_heap p ! i)" if "map_of (d_data d') rel = Some i" for i
  proof -
    have "gen_ok p (gen_name m, d')" using assms(1) d' by (intro gen_okD) (auto dest: map_of_SomeD)
    with that have "i < length (pr_heap p)" by (auto simp: gen_ok_def dest: map_of_SomeD)
    with staged_dir_built[OF assms(1) staged(5)] show ?thesis by (auto simp: built_def nth_append)
  qed
  ultimately show ?thesis
    using staged(2) d' by (cases "map_of (d_data d') rel") (simp_all add: dir_at_gen read_at_gen)
qed

text \<open>
  C29. A staged generation has a new number and holds the packages by name, the files with their bytes and
  secrets, the settings, the requirements and the lock that it was given; \<open>current\<close> and every other
  generation are as they were.
\<close>

theorem stage_round_trip:
  assumes "reachable tree_key p"
    and "stage tree_key files clock pkgs fs settings reqs lock p = (Inr n, p')"
    and "consistent (gen_writes fs lock)" "\<forall>f\<in>set fs. gen_file_ok f"
  shows "packages_of p' n = Inr (sort_func (by_name g_name) pkgs) \<and> files_with_content p' n = Inr fs
    \<and> settings_of p' n = Inr settings \<and> host_of p' n = Inr (map (rq_when_update (\<lambda>_. [])) reqs)
    \<and> lock_snapshot_of p' n = Inr lock
    \<and> pr_current p' = pr_current p \<and> gen_name n \<notin> fst ` set (pr_dirs p)
    \<and> (\<forall>m rel. gen_name m \<in> fst ` set (pr_dirs p) \<longrightarrow>
         state_in p' (gen_name m) = state_in p (gen_name m) \<and> read_at p' (gen_name m) rel = read_at p (gen_name m) rel)"
proof -
  have ok: "profile_ok p" using assms(1) by (rule reachable_ok)
  note e = stage_effect[OF ok assms(2,3)]
  let ?s = "\<lparr>gs_created = clock, gs_packages = sort_func (by_name g_name) pkgs, gs_files = fs,
          gs_settings = settings, gs_host = reqs, gs_from = current_number p\<rparr>"
  have h: "holds_gen p' (gen_name n) ?s lock" and n: "n \<noteq> 0"
    and other: "pr_current p' = pr_current p \<and> gen_name n \<notin> fst ` set (pr_dirs p)"
    using e by blast+
  have "lock_snapshot_of p' n = Inr lock"
    using h holds_lock[OF h] by (auto simp: lock_snapshot_of_def holds_gen_def)
  moreover have "files_with_content p' n = Inr fs"
    using files_in_holds[OF h] assms(4) n by (simp add: files_with_content_def)
  moreover have "\<forall>m rel. gen_name m \<in> fst ` set (pr_dirs p) \<longrightarrow>
         state_in p' (gen_name m) = state_in p (gen_name m) \<and> read_at p' (gen_name m) rel = read_at p (gen_name m) rel"
    using stage_keeps[OF ok assms(2)] by (simp add: state_in_def)
  ultimately show ?thesis
    using holds_state[OF h] n other
    by (simp add: packages_of_def packages_in_def settings_of_def host_of_def on_disk_def)
qed

lemma note_writes: "consistent (gen_writes [note_file] None)" "\<forall>f\<in>set [note_file]. gen_file_ok f"
  by (simp_all add: consistent_def gen_writes_def file_writes_def note_file_def gen_file_ok_def)

theorem stage_round_trip_witness:
  "files_with_content \<lparr>pr_dirs = [(''gen-1'', note_dir 10 0), (''gen-2'', note_dir 20 1)], pr_current = Some ''gen-1'',
     pr_trees = [], pr_heap = [(''hello'', 0x124)]\<rparr> 2 = Inr [note_file]"
  using stage_round_trip[OF reachable_one stage_two note_writes] by blast

subsection \<open>Replacing\<close>

lemma at_current:
  "read_at (activate n p) ''current'' rel = read_at p (gen_name n) rel"
  "dir_at (activate n p) ''current'' = dir_at p (gen_name n)" if "n \<noteq> 0"
  using that by (simp_all add: read_at_def dir_at_def activate_def)

lemma at_gen: "dir_at (activate n p) (gen_name m) = dir_at p (gen_name m)"
  by (simp add: dir_at_gen activate_def)

lemma holds_current:
  "n \<noteq> 0 \<Longrightarrow> holds_gen p (gen_name n) s lock \<Longrightarrow> holds_gen (activate n p) ''current'' s lock"
  by (simp add: holds_gen_def at_current)

lemma by_name_sort_idem: "sort_func (by_name f) (sort_func (by_name f) xs) = sort_func (by_name f) xs"
  by (rule go_order.sort_func_id[OF by_name_order]) (simp_all add: go_order.sort_func_sorted[OF by_name_order])

text \<open>
  C30. Syncing twice changes nothing the second time: when \<open>Replace\<close> has staged a generation and it is active,
  the same \<open>Replace\<close> finds every package, file, setting, requirement and the lock as it wants them and
  stages none.
\<close>

theorem replace_settles:
  assumes "reachable tree_key p"
    and "replace tree_key files clock pkgs fs settings reqs lock p = (Inr n, p')" "n \<noteq> 0"
    and "consistent (gen_writes fs lock)" "\<forall>f\<in>set fs. gen_file_ok f"
  shows "replace tree_key files' clock' pkgs fs settings reqs lock (activate n p') = (Inr 0, activate n p')"
proof -
  let ?sorted = "sort_func (by_name g_name) pkgs" and ?q = "activate n p'"
  have ok: "profile_ok p" using assms(1) by (rule reachable_ok)
  have st: "stage tree_key files clock ?sorted fs settings reqs lock p = (Inr n, p')"
    using assms(2,3) by (auto simp: replace_def Let_def split: sum.splits prod.splits if_splits)
  let ?s = "\<lparr>gs_created = clock, gs_packages = ?sorted, gs_files = fs, gs_settings = settings, gs_host = reqs,
     gs_from = current_number p\<rparr>"
  from stage_effect[OF ok st assms(4)] have h: "holds_gen p' (gen_name n) ?s lock" and int: "in_int n"
    unfolding by_name_sort_idem by blast+
  note c = holds_current[OF assms(3) h]
  have num: "current_number ?q = n"
    using assms(3) int by (intro current_number_gen) (simp add: activate_def)
  have gen: "state_in ?q (gen_name n) = Inr (on_disk ?s)"
    using holds_state[OF h] by (simp add: state_in_def at_gen)
  have "read_current ?q = Inr (?sorted, fs, settings, map (rq_when_update (\<lambda>_. [])) reqs)"
    using holds_state[OF c] files_in_holds[OF c] assms(3,5) gen
    by (simp add: read_current_def packages_in_def settings_of_def host_of_def num on_disk_def)
  moreover have "lock_of_current ?q = lock" using holds_lock[OF c] by (simp add: lock_of_current_def)
  moreover have "list_all2 same_package ?sorted ?sorted" "list_all2 same_file fs fs"
    by (auto simp: same_package_def same_file_def intro: list_all2_refl)
  moreover have "list_all2 same_requirement (map (rq_when_update (\<lambda>_. [])) reqs) reqs"
    by (simp add: list_all2_map1 same_requirement_def list_all2_refl)
  ultimately show ?thesis by (simp add: replace_def)
qed

lemma replace_one:
  "replace (\<lambda>_. ''k'') (\<lambda>_. None) 10 [] [note_file] [] [] None empty_profile = (Inr 1, one_gen)"
  by code_simp

theorem replace_settles_witness:
  "replace (\<lambda>_. ''k'') (\<lambda>_. None) 20 [] [note_file] [] [] None (activate 1 one_gen) = (Inr 0, activate 1 one_gen)"
proof -
  have "reachable (\<lambda>_. ''k'') empty_profile" unfolding empty_profile_def by (rule reachable.start)
  from replace_settles[OF this replace_one _ note_writes] show ?thesis by simp
qed

subsection \<open>Pruning\<close>

text \<open>The index that \<open>last_before\<close> finds, in terms of the generations after it.\<close>

lemma last_before_le:
  "since \<noteq> zero_time \<Longrightarrow> found < i \<Longrightarrow> last_before since i gs found \<le> x \<longleftrightarrow>
     found \<le> x \<and> (\<forall>j<length gs. n_created (gs ! j) < since \<longrightarrow> i + int j \<le> x)"
proof (induction gs arbitrary: i found)
  case (Cons g gs)
  let ?found = "if n_created g < since then i else found"
  have "last_before since (i + 1) gs ?found \<le> x \<longleftrightarrow>
      ?found \<le> x \<and> (\<forall>j<length gs. n_created (gs ! j) < since \<longrightarrow> i + 1 + int j \<le> x)"
    using Cons.prems by (intro Cons.IH) auto
  moreover have "(\<forall>j<length (g # gs). n_created ((g # gs) ! j) < since \<longrightarrow> i + int j \<le> x) \<longleftrightarrow>
      (n_created g < since \<longrightarrow> i \<le> x) \<and> (\<forall>j<length gs. n_created (gs ! j) < since \<longrightarrow> i + 1 + int j \<le> x)"
    by (simp add: All_less_Suc2 algebra_simps)
  ultimately show ?case using Cons.prems by auto
qed simp

text \<open>The rules of a retention, as its comments state them.\<close>

definition retained :: "retention \<Rightarrow> generation list \<Rightarrow> nat \<Rightarrow> bool" where
  "retained r gs i \<longleftrightarrow>
     n_current (gs ! i)
     \<or> (r_keep r > 0 \<and> int (length gs - i) \<le> r_keep r)
     \<or> (r_since r \<noteq> zero_time \<and> (\<forall>j<length gs. i < j \<longrightarrow> r_since r \<le> n_created (gs ! j)))"

lemma kept_retained: "i < length gs \<Longrightarrow> kept r gs i = retained r gs i"
  using last_before_le[of "r_since r" "-1" 0 gs "int i"]
  by (cases "r_since r = zero_time") (auto simp: kept_def retained_def not_less of_nat_diff intro: leI)

lemma prune_numbers_set:
  "set (prune_numbers r gs) = {n_number (gs ! i) |i. i < length gs \<and> \<not> retained r gs i}"
  using kept_retained[of _ gs r] by (auto simp: prune_numbers_def)

lemma remove_gens_dirs:
  "pr_dirs (fold remove_gen ns p) = filter (\<lambda>d. fst d \<notin> gen_name ` set ns) (pr_dirs p)
   \<and> pr_current (fold remove_gen ns p) = pr_current p \<and> pr_trees (fold remove_gen ns p) = pr_trees p"
  by (induction ns arbitrary: p) (auto simp: remove_gen_def intro!: filter_cong)

lemma drop_trees_parts [simp]:
  "pr_dirs (drop_trees p) = pr_dirs p" "pr_current (drop_trees p) = pr_current p"
  by (simp_all add: drop_trees_def)

lemma prune_result:
  assumes "profile_ok p" "generations p = Inr gs" "prune r dry p = (res, p')"
  shows "\<exists>gs'. res = Inr (prune_numbers r gs)
    \<and> generations p' = Inr gs' \<and> set gs' = (if dry then set gs else {g \<in> set gs. n_number g \<notin> set (prune_numbers r gs)})
    \<and> pr_current p' = pr_current p \<and> (dry \<longrightarrow> p' = p)"
proof -
  let ?ns = "prune_numbers r gs"
  have ok: "profile_ok p" using assms(1) .
  have ok': "profile_ok p'" using profile_ok_prune[OF ok assms(3)] .
  then obtain gs' where gs': "generations p' = Inr gs'" using generations_ok[of p'] by blast
  have res: "res = Inr ?ns" and p': "p' = (if dry \<or> ?ns = [] then p else drop_trees (fold remove_gen ?ns p))"
    using assms(2,3) by (auto simp: prune_def Let_def)
  have cur: "pr_current p' = pr_current p" using p' remove_gens_dirs[of ?ns p] by simp
  have "set gs' = {g \<in> set gs. n_number g \<notin> set ?ns}" if "\<not> dry"
  proof -
    have of_same: "gen_of p' nd = gen_of p nd" for nd using cur by (simp add: gen_of_def)
    have "gens p' = {nd \<in> gens p. fst nd \<notin> gen_name ` set ?ns}"
      using p' that remove_gens_dirs[of ?ns p] by (auto simp: gens_def)
    moreover have "fst nd \<in> gen_name ` set ?ns \<longleftrightarrow> n_number (gen_of p nd) \<in> set ?ns" if nd: "nd \<in> gens p" for nd
    proof -
      have g: "fst nd = gen_name (n_number (gen_of p nd))" "in_int (n_number (gen_of p nd))"
        using gen_of_number ok nd by (auto simp: profile_ok_def)
      have "in_int n" if "n \<in> set ?ns" for n
      proof -
        from that obtain g where "g \<in> set gs" "n = n_number g"
          unfolding prune_numbers_def by (auto intro!: that nth_mem)
        then obtain nd' where "nd' \<in> gens p" "n = n_number (gen_of p nd')"
          using generations_set[OF ok assms(2)] by auto
        then show ?thesis using gen_of_number ok by (auto simp: profile_ok_def)
      qed
      with g gen_name_inj show ?thesis by (metis imageE imageI)
    qed
    ultimately show ?thesis
      unfolding generations_set[OF ok' gs'] generations_set[OF ok assms(2)] of_same by blast
  qed
  moreover have "p' = p" if dry using p' that by simp
  ultimately show ?thesis using res gs' cur assms(2) by (cases dry) simp_all
qed


text \<open>Two generations with a file, the first one active again after a rollback.\<close>

definition two_gens :: profile where
  "two_gens = \<lparr>pr_dirs = [(''gen-1'', note_dir 10 0), (''gen-2'', note_dir 20 1)], pr_current = Some ''gen-1'',
     pr_trees = [], pr_heap = [(''hello'', 0x124)]\<rparr>"

lemma reachable_two: "reachable (\<lambda>_. ''k'') two_gens"
  unfolding two_gens_def by (rule reachable.step[OF reachable_one profile_step.staging[OF stage_two]])

lemma two_listed:
  "is_ok (generations two_gens)"
  by code_simp

lemma prune_two:
  "fst (prune \<lparr>r_keep = 0, r_since = zero_time\<rparr> False two_gens) = Inr [2]"
  by code_simp


subsection \<open>Progress\<close>

lemma link_packages_succeeds:
  assumes "distinct (map te_rel (package_files files (map tree_package_of pkgs)))"
  shows "\<exists>q links. link_packages tree_key files pkgs p = Inr (q, links)"
proof (cases "pkgs = []")
  case False
  show ?thesis
  proof (cases "map_of (pr_trees p) (tree_key pkgs)")
    case None
    have "\<exists>t. build_tree files (map tree_package_of pkgs) = Inr t"
      using build_entries_spec[of files "map tree_package_of pkgs"] assms by (simp add: build_tree_def)
    with None False show ?thesis by (auto simp: link_packages_def Let_def)
  qed (use False in \<open>auto simp: link_packages_def Let_def\<close>)
qed (simp add: link_packages_def)



text \<open>
  A rollback breaks the reason that \<open>Retention\<close> gives for \<open>Since\<close>: generation 1 is active at the time 25,
  after a rollback from generation 2, and generation 3 follows at 30. A prune since 25 then deletes
  generation 1, which was active at that time, and keeps generation 2, which was not.
\<close>

theorem prune_drops_active_then:
  "(case stage (\<lambda>_. ''k'') (\<lambda>_. None) 30 [] [] [] [] None two_gens of
      (_, p3) \<Rightarrow> fst (prune \<lparr>r_keep = 0, r_since = 25\<rparr> False (activate 3 p3)))
   = Inr [1]"
  by code_simp

end
