(* ===== verification/Oku_List.thy ===== *)
theory Oku_List
  imports Env Host Go_Regex Resolve
begin

text \<open>
  The list of a user, \<open>oku.toml\<close>: \<open>internal/list/list.go\<close> and the deps of \<open>internal/manifest/build.go\<close>. The
  TOML decoder is outside, so reading starts from the decoded tables; the check of a signing key, which
  parses a key, is the argument \<open>good_key\<close>.
\<close>

subsection \<open>Ages\<close>

datatype age_error = WantAge string | AgeTooLong int string

text \<open>A \<open>time.Duration\<close> in nanoseconds. \<open>n * unit\<close> cannot leave the 64 bits behind the check.\<close>

definition age_unit :: "string \<Rightarrow> int option" where
  "age_unit u = map_of [(''h'', hour), (''d'', 24 * hour), (''w'', 7 * 24 * hour)] u"

definition parse_age :: "string \<Rightarrow> (age_error, int) res" where
  "parse_age txt =
     (if txt = ''0'' then Inr 0
      else (let at = length txt - 1
            in case (atoi (take at txt), age_unit (drop at txt)) of
                 (Some n, Some unit) \<Rightarrow>
                   if n < 1 then Inl (WantAge txt)
                   else (let most = go_quot max_int unit
                         in if n > most then Inl (AgeTooLong most txt) else Inr (wrap (n * unit)))
               | _ \<Rightarrow> Inl (WantAge txt)))"

subsection \<open>Deps\<close>

record dep =
  dp_ref :: string
  dp_version :: string
  dp_when :: when_list

datatype dep_error =
    DepUnknownKey string
  | DepWhen platform_error
  | DepNoRef
  | DepNotRef
  | DepTwice nat string

definition dep_table :: "table \<Rightarrow> (dep_error, dep) res" where
  "dep_table t =
     (case find (\<lambda>key. key \<notin> {''ref'', ''version'', ''when''}) (keys t) of
        Some key \<Rightarrow> Inl (DepUnknownKey key)
      | None \<Rightarrow>
          (case parse_manifest_when (get_key t ''when'') of
             Inl e \<Rightarrow> Inl (DepWhen e)
           | Inr w \<Rightarrow> Inr \<lparr>dp_ref = as_string (get_key t ''ref''), dp_version = as_string (get_key t ''version''),
                          dp_when = w\<rparr>))"

definition parse_dep :: "toml \<Rightarrow> (dep_error, dep) res" where
  "parse_dep value =
     and_then
       (case value of
          TStr s \<Rightarrow> Inr \<lparr>dp_ref = s, dp_version = [], dp_when = []\<rparr>
        | TTab t \<Rightarrow> dep_table t
        | _ \<Rightarrow> Inl DepNotRef)
       (\<lambda>d. if dp_ref d = [] then Inl DepNoRef else Inr d)"

definition dep_toml :: "dep \<Rightarrow> string" where
  "dep_toml d =
     (if dp_version d = [] \<and> dp_when d = [] then quote (dp_ref d)
      else ''{ '' @ join '', ''
             ([''ref = '' @ quote (dp_ref d)]
              @ (if dp_version d \<noteq> [] then [''version = '' @ quote (dp_version d)] else [])
              @ (if dp_when d \<noteq> [] then [''when = '' @ when_toml (dp_when d)] else []))
           @ '' }'')"

text \<open>A dep that a platform could take from two entries is refused.\<close>

definition dep_clash :: "dep list \<Rightarrow> dep \<Rightarrow> platform option" where
  "dep_clash deps d =
     (case find (\<lambda>other. dp_ref other = dp_ref d
              \<and> list_ex (\<lambda>p. when_matches (dp_when other) p \<and> when_matches (dp_when d) p) all_platforms) deps of
        None \<Rightarrow> None
      | Some other \<Rightarrow> find (\<lambda>p. when_matches (dp_when other) p \<and> when_matches (dp_when d) p) all_platforms)"

fun parse_deps_loop :: "toml list \<Rightarrow> nat \<Rightarrow> dep list \<Rightarrow> (dep_error, dep list) res" where
  "parse_deps_loop [] i deps = Inr deps"
| "parse_deps_loop (v # vs) i deps =
     and_then (parse_dep v) (\<lambda>d.
       case dep_clash deps d of
         Some _ \<Rightarrow> Inl (DepTwice i (dp_ref d))
       | None \<Rightarrow> parse_deps_loop vs (Suc i) (deps @ [d]))"

definition parse_deps :: "toml list \<Rightarrow> (dep_error, dep list) res" where
  "parse_deps raw = parse_deps_loop raw 0 []"

subsection \<open>The entries of a list\<close>

record list_entry =
  le_ref :: string
  le_version :: string
  le_when :: when_list
  le_service :: bool
  le_system :: bool
  le_run_as :: string
  le_asset :: string
  le_bins :: "string list"
  le_from_source :: bool
  le_min_age :: string
  le_signing_key :: string
  le_signer_workflow :: string

definition empty_entry :: list_entry where
  "empty_entry = \<lparr>le_ref = [], le_version = [], le_when = [], le_service = False, le_system = False, le_run_as = [],
     le_asset = [], le_bins = [], le_from_source = False, le_min_age = [], le_signing_key = [],
     le_signer_workflow = []\<rparr>"

text \<open>\<open>Vars\<close> is nil without the key, and a map that may be empty with it.\<close>

record list_file =
  lf_target :: string
  lf_link :: string
  lf_text :: string
  lf_has_text :: bool
  lf_render :: string
  lf_secret :: string
  lf_key :: string
  lf_mode :: nat
  lf_when :: when_list
  lf_vars :: "(string \<times> string) list option"

definition empty_list_file :: list_file where
  "empty_list_file = \<lparr>lf_target = [], lf_link = [], lf_text = [], lf_has_text = False, lf_render = [], lf_secret = [],
     lf_key = [], lf_mode = 0, lf_when = [], lf_vars = None\<rparr>"

record list_include =
  ln_ref :: string
  ln_when :: when_list

record list_secret =
  ls_file :: string
  ls_key :: string

record list_setting =
  lt_backend :: string
  lt_domain :: string
  lt_key :: string
  lt_value :: toml

record lock_keys =
  lk_platforms :: "platform list"
  lk_min_age :: string
  lk_unknown_age :: string
  lk_unverified :: string

record oku_list =
  ol_include :: "list_include list"
  ol_packages :: "(string \<times> list_entry) list"
  ol_files :: "list_file list"
  ol_settings :: "list_setting list"
  ol_secrets :: "(string \<times> list_secret) list"
  ol_vars :: "string \<rightharpoonup> string"
  ol_lock :: lock_keys
  ol_env :: env_table
  ol_env_files :: "env_file list"
  ol_runtimes :: "(string \<times> dep) list"
  ol_host :: "(string \<times> requirement) list"

datatype list_error =
    BadInclude string
  | NoIncludeRef
  | IncludeWhen platform_error
  | BadRuntime string dep_error
  | BadVar string
  | BadEnv env_error
  | LockUnknownKey string
  | LockAgeNotString
  | LockBadAge age_error
  | LockBadChoice string
  | LockPlatformsNotArray
  | LockBadPlatform platform_error
  | BadSecret string
  | BadHost host_error
  | BadPackage string entry_error
  | DomainNotTable string string
  | DomainIsPath string
  | NotHKCU string
  | BadFile string file_error
  | TargetTwice string string
  | TargetTaken string string string
  | OverlayHolds string
and entry_error =
    EntryUnknownKey string
  | EntryWrongType string string
  | EntryNoRef
  | EntryRunAs string
  | EntryAgeNotString
  | EntryBadAge age_error
  | EntryBadKey
  | EntryBadWorkflow string
  | EntryBinNotArray
  | EntryWhen platform_error
  | EntryNotTable
and file_error =
    FileNotTable
  | FileBadMode
  | FileVarsNotTable
  | FileVarNotString string
  | FileUnknownKey string
  | FileNotString string
  | FileKinds
  | FileKeyAlone
  | FileModeOfLink
  | FileVarsOfLink
  | FileWhen platform_error
  | FileAlso

subsection \<open>The lock table, the includes and the secrets\<close>

definition unknown_choices :: "string list" where
  "unknown_choices = [''allow'', ''warn'', ''refuse'']"

definition lock_age :: "table \<Rightarrow> (list_error, string) res" where
  "lock_age t =
     (case get_key t ''min_release_age'' of
        None \<Rightarrow> Inr []
      | Some (TStr age) \<Rightarrow>
          if age = [] then Inr []
          else (case parse_age age of Inl e \<Rightarrow> Inl (LockBadAge e) | Inr _ \<Rightarrow> Inr age)
      | Some _ \<Rightarrow> Inl LockAgeNotString)"

definition lock_platforms :: "table \<Rightarrow> (list_error, platform list) res" where
  "lock_platforms t =
     (case get_key t ''platforms'' of
        None \<Rightarrow> Inr []
      | Some (TArr names) \<Rightarrow>
          map_res (\<lambda>name. case parse_platform (as_string (Some name)) of
                            Inl e \<Rightarrow> Inl (LockBadPlatform e) | Inr p \<Rightarrow> Inr p) names
      | Some _ \<Rightarrow> Inl LockPlatformsNotArray)"

definition read_lock :: "table \<Rightarrow> (list_error, lock_keys) res" where
  "read_lock t =
     (case find (\<lambda>key. key \<notin> {''platforms'', ''min_release_age'', ''unknown_release_age'', ''unverified''}) (keys t) of
        Some key \<Rightarrow> Inl (LockUnknownKey key)
      | None \<Rightarrow>
          and_then (lock_age t) (\<lambda>age.
            case find (\<lambda>key. get_key t key \<noteq> None \<and> as_string (get_key t key) \<notin> set unknown_choices)
                   [''unknown_release_age'', ''unverified''] of
              Some key \<Rightarrow> Inl (LockBadChoice key)
            | None \<Rightarrow>
                and_then (lock_platforms t) (\<lambda>ps.
                  Inr \<lparr>lk_platforms = ps, lk_min_age = age,
                        lk_unknown_age = as_string (get_key t ''unknown_release_age''),
                        lk_unverified = as_string (get_key t ''unverified'')\<rparr>)))"

definition as_table :: "toml option \<Rightarrow> table" where
  "as_table v = (case v of Some (TTab t) \<Rightarrow> t | _ \<Rightarrow> [])"

definition parse_include :: "toml \<Rightarrow> (list_error, list_include) res" where
  "parse_include item =
     (case item of
        TStr s \<Rightarrow> Inr \<lparr>ln_ref = s, ln_when = []\<rparr>
      | _ \<Rightarrow>
          (let t = as_table (Some item)
           in case find (\<lambda>key. key \<noteq> ''ref'' \<and> key \<noteq> ''when'') (keys t) of
                Some key \<Rightarrow> Inl (BadInclude key)
              | None \<Rightarrow>
                  if as_string (get_key t ''ref'') = [] then Inl NoIncludeRef
                  else (case parse_list_when (get_key t ''when'') of
                          Inl e \<Rightarrow> Inl (IncludeWhen e)
                        | Inr w \<Rightarrow> Inr \<lparr>ln_ref = as_string (get_key t ''ref''), ln_when = w\<rparr>)))"

definition read_secret :: "string \<Rightarrow> toml \<Rightarrow> (list_error, list_secret) res" where
  "read_secret name value =
     (let t = as_table (Some value); file = as_string (get_key t ''file''); key = as_string (get_key t ''key'')
      in if file = [] \<or> length t > 2 \<or> (length t = 2 \<and> key = []) then Inl (BadSecret name)
         else Inr \<lparr>ls_file = file, ls_key = key\<rparr>)"

subsection \<open>Settings and variables\<close>

definition current_host :: string where
  "current_host = ''currentHost:''"

definition check_domain :: "string \<Rightarrow> string \<Rightarrow> list_error option" where
  "check_domain backend domain =
     (let name = trim_prefix domain current_host
      in if backend = ''defaults'' \<and> (contains_any name [CHR ''/'', CHR 0x5C] \<or> has_prefix name ''~'')
         then Some (DomainIsPath domain)
         else if backend = ''registry'' \<and> \<not> has_prefix (to_upper domain) (''HKCU'' @ [CHR 0x5C])
              \<and> \<not> has_prefix (to_upper domain) (''HKEY_CURRENT_USER'' @ [CHR 0x5C])
         then Some (NotHKCU domain) else None)"

fun to_settings :: "string \<Rightarrow> table \<Rightarrow> (list_error, list_setting list) res" where
  "to_settings backend [] = Inr []"
| "to_settings backend ((domain, value) # rest) =
     (case value of
        TTab ks \<Rightarrow>
          (case check_domain backend domain of
             Some e \<Rightarrow> Inl e
           | None \<Rightarrow>
               and_then (to_settings backend rest) (\<lambda>more.
                 Inr (map (\<lambda>(k, v). \<lparr>lt_backend = backend, lt_domain = domain, lt_key = k, lt_value = v\<rparr>) ks @ more)))
      | _ \<Rightarrow> Inl (DomainNotTable backend domain))"

fun flatten_vars :: "string \<Rightarrow> (string \<times> toml) list \<Rightarrow> (string \<rightharpoonup> string) \<Rightarrow> (list_error, string \<rightharpoonup> string) res" where
  "flatten_vars prefix [] vars = Inr vars"
| "flatten_vars prefix ((key, value) # rest) vars =
     (case value of
        TStr v \<Rightarrow> flatten_vars prefix rest (vars(prefix @ key \<mapsto> v))
      | TTab t \<Rightarrow> and_then (flatten_vars (prefix @ key @ ''.'') t vars) (flatten_vars prefix rest)
      | _ \<Rightarrow> Inl (BadVar (prefix @ key)))"

subsection \<open>Files\<close>

text \<open>\<open>strconv.ParseUint(text, 8, 32)\<close>.\<close>

definition parse_octal :: "string \<Rightarrow> nat option" where
  "parse_octal txt =
     (if txt = [] \<or> \<not> list_all (\<lambda>c. 48 \<le> byte c \<and> byte c < 56) txt then None
      else (let n = foldl (\<lambda>n c. 8 * n + digit_val c) 0 txt in if n < 2 ^ 32 then Some n else None))"

definition parse_mode :: "toml \<Rightarrow> nat option" where
  "parse_mode v =
     (case v of
        TStr txt \<Rightarrow> (case parse_octal txt of Some n \<Rightarrow> if n > 511 then None else Some n | None \<Rightarrow> None)
      | _ \<Rightarrow> None)"

fun file_vars :: "(string \<times> toml) list \<Rightarrow> (string \<times> string) list \<Rightarrow> (file_error, (string \<times> string) list) res" where
  "file_vars [] vars = Inr vars"
| "file_vars ((name, v) # rest) vars =
     (case v of TStr txt \<Rightarrow> file_vars rest (vars @ [(name, txt)]) | _ \<Rightarrow> Inl (FileVarNotString name))"

text \<open>A key whose value is a text, and is set to it.\<close>

definition text_field :: "string \<Rightarrow> string \<Rightarrow> list_file \<Rightarrow> list_file option" where
  "text_field key txt f =
     (if key = ''link'' then Some (f\<lparr>lf_link := txt\<rparr>)
      else if key = ''text'' then Some (f\<lparr>lf_text := txt, lf_has_text := True\<rparr>)
      else if key = ''render'' then Some (f\<lparr>lf_render := txt\<rparr>)
      else if key = ''secret'' then Some (f\<lparr>lf_secret := txt\<rparr>)
      else if key = ''key'' then Some (f\<lparr>lf_key := txt\<rparr>)
      else None)"

fun file_fields :: "(string \<times> toml) list \<Rightarrow> list_file \<Rightarrow> (file_error, list_file) res" where
  "file_fields [] f = Inr f"
| "file_fields ((key, v) # rest) f =
     (if key = ''mode''
      then (case parse_mode v of None \<Rightarrow> Inl FileBadMode | Some m \<Rightarrow> file_fields rest (f\<lparr>lf_mode := m\<rparr>))
      else if key = ''when'' \<or> key = ''also'' then file_fields rest f
      else if key = ''vars''
      then (case v of
              TTab t \<Rightarrow> and_then (file_vars t []) (\<lambda>vars. file_fields rest (f\<lparr>lf_vars := Some vars\<rparr>))
            | _ \<Rightarrow> Inl FileVarsNotTable)
      else (case text_field key (as_string (Some v)) f of
              None \<Rightarrow> Inl (FileUnknownKey key)
            | Some f' \<Rightarrow> if is_string v then file_fields rest f' else Inl (FileNotString key)))"

definition file_kinds :: "list_file \<Rightarrow> nat" where
  "file_kinds f = length (filter id [lf_link f \<noteq> [], lf_has_text f, lf_render f \<noteq> [], lf_secret f \<noteq> []])"

definition check_file :: "list_file \<Rightarrow> file_error option" where
  "check_file f =
     (if file_kinds f \<noteq> 1 then Some FileKinds
      else if lf_key f \<noteq> [] \<and> lf_secret f = [] then Some FileKeyAlone
      else if lf_link f \<noteq> [] \<and> lf_mode f \<noteq> 0 then Some FileModeOfLink
      else if lf_vars f \<noteq> None \<and> (lf_link f \<noteq> [] \<or> lf_secret f \<noteq> []) then Some FileVarsOfLink
      else None)"

definition to_list_file :: "toml \<Rightarrow> (file_error, list_file) res" where
  "to_list_file value =
     (case value of
        TTab t \<Rightarrow>
          and_then (file_fields t empty_list_file) (\<lambda>f.
            case check_file f of
              Some e \<Rightarrow> Inl e
            | None \<Rightarrow>
                (case parse_list_when (get_key t ''when'') of
                   Inl e \<Rightarrow> Inl (FileWhen e) | Inr w \<Rightarrow> Inr (f\<lparr>lf_when := w\<rparr>)))
      | _ \<Rightarrow> Inl FileNotTable)"

definition also_targets :: "toml \<Rightarrow> (file_error, string list) res" where
  "also_targets value =
     (case get_key (as_table (Some value)) ''also'' of
        None \<Rightarrow> Inr []
      | Some (TArr items) \<Rightarrow>
          if items = [] then Inl FileAlso
          else map_res (\<lambda>item. case item of TStr s \<Rightarrow> Inr s | _ \<Rightarrow> Inl FileAlso) items
      | Some _ \<Rightarrow> Inl FileAlso)"

text \<open>The targets of one key: \<open>placed\<close> maps each target so far to its key.\<close>

fun place_targets ::
  "string \<Rightarrow> list_file \<Rightarrow> string list \<Rightarrow> (string \<rightharpoonup> string) \<times> list_file list
     \<Rightarrow> (list_error, (string \<rightharpoonup> string) \<times> list_file list) res" where
  "place_targets key f [] st = Inr st"
| "place_targets key f (target # rest) (placed, fs) =
     (case placed target of
        Some by \<Rightarrow> Inl (if by = key then TargetTwice key target else TargetTaken key target by)
      | None \<Rightarrow> place_targets key f rest (placed(target \<mapsto> key), fs @ [f\<lparr>lf_target := target\<rparr>]))"

fun read_files ::
  "table \<Rightarrow> string list \<Rightarrow> (string \<rightharpoonup> string) \<times> list_file list
     \<Rightarrow> (list_error, (string \<rightharpoonup> string) \<times> list_file list) res" where
  "read_files t [] st = Inr st"
| "read_files t (key # rest) st =
     (let value = (case get_key t key of Some v \<Rightarrow> v | None \<Rightarrow> TStr [])
      in case to_list_file value of
           Inl e \<Rightarrow> Inl (BadFile key e)
         | Inr f \<Rightarrow>
             (case also_targets value of
                Inl e \<Rightarrow> Inl (BadFile key e)
              | Inr also \<Rightarrow> and_then (place_targets key f (key # also) st) (read_files t rest)))"

definition list_files :: "table \<Rightarrow> (list_error, list_file list) res" where
  "list_files t =
     and_then (read_files t (sort_func str_cmp (keys t)) (\<lambda>_. None, [])) (\<lambda>(_, fs).
       Inr (sort_func (by_name lf_target) fs))"

subsection \<open>Packages\<close>

definition entry_keys :: "string \<rightharpoonup> string" where
  "entry_keys = map_of [(''ref'', ''string''), (''version'', ''string''), (''service'', ''bool''), (''system'', ''bool''),
     (''asset'', ''string''), (''from_source'', ''bool''), (''run_as'', ''string''), (''min_release_age'', []),
     (''signing_key'', ''string''), (''signer_workflow'', ''string''), (''bin'', []), (''when'', [])]"

text \<open>What \<open>%T\<close> prints for the values that matter here.\<close>

definition type_name :: "toml \<Rightarrow> string" where
  "type_name v = (case v of TStr _ \<Rightarrow> ''string'' | TBool _ \<Rightarrow> ''bool'' | _ \<Rightarrow> ''other'')"

definition check_key :: "table \<Rightarrow> string \<Rightarrow> entry_error option" where
  "check_key t key =
     (case entry_keys key of
        None \<Rightarrow> Some (EntryUnknownKey key)
      | Some want \<Rightarrow>
          if want \<noteq> [] \<and> map_option type_name (get_key t key) \<noteq> Some want then Some (EntryWrongType key want) else None)"

definition signer_workflow_re :: rx where
  "signer_workflow_re = Concat
     ([Plus (Class (alnum_or ''-'')), Text (CHR ''/''), Plus (Class (alnum_or ''._-''))]
      @ map Text ''/.github/workflows/''
      @ [Plus (Class (\<lambda>c. c \<noteq> CHR ''/'' \<and> c \<noteq> CHR ''@'')), Text (CHR ''.''), Text (CHR ''y''), Opt (Text (CHR ''a'')),
         Text (CHR ''m''), Text (CHR ''l'')])"

definition check_signer_workflow :: "string \<Rightarrow> bool" where
  "check_signer_workflow w = rx_match signer_workflow_re w"

definition entry_age :: "table \<Rightarrow> (entry_error, string) res" where
  "entry_age t =
     (case get_key t ''min_release_age'' of
        None \<Rightarrow> Inr []
      | Some (TStr age) \<Rightarrow>
          if age = [] then Inr []
          else (case parse_age age of Inl e \<Rightarrow> Inl (EntryBadAge e) | Inr _ \<Rightarrow> Inr age)
      | Some _ \<Rightarrow> Inl EntryAgeNotString)"

definition entry_bins :: "table \<Rightarrow> (entry_error, string list) res" where
  "entry_bins t =
     (case get_key t ''bin'' of
        None \<Rightarrow> Inr []
      | Some (TArr bins) \<Rightarrow> map_res (\<lambda>b. case b of TStr s \<Rightarrow> Inr s | _ \<Rightarrow> Inl EntryBinNotArray) bins
      | Some _ \<Rightarrow> Inl EntryBinNotArray)"

definition entry_table :: "(string \<Rightarrow> bool) \<Rightarrow> table \<Rightarrow> (entry_error, list_entry) res" where
  "entry_table good_key t =
     (let str = (\<lambda>k. as_string (get_key t k)); flag = (\<lambda>k. as_bool (get_key t k))
      in case List.map_filter (check_key t) (sort_func str_cmp (keys t)) of
           e # _ \<Rightarrow> Inl e
         | [] \<Rightarrow>
             if str ''ref'' = [] then Inl EntryNoRef
             else if str ''run_as'' \<noteq> [] \<and> str ''run_as'' \<noteq> ''root'' then Inl (EntryRunAs (str ''run_as''))
             else and_then (entry_age t) (\<lambda>age.
                    if str ''signing_key'' \<noteq> [] \<and> \<not> good_key (str ''signing_key'') then Inl EntryBadKey
                    else if str ''signer_workflow'' \<noteq> [] \<and> \<not> check_signer_workflow (str ''signer_workflow'')
                    then Inl (EntryBadWorkflow (str ''signer_workflow''))
                    else and_then (entry_bins t) (\<lambda>bins.
                           case parse_list_when (get_key t ''when'') of
                             Inl e \<Rightarrow> Inl (EntryWhen e)
                           | Inr w \<Rightarrow> Inr \<lparr>le_ref = str ''ref'', le_version = str ''version'', le_when = w,
                               le_service = flag ''service'', le_system = flag ''system'', le_run_as = str ''run_as'',
                               le_asset = str ''asset'', le_bins = bins, le_from_source = flag ''from_source'',
                               le_min_age = age, le_signing_key = str ''signing_key'',
                               le_signer_workflow = str ''signer_workflow''\<rparr>)))"

definition to_entry :: "(string \<Rightarrow> bool) \<Rightarrow> toml \<Rightarrow> (entry_error, list_entry) res" where
  "to_entry good_key value =
     (case value of
        TStr s \<Rightarrow> Inr (empty_entry\<lparr>le_ref := s\<rparr>)
      | TTab t \<Rightarrow> entry_table good_key t
      | _ \<Rightarrow> Inl EntryNotTable)"

subsection \<open>The whole list\<close>

text \<open>The tables of a decoded list. A missing one is empty.\<close>

record raw_list =
  raw_include :: "toml list"
  raw_packages :: table
  raw_files :: table
  raw_vars :: table
  raw_secrets :: table
  raw_defaults :: table
  raw_this_mac :: table
  raw_registry :: table
  raw_dconf :: table
  raw_lock :: table
  raw_runtimes :: table
  raw_env :: table
  raw_host :: table

definition setting_key :: "list_setting \<Rightarrow> string" where
  "setting_key x = lt_backend x @ [CHR 0x00] @ lt_domain x @ [CHR 0x00] @ lt_key x"

definition named :: "(string \<Rightarrow> toml \<Rightarrow> ('e, 'a) res) \<Rightarrow> string \<times> toml \<Rightarrow> ('e, string \<times> 'a) res" where
  "named f kv = and_then (f (fst kv) (snd kv)) (\<lambda>a. Inr (fst kv, a))"

definition lift_error :: "('e \<Rightarrow> 'f) \<Rightarrow> ('e, 'a) res \<Rightarrow> ('f, 'a) res" where
  "lift_error f r = map_sum f id r"

definition list_settings :: "raw_list \<Rightarrow> (list_error, list_setting list) res" where
  "list_settings raw =
     and_then (map_res (\<lambda>(backend, domains). to_settings backend domains)
       [(''defaults'', raw_defaults raw),
        (''defaults'', map (\<lambda>(d, v). (current_host @ d, v)) (raw_this_mac raw)),
        (''registry'', raw_registry raw), (''dconf'', raw_dconf raw)])
       (\<lambda>found. Inr (sort_func (by_name setting_key) (concat found)))"

text \<open>\<open>Parse\<close>, behind the decoder.\<close>

definition parse_list :: "(string \<Rightarrow> bool) \<Rightarrow> raw_list \<Rightarrow> (list_error, oku_list) res" where
  "parse_list good_key raw =
     and_then (map_res parse_include (raw_include raw)) (\<lambda>incs.
     and_then (map_res (named (\<lambda>n v. lift_error (BadRuntime n) (parse_dep v))) (raw_runtimes raw)) (\<lambda>runtimes.
     and_then (flatten_vars [] (raw_vars raw) (\<lambda>_. None)) (\<lambda>vars.
     and_then (lift_error BadEnv (to_env (raw_env raw) [] [])) (\<lambda>(env, env_files).
     and_then (read_lock (raw_lock raw)) (\<lambda>lock.
     and_then (map_res (named read_secret) (raw_secrets raw)) (\<lambda>secrets.
     and_then (map_res (named (\<lambda>n v. lift_error BadHost (parse_host parse_list_when n v))) (raw_host raw)) (\<lambda>hosts.
     and_then (map_res (named (\<lambda>n v. lift_error (BadPackage n) (to_entry good_key v))) (raw_packages raw)) (\<lambda>pkgs.
     and_then (list_settings raw) (\<lambda>settings.
     and_then (list_files (raw_files raw)) (\<lambda>fs.
       Inr \<lparr>ol_include = incs, ol_packages = pkgs, ol_files = fs, ol_settings = settings, ol_secrets = secrets,
             ol_vars = vars, ol_lock = lock, ol_env = env, ol_env_files = env_files, ol_runtimes = runtimes,
             ol_host = hosts\<rparr>))))))))))"

text \<open>\<open>ReadOverlay\<close>: the keys of the decoded file, and the list that \<open>Parse\<close> makes of it.\<close>

definition read_overlay :: "(string \<Rightarrow> bool) \<Rightarrow> string list \<Rightarrow> raw_list \<Rightarrow> (list_error, oku_list) res" where
  "read_overlay good_key top_keys raw =
     (case find (\<lambda>key. key \<noteq> ''env'') top_keys of
        Some key \<Rightarrow> Inl (OverlayHolds key) | None \<Rightarrow> parse_list good_key raw)"

end
