(* ===== verification/Oku_List_Props.thy ===== *)
theory Oku_List_Props
  imports Oku_List
begin

text \<open>
  What reading \<open>oku.toml\<close> promises: an age is exact and fits a \<open>time.Duration\<close>, and a list that is accepted is
  well formed.
\<close>

subsection \<open>Ages\<close>

lemma age_unit_cases: "age_unit u = Some unit \<longleftrightarrow>
    (u = ''h'' \<and> unit = hour) \<or> (u = ''d'' \<and> unit = 24 * hour) \<or> (u = ''w'' \<and> unit = 168 * hour)"
  by (auto simp: age_unit_def)

lemma age_unit_pos: "age_unit u = Some unit \<Longrightarrow> 0 < unit \<and> unit mod hour = 0 \<and> length u = 1"
  by (auto simp: age_unit_cases hour_def)

lemma age_most: "0 < unit \<Longrightarrow> (n > go_quot max_int unit) = (n * unit > max_int)"
proof -
  assume u: "0 < unit"
  have "go_quot max_int unit = max_int div unit" using u by (simp add: go_quot_nonneg max_int_def)
  moreover have "n \<le> max_int div unit \<longleftrightarrow> n * unit \<le> max_int"
  proof
    assume "n \<le> max_int div unit"
    then have "n * unit \<le> max_int div unit * unit" using u by (intro mult_right_mono) auto
    also have "\<dots> \<le> max_int" using div_mult_mod_eq[of max_int unit] pos_mod_sign[OF u, of max_int] by linarith
    finally show "n * unit \<le> max_int" .
  next
    assume "n * unit \<le> max_int"
    from zdiv_mono1[OF this u] u show "n \<le> max_int div unit" by simp
  qed
  ultimately show ?thesis by linarith
qed

text \<open>
  C38. An age is exact. A number from 1 and a unit of hours, days or weeks is that many nanoseconds when they
  fit the 64 bits of a \<open>time.Duration\<close>, and an error when they do not: nothing wraps around.
\<close>

theorem age_exact:
  assumes "age_unit u = Some unit" "1 \<le> n" "int n \<le> max_int"
  shows "parse_age (show_nat n @ u) =
    (if int n * unit \<le> max_int then Inr (int n * unit) else Inl (AgeTooLong (max_int div unit) (show_nat n @ u)))"
proof -
  have u: "0 < unit" "length u = 1" using age_unit_pos[OF assms(1)] by auto
  have split: "take (length (show_nat n @ u) - 1) (show_nat n @ u) = show_nat n"
    "drop (length (show_nat n @ u) - 1) (show_nat n @ u) = u" using u(2) by simp_all
  have zero: "show_nat n @ u \<noteq> ''0''"
    using u(2) by (cases "show_nat n") auto
  have most: "go_quot max_int unit = max_int div unit" using u by (simp add: go_quot_nonneg max_int_def)
  have fits: "in_int (int n * unit)" if "int n * unit \<le> max_int"
  proof -
    have "0 \<le> int n * unit" using u(1) by simp
    with that show ?thesis unfolding in_int_def min_int_def by simp
  qed
  show ?thesis
    using assms(2) age_most[OF u(1), of "int n"] fits
    unfolding parse_age_def Let_def split if_not_P[OF zero] atoi_show_nat[OF assms(3)] assms(1)
    by (simp add: most)
qed

theorem age_exact_witness:
  "parse_age (show_nat 2 @ ''w'') = Inr (2 * (168 * hour)) \<and> parse_age ''15251w'' = Inl (AgeTooLong 15250 ''15251w'')"
proof
  have "age_unit ''w'' = Some (168 * hour)" "(1::nat) \<le> 2" "int 2 \<le> max_int" by (simp_all add: age_unit_def max_int_def)
  from age_exact[OF this] show "parse_age (show_nat 2 @ ''w'') = Inr (2 * (168 * hour))"
    by (simp add: max_int_def hour_def)
  show "parse_age ''15251w'' = Inl (AgeTooLong 15250 ''15251w'')" by code_simp
qed

lemma parse_age_range: "parse_age txt = Inr ns \<Longrightarrow> 0 \<le> ns \<and> ns \<le> max_int"
proof -
  assume a: "parse_age txt = Inr ns"
  show ?thesis
  proof (cases "txt = ''0''")
    case True
    with a show ?thesis by (simp add: parse_age_def max_int_def)
  next
    case False
    with a obtain n unit where u: "age_unit (drop (length txt - 1) txt) = Some unit"
      and n: "\<not> n < 1" "\<not> n > go_quot max_int unit" and ns: "ns = wrap (n * unit)"
      unfolding parse_age_def Let_def if_not_P[OF False]
      by (cases "atoi (take (length txt - 1) txt)"; cases "age_unit (drop (length txt - 1) txt)")
        (simp_all split: if_splits)
    have "0 < unit" using age_unit_pos[OF u] by simp
    then have "0 \<le> n * unit" "n * unit \<le> max_int" using n age_most by (auto simp: not_less)
    then show ?thesis unfolding ns by (simp add: in_int_def min_int_def)
  qed
qed

subsection \<open>A well-formed list\<close>

definition age_ok :: "string \<Rightarrow> bool" where
  "age_ok age \<longleftrightarrow> age = [] \<or> (\<exists>ns. parse_age age = Inr ns \<and> 0 \<le> ns \<and> ns \<le> max_int)"

definition entry_ok :: "(string \<Rightarrow> bool) \<Rightarrow> list_entry \<Rightarrow> bool" where
  "entry_ok good_key e \<longleftrightarrow>
     le_run_as e \<in> {[], ''root''} \<and> age_ok (le_min_age e) \<and> (le_signing_key e = [] \<or> good_key (le_signing_key e))
     \<and> (le_signer_workflow e = [] \<or> check_signer_workflow (le_signer_workflow e))
     \<and> (le_ref e = [] \<longrightarrow> e = empty_entry)"

definition file_ok :: "list_file \<Rightarrow> bool" where
  "file_ok f \<longleftrightarrow> file_kinds f = 1 \<and> lf_mode f \<le> 511 \<and> (lf_key f \<noteq> [] \<longrightarrow> lf_secret f \<noteq> [])
     \<and> (lf_link f \<noteq> [] \<longrightarrow> lf_mode f = 0 \<and> lf_vars f = None) \<and> (lf_secret f \<noteq> [] \<longrightarrow> lf_vars f = None)"

definition setting_ok :: "list_setting \<Rightarrow> bool" where
  "setting_ok x \<longleftrightarrow> lt_backend x \<in> {''defaults'', ''registry'', ''dconf''} \<and> check_domain (lt_backend x) (lt_domain x) = None"

definition lock_keys_ok :: "lock_keys \<Rightarrow> bool" where
  "lock_keys_ok k \<longleftrightarrow> age_ok (lk_min_age k) \<and> lk_unknown_age k \<in> set ([] # unknown_choices)
     \<and> lk_unverified k \<in> set ([] # unknown_choices)"

definition list_ok :: "(string \<Rightarrow> bool) \<Rightarrow> oku_list \<Rightarrow> bool" where
  "list_ok good_key l \<longleftrightarrow>
     list_all (\<lambda>(n, e). entry_ok good_key e) (ol_packages l)
     \<and> list_all file_ok (ol_files l) \<and> distinct (map lf_target (ol_files l))
     \<and> sorted_wrt (\<lambda>f g. str_cmp (lf_target f) (lf_target g) \<le> 0) (ol_files l)
     \<and> list_all setting_ok (ol_settings l)
     \<and> sorted_wrt (\<lambda>x y. str_cmp (setting_key x) (setting_key y) \<le> 0) (ol_settings l)
     \<and> list_all (\<lambda>(n, s). ls_file s \<noteq> []) (ol_secrets l)
     \<and> list_all (\<lambda>(n, d). dp_ref d \<noteq> []) (ol_runtimes l)
     \<and> list_all (\<lambda>(n, r). rq_name r = n \<and> (rq_command r \<noteq> [] \<or> rq_path r \<noteq> [] \<or> rq_packages r \<noteq> [])) (ol_host l)
     \<and> lock_keys_ok (ol_lock l)"

lemma age_okI: "parse_age age = Inr ns \<Longrightarrow> age_ok age"
  using parse_age_range by (auto simp: age_ok_def)

lemma entry_age_ok: "entry_age t = Inr age \<Longrightarrow> age_ok age"
  by (auto simp: entry_age_def age_ok_def parse_age_range split: option.splits toml.splits if_splits sum.splits)

lemma lock_age_ok: "lock_age t = Inr age \<Longrightarrow> age_ok age"
  by (auto simp: lock_age_def age_ok_def parse_age_range split: option.splits toml.splits if_splits sum.splits)

lemma entry_table_ok:
  assumes "entry_table good_key t = Inr e"
  shows "entry_ok good_key e"
proof -
  let ?str = "\<lambda>k. as_string (get_key t k)"
  from assms have guards: "?str ''ref'' \<noteq> []" "?str ''run_as'' = [] \<or> ?str ''run_as'' = ''root''"
    and e: "\<exists>age. entry_age t = Inr age \<and> \<not> (?str ''signing_key'' \<noteq> [] \<and> \<not> good_key (?str ''signing_key''))
      \<and> \<not> (?str ''signer_workflow'' \<noteq> [] \<and> \<not> check_signer_workflow (?str ''signer_workflow''))
      \<and> le_ref e = ?str ''ref'' \<and> le_run_as e = ?str ''run_as'' \<and> le_min_age e = age
      \<and> le_signing_key e = ?str ''signing_key'' \<and> le_signer_workflow e = ?str ''signer_workflow''"
    unfolding entry_table_def Let_def
    by (cases "parse_list_when (get_key t ''when'')"; auto simp: and_then_Inr split: list.splits if_splits)+
  then show ?thesis unfolding entry_ok_def using entry_age_ok by auto
qed

lemma to_entry_ok: "to_entry good_key v = Inr e \<Longrightarrow> entry_ok good_key e"
proof (cases v)
  case (TTab t)
  assume "to_entry good_key v = Inr e"
  with TTab have "entry_table good_key t = Inr e" by (simp add: to_entry_def)
  then show ?thesis
    by (rule entry_table_ok)
qed (auto simp: to_entry_def entry_ok_def empty_entry_def age_ok_def)

lemma read_lock_ok: "read_lock t = Inr k \<Longrightarrow> lock_keys_ok k"
  by (auto simp: read_lock_def lock_keys_ok_def and_then_Inr lock_age_ok as_string_def
      split: option.splits if_splits)


lemma file_fields_mode: "file_fields kvs f = Inr g \<Longrightarrow> lf_mode f \<le> 511 \<Longrightarrow> lf_mode g \<le> 511"
proof (induction kvs f rule: file_fields.induct)
  case (2 key v rest f)
  show ?case
  proof (cases "key = ''mode''")
    case True
    with 2 show ?thesis
      by (auto simp: parse_mode_def split: option.splits toml.splits if_splits)
  next
    case False
    then show ?thesis using 2
      by (auto simp: and_then_Inr text_field_def split: option.splits toml.splits if_splits)
  qed
qed simp

lemma to_list_file_ok: "to_list_file v = Inr f \<Longrightarrow> file_ok f"
proof -
  assume "to_list_file v = Inr f"
  then obtain t g where t: "file_fields t empty_list_file = Inr g" and c: "check_file g = None"
    and f: "\<exists>w. f = g\<lparr>lf_when := w\<rparr>"
    by (auto simp: to_list_file_def and_then_Inr split: toml.splits option.splits sum.splits)
  have "lf_mode g \<le> 511" using file_fields_mode[OF t] by (simp add: empty_list_file_def)
  with c f show ?thesis
    by (auto simp: check_file_def file_ok_def file_kinds_def split: if_splits)
qed

text \<open>Placing targets: every file is one that was read, and no target comes twice.\<close>

definition placed_ok :: "(string \<rightharpoonup> string) \<times> list_file list \<Rightarrow> bool" where
  "placed_ok st \<longleftrightarrow> list_all file_ok (snd st) \<and> distinct (map lf_target (snd st)) \<and> dom (fst st) = lf_target ` set (snd st)"

lemma file_ok_target [simp]: "file_ok (f\<lparr>lf_target := t\<rparr>) = file_ok f"
  by (simp add: file_ok_def file_kinds_def)

lemma place_targets_ok:
  "place_targets key f ts st = Inr st' \<Longrightarrow> file_ok f \<Longrightarrow> placed_ok st \<Longrightarrow> placed_ok st'"
proof (induction key f ts st rule: place_targets.induct)
  case (2 key f target rest placed fs)
  then have none: "placed target = None" by (auto split: option.splits)
  then have "target \<notin> lf_target ` set fs" using 2(4) by (auto simp: placed_ok_def domIff)
  then have "placed_ok (placed(target \<mapsto> key), fs @ [f\<lparr>lf_target := target\<rparr>])"
    using 2(3,4) by (auto simp: placed_ok_def)
  with 2 none show ?case by simp
qed simp

lemma read_files_ok: "read_files t ks st = Inr st' \<Longrightarrow> placed_ok st \<Longrightarrow> placed_ok st'"
proof (induction t ks st rule: read_files.induct)
  case (2 t key rest st)
  define v where "v = (case get_key t key of Some v \<Rightarrow> v | None \<Rightarrow> TStr [])"
  from 2(2) obtain f targets st2 where f: "to_list_file v = Inr f" and a: "also_targets v = Inr targets"
    and p: "place_targets key f (key # targets) st = Inr st2" and r: "read_files t rest st2 = Inr st'"
    unfolding read_files.simps Let_def v_def[symmetric]
    by (cases "to_list_file v"; cases "also_targets v") (auto simp: and_then_Inr)
  have "placed_ok st2" using place_targets_ok[OF p to_list_file_ok[OF f] 2(3)] .
  then show ?case using 2(1)[OF v_def f a r] by simp
qed simp

lemma by_name_sorted: "sorted_wrt (\<lambda>x y. str_cmp (f x) (f y) \<le> 0) (sort_func (by_name f) xs)"
  using go_order.sort_func_sorted[OF by_name_order, of xs f] by (simp add: by_name_def)

lemma list_files_ok:
  assumes "list_files t = Inr fs"
  shows "list_all file_ok fs" "distinct (map lf_target fs)"
    "sorted_wrt (\<lambda>f g. str_cmp (lf_target f) (lf_target g) \<le> 0) fs"
proof -
  from assms obtain placed gs where r: "read_files t (sort_func str_cmp (keys t)) (\<lambda>_. None, []) = Inr (placed, gs)"
    and fs: "fs = sort_func (by_name lf_target) gs" by (auto simp: list_files_def and_then_Inr)
  have "placed_ok (placed, gs)" using read_files_ok[OF r] by (simp add: placed_ok_def)
  then have ok: "list_all file_ok gs" "distinct (map lf_target gs)" by (simp_all add: placed_ok_def)
  show "list_all file_ok fs" using ok(1) by (simp add: fs list_all_iff)
  have "mset (map lf_target fs) = mset (map lf_target gs)" by (simp add: fs)
  then show "distinct (map lf_target fs)" using ok(2) by (metis mset_eq_imp_distinct_iff)
  show "sorted_wrt (\<lambda>f g. str_cmp (lf_target f) (lf_target g) \<le> 0) fs" unfolding fs by (rule by_name_sorted)
qed

lemma to_settings_ok:
  "to_settings backend t = Inr xs \<Longrightarrow> list_all (\<lambda>x. lt_backend x = backend \<and> check_domain backend (lt_domain x) = None) xs"
proof (induction backend t arbitrary: xs rule: to_settings.induct)
  case (2 backend domain w rest)
  from 2(2) obtain ks ys where "w = TTab ks" "check_domain backend domain = None" "to_settings backend rest = Inr ys"
    "xs = map (\<lambda>(k, v). \<lparr>lt_backend = backend, lt_domain = domain, lt_key = k, lt_value = v\<rparr>) ks @ ys"
    by (auto simp: and_then_Inr split: toml.splits option.splits)
  with 2(1)[of ks ys] show ?case by (auto simp: list_all_iff)
qed simp

lemma list_settings_ok:
  assumes "list_settings raw = Inr xs"
  shows "list_all setting_ok xs" "sorted_wrt (\<lambda>x y. str_cmp (setting_key x) (setting_key y) \<le> 0) xs"
proof -
  from assms obtain found where f: "map_res (\<lambda>(backend, domains). to_settings backend domains)
       [(''defaults'', raw_defaults raw),
        (''defaults'', map (\<lambda>(d, v). (current_host @ d, v)) (raw_this_mac raw)),
        (''registry'', raw_registry raw), (''dconf'', raw_dconf raw)] = Inr found"
    and xs: "xs = sort_func (by_name setting_key) (concat found)"
    unfolding list_settings_def and_then_Inr by auto
  show "sorted_wrt (\<lambda>x y. str_cmp (setting_key x) (setting_key y) \<le> 0) xs" unfolding xs by (rule by_name_sorted)
  from f have "list_all (list_all setting_ok) found"
    unfolding map_res_Inr
    by (auto simp: list_all2_Cons1 list_all_iff setting_ok_def dest!: to_settings_ok)
  then show "list_all setting_ok xs" by (simp add: xs list_all_iff)
qed

lemma host_fields_name: "host_fields parse n kvs r = Inr q \<Longrightarrow> rq_name q = rq_name r"
  by (induction n kvs r rule: host_fields.induct) (auto split: if_splits sum.splits toml.splits)

lemma parse_host_ok:
  "parse_host parse n v = Inr r \<Longrightarrow> rq_name r = n \<and> (rq_command r \<noteq> [] \<or> rq_path r \<noteq> [] \<or> rq_packages r \<noteq> [])"
  by (auto simp: parse_host_def and_then_Inr empty_requirement_def dest: host_fields_name split: toml.splits if_splits)

lemma named_all:
  assumes "map_res (named f) kvs = Inr ys" "\<And>n v a. f n v = Inr a \<Longrightarrow> P n a"
  shows "list_all (\<lambda>(n, a). P n a) ys"
proof -
  have "list_all2 (\<lambda>x y. named f x = Inr y) kvs ys" using assms(1) by (simp add: map_res_Inr)
  then show ?thesis
    by (induction rule: list_all2_induct) (auto simp: named_def and_then_Inr intro: assms(2))
qed

lemma lift_error_Inr [simp]: "lift_error f r = Inr a \<longleftrightarrow> r = Inr a"
  by (cases r) (simp_all add: lift_error_def)

text \<open>
  C18. A list that \<open>Parse\<close> accepts is well formed. Every package has a ref when it is a table, an age that
  reads and fits, an owner that is empty or root, and a key and a workflow that pass their checks. Every file has one
  kind, a mode of at most 0777 that no link has, and its own target, in order. No setting of macOS is a path and
  no setting of the registry leaves the user's hive. Secrets name a file, runtimes name a ref, and every host
  entry has something to check.
\<close>

theorem accepted_list_well_formed:
  assumes "parse_list good_key raw = Inr l"
  shows "list_ok good_key l"
proof -
  from assms obtain runtimes lock secrets hosts pkgs settings fs where
    r: "map_res (named (\<lambda>n v. lift_error (BadRuntime n) (parse_dep v))) (raw_runtimes raw) = Inr runtimes"
    and k: "read_lock (raw_lock raw) = Inr lock"
    and s: "map_res (named read_secret) (raw_secrets raw) = Inr secrets"
    and h: "map_res (named (\<lambda>n v. lift_error BadHost (parse_host parse_list_when n v))) (raw_host raw) = Inr hosts"
    and p: "map_res (named (\<lambda>n v. lift_error (BadPackage n) (to_entry good_key v))) (raw_packages raw) = Inr pkgs"
    and st: "list_settings raw = Inr settings" and f: "list_files (raw_files raw) = Inr fs"
    and l: "ol_packages l = pkgs" "ol_files l = fs" "ol_settings l = settings" "ol_secrets l = secrets"
      "ol_lock l = lock" "ol_runtimes l = runtimes" "ol_host l = hosts"
    unfolding parse_list_def by (auto simp: and_then_Inr)
  have "list_all (\<lambda>(n, e). entry_ok good_key e) pkgs" by (rule named_all[OF p]) (auto intro: to_entry_ok)
  moreover have "list_all (\<lambda>(n, x). ls_file x \<noteq> []) secrets"
    by (rule named_all[OF s]) (auto simp: read_secret_def Let_def split: if_splits)
  moreover have "list_all (\<lambda>(n, d). dp_ref d \<noteq> []) runtimes"
    by (rule named_all[OF r]) (auto simp: parse_dep_def and_then_Inr split: if_splits)
  moreover have "list_all (\<lambda>(n, x). rq_name x = n \<and> (rq_command x \<noteq> [] \<or> rq_path x \<noteq> [] \<or> rq_packages x \<noteq> [])) hosts"
    by (rule named_all[OF h]) (use parse_host_ok in auto)
  ultimately show ?thesis
    using list_files_ok[OF f] list_settings_ok[OF st] read_lock_ok[OF k] by (simp add: list_ok_def l)
qed


definition sample_raw :: raw_list where
  "sample_raw = \<lparr>raw_include = [TStr ''gh:me/list''],
     raw_packages = [(''fd'', TTab [(''ref'', TStr ''gh:sharkdp/fd''), (''min_release_age'', TStr ''3d''), (''bin'', TArr [TStr ''fd''])]),
       (''rg'', TStr ''gh:BurntSushi/ripgrep'')],
     raw_files = [(''~/.zshrc'', TTab [(''text'', TStr ''alias l=ls''),
       (''also'', TArr [TStr ''~/.bashrc''])])],
     raw_vars = [], raw_secrets = [(''token'', TTab [(''file'', TStr ''t.age'')])],
     raw_defaults = [(''com.apple.dock'', TTab [(''autohide'', TBool True)])], raw_this_mac = [], raw_registry = [],
     raw_dconf = [], raw_lock = [(''unverified'', TStr ''refuse'')], raw_runtimes = [], raw_env = [],
     raw_host = [(''git'', TTab [(''command'', TStr ''git'')])]\<rparr>"

theorem accepted_list_well_formed_witness:
  "\<exists>l. parse_list (\<lambda>_. True) sample_raw = Inr l \<and> list_ok (\<lambda>_. True) l"
proof -
  have "is_ok (parse_list (\<lambda>_. True) sample_raw)" by code_simp
  then obtain l where l: "parse_list (\<lambda>_. True) sample_raw = Inr l" by (auto simp: is_ok_def split: sum.splits)
  from l accepted_list_well_formed[OF l] show ?thesis by blast
qed

subsection \<open>Variables\<close>

text \<open>
  \<open>flattenVars\<close> ranges over a Go map. A table \<open>[vars.a]\<close> with the key \<open>b\<close> and the key \<open>"a.b"\<close> write the
  same variable, and which one stays depends on the order of the map.
\<close>

theorem vars_depend_on_order:
  "(\<exists>m. flatten_vars [] [(''a.b'', TStr ''one''), (''a'', TTab [(''b'', TStr ''two'')])] (\<lambda>_. None) = Inr m \<and> m ''a.b'' = Some ''two'')
   \<and> (\<exists>m. flatten_vars [] [(''a'', TTab [(''b'', TStr ''two'')]), (''a.b'', TStr ''one'')] (\<lambda>_. None) = Inr m \<and> m ''a.b'' = Some ''one'')"
  by simp

end
