(* ===== verification/Oku_Edit.thy ===== *)
theory Oku_Edit
  imports Oku_List Keyed
begin

text \<open>
  Edits of the text of \<open>oku.toml\<close>, \<open>Set\<close> and \<open>Delete\<close> of \<open>internal/list/list.go\<close>: the line of an entry, and how
  the line goes into the \<open>[packages]\<close> section. Reading and writing the file is \<open>os\<close> and \<open>WriteFile\<close>, so an edit
  is a function on the text.
\<close>

subsection \<open>The line of an entry\<close>

definition format_key :: "string \<Rightarrow> string" where
  "format_key name = (if CHR ''.'' \<in> set name then quote name else name)"

definition quoted_field :: "string \<Rightarrow> string \<Rightarrow> string list" where
  "quoted_field key v = (if v \<noteq> [] then [key @ '' = '' @ quote v] else [])"

definition bare_entry :: "list_entry \<Rightarrow> bool" where
  "bare_entry e \<longleftrightarrow>
     le_version e = [] \<and> \<not> le_service e \<and> \<not> le_system e \<and> le_run_as e = [] \<and> le_when e = [] \<and> le_asset e = []
     \<and> le_bins e = [] \<and> \<not> le_from_source e \<and> le_min_age e = [] \<and> le_signing_key e = [] \<and> le_signer_workflow e = []"

definition entry_fields :: "list_entry \<Rightarrow> string list" where
  "entry_fields e =
     [''ref = '' @ quote (le_ref e)] @ quoted_field ''version'' (le_version e) @ quoted_field ''asset'' (le_asset e)
     @ (if le_bins e \<noteq> [] then [''bin = ['' @ join '', '' (map quote (le_bins e)) @ '']''] else [])
     @ (if le_from_source e then [''from_source = true''] else [])
     @ (if le_service e then [''service = true''] else [])
     @ (if le_system e then [''system = true''] else [])
     @ quoted_field ''run_as'' (le_run_as e)
     @ (if le_when e \<noteq> [] then [''when = '' @ when_toml (le_when e)] else [])
     @ quoted_field ''min_release_age'' (le_min_age e) @ quoted_field ''signing_key'' (le_signing_key e)
     @ quoted_field ''signer_workflow'' (le_signer_workflow e)"

definition entry_line :: "string \<Rightarrow> list_entry \<Rightarrow> string" where
  "entry_line name e =
     format_key name @ '' = ''
       @ (if bare_entry e then quote (le_ref e) else ''{ '' @ join '', '' (entry_fields e) @ '' }'')"

subsection \<open>The lines of a list\<close>

text \<open>The \<open>\\s\<close> of Go's regular expressions, and an expression that only looks at the start of a line.\<close>

definition rx_space :: rx where
  "rx_space = Star (Class (\<lambda>c. byte c \<in> {9, 10, 12, 13, 32}))"

definition at_start :: "rx list \<Rightarrow> rx" where
  "at_start rs = Concat (rx_space # rs @ [Star (Class (\<lambda>_. True))])"

definition header_re :: rx where
  "header_re = at_start [Text (CHR ''['')]"

definition packages_re :: rx where
  "packages_re = at_start ([Text (CHR ''[''), rx_space] @ map Text ''packages'' @ [rx_space, Text (CHR '']'')])"

definition sub_table_re :: "string \<Rightarrow> rx" where
  "sub_table_re name = at_start ([Text (CHR ''[''), rx_space] @ map Text ''packages''
     @ [rx_space, Text (CHR ''.''), rx_space, Opt (Text (CHR 0x22))] @ map Text name
     @ [Opt (Text (CHR 0x22)), rx_space, Text (CHR '']'')])"

definition key_line_re :: "string \<Rightarrow> rx" where
  "key_line_re name = at_start
     ([Opt (Text (CHR 0x22))] @ map Text name @ [Opt (Text (CHR 0x22)), rx_space, Text (CHR ''='')])"

text \<open>
  The loop over the lines: where the last \<open>[packages]\<close> is, where its section ends, and where the key is. As
  in the source, \<open>end\<close> is the number of lines until a header ends the section.
\<close>

fun scan_lines ::
  "string \<Rightarrow> nat \<Rightarrow> string list \<Rightarrow> nat \<Rightarrow> nat option \<times> nat \<times> nat option \<Rightarrow> (nat option \<times> nat \<times> nat option) option" where
  "scan_lines name len [] i st = Some st"
| "scan_lines name len (l # ls) i (start, stop, found) =
     (if rx_match (sub_table_re name) l then None
      else scan_lines name len ls (Suc i)
        (if rx_match packages_re l then (Some i, stop, found)
         else if start \<noteq> None \<and> stop = len \<and> rx_match header_re l then (start, i, found)
         else if start \<noteq> None \<and> stop = len \<and> rx_match (key_line_re name) l then (start, stop, Some i)
         else (start, stop, found)))"

fun back_over_blank :: "string list \<Rightarrow> nat \<Rightarrow> nat \<Rightarrow> nat" where
  "back_over_blank ls start 0 = 0"
| "back_over_blank ls start (Suc at) =
     (if Suc at > start + 1 \<and> trim_space (ls ! at) = [] then back_over_blank ls start at else Suc at)"

datatype edit_error = SubTable string

text \<open>The lines after the edit, or \<open>None\<close> when nothing is written. An empty \<open>line\<close> deletes.\<close>

definition edit_lines :: "string \<Rightarrow> string \<Rightarrow> string list \<Rightarrow> (edit_error, string list option) res" where
  "edit_lines name line ls =
     (case scan_lines name (length ls) ls 0 (None, length ls, None) of
        None \<Rightarrow> Inl (SubTable name)
      | Some (start, stop, found) \<Rightarrow>
          (case found of
             Some at \<Rightarrow>
               if line = [] then Inr (Some (take at ls @ drop (Suc at) ls)) else Inr (Some (ls[at := line]))
           | None \<Rightarrow>
               if line = [] then Inr None
               else (case start of
                       None \<Rightarrow> Inr (Some ((if ls \<noteq> [] then ls @ [[]] else ls) @ [''[packages]'', line]))
                     | Some s \<Rightarrow>
                         (let at = back_over_blank ls s stop
                          in Inr (Some (take at ls @ [line] @ drop at ls))))))"

definition text_lines :: "string \<Rightarrow> string list" where
  "text_lines data = (if data = [] then [] else split_char (CHR 0x0A) (trim_right_of data [CHR 0x0A]))"

definition edit_text :: "string \<Rightarrow> string \<Rightarrow> string \<Rightarrow> (edit_error, string) res" where
  "edit_text name line data =
     and_then (edit_lines name line (text_lines data)) (\<lambda>out.
       Inr (case out of None \<Rightarrow> data | Some ls \<Rightarrow> join [CHR 0x0A] ls @ [CHR 0x0A]))"

definition set_entry :: "string \<Rightarrow> list_entry \<Rightarrow> string \<Rightarrow> (edit_error, string) res" where
  "set_entry name e data = edit_text name (entry_line name e) data"

definition delete_entry :: "string \<Rightarrow> string \<Rightarrow> (edit_error, string) res" where
  "delete_entry name data = edit_text name [] data"

end
