(* ===== verification/Oku_Edit_Laws.thy ===== *)
theory Oku_Edit_Laws
  imports Oku_Edit
begin

text \<open>
  What an edit does to the lines of a list: the section \<open>[packages]\<close> of a tidy list is a table from names to
  lines, and an edit is a write to the table or a removal from it.
\<close>

subsection \<open>The expressions\<close>

lemma describes_Star_Class: "describes (Star (Class P)) w \<longleftrightarrow> list_all P w"
proof
  have "describes r w \<Longrightarrow> r = Star (Class P) \<Longrightarrow> list_all P w" for r
    by (induction rule: describes.induct) auto
  then show "describes (Star (Class P)) w \<Longrightarrow> list_all P w" by blast
next
  show "list_all P w \<Longrightarrow> describes (Star (Class P)) w"
  proof (induction w)
    case (Cons c w)
    then show ?case using describes_StarS[of "Class P" "[c]" w] by simp
  qed (rule describes_Star0)
qed

lemma describes_Concat_Cons:
  "describes (Concat (r # rs)) w \<longleftrightarrow> (\<exists>u v. w = u @ v \<and> describes r u \<and> describes (Concat rs) v)"
  by (cases rs) auto

lemma describes_Concat_Text:
  "describes (Concat (map Text s @ rs)) w \<longleftrightarrow> (\<exists>v. w = s @ v \<and> describes (Concat rs) v)"
  by (induction s arbitrary: w) (auto simp: describes_Concat_Cons Text_def)

lemma describes_Opt_Text: "describes (Opt (Text c)) w \<longleftrightarrow> w = [] \<or> w = [c]"
  by (auto simp: Opt_def Text_def)

definition sp :: "char \<Rightarrow> bool" where
  "sp c \<longleftrightarrow> byte c \<in> {9, 10, 12, 13, 32}"

lemma describes_space: "describes rx_space w \<longleftrightarrow> list_all sp w"
proof -
  have "(\<lambda>c. byte c \<in> {9, 10, 12, 13, 32}) = sp" by (rule ext) (simp add: sp_def)
  then show ?thesis by (simp add: rx_space_def describes_Star_Class del: insert_iff)
qed

lemma describes_at_start:
  "describes (at_start rs) l \<longleftrightarrow> (\<exists>ws u t. l = ws @ u @ t \<and> list_all sp ws \<and> describes (Concat rs) u)"
proof -
  have app: "describes (Concat (rs @ [Star (Class (\<lambda>_. True))])) w \<longleftrightarrow> (\<exists>u t. w = u @ t \<and> describes (Concat rs) u)"
    for w
  proof (induction rs arbitrary: w)
    case Nil
    then show ?case by (simp add: describes_Star_Class list_all_iff)
  next
    case (Cons r rs)
    then show ?case by (simp add: describes_Concat_Cons) (metis append.assoc)
  qed
  show ?thesis by (auto simp: at_start_def describes_Concat_Cons describes_space app)
qed

abbreviation is_header :: "string \<Rightarrow> bool" where "is_header l \<equiv> rx_match header_re l"
abbreviation is_packages :: "string \<Rightarrow> bool" where "is_packages l \<equiv> rx_match packages_re l"
abbreviation is_key :: "string \<Rightarrow> string \<Rightarrow> bool" where "is_key n l \<equiv> rx_match (key_line_re n) l"
abbreviation is_sub :: "string \<Rightarrow> string \<Rightarrow> bool" where "is_sub n l \<equiv> rx_match (sub_table_re n) l"

lemma dropWhile_sp: "list_all P ws \<Longrightarrow> dropWhile P (ws @ l) = dropWhile P l"
  by (induction ws) auto

lemma is_header_ex: "is_header l \<longleftrightarrow> (\<exists>ws t. l = ws @ CHR ''['' # t \<and> list_all sp ws)"
proof
  assume "is_header l"
  then obtain ws u t where l: "l = ws @ u @ t" "list_all sp ws" and "describes (Concat [Text (CHR ''['')]) u"
    unfolding rx_match_iff header_re_def describes_at_start by blast
  then have "u = [CHR ''['']" by (simp add: Text_def)
  with l show "\<exists>ws t. l = ws @ CHR ''['' # t \<and> list_all sp ws" by (intro exI[of _ ws] exI[of _ t]) simp
next
  assume "\<exists>ws t. l = ws @ CHR ''['' # t \<and> list_all sp ws"
  then obtain ws t where "l = ws @ [CHR ''[''] @ t" "list_all sp ws" by auto
  moreover have "describes (Concat [Text (CHR ''['')]) [CHR ''['']" by (simp add: Text_def)
  ultimately show "is_header l" unfolding rx_match_iff header_re_def describes_at_start by blast
qed

lemma is_header_iff: "is_header l \<longleftrightarrow> (\<exists>t. dropWhile sp l = CHR ''['' # t)"
proof
  assume "is_header l"
  then show "\<exists>t. dropWhile sp l = CHR ''['' # t" by (auto simp: is_header_ex dropWhile_sp sp_def)
next
  assume "\<exists>t. dropWhile sp l = CHR ''['' # t"
  then obtain t where t: "dropWhile sp l = CHR ''['' # t" ..
  have "l = takeWhile sp l @ CHR ''['' # t" using takeWhile_dropWhile_id[of sp l] unfolding t by simp
  moreover have "list_all sp (takeWhile sp l)" unfolding list_all_iff by (auto dest: set_takeWhileD)
  ultimately show "is_header l" unfolding is_header_ex by blast
qed

lemma packages_header: "is_packages l \<Longrightarrow> is_header l"
  by (auto simp: rx_match_iff is_header_iff[unfolded rx_match_iff] packages_re_def describes_at_start
      describes_Concat_Cons Text_def dropWhile_sp sp_def)

lemma sub_header: "is_sub n l \<Longrightarrow> is_header l"
  by (auto simp: rx_match_iff is_header_iff[unfolded rx_match_iff] sub_table_re_def describes_at_start
      describes_Concat_Cons Text_def dropWhile_sp sp_def)

subsection \<open>Key lines\<close>

definition good_name :: "string \<Rightarrow> bool" where
  "good_name n \<longleftrightarrow> n \<noteq> [] \<and> list_all (lower_num_or ''._-'') n"

lemma name_char: "lower_num_or ''._-'' c \<Longrightarrow> \<not> sp c \<and> c \<noteq> CHR 0x22 \<and> c \<noteq> CHR ''['' \<and> c \<noteq> CHR ''='' \<and> c \<noteq> CHR 0x5C"
  by (auto simp: lower_num_or_def sp_def is_lower_def is_digit_def)

lemma describes_before_equals:
  "describes (Concat [Opt (Text (CHR 0x22)), rx_space, Text (CHR ''='')]) v \<longleftrightarrow>
     (\<exists>q w. v = q @ w @ [CHR ''=''] \<and> (q = [] \<or> q = [CHR 0x22]) \<and> list_all sp w)"
proof -
  have "describes (Concat [rx_space, Text (CHR ''='')]) v \<longleftrightarrow> (\<exists>w. v = w @ [CHR ''=''] \<and> list_all sp w)" for v
    by (auto simp: describes_space Text_def)
  then show ?thesis by (simp only: describes_Concat_Cons[of "Opt (Text (CHR 0x22))"] describes_Opt_Text) blast
qed

lemma is_key_iff:
  "is_key n l \<longleftrightarrow> (\<exists>ws q q' ws' t. l = ws @ q @ n @ q' @ ws' @ CHR ''='' # t \<and> list_all sp ws \<and> list_all sp ws'
     \<and> (q = [] \<or> q = [CHR 0x22]) \<and> (q' = [] \<or> q' = [CHR 0x22]))"
proof
  assume "is_key n l"
  then obtain ws u t where l: "l = ws @ u @ t" and ws: "list_all sp ws"
    and u: "describes (Concat ([Opt (Text (CHR 0x22))] @ map Text n @ [Opt (Text (CHR 0x22)), rx_space, Text (CHR ''='')])) u"
    unfolding rx_match_iff key_line_re_def describes_at_start by blast
  from u obtain q v where u: "u = q @ v" and q: "q = [] \<or> q = [CHR 0x22]"
    and v: "describes (Concat (map Text n @ [Opt (Text (CHR 0x22)), rx_space, Text (CHR ''='')])) v"
    using describes_Concat_Cons[of "Opt (Text (CHR 0x22))"] by (auto simp: describes_Opt_Text)
  from v obtain v' where v: "v = n @ v'"
    and v': "describes (Concat [Opt (Text (CHR 0x22)), rx_space, Text (CHR ''='')]) v'"
    unfolding describes_Concat_Text by blast
  from v' obtain q' ws' where "v' = q' @ ws' @ [CHR ''='']" "q' = [] \<or> q' = [CHR 0x22]" "list_all sp ws'"
    unfolding describes_before_equals by blast
  with l ws u q v show "\<exists>ws q q' ws' t. l = ws @ q @ n @ q' @ ws' @ CHR ''='' # t \<and> list_all sp ws
      \<and> list_all sp ws' \<and> (q = [] \<or> q = [CHR 0x22]) \<and> (q' = [] \<or> q' = [CHR 0x22])"
    by (intro exI[of _ ws] exI[of _ q] exI[of _ q'] exI[of _ ws'] exI[of _ t]) simp
next
  assume "\<exists>ws q q' ws' t. l = ws @ q @ n @ q' @ ws' @ CHR ''='' # t \<and> list_all sp ws \<and> list_all sp ws'
    \<and> (q = [] \<or> q = [CHR 0x22]) \<and> (q' = [] \<or> q' = [CHR 0x22])"
  then obtain ws q q' ws' t where l: "l = ws @ q @ n @ q' @ ws' @ CHR ''='' # t" and w: "list_all sp ws" "list_all sp ws'"
    and q: "q = [] \<or> q = [CHR 0x22]" "q' = [] \<or> q' = [CHR 0x22]" by blast
  have "describes (Concat [Opt (Text (CHR 0x22)), rx_space, Text (CHR ''='')]) (q' @ ws' @ [CHR ''=''])"
    using w q unfolding describes_before_equals by blast
  then have "describes (Concat (map Text n @ [Opt (Text (CHR 0x22)), rx_space, Text (CHR ''='')])) (n @ q' @ ws' @ [CHR ''=''])"
    unfolding describes_Concat_Text by blast
  then have "describes (Concat ([Opt (Text (CHR 0x22))] @ map Text n @ [Opt (Text (CHR 0x22)), rx_space, Text (CHR ''='')]))
      (q @ n @ q' @ ws' @ [CHR ''=''])"
    using q(1) describes_Concat_Cons[of "Opt (Text (CHR 0x22))"] unfolding describes_Opt_Text by (metis append_Cons append_Nil)
  with l w show "is_key n l"
    unfolding rx_match_iff key_line_re_def describes_at_start
    by (intro exI[of _ ws] exI[of _ "q @ n @ q' @ ws' @ [CHR ''='']"] exI[of _ t]) simp
qed

definition line_name :: "string \<Rightarrow> string" where
  "line_name l = takeWhile (lower_num_or ''._-'') (dropWhile (\<lambda>c. c = CHR 0x22) (dropWhile sp l))"

lemma is_key_name:
  assumes "is_key n l" "good_name n"
  shows "line_name l = n" "\<not> is_header l"
proof -
  obtain ws q q' ws' t where l: "l = ws @ q @ n @ q' @ ws' @ CHR ''='' # t" and w: "list_all sp ws" "list_all sp ws'"
    and q: "q = [] \<or> q = [CHR 0x22]" "q' = [] \<or> q' = [CHR 0x22]" using assms(1) unfolding is_key_iff by blast
  obtain c m where n: "n = c # m" and c: "lower_num_or ''._-'' c" and m: "list_all (lower_num_or ''._-'') n"
    using assms(2) by (cases n) (auto simp: good_name_def)
  have stop: "lower_num_or ''._-'' d = False" if "d = CHR 0x22 \<or> sp d \<or> d = CHR ''=''" for d
    using that by (auto dest: name_char)
  have "\<exists>d r. q' @ ws' @ CHR ''='' # t = d # r \<and> \<not> lower_num_or ''._-'' d"
  proof (cases q')
    case Nil
    then show ?thesis using stop w(2) by (cases ws') auto
  next
    case (Cons d r)
    then show ?thesis using stop q(2) by auto
  qed
  then obtain d r where rest: "q' @ ws' @ CHR ''='' # t = d # r" and d: "\<not> lower_num_or ''._-'' d" by blast
  have drop: "dropWhile sp l = q @ n @ d # r"
  proof -
    have "dropWhile sp l = dropWhile sp (q @ n @ d # r)" using w(1) by (simp add: l rest dropWhile_sp)
    also have "\<dots> = q @ n @ d # r" using q(1) name_char[OF c] n by (auto simp: sp_def)
    finally show ?thesis .
  qed
  then have "dropWhile (\<lambda>c. c = CHR 0x22) (dropWhile sp l) = n @ d # r"
    using q(1) name_char[OF c] n by auto
  moreover have "takeWhile (lower_num_or ''._-'') (n @ d # r) = n"
    using m d by (simp add: takeWhile_append list_all_iff)
  ultimately show "line_name l = n" by (simp add: line_name_def)
  show "\<not> is_header l" using q(1) name_char[OF c] n by (auto simp: is_header_iff drop)
qed

text \<open>The name that a line defines, if it is a key line of a good name.\<close>

definition key_of :: "string \<Rightarrow> string option" where
  "key_of l = (if good_name (line_name l) \<and> is_key (line_name l) l then Some (line_name l) else None)"

lemma key_of_iff: "key_of l = Some n \<longleftrightarrow> good_name n \<and> is_key n l"
proof
  assume "key_of l = Some n"
  then show "good_name n \<and> is_key n l" by (simp add: key_of_def split: if_splits)
next
  assume "good_name n \<and> is_key n l"
  moreover from this have "line_name l = n" by (simp add: is_key_name(1))
  ultimately show "key_of l = Some n" by (simp add: key_of_def)
qed

lemma key_not_header: "key_of l = Some n \<Longrightarrow> \<not> is_header l"
  using is_key_name(2) key_of_iff by blast

subsection \<open>The line of an entry is a key line\<close>

lemma quote_name:
  assumes "list_all (lower_num_or ''._-'') n"
  shows "quote n = CHR 0x22 # n @ [CHR 0x22]"
proof -
  have "concat (map quote_char n) = n" using assms
  proof (induction n)
    case (Cons c n)
    from Cons.prems have c: "lower_num_or ''._-'' c" by simp
    then have b: "byte c \<noteq> 34" "byte c \<noteq> 92" "\<not> byte c < 32" "byte c \<noteq> 127"
      by (auto simp: lower_num_or_def is_lower_def is_digit_def)
    then have "c \<noteq> char_of (34 :: nat)" "c \<noteq> char_of (92 :: nat)" by auto
    with b have "quote_char c = [c]" by (simp add: quote_char_def)
    with Cons show ?case by simp
  qed simp
  moreover have "char_of (34 :: nat) = CHR 0x22" by code_simp
  ultimately show ?thesis by (simp add: quote_def)
qed

lemma format_key_line:
  assumes "good_name n"
  shows "is_key n (format_key n @ '' = '' @ v)"
proof -
  have n: "list_all (lower_num_or ''._-'') n" using assms by (simp add: good_name_def)
  show ?thesis
  proof (cases "CHR ''.'' \<in> set n")
    case True
    then have "format_key n @ '' = '' @ v = [] @ [CHR 0x22] @ n @ [CHR 0x22] @ [CHR '' ''] @ CHR ''='' # CHR '' '' # v"
      using quote_name[OF n] by (simp add: format_key_def)
    moreover have "list_all sp [CHR '' '']" by (simp add: sp_def)
    ultimately show ?thesis unfolding is_key_iff by (metis list.pred_inject(1))
  next
    case False
    then have "format_key n @ '' = '' @ v = [] @ [] @ n @ [] @ [CHR '' ''] @ CHR ''='' # CHR '' '' # v"
      by (simp add: format_key_def)
    moreover have "list_all sp [CHR '' '']" by (simp add: sp_def)
    ultimately show ?thesis unfolding is_key_iff by (metis list.pred_inject(1))
  qed
qed

lemma entry_line_key: "good_name n \<Longrightarrow> key_of (entry_line n e) = Some n"
  using format_key_line unfolding key_of_iff entry_line_def by blast

subsection \<open>A tidy list\<close>

text \<open>
  A tidy list has one \<open>[packages]\<close> or none, no table below it such as \<open>[packages.fd]\<close>, and no name twice.
\<close>

definition any_sub_re :: rx where
  "any_sub_re = at_start ([Text (CHR ''[''), rx_space] @ map Text ''packages'' @ [rx_space, Text (CHR ''.'')])"

abbreviation is_table :: "string \<Rightarrow> bool" where "is_table l \<equiv> rx_match any_sub_re l"

definition section_lines :: "string list \<Rightarrow> string list" where
  "section_lines ls = takeWhile (\<lambda>l. \<not> is_header l) (tl (dropWhile (\<lambda>l. \<not> is_packages l) ls))"

definition tidy :: "string list \<Rightarrow> bool" where
  "tidy ls \<longleftrightarrow> list_all (\<lambda>l. \<not> is_table l) ls
     \<and> list_all (\<lambda>l. \<not> is_packages l) (tl (dropWhile (\<lambda>l. \<not> is_packages l) ls))
     \<and> distinct (List.map_filter key_of (section_lines ls))"

definition line_at :: "string list \<Rightarrow> string \<Rightarrow> string option" where
  "line_at ls n = find (\<lambda>l. key_of l = Some n) (section_lines ls)"

definition parts :: "string list \<Rightarrow> string \<Rightarrow> string list \<Rightarrow> string list \<Rightarrow> bool" where
  "parts a h sec b \<longleftrightarrow> list_all (\<lambda>l. \<not> is_packages l) (a @ sec @ b) \<and> is_packages h
     \<and> list_all (\<lambda>l. \<not> is_header l) sec \<and> (b = [] \<or> is_header (hd b))
     \<and> list_all (\<lambda>l. \<not> is_table l) (a @ h # sec @ b) \<and> distinct (List.map_filter key_of sec)"

lemma drop_to_packages:
  "list_all (\<lambda>l. \<not> is_packages l) a \<Longrightarrow> is_packages h \<Longrightarrow> dropWhile (\<lambda>l. \<not> is_packages l) (a @ h # r) = h # r"
  by (induction a) auto

lemma take_to_header:
  "list_all (\<lambda>l. \<not> is_header l) sec \<Longrightarrow> b = [] \<or> is_header (hd b) \<Longrightarrow> takeWhile (\<lambda>l. \<not> is_header l) (sec @ b) = sec"
  by (induction sec) (cases b; auto)+

lemma parts_section: "parts a h sec b \<Longrightarrow> section_lines (a @ h # sec @ b) = sec"
  by (auto simp: parts_def section_lines_def drop_to_packages take_to_header)

lemma parts_tidy: "parts a h sec b \<Longrightarrow> tidy (a @ h # sec @ b)"
  using parts_section[of a h sec b] by (auto simp: parts_def tidy_def drop_to_packages)

lemma tidy_cases:
  assumes "tidy ls"
  obtains (bare) "list_all (\<lambda>l. \<not> is_packages l) ls" | (parts) a h sec b where "ls = a @ h # sec @ b" "parts a h sec b"
proof (cases "list_all (\<lambda>l. \<not> is_packages l) ls")
  case False
  define a where "a = takeWhile (\<lambda>l. \<not> is_packages l) ls"
  from False obtain h r where hr: "dropWhile (\<lambda>l. \<not> is_packages l) ls = h # r"
    by (cases "dropWhile (\<lambda>l. \<not> is_packages l) ls") (auto simp: list_all_iff)
  have h: "is_packages h" using hr by (metis hd_dropWhile list.distinct(1) list.sel(1))
  have ls: "ls = a @ h # r" using takeWhile_dropWhile_id[of "\<lambda>l. \<not> is_packages l" ls] hr by (simp add: a_def)
  define sec where "sec = takeWhile (\<lambda>l. \<not> is_header l) r"
  define b where "b = dropWhile (\<lambda>l. \<not> is_header l) r"
  have r: "r = sec @ b" by (simp add: sec_def b_def)
  have a: "list_all (\<lambda>l. \<not> is_packages l) a" unfolding a_def list_all_iff by (auto dest: set_takeWhileD)
  have sec: "list_all (\<lambda>l. \<not> is_header l) sec" unfolding sec_def list_all_iff by (auto dest: set_takeWhileD)
  have b: "b = [] \<or> is_header (hd b)" unfolding b_def using hd_dropWhile by blast
  have s: "section_lines ls = sec" by (simp add: section_lines_def hr sec_def)
  have "parts a h sec b"
    using assms a h sec b unfolding tidy_def parts_def s hr by (simp add: ls r)
  with ls r show ?thesis using that(2) by blast
qed (use that in blast)

lemma describes_Concat_append:
  "describes (Concat (rs @ qs)) w \<Longrightarrow> \<exists>x y. w = x @ y \<and> describes (Concat rs) x"
proof (induction rs arbitrary: w)
  case Nil
  then show ?case by (intro exI[of _ "[]"] exI[of _ w]) simp
next
  case (Cons r rs)
  from Cons.prems obtain x v where w: "w = x @ v" "describes r x" "describes (Concat (rs @ qs)) v"
    using describes_Concat_Cons[of r "rs @ qs" w] by auto
  from Cons.IH[OF w(3)] obtain y z where "v = y @ z" "describes (Concat rs) y" by blast
  with w show ?case using describes_Concat_Cons[of r rs "x @ y"] by (intro exI[of _ "x @ y"] exI[of _ z]) auto
qed

lemma at_start_append: "describes (at_start (rs @ qs)) l \<Longrightarrow> describes (at_start rs) l"
proof -
  assume "describes (at_start (rs @ qs)) l"
  then obtain ws u t where l: "l = ws @ u @ t" "list_all sp ws" "describes (Concat (rs @ qs)) u"
    unfolding describes_at_start by blast
  from describes_Concat_append[OF l(3)] obtain x y where "u = x @ y" "describes (Concat rs) x" by blast
  with l show ?thesis unfolding describes_at_start by (intro exI[of _ ws] exI[of _ x] exI[of _ "y @ t"]) simp
qed

lemma sub_table: "is_sub n l \<Longrightarrow> is_table l"
  unfolding rx_match_iff any_sub_re_def sub_table_re_def
  by (rule at_start_append[of _ "[rx_space, Opt (Text (CHR 0x22))] @ map Text n @ [Opt (Text (CHR 0x22)), rx_space, Text (CHR '']'')]"])
    simp

lemma not_sub: "list_all (\<lambda>l. \<not> is_table l) ls \<Longrightarrow> list_all (\<lambda>l. \<not> is_sub n l) ls"
  using sub_table by (auto simp: list_all_iff)

subsection \<open>The loop over the lines of a tidy list\<close>

lemma map_filter_append: "List.map_filter f (xs @ ys) = List.map_filter f xs @ List.map_filter f ys"
  by (simp add: List.map_filter_def)

lemma scan_append:
  "scan_lines n len (xs @ ys) i st = (case scan_lines n len xs i st of None \<Rightarrow> None
     | Some st' \<Rightarrow> scan_lines n len ys (i + length xs) st')"
proof (induction xs arbitrary: i st)
  case (Cons l xs)
  obtain start stop found where "st = (start, stop, found)" by (cases st)
  moreover have "i + length (l # xs) = Suc i + length xs" by simp
  ultimately show ?case
    by (cases "is_sub n l") (simp_all only: append_Cons scan_lines.simps Cons.IH if_True if_False option.case)
qed simp

text \<open>Lines without \<open>[packages]\<close> leave the state alone before the section and after it.\<close>

lemma scan_outside:
  assumes "list_all (\<lambda>l. \<not> is_packages l) ls" "list_all (\<lambda>l. \<not> is_sub n l) ls"
    and "start = None \<or> stop \<noteq> len"
  shows "scan_lines n len ls i (start, stop, found) = Some (start, stop, found)"
  using assms by (induction ls arbitrary: i) auto

text \<open>Inside the section the last key line is kept.\<close>

lemma scan_inside_none:
  assumes "list_all (\<lambda>l. \<not> is_packages l) ls" "list_all (\<lambda>l. \<not> is_sub n l) ls" "list_all (\<lambda>l. \<not> is_header l) ls"
    and "list_all (\<lambda>l. \<not> is_key n l) ls"
  shows "scan_lines n len ls i (Some s, len, found) = Some (Some s, len, found)"
  using assms by (induction ls arbitrary: i) auto

lemma scan_section:
  assumes p: "parts a h sec b" and n: "good_name n" and len: "len = length (a @ h # sec @ b)"
  obtains (absent) "list_all (\<lambda>l. key_of l \<noteq> Some n) sec"
      "scan_lines n len (a @ h # sec @ b) 0 (None, len, None) = Some (Some (length a), Suc (length a) + length sec, None)"
    | (present) s1 x s2 where "sec = s1 @ x # s2" "key_of x = Some n" "list_all (\<lambda>l. key_of l \<noteq> Some n) (s1 @ s2)"
      "scan_lines n len (a @ h # sec @ b) 0 (None, len, None)
         = Some (Some (length a), Suc (length a) + length sec, Some (Suc (length a) + length s1))"
proof -
  have key: "key_of l = Some n \<longleftrightarrow> is_key n l" for l using n by (simp add: key_of_iff)
  have sub: "list_all (\<lambda>l. \<not> is_sub n l) (a @ h # sec @ b)"
    using p by (intro not_sub) (simp add: parts_def)
  have h: "is_packages h" "\<not> is_sub n h" using p sub by (auto simp: parts_def)
  have start: "scan_lines n len (a @ h # sec @ b) 0 (None, len, None)
      = scan_lines n len (sec @ b) (Suc (length a)) (Some (length a), len, None)"
    using p sub h by (simp add: scan_append scan_outside parts_def)
  have rest: "scan_lines n len b (Suc (length a) + length sec) (Some (length a), len, found)
      = Some (Some (length a), Suc (length a) + length sec, found)" for found
  proof (cases b)
    case Nil
    then show ?thesis by (simp add: len)
  next
    case (Cons l b')
    then have "is_header l" "\<not> is_packages l" "\<not> is_sub n l" "list_all (\<lambda>l. \<not> is_packages l) b'"
      "list_all (\<lambda>l. \<not> is_sub n l) b'" using p sub by (auto simp: parts_def)
    then show ?thesis by (simp add: Cons len scan_outside)
  qed
  have inside: "list_all (\<lambda>l. \<not> is_packages l) sec" "list_all (\<lambda>l. \<not> is_sub n l) sec" "list_all (\<lambda>l. \<not> is_header l) sec"
    using p sub by (auto simp: parts_def)
  show ?thesis
  proof (cases "\<exists>x\<in>set sec. key_of x = Some n")
    case False
    then have none: "list_all (\<lambda>l. \<not> is_key n l) sec" by (auto simp: list_all_iff key)
    have "scan_lines n len (sec @ b) (Suc (length a)) (Some (length a), len, None)
        = Some (Some (length a), Suc (length a) + length sec, None)"
      using rest[of None] by (simp add: scan_append scan_inside_none[OF inside none])
    with False start show ?thesis by (intro absent) (auto simp: list_all_iff)
  next
    case True
    then obtain s1 x s2 where sec: "sec = s1 @ x # s2" and x: "key_of x = Some n"
      by (meson split_list)
    have "distinct (List.map_filter key_of sec)" using p by (simp add: parts_def)
    then have "n \<notin> set (List.map_filter key_of s1) \<union> set (List.map_filter key_of s2)"
      using x by (simp add: sec map_filter_append map_filter_simps)
    then have others: "list_all (\<lambda>l. key_of l \<noteq> Some n) (s1 @ s2)"
      by (force simp: map_filter_def list_all_iff)
    then have none: "list_all (\<lambda>l. \<not> is_key n l) s1" "list_all (\<lambda>l. \<not> is_key n l) s2" by (auto simp: list_all_iff key)
    have "scan_lines n len (sec @ b) (Suc (length a)) (Some (length a), len, None)
        = Some (Some (length a), Suc (length a) + length sec, Some (Suc (length a) + length s1))"
      using rest[of "Some (Suc (length a) + length s1)"] inside none x
      by (simp add: sec scan_append scan_inside_none key add.assoc)
    with sec x others start show ?thesis by (intro present) auto
  qed
qed

lemma back_over_blank_le: "back_over_blank ls s at \<le> at"
  by (induction at) auto

lemma back_over_blank_ge: "s < at \<Longrightarrow> s < back_over_blank ls s at"
  by (induction at) auto

subsection \<open>The edit of a tidy list\<close>

lemma edit_parts:
  assumes p: "parts a h sec b" and n: "good_name n"
  obtains (absent) s1 s2 where "list_all (\<lambda>l. key_of l \<noteq> Some n) sec" "sec = s1 @ s2"
      "edit_lines n line (a @ h # sec @ b) = Inr (if line = [] then None else Some (a @ h # (s1 @ line # s2) @ b))"
    | (present) s1 x s2 where "sec = s1 @ x # s2" "key_of x = Some n" "list_all (\<lambda>l. key_of l \<noteq> Some n) (s1 @ s2)"
      "edit_lines n line (a @ h # sec @ b)
         = Inr (Some (a @ h # (s1 @ (if line = [] then [] else [line]) @ s2) @ b))"
proof -
  let ?len = "length (a @ h # sec @ b)"
  consider (1) "list_all (\<lambda>l. key_of l \<noteq> Some n) sec"
      "scan_lines n ?len (a @ h # sec @ b) 0 (None, ?len, None) = Some (Some (length a), Suc (length a) + length sec, None)"
    | (2) s1 x s2 where "sec = s1 @ x # s2" "key_of x = Some n" "list_all (\<lambda>l. key_of l \<noteq> Some n) (s1 @ s2)"
      "scan_lines n ?len (a @ h # sec @ b) 0 (None, ?len, None)
         = Some (Some (length a), Suc (length a) + length sec, Some (Suc (length a) + length s1))"
    by (rule scan_section[OF p n refl]) blast+
  then show ?thesis
  proof cases
    case 1
    define at where "at = back_over_blank (a @ h # sec @ b) (length a) (Suc (length a) + length sec)"
    have le: "at \<le> Suc (length a) + length sec" unfolding at_def by (rule back_over_blank_le)
    have ge: "length a < at" unfolding at_def by (rule back_over_blank_ge) simp
    define j where "j = at - Suc (length a)"
    have at: "at = length (a @ [h]) + j" "j \<le> length sec" using le ge by (auto simp: j_def)
    have "take at (a @ h # sec @ b) = a @ h # take j sec"
      using take_append[of at "a @ [h]" "sec @ b"] at by simp
    moreover have "drop at (a @ h # sec @ b) = drop j sec @ b"
      using drop_append[of at "a @ [h]" "sec @ b"] at by simp
    ultimately have "edit_lines n line (a @ h # sec @ b)
        = Inr (if line = [] then None else Some (a @ h # (take j sec @ line # drop j sec) @ b))"
      unfolding edit_lines_def 1(2) option.case prod.case Let_def at_def[symmetric] by simp
    then show ?thesis using 1(1) by (intro absent) auto
  next
    case 2
    have ls: "a @ h # sec @ b = (a @ h # s1) @ x # s2 @ b" by (simp add: 2(1))
    have at: "Suc (length a) + length s1 = length (a @ h # s1)" by simp
    have "take (length (a @ h # s1)) (a @ h # sec @ b) = a @ h # s1"
      "drop (Suc (length (a @ h # s1))) (a @ h # sec @ b) = s2 @ b"
      "(a @ h # sec @ b)[length (a @ h # s1) := line] = a @ h # s1 @ line # s2 @ b"
      unfolding ls by (simp_all add: list_update_append)
    then have "edit_lines n line (a @ h # sec @ b)
        = Inr (Some (a @ h # (s1 @ (if line = [] then [] else [line]) @ s2) @ b))"
      unfolding edit_lines_def 2(4) at by simp
    then show ?thesis using 2(1-3) by (intro present) auto
  qed
qed

lemma edit_bare:
  assumes "list_all (\<lambda>l. \<not> is_packages l) ls" "tidy ls"
  shows "edit_lines n line ls
    = Inr (if line = [] then None else Some ((if ls = [] then [] else ls @ [[]]) @ [''[packages]'', line]))"
proof -
  have "list_all (\<lambda>l. \<not> is_sub n l) ls" using assms(2) by (intro not_sub) (simp add: tidy_def)
  with assms(1) have "scan_lines n (length ls) ls 0 (None, length ls, None) = Some (None, length ls, None)"
    by (intro scan_outside) auto
  then show ?thesis by (simp add: edit_lines_def)
qed

subsection \<open>The table of a tidy list\<close>

definition after_edit :: "string \<Rightarrow> string \<Rightarrow> string list \<Rightarrow> string list" where
  "after_edit n line ls = (case edit_lines n line ls of Inr (Some out) \<Rightarrow> out | _ \<Rightarrow> ls)"

lemma table_header: "is_table l \<Longrightarrow> is_header l"
  by (auto simp: rx_match_iff is_header_iff[unfolded rx_match_iff] any_sub_re_def describes_at_start
      describes_Concat_Cons Text_def dropWhile_sp sp_def)

lemma concrete_lines: "\<not> is_table []" "\<not> is_packages []" "is_packages ''[packages]''" "\<not> is_table ''[packages]''"
  by code_simp+

lemma find_middle:
  assumes "list_all (\<lambda>l. key_of l \<noteq> Some n) (s1 @ s2)" "key_of line = Some n"
  shows "find (\<lambda>l. key_of l = Some k) (s1 @ line # s2)
    = (if k = n then Some line else find (\<lambda>l. key_of l = Some k) (s1 @ s2))"
proof (cases "k = n")
  case True
  have "find (\<lambda>l. key_of l = Some n) s1 = None" using assms(1) by (auto simp: find_None_iff list_all_iff)
  then show ?thesis using True assms(2) by (simp add: find_append)
qed (use assms(2) in \<open>simp add: find_append split: option.split\<close>)

lemma find_gone: "list_all (\<lambda>l. key_of l \<noteq> Some n) ls \<Longrightarrow> find (\<lambda>l. key_of l = Some n) ls = None"
  by (auto simp: find_None_iff list_all_iff)

lemma keys_absent: "list_all (\<lambda>l. key_of l \<noteq> Some n) ls \<Longrightarrow> n \<notin> set (List.map_filter key_of ls)"
  by (force simp: List.map_filter_def list_all_iff)

lemma parts_put:
  assumes "parts a h sec b" "key_of line = Some n"
    and "distinct (List.map_filter key_of (s1 @ s2))" "list_all (\<lambda>l. key_of l \<noteq> Some n) (s1 @ s2)"
    and "set (s1 @ s2) \<subseteq> set sec"
  shows "parts a h (s1 @ line # s2) b"
proof -
  have l: "\<not> is_header line" "\<not> is_packages line" "\<not> is_table line"
    using key_not_header[OF assms(2)] packages_header table_header by blast+
  have "n \<notin> set (List.map_filter key_of s1)" "n \<notin> set (List.map_filter key_of s2)"
    using keys_absent assms(4) by auto
  with assms(2,3) have d: "distinct (List.map_filter key_of (s1 @ line # s2))"
    by (auto simp: map_filter_append map_filter_simps)
  have sub: "list_all P sec \<Longrightarrow> list_all P s1 \<and> list_all P s2" for P
    using assms(5) by (auto simp: list_all_iff subset_iff)
  show ?thesis
    using assms(1) l d sub unfolding parts_def by simp
qed

lemma parts_remove:
  assumes "parts a h (s1 @ x # s2) b"
  shows "parts a h (s1 @ s2) b"
  using assms unfolding parts_def by (auto simp: map_filter_append map_filter_simps split: option.splits)

lemma bare_section: "list_all (\<lambda>l. \<not> is_packages l) ls \<Longrightarrow> section_lines ls = []"
proof -
  assume "list_all (\<lambda>l. \<not> is_packages l) ls"
  then have "dropWhile (\<lambda>l. \<not> is_packages l) ls = []" by (simp add: list_all_iff dropWhile_eq_Nil_conv)
  then show ?thesis by (simp only: section_lines_def list.sel(2) takeWhile.simps)
qed

lemma put_line:
  assumes t: "tidy ls" and n: "good_name n" and line: "key_of line = Some n"
  shows "tidy (after_edit n line ls)" "line_at (after_edit n line ls) k = (if k = n then Some line else line_at ls k)"
proof -
  have line': "line \<noteq> []" using line by (auto simp: key_of_iff is_key_iff)
  have "tidy (after_edit n line ls) \<and> line_at (after_edit n line ls) k = (if k = n then Some line else line_at ls k)"
    using t
  proof (cases rule: tidy_cases)
    case bare
    let ?a = "if ls = [] then [] else ls @ [[]]"
    have "parts ?a ''[packages]'' [] []"
      using bare t concrete_lines by (auto simp: parts_def tidy_def map_filter_simps)
    then have p: "parts ?a ''[packages]'' ([] @ line # []) []"
      using line by (intro parts_put) (auto simp: map_filter_simps)
    have "after_edit n line ls = ?a @ ''[packages]'' # ([] @ line # []) @ []"
      using line' by (simp only: after_edit_def edit_bare[OF bare t] sum.case if_False option.case) simp
    with parts_tidy[OF p] parts_section[OF p] bare_section[OF bare] line show ?thesis
      by (simp add: line_at_def)
  next
    case (parts a h sec b)
    from parts(2) n show ?thesis
    proof (cases rule: edit_parts[where line = line])
      case (absent s1 s2)
      have p: "parts a h (s1 @ line # s2) b"
        using absent(1) parts(2) line unfolding absent(2)
        by (intro parts_put[OF parts(2)[unfolded absent(2)]]) (auto simp: parts_def)
      have "after_edit n line ls = a @ h # (s1 @ line # s2) @ b"
        using absent(3) line' by (simp add: after_edit_def parts(1))
      with parts_tidy[OF p] parts_section[OF p] parts_section[OF parts(2)] absent line find_middle show ?thesis
        by (simp add: line_at_def parts(1))
    next
      case (present s1 x s2)
      have "List.map_filter key_of sec = List.map_filter key_of s1 @ n # List.map_filter key_of s2"
        by (simp add: present map_filter_append map_filter_simps)
      then have d: "distinct (List.map_filter key_of (s1 @ s2))"
        using parts(2) by (simp add: parts_def map_filter_append)
      have p: "parts a h (s1 @ line # s2) b"
        using present(1,3) line d by (intro parts_put[OF parts(2)]) auto
      have "after_edit n line ls = a @ h # (s1 @ line # s2) @ b"
        using present(4) line' by (simp add: after_edit_def parts(1))
      with parts_tidy[OF p] parts_section[OF p] parts_section[OF parts(2)] present line find_middle show ?thesis
        by (simp add: line_at_def parts(1))
    qed
  qed
  then show "tidy (after_edit n line ls)" "line_at (after_edit n line ls) k = (if k = n then Some line else line_at ls k)"
    by blast+
qed

lemma remove_line:
  assumes t: "tidy ls" and n: "good_name n"
  shows "tidy (after_edit n [] ls)" "line_at (after_edit n [] ls) k = (if k = n then None else line_at ls k)"
proof -
  have "tidy (after_edit n [] ls) \<and> line_at (after_edit n [] ls) k = (if k = n then None else line_at ls k)"
    using t
  proof (cases rule: tidy_cases)
    case bare
    then show ?thesis using t by (simp add: after_edit_def edit_bare line_at_def bare_section)
  next
    case (parts a h sec b)
    from parts(2) n show ?thesis
    proof (cases rule: edit_parts[where line = "[]"])
      case (absent s1 s2)
      then show ?thesis using t parts_section[OF parts(2)] find_gone[OF absent(1)]
        by (auto simp: after_edit_def line_at_def parts(1))
    next
      case (present s1 x s2)
      have p: "parts a h (s1 @ s2) b" using parts(2) unfolding present(1) by (rule parts_remove)
      have "after_edit n [] ls = a @ h # (s1 @ s2) @ b" using present(4) by (simp add: after_edit_def parts(1))
      with parts_tidy[OF p] parts_section[OF p] parts_section[OF parts(2)] find_gone[OF present(3)]
        find_middle[OF present(3,2)] show ?thesis
        by (simp add: line_at_def parts(1) present(1))
    qed
  qed
  then show "tidy (after_edit n [] ls)" "line_at (after_edit n [] ls) k = (if k = n then None else line_at ls k)"
    by blast+
qed

interpretation edits: keyed_on "\<lambda>ls n. map_option (Pair n) (line_at ls n)" "\<lambda>(n, line). after_edit n line"
  "\<lambda>n. after_edit n []" fst tidy "\<lambda>(n, line). key_of line = Some n" good_name
  by unfold_locales (auto simp: put_line remove_line)

end
