(* ===== verification/Oku_Edit_Props.thy ===== *)
theory Oku_Edit_Props
  imports Oku_Edit_Laws
begin

text \<open>
  What the edits of \<open>oku.toml\<close> promise: a run of edits is a run of writes and removals on a table of lines, and
  an edit touches one line of the user's text only.
\<close>

subsection \<open>One line\<close>

lemma scan_bounds:
  assumes "scan_lines n len ls i (start, stop, found) = Some (start', stop', found')"
    and "i + length ls = len" "stop \<le> len" "\<forall>s. start = Some s \<longrightarrow> s < i"
    and "\<forall>j. found = Some j \<longrightarrow> j < i"
  shows "stop' \<le> len \<and> (\<forall>j. found' = Some j \<longrightarrow> found = Some j \<or> (i \<le> j \<and> j < len \<and> is_key n (ls ! (j - i))))
     \<and> (\<forall>s. start' = Some s \<longrightarrow> s < len)"
  using assms
proof (induction ls arbitrary: i start stop found)
  case Nil
  then show ?case by auto
next
  case (Cons l ls)
  have step: "\<exists>start2 stop2 found2. scan_lines n len ls (Suc i) (start2, stop2, found2) = Some (start', stop', found')
      \<and> stop2 \<le> len \<and> (\<forall>s. start2 = Some s \<longrightarrow> s < Suc i) \<and> (found2 = found \<or> (found2 = Some i \<and> is_key n l))"
    using Cons.prems by (fastforce split: if_splits)
  then obtain start2 stop2 found2 where s2: "scan_lines n len ls (Suc i) (start2, stop2, found2) = Some (start', stop', found')"
    and b: "stop2 \<le> len" "\<forall>s. start2 = Some s \<longrightarrow> s < Suc i" and f: "found2 = found \<or> (found2 = Some i \<and> is_key n l)"
    by blast
  have "\<forall>j. found2 = Some j \<longrightarrow> j < Suc i" using f Cons.prems(5) by auto
  from Cons.IH[OF s2 _ b this] Cons.prems(2)
  have ih: "stop' \<le> len" "\<forall>s. start' = Some s \<longrightarrow> s < len"
    "\<forall>j. found' = Some j \<longrightarrow> found2 = Some j \<or> (Suc i \<le> j \<and> j < len \<and> is_key n (ls ! (j - Suc i)))" by auto
  have "found = Some j \<or> (i \<le> j \<and> j < len \<and> is_key n ((l # ls) ! (j - i)))" if "found' = Some j" for j
  proof -
    from ih(3) that consider "found2 = Some j" | "Suc i \<le> j" "j < len" "is_key n (ls ! (j - Suc i))" by blast
    then show ?thesis
    proof cases
      case 1
      then show ?thesis using f Cons.prems(2) by auto
    next
      case 2
      then have "(l # ls) ! (j - i) = ls ! (j - Suc i)" by (simp add: nth_Cons')
      with 2 show ?thesis by simp
    qed
  qed
  with ih show ?case by blast
qed

text \<open>
  C37. An edit touches one line. Whatever the list holds, when \<open>edit\<close> writes, the lines are those of before
  with one line added, or with one line that defines the name replaced or taken out, or with a new
  \<open>[packages]\<close> section at the end. So the user's comments and the order stay.
\<close>

theorem edit_touches_one_line:
  assumes "edit_lines n line ls = Inr (Some out)"
  shows "(\<exists>a x b. ls = a @ x # b \<and> is_key n x \<and> out = a @ (if line = [] then [] else [line]) @ b)
    \<or> (line \<noteq> [] \<and> (\<exists>a b. ls = a @ b \<and> out = a @ line # b))
    \<or> (line \<noteq> [] \<and> (\<exists>gap. gap \<in> {[], [[]]} \<and> out = ls @ gap @ [''[packages]'', line]))"
proof -
  from assms obtain start stop found where
    s: "scan_lines n (length ls) ls 0 (None, length ls, None) = Some (start, stop, found)"
    by (auto simp: edit_lines_def split: option.splits)
  have b: "stop \<le> length ls" "\<forall>j. found = Some j \<longrightarrow> j < length ls \<and> is_key n (ls ! j)"
    using scan_bounds[OF s] by auto
  show ?thesis
  proof (cases found)
    case (Some at)
    then have at: "at < length ls" "is_key n (ls ! at)" using b(2) by auto
    have "ls = take at ls @ ls ! at # drop (Suc at) ls" using at(1) by (rule id_take_nth_drop)
    moreover have "out = take at ls @ (if line = [] then [] else [line]) @ drop (Suc at) ls"
      using assms s Some at(1) by (auto simp: edit_lines_def upd_conv_take_nth_drop split: if_splits)
    ultimately show ?thesis using at(2) by blast
  next
    case None
    with assms s have line: "line \<noteq> []" by (auto simp: edit_lines_def split: if_splits option.splits)
    show ?thesis
    proof (cases start)
      case None
      with \<open>found = None\<close> assms s line have "out = ls @ (if ls = [] then [] else [[]]) @ [''[packages]'', line]"
        by (auto simp: edit_lines_def)
      with line show ?thesis by (intro disjI2 conjI exI[of _ "if ls = [] then [] else [[]]"]) auto
    next
      case (Some s)
      define at where "at = back_over_blank ls s stop"
      have "out = take at ls @ line # drop at ls"
        using assms \<open>found = None\<close> Some s line by (simp add: edit_lines_def Let_def at_def)
      then show ?thesis using line append_take_drop_id[of at ls] by metis
    qed
  qed
qed

definition sample_lines :: "string list" where
  "sample_lines = [''[packages]'', ''fd = \"gh:sharkdp/fd\" # fast find'', [], ''[env]'']"

theorem edit_touches_one_line_witness:
  "\<exists>out. edit_lines ''fd'' [] sample_lines = Inr (Some out) \<and> out = [''[packages]'', [], ''[env]'']
     \<and> ((\<exists>a x b. sample_lines = a @ x # b \<and> is_key ''fd'' x \<and> out = a @ (if ([] :: string) = [] then [] else [[]]) @ b)
    \<or> (([] :: string) \<noteq> [] \<and> (\<exists>a b. sample_lines = a @ b \<and> out = a @ [] # b))
    \<or> (([] :: string) \<noteq> [] \<and> (\<exists>gap. gap \<in> {[], [[]]} \<and> out = sample_lines @ gap @ [''[packages]'', []])))"
proof -
  have "edit_lines ''fd'' [] sample_lines = Inr (Some [''[packages]'', [], ''[env]''])" by code_simp
  from this edit_touches_one_line[OF this] show ?thesis by blast
qed

subsection \<open>A run of edits\<close>

text \<open>What \<open>Set\<close> and \<open>Delete\<close> do to the lines, one after the other.\<close>

type_synonym list_op = "(string, string \<times> list_entry) table_op"

fun op_name :: "list_op \<Rightarrow> string" where
  "op_name (PutOp (n, e)) = n"
| "op_name (DelOp n) = n"

fun op_line :: "list_op \<Rightarrow> string" where
  "op_line (PutOp (n, e)) = entry_line n e"
| "op_line (DelOp n) = []"

definition edit_op :: "list_op \<Rightarrow> string list \<Rightarrow> (edit_error, string list) res" where
  "edit_op p ls = and_then (edit_lines (op_name p) (op_line p) ls) (\<lambda>out.
     Inr (case out of None \<Rightarrow> ls | Some ls' \<Rightarrow> ls'))"

fun run_edits :: "list_op list \<Rightarrow> string list \<Rightarrow> (edit_error, string list) res" where
  "run_edits [] ls = Inr ls"
| "run_edits (p # ps) ls = and_then (edit_op p ls) (run_edits ps)"

text \<open>The specification: a table from names to lines.\<close>

fun table_op :: "list_op \<Rightarrow> (string \<Rightarrow> string option) \<Rightarrow> string \<Rightarrow> string option" where
  "table_op (PutOp (n, e)) m = m(n := Some (entry_line n e))"
| "table_op (DelOp n) m = m(n := None)"

fun line_op :: "list_op \<Rightarrow> (string, string \<times> string) table_op" where
  "line_op (PutOp (n, e)) = PutOp (n, entry_line n e)"
| "line_op (DelOp n) = DelOp n"

lemma tidy_no_error:
  assumes "tidy ls" "good_name n"
  shows "\<exists>out. edit_lines n line ls = Inr out"
  using assms(1)
proof (cases rule: tidy_cases)
  case bare
  then show ?thesis using edit_bare assms(1) by blast
next
  case (parts a h sec b)
  from parts(2) assms(2) show ?thesis
    by (cases rule: edit_parts[where line = line]) (auto simp: parts(1))
qed

lemma edit_op_run: "tidy ls \<Longrightarrow> good_name (op_name p) \<Longrightarrow> edit_op p ls = Inr (edits.run_op (line_op p) ls)"
  using tidy_no_error[of ls "op_name p" "op_line p"]
  by (cases p) (auto simp: edit_op_def after_edit_def and_then_def split: option.splits)

lemma line_op_good: "good_name (op_name p) \<Longrightarrow> edits.op_good (line_op p)"
  by (cases p) (auto simp: entry_line_key)

lemma run_edits_run:
  "tidy ls \<Longrightarrow> list_all (good_name \<circ> op_name) ps \<Longrightarrow>
   run_edits ps ls = Inr (fold edits.run_op (map line_op ps) ls)"
proof (induction ps arbitrary: ls)
  case (Cons p ps)
  have "tidy (edits.run_op (line_op p) ls)"
    using edits.run_inv[of ls "[line_op p]"] Cons.prems line_op_good[of p] by simp
  with Cons show ?case by (simp add: edit_op_run and_then_def)
qed simp

lemma history_table:
  "map_option snd (edits.history (map line_op ps) m k) = fold table_op ps (\<lambda>j. map_option snd (m j)) k"
proof (induction ps arbitrary: m)
  case (Cons p ps)
  have "(\<lambda>j. map_option snd ((m(n := v)) j)) = (\<lambda>j. map_option snd (m j))(n := map_option snd v)" for n v
    by (rule ext) simp
  with Cons show ?case by (cases p) (auto simp del: fun_upd_apply)
qed simp

text \<open>
  C17. Edits of a tidy list refine writes to a table. A run of \<open>Set\<close> and \<open>Delete\<close> on well-formed names
  never fails, leaves the list tidy, and the \<open>[packages]\<close> section then holds for every name the line
  that the last operation on that name left: what a run on a plain table from names to lines gives.
\<close>

theorem edits_refine_table:
  assumes "tidy ls" "list_all (good_name \<circ> op_name) ps" "good_name k"
  shows "\<exists>out. run_edits ps ls = Inr out \<and> tidy out \<and> line_at out k = fold table_op ps (line_at ls) k"
proof -
  have good: "list_all edits.op_good (map line_op ps)"
    using assms(2) line_op_good by (auto simp: list_all_iff)
  have "map_option (Pair k) (line_at (fold edits.run_op (map line_op ps) ls) k)
      = edits.history (map line_op ps) (\<lambda>n. map_option (Pair n) (line_at ls n)) k"
    by (rule edits.run_history_on[OF assms(1) good assms(3)])
  then have "line_at (fold edits.run_op (map line_op ps) ls) k
      = map_option snd (edits.history (map line_op ps) (\<lambda>n. map_option (Pair n) (line_at ls n)) k)"
    by (metis (no_types, lifting) option.map_comp option.map_ident comp_def snd_conv map_option_cong)
  moreover have "(\<lambda>j. map_option snd (map_option (Pair j) (line_at ls j))) = line_at ls"
    by (rule ext) (simp add: option.map_comp comp_def option.map_ident)
  ultimately show ?thesis
    using run_edits_run[OF assms(1,2)] edits.run_inv[OF assms(1) good] by (simp add: history_table)
qed

definition sample_ops :: "list_op list" where
  "sample_ops = [DelOp ''fd'', PutOp (''rg'', empty_entry\<lparr>le_ref := ''gh:BurntSushi/ripgrep'', le_version := ''14''\<rparr>),
     PutOp (''fd'', empty_entry\<lparr>le_ref := ''gh:sharkdp/fd''\<rparr>)]"

theorem edits_refine_table_witness:
  "(\<exists>out. run_edits sample_ops sample_lines = Inr out \<and> tidy out
     \<and> line_at out ''fd'' = fold table_op sample_ops (line_at sample_lines) ''fd'')
   \<and> fold table_op sample_ops (line_at sample_lines) ''fd'' = Some ''fd = \"gh:sharkdp/fd\"''"
proof -
  have "tidy sample_lines" "list_all (good_name \<circ> op_name) sample_ops" "good_name ''fd''" by code_simp+
  from edits_refine_table[OF this]
  have "\<exists>out. run_edits sample_ops sample_lines = Inr out \<and> tidy out
     \<and> line_at out ''fd'' = fold table_op sample_ops (line_at sample_lines) ''fd''" .
  moreover have "fold table_op sample_ops (line_at sample_lines) ''fd'' = Some ''fd = \"gh:sharkdp/fd\"''"
    by code_simp
  ultimately show ?thesis by blast
qed

end
