(* ===== verification/Store_Tree.thy ===== *)
theory Store_Tree
  imports Go_Order "HOL-Library.Word"
begin

unbundle bit_operations_syntax

text \<open>
  The record of a store path, \<open>internal/store/tree.go\<close>: what \<open>writeTree\<close> writes when oku makes the path, and
  what \<open>Check\<close> finds later. The sha256 of a file in hex is the argument \<open>sha\<close>. The workers that hash the
  files fill a slice by index, so their order does not matter.
\<close>

subsection \<open>A directory\<close>

text \<open>A file with its mode and its bytes, a link, another kind of file, and a directory.\<close>

datatype disk =
    DFile nat string
  | DLink string
  | DOther
  | DDir "(string \<times> disk) list"

definition tree_file :: string where "tree_file = ''oku-tree.txt''"

definition meta_file :: string where "meta_file = ''oku-meta.toml''"

definition runs_mode :: "nat \<Rightarrow> bool" where
  "runs_mode mode \<longleftrightarrow> mode AND 0x49 \<noteq> 0"

text \<open>
  The rounds of \<open>WalkDir\<close> below a directory whose path ends with a slash, and what the map \<open>tree\<close> gets in
  each round.
\<close>

function tree_rounds :: "(string \<Rightarrow> string) \<Rightarrow> string \<Rightarrow> (string \<times> disk) list \<Rightarrow> (string \<times> string) list" where
  "tree_rounds sha pre [] = []"
| "tree_rounds sha pre ((name, d) # rest) =
     (let rel = pre @ name
      in (case d of
            DDir ds \<Rightarrow> if name = ''__pycache__'' \<and> rel \<noteq> tree_file \<and> rel \<noteq> meta_file then []
                       else tree_rounds sha (rel @ ''/'') ds
          | DLink target \<Rightarrow> if rel = tree_file \<or> rel = meta_file then [] else [(rel, ''link:'' @ target)]
          | DFile mode data \<Rightarrow>
              if rel = tree_file \<or> rel = meta_file then []
              else [(rel, sha data @ (if runs_mode mode then ''x'' else []))]
          | DOther \<Rightarrow> []) @ tree_rounds sha pre rest)"
  by pat_completeness auto

termination
  by (relation "measure (\<lambda>(sha, pre, ds). size_list (size_prod (\<lambda>_. 0) size) ds)") auto

definition read_tree :: "(string \<Rightarrow> string) \<Rightarrow> (string \<times> disk) list \<Rightarrow> (string \<times> string) list" where
  "read_tree sha ds = rev (tree_rounds sha [] ds)"

text \<open>\<open>slices.Sorted(maps.Keys(tree))\<close>. The map is the list of its writes, the last one first.\<close>

definition sorted_keys :: "(string \<times> 'a) list \<Rightarrow> string list" where
  "sorted_keys m = sort_func str_cmp (remdups (map fst m))"

subsection \<open>The record\<close>

definition value_of :: "(string \<times> string) list \<Rightarrow> string \<Rightarrow> string" where
  "value_of m k = (case map_of m k of Some v \<Rightarrow> v | None \<Rightarrow> [])"

definition record_text :: "(string \<times> string) list \<Rightarrow> string" where
  "record_text tree = concat (map (\<lambda>rel. value_of tree rel @ [CHR 0x09] @ rel @ [CHR 0x0A]) (sorted_keys tree))"

text \<open>A write of one file to a directory.\<close>

definition put_file :: "string \<Rightarrow> disk \<Rightarrow> (string \<times> disk) list \<Rightarrow> (string \<times> disk) list" where
  "put_file name d ds = (name, d) # filter (\<lambda>e. fst e \<noteq> name) ds"

definition write_tree :: "(string \<Rightarrow> string) \<Rightarrow> (string \<times> disk) list \<Rightarrow> (string \<times> disk) list" where
  "write_tree sha ds = put_file tree_file (DFile 0x124 (record_text (read_tree sha ds))) ds"

datatype tree_error = NoTree | NoPath | LineTooLong | HasRecord

text \<open>\<open>Record\<close>, between the thaw and the freeze of the modes.\<close>

definition record_tree :: "(string \<Rightarrow> string) \<Rightarrow> (string \<times> disk) list \<Rightarrow> (tree_error, (string \<times> disk) list) res" where
  "record_tree sha ds = (if map_of ds tree_file \<noteq> None then Inl HasRecord else Inr (write_tree sha ds))"

subsection \<open>The check\<close>

text \<open>
  \<open>bufio.Scanner\<close>: the lines without their ends, a carriage return before an end included. A line that
  does not fit the buffer of a megabyte stops it.
\<close>

definition max_line :: int where "max_line = 1048576"

definition raw_lines :: "string \<Rightarrow> string list" where
  "raw_lines data = (let ls = split_char (CHR 0x0A) data in if last ls = [] then butlast ls else ls)"

fun recorded_lines :: "string list \<Rightarrow> (string \<times> string) list \<Rightarrow> (tree_error, (string \<times> string) list) res" where
  "recorded_lines [] m = Inr m"
| "recorded_lines (l # ls) m =
     (if int (length l) \<ge> max_line then Inl LineTooLong
      else (case cut_char (CHR 0x09) (trim_suffix l [CHR 0x0D]) of
              None \<Rightarrow> Inl NoPath
            | Some (what, rel) \<Rightarrow> recorded_lines ls ((rel, what) # m)))"

datatype change_kind = Changed | Added | Removed

definition tree_changes :: "(string \<times> string) list \<Rightarrow> (string \<times> string) list \<Rightarrow> (string \<times> change_kind) list" where
  "tree_changes old new =
     List.map_filter (\<lambda>rel. case map_of new rel of
          None \<Rightarrow> Some (rel, Removed)
        | Some what \<Rightarrow> if map_of old rel \<noteq> Some what then Some (rel, Changed) else None) (sorted_keys old)
     @ List.map_filter (\<lambda>rel. if map_of old rel = None then Some (rel, Added) else None) (sorted_keys new)"

text \<open>oku makes the record as a regular file, and only that case is modelled.\<close>

definition check_tree :: "(string \<Rightarrow> string) \<Rightarrow> (string \<times> disk) list \<Rightarrow> (tree_error, (string \<times> change_kind) list) res" where
  "check_tree sha ds =
     (case map_of ds tree_file of
        Some (DFile mode data) \<Rightarrow>
          and_then (recorded_lines (raw_lines data) []) (\<lambda>old.
            Inr (sort_func (by_name fst) (tree_changes old (read_tree sha ds))))
      | _ \<Rightarrow> Inl NoTree)"

end
