(* ===== verification/Store_Tree_Props.thy ===== *)
theory Store_Tree_Props
  imports Store_Tree
begin

text \<open>
  What the record of a store path promises: a check finds exactly the files that differ, for every path whose
  names and link targets the lines of the record can hold.
\<close>

subsection \<open>The record is read back\<close>

definition recordable :: "(string \<times> string) list \<Rightarrow> bool" where
  "recordable tree \<longleftrightarrow> list_all (\<lambda>(rel, what).
     CHR 0x0A \<notin> set (what @ rel) \<and> CHR 0x09 \<notin> set what \<and> \<not> has_suffix rel [CHR 0x0D]
     \<and> int (length what + length rel) + 1 < max_line) tree"

lemma raw_lines_lines:
  assumes "\<forall>k\<in>set ks. CHR 0x0A \<notin> set (line k)"
  shows "raw_lines (concat (map (\<lambda>k. line k @ [CHR 0x0A]) ks)) = map line ks"
proof -
  have "split_char (CHR 0x0A) (concat (map (\<lambda>k. line k @ [CHR 0x0A]) ks)) = map line ks @ [[]]"
    using assms
  proof (induction ks)
    case (Cons k ks)
    then show ?case using split_char_append[of "CHR 0x0A" "line k"] by simp
  qed simp
  then show ?thesis by (simp add: raw_lines_def Let_def)
qed

lemma recorded_lines_read:
  assumes "\<forall>k\<in>set ks. CHR 0x09 \<notin> set (v k) \<and> \<not> has_suffix k [CHR 0x0D] \<and> int (length (v k) + length k) + 1 < max_line"
  shows "recorded_lines (map (\<lambda>k. v k @ [CHR 0x09] @ k) ks) m = Inr (rev (map (\<lambda>k. (k, v k)) ks) @ m)"
  using assms
proof (induction ks arbitrary: m)
  case (Cons k ks)
  have "\<not> has_suffix (v k @ CHR 0x09 # k) [CHR 0x0D]"
  proof (cases k rule: rev_cases)
    case Nil
    then show ?thesis by (auto simp: has_suffix_iff append_eq_append_conv2 Cons_eq_append_conv)
  next
    case (snoc xs c)
    with Cons.prems have "c \<noteq> CHR 0x0D" by (auto simp: has_suffix_iff)
    with snoc show ?thesis by (auto simp: has_suffix_iff)
  qed
  then have "trim_suffix (v k @ CHR 0x09 # k) [CHR 0x0D] = v k @ CHR 0x09 # k" by (simp add: trim_suffix_def)
  moreover have "cut_char (CHR 0x09) (v k @ CHR 0x09 # k) = Some (v k, k)"
    using Cons.prems cut_char_append[of "CHR 0x09" "v k" k] by simp
  ultimately show ?case using Cons by simp
qed simp

lemma map_of_graph: "map_of (rev (map (\<lambda>k. (k, f k)) ks)) p = (if p \<in> set ks then Some (f p) else None)"
  by (induction ks) (auto simp: map_add_Some_iff map_add_def split: option.splits)

lemma set_sorted_keys: "set (sorted_keys m) = dom (map_of m)"
  by (simp add: sorted_keys_def dom_map_of_conv_image_fst)

lemma read_record:
  assumes "recordable tree"
  shows "\<exists>old. recorded_lines (raw_lines (record_text tree)) [] = Inr old \<and> map_of old = map_of tree"
proof -
  let ?ks = "sorted_keys tree"
  have k: "CHR 0x0A \<notin> set (value_of tree p @ p)" "CHR 0x09 \<notin> set (value_of tree p)" "\<not> has_suffix p [CHR 0x0D]"
    "int (length (value_of tree p) + length p) + 1 < max_line" if "p \<in> set ?ks" for p
  proof -
    from that obtain what where w: "map_of tree p = Some what" by (auto simp: set_sorted_keys)
    from map_of_SomeD[OF w] assms show "CHR 0x0A \<notin> set (value_of tree p @ p)" "CHR 0x09 \<notin> set (value_of tree p)"
      "\<not> has_suffix p [CHR 0x0D]" "int (length (value_of tree p) + length p) + 1 < max_line"
      by (auto simp: recordable_def list_all_iff value_of_def w)
  qed
  have "record_text tree = concat (map (\<lambda>p. (value_of tree p @ [CHR 0x09] @ p) @ [CHR 0x0A]) ?ks)"
    by (simp add: record_text_def)
  then have "raw_lines (record_text tree) = map (\<lambda>p. value_of tree p @ [CHR 0x09] @ p) ?ks"
    using k(1) raw_lines_lines[of ?ks "\<lambda>p. value_of tree p @ [CHR 0x09] @ p"] by auto
  then have "recorded_lines (raw_lines (record_text tree)) [] = Inr (rev (map (\<lambda>p. (p, value_of tree p)) ?ks))"
    using recorded_lines_read[of ?ks "value_of tree" "[]"] k by simp
  moreover have "map_of (rev (map (\<lambda>p. (p, value_of tree p)) ?ks)) = map_of tree"
    by (rule ext) (auto simp: map_of_graph set_sorted_keys value_of_def split: option.splits dest: sym)
  ultimately show ?thesis by blast
qed

subsection \<open>What differs\<close>

definition difference :: "(string \<rightharpoonup> string) \<Rightarrow> (string \<rightharpoonup> string) \<Rightarrow> string \<Rightarrow> change_kind option" where
  "difference old new p =
     (case (old p, new p) of
        (Some a, Some b) \<Rightarrow> if a = b then None else Some Changed
      | (Some a, None) \<Rightarrow> Some Removed
      | (None, Some b) \<Rightarrow> Some Added
      | (None, None) \<Rightarrow> None)"

lemma in_map_filter:
  assumes "\<And>k y. f k = Some y \<Longrightarrow> fst y = k"
  shows "(p, kind) \<in> set (List.map_filter f ks) \<longleftrightarrow> p \<in> set ks \<and> f p = Some (p, kind)"
  using assms by (force simp: List.map_filter_def)

definition lost :: "(string \<times> string) list \<Rightarrow> (string \<times> string) list \<Rightarrow> string \<Rightarrow> (string \<times> change_kind) option" where
  "lost old new rel =
     (case map_of new rel of
        None \<Rightarrow> Some (rel, Removed)
      | Some what \<Rightarrow> if map_of old rel \<noteq> Some what then Some (rel, Changed) else None)"

definition gained :: "(string \<times> string) list \<Rightarrow> string \<Rightarrow> (string \<times> change_kind) option" where
  "gained old rel = (if map_of old rel = None then Some (rel, Added) else None)"

lemma tree_changes_parts:
  "tree_changes old new = List.map_filter (lost old new) (sorted_keys old) @ List.map_filter (gained old) (sorted_keys new)"
  by (simp add: tree_changes_def lost_def[abs_def] gained_def[abs_def])

lemma lost_fst: "lost old new k = Some y \<Longrightarrow> fst y = k"
  by (auto simp: lost_def split: option.splits if_splits)

lemma gained_fst: "gained old k = Some y \<Longrightarrow> fst y = k"
  by (auto simp: gained_def split: if_splits)

lemma set_tree_changes: "(p, kind) \<in> set (tree_changes old new) \<longleftrightarrow> difference (map_of old) (map_of new) p = Some kind"
proof -
  have "(p, kind) \<in> set (tree_changes old new) \<longleftrightarrow>
      (map_of old p \<noteq> None \<and> lost old new p = Some (p, kind)) \<or> (map_of new p \<noteq> None \<and> gained old p = Some (p, kind))"
    using in_map_filter[of "lost old new" p kind "sorted_keys old"] in_map_filter[of "gained old" p kind "sorted_keys new"]
    by (simp add: tree_changes_parts lost_fst gained_fst set_sorted_keys domIff)
  also have "\<dots> \<longleftrightarrow> difference (map_of old) (map_of new) p = Some kind"
    by (cases "map_of old p"; cases "map_of new p") (auto simp: lost_def gained_def difference_def)
  finally show ?thesis .
qed

lemma distinct_sorted_keys: "distinct (sorted_keys m)"
  unfolding sorted_keys_def by (metis distinct_remdups mset_sort_func mset_eq_imp_distinct_iff)

lemma map_filter_keys: "(\<And>k y. f k = Some y \<Longrightarrow> fst y = k) \<Longrightarrow> map fst (List.map_filter f ks) = filter (\<lambda>k. f k \<noteq> None) ks"
  by (induction ks) (auto simp: List.map_filter_simps split: option.splits)

lemma distinct_tree_changes: "distinct (map fst (tree_changes old new))"
proof -
  have "map fst (tree_changes old new)
      = filter (\<lambda>k. lost old new k \<noteq> None) (sorted_keys old) @ filter (\<lambda>k. gained old k \<noteq> None) (sorted_keys new)"
    unfolding tree_changes_parts map_append
    using map_filter_keys[of "lost old new" "sorted_keys old"] map_filter_keys[of "gained old" "sorted_keys new"]
    by (simp add: lost_fst gained_fst)
  moreover have "set (filter (\<lambda>k. gained old k \<noteq> None) (sorted_keys new)) \<inter> set (sorted_keys old) = {}"
    by (auto simp: set_sorted_keys gained_def split: if_splits)
  ultimately show ?thesis using distinct_sorted_keys[of old] distinct_sorted_keys[of new] by auto
qed

text \<open>
  C24. A check finds exactly what changed. When no name and no link target holds a byte that the lines of the
  record cannot, then whatever happens to the files later, as long as the record stays, \<open>Check\<close> succeeds. It
  returns one change for each path that is not what it was, with the right kind, in the order of the paths,
  and nothing else.
\<close>

theorem check_finds_changes:
  assumes "recordable (read_tree sha ds)" "map_of later tree_file = map_of (write_tree sha ds) tree_file"
  shows "\<exists>changes. check_tree sha later = Inr changes
    \<and> map_of changes = difference (map_of (read_tree sha ds)) (map_of (read_tree sha later))
    \<and> distinct (map fst changes) \<and> sorted_wrt (\<lambda>a b. str_cmp (fst a) (fst b) \<le> 0) changes"
proof -
  from read_record[OF assms(1)] obtain old where
    old: "recorded_lines (raw_lines (record_text (read_tree sha ds))) [] = Inr old" "map_of old = map_of (read_tree sha ds)"
    by blast
  let ?new = "read_tree sha later"
  define changes where "changes = sort_func (by_name fst) (tree_changes old ?new)"
  have "check_tree sha later = Inr changes"
    using assms(2) old(1) by (simp add: check_tree_def write_tree_def put_file_def changes_def)
  moreover have d: "distinct (map fst changes)"
    using distinct_tree_changes[of old ?new] unfolding changes_def
    by (metis mset_map mset_sort_func mset_eq_imp_distinct_iff)
  moreover have "map_of changes = difference (map_of (read_tree sha ds)) (map_of ?new)"
  proof
    fix p
    have "map_of changes p = Some kind \<longleftrightarrow> difference (map_of (read_tree sha ds)) (map_of ?new) p = Some kind" for kind
      using d set_tree_changes[of p kind old ?new] by (simp add: changes_def old(2))
    then show "map_of changes p = difference (map_of (read_tree sha ds)) (map_of ?new) p"
      by (metis not_Some_eq)
  qed
  moreover have "sorted_wrt (\<lambda>a b. str_cmp (fst a) (fst b) \<le> 0) changes"
    using go_order.sort_func_sorted[OF by_name_order, of "tree_changes old ?new" fst] by (simp add: changes_def by_name_def)
  ultimately show ?thesis by blast
qed

definition sample_sha :: "string \<Rightarrow> string" where
  "sample_sha data = (if data = [] then ''e3b0'' else ''2c26'')"

definition sample_dir :: "(string \<times> disk) list" where
  "sample_dir = [(''bin'', DDir [(''fd'', DFile 0x16D ''elf'')]), (''lib'', DLink ''bin''), (''oku-meta.toml'', DFile 0x124 [])]"

definition sample_later :: "(string \<times> disk) list" where
  "sample_later = (tree_file, DFile 0x124 (record_text (read_tree sample_sha sample_dir)))
     # [(''bin'', DDir [(''fd'', DFile 0x124 ''elf''), (''rg'', DFile 0x16D [])])]"

theorem check_finds_changes_witness:
  "check_tree sample_sha sample_later = Inr [(''bin/fd'', Changed), (''bin/rg'', Added), (''lib'', Removed)]
   \<and> (\<exists>changes. check_tree sample_sha sample_later = Inr changes
    \<and> map_of changes = difference (map_of (read_tree sample_sha sample_dir)) (map_of (read_tree sample_sha sample_later))
    \<and> distinct (map fst changes) \<and> sorted_wrt (\<lambda>a b. str_cmp (fst a) (fst b) \<le> 0) changes)"
proof
  show "check_tree sample_sha sample_later = Inr [(''bin/fd'', Changed), (''bin/rg'', Added), (''lib'', Removed)]"
    by code_simp
  have r: "recordable (read_tree sample_sha sample_dir)" by code_simp
  have "map_of sample_later tree_file = map_of (write_tree sample_sha sample_dir) tree_file"
    by (simp add: sample_later_def write_tree_def put_file_def)
  from check_finds_changes[OF r this]
  show "\<exists>changes. check_tree sample_sha sample_later = Inr changes
    \<and> map_of changes = difference (map_of (read_tree sample_sha sample_dir)) (map_of (read_tree sample_sha sample_later))
    \<and> distinct (map fst changes) \<and> sorted_wrt (\<lambda>a b. str_cmp (fst a) (fst b) \<le> 0) changes" .
qed

text \<open>
  The record writes a link's target before a tab and its path, and the check cuts a line at the first tab. So
  a path with a link whose target holds a tab never checks clean, and one with a line feed cannot be checked.
\<close>

theorem tab_in_target_reported:
  "check_tree sample_sha (write_tree sample_sha [(''a'', DLink [CHR ''x'', CHR 0x09, CHR ''y''])])
     = Inr [(''a'', Added), ([CHR ''y'', CHR 0x09, CHR ''a''], Removed)]
   \<and> check_tree sample_sha (write_tree sample_sha [(''a'', DLink [CHR ''x'', CHR 0x0A, CHR ''y''])]) = Inl NoPath"
  by code_simp

end
