(* ===== verification/Lock_Merge.thy ===== *)
theory Lock_Merge
  imports Lock Version
begin

text \<open>
  The merge of a lock with git conflicts, \<open>internal/cli/lockconflict.go\<close>. What git holds of each side is the
  argument \<open>side\<close>, and the TOML library the argument \<open>unmarshal\<close>. Printing the notes is not modelled: a note
  is a value that names the choice.
\<close>

record conflict =
  cf_ours :: lock
  cf_theirs :: lock
  cf_ours_name :: string
  cf_theirs_name :: string

datatype conflict_error =
    NoCopy string
  | BadSide string lock_error
  | LockedFlag

text \<open>Git's stage 2 is ours and stage 3 theirs.\<close>

definition read_side ::
  "(nat \<Rightarrow> string option) \<Rightarrow> (string \<Rightarrow> (string, lock) res) \<Rightarrow> string \<Rightarrow> nat \<Rightarrow> string \<Rightarrow> (conflict_error, lock) res" where
  "read_side side unmarshal path stage name =
     (case side stage of
        None \<Rightarrow> Inl (NoCopy name)
      | Some data \<Rightarrow> (case parse_lock_file unmarshal data path of Inl e \<Rightarrow> Inl (BadSide name e) | Inr l \<Rightarrow> Inr l))"

definition read_conflict ::
  "(nat \<Rightarrow> string option) \<Rightarrow> (string \<Rightarrow> (string, lock) res) \<Rightarrow> string \<Rightarrow> string option
     \<Rightarrow> (conflict_error, conflict option) res" where
  "read_conflict side unmarshal path file =
     (case file of
        None \<Rightarrow> Inr None
      | Some data \<Rightarrow>
          (case conflicted data of
             (_, False) \<Rightarrow> Inr None
           | ((ours, theirs), True) \<Rightarrow>
               and_then (read_side side unmarshal path 2 ours) (\<lambda>o'.
               and_then (read_side side unmarshal path 3 theirs) (\<lambda>t.
                 Inr (Some \<lparr>cf_ours = o', cf_theirs = t, cf_ours_name = ours, cf_theirs_name = theirs\<rparr>)))))"

subsection \<open>The merge\<close>

datatype merge_note =
    KeptList string string
  | Took string string string string

definition with_pins :: "package \<Rightarrow> (string \<times> lock_platform) list \<Rightarrow> package list \<Rightarrow> package" where
  "with_pins p ps ds =
     Package (k_name p) (k_ref p) (k_commit p) (k_manifest_sha256 p) (k_version p) (k_signing_key p)
       (k_signer_workflow p) (k_tag p) (k_tag_commit p) (k_inferred p) (k_manifest p) (k_asset p) (k_bins p) ps ds"

text \<open>\<open>maps.Copy\<close> of theirs and then of ours: an entry of ours wins.\<close>

definition both_platforms :: "package \<Rightarrow> package \<Rightarrow> (string \<times> lock_platform) list" where
  "both_platforms ours theirs =
     k_platforms ours @ filter (\<lambda>(key, _). platform_at ours key = None) (k_platforms theirs)"

definition add_dep :: "package \<Rightarrow> package list \<Rightarrow> package list" where
  "add_dep dep ds =
     (if list_ex (\<lambda>d. k_ref d = k_ref dep \<and> k_version d = k_version dep) ds then ds else ds @ [dep])"

definition same_pin :: "package \<Rightarrow> package \<Rightarrow> package" where
  "same_pin ours theirs =
     with_pins ours (both_platforms ours theirs) (fold add_dep (k_deps theirs) (k_deps ours))"

definition merge_include :: "conflict \<Rightarrow> lock_include \<Rightarrow> lock \<times> merge_note list \<Rightarrow> lock \<times> merge_note list" where
  "merge_include c inc st =
     (let (merged, notes) = st
      in case find_include (cf_ours c) (i_ref inc) of
           None \<Rightarrow> (merged\<lparr>lock_includes := lock_includes merged @ [inc]\<rparr>, notes)
         | Some ours \<Rightarrow>
             if i_commit ours \<noteq> i_commit inc \<or> i_sha256 ours \<noteq> i_sha256 inc
             then (merged, notes @ [KeptList (i_ref inc) (cf_ours_name c)]) else st)"

definition merge_package :: "conflict \<Rightarrow> package \<Rightarrow> lock \<times> merge_note list \<Rightarrow> lock \<times> merge_note list" where
  "merge_package c theirs st =
     (let (merged, notes) = st
      in case lock_find (cf_ours c) (k_name theirs) of
           None \<Rightarrow> (lock_set theirs merged, notes)
         | Some ours \<Rightarrow>
             (let order = compare (k_version ours) (k_version theirs)
              in if order < 0
                 then (lock_set theirs merged,
                       notes @ [Took (k_name theirs) (k_version theirs) (cf_theirs_name c) (k_version ours)])
                 else if order > 0
                 then (merged, notes @ [Took (k_name ours) (k_version ours) (cf_ours_name c) (k_version theirs)])
                 else (lock_set (same_pin ours theirs) merged, notes)))"

definition merge_locks :: "conflict \<Rightarrow> lock \<times> merge_note list" where
  "merge_locks c =
     fold (merge_package c) (lock_packages (cf_theirs c))
       (fold (merge_include c) (lock_includes (cf_theirs c)) (cf_ours c, []))"

text \<open>
  \<open>mergeConflict\<close>: the text that is written over the lock and the notes, or nothing to do. Saving what the
  lists held before only copies files.
\<close>

definition merge_conflict ::
  "(nat \<Rightarrow> string option) \<Rightarrow> (string \<Rightarrow> (string, lock) res) \<Rightarrow> (lock \<Rightarrow> string) \<Rightarrow> bool \<Rightarrow> string \<Rightarrow> string option
     \<Rightarrow> (conflict_error, (string \<times> merge_note list) option) res" where
  "merge_conflict side unmarshal marshal locked path file =
     and_then (read_conflict side unmarshal path file) (\<lambda>found.
       case found of
         None \<Rightarrow> Inr None
       | Some c \<Rightarrow>
           if locked then Inl LockedFlag
           else (let (merged, notes) = merge_locks c
                 in Inr (Some (fst (lock_bytes marshal merged path), notes))))"

end
