(* ===== verification/Lock_Merge_Props.thy ===== *)
theory Lock_Merge_Props
  imports Lock_Merge Lock_Props Version_Laws
begin

text \<open>What a merge of two locks keeps: every package, at the newer of its versions.\<close>

lemma k_with_pins [simp]:
  "k_name (with_pins p ps ds) = k_name p" "k_version (with_pins p ps ds) = k_version p" "k_ref (with_pins p ps ds) = k_ref p"
  "k_platforms (with_pins p ps ds) = ps" "k_deps (with_pins p ps ds) = ds"
  by (simp_all add: with_pins_def)

lemma with_pins_self [simp]: "with_pins p (k_platforms p) (k_deps p) = p"
  by (cases p) (simp add: with_pins_def)

lemma same_pin_fields [simp]:
  "k_name (same_pin a b) = k_name a" "k_version (same_pin a b) = k_version a" "k_ref (same_pin a b) = k_ref a"
  by (simp_all add: same_pin_def)

lemma platform_at_same_pin:
  "platform_at (same_pin a b) key = (case platform_at a key of Some x \<Rightarrow> Some x | None \<Rightarrow> platform_at b key)"
proof -
  have "map_of (filter (\<lambda>(k, _). platform_at a k = None) ps) key = (if platform_at a key = None then map_of ps key else None)"
    for ps :: "(string \<times> lock_platform) list"
    by (induction ps) auto
  then show ?thesis
    by (auto simp: same_pin_def platform_at_def both_platforms_def map_add_def split: option.splits)
qed

text \<open>What the merge keeps of one name.\<close>

definition newer_pin :: "package option \<Rightarrow> package option \<Rightarrow> package option" where
  "newer_pin ours theirs =
     (case (ours, theirs) of
        (Some a, Some b) \<Rightarrow>
          if compare (k_version a) (k_version b) < 0 then Some b
          else if compare (k_version a) (k_version b) > 0 then Some a else Some (same_pin a b)
      | (Some a, None) \<Rightarrow> Some a
      | (None, Some b) \<Rightarrow> Some b
      | (None, None) \<Rightarrow> None)"

lemma lock_find_name: "lock_find l n = Some p \<Longrightarrow> k_name p = n"
  by (auto simp: lock_find_def find_Some_iff)

lemma merge_include_packages: "lock_packages (fst (fold (merge_include c) incs st)) = lock_packages (fst st)"
proof (induction incs arbitrary: st)
  case (Cons inc incs)
  have "lock_packages (fst (merge_include c inc st)) = lock_packages (fst st)"
    by (auto simp: merge_include_def Let_def split: option.split prod.split)
  with Cons show ?case by simp
qed simp

lemma merge_package_find:
  assumes "lock_find (fst st) (k_name p) = lock_find (cf_ours c) (k_name p)"
  shows "lock_find (fst (merge_package c p st)) n
    = (if n = k_name p then newer_pin (lock_find (cf_ours c) n) (Some p) else lock_find (fst st) n)"
proof (cases "lock_find (cf_ours c) (k_name p)")
  case None
  then show ?thesis
    by (cases st) (simp add: merge_package_def lock_find_set newer_pin_def)
next
  case (Some a)
  with lock_find_name[OF Some] assms show ?thesis
    by (cases st) (auto simp: merge_package_def lock_find_set newer_pin_def Let_def)
qed

lemma merge_package_distinct: "distinct_names (fst st) \<Longrightarrow> distinct_names (fst (merge_package c p st))"
  by (auto simp: merge_package_def Let_def distinct_names_set split: option.split prod.split)

lemma merge_packages_find:
  assumes "distinct (map k_name ps)" "\<forall>p\<in>set ps. lock_find (fst st) (k_name p) = lock_find (cf_ours c) (k_name p)"
  shows "lock_find (fst (fold (merge_package c) ps st)) n
    = (case find (\<lambda>p. k_name p = n) ps of
         None \<Rightarrow> lock_find (fst st) n | Some p \<Rightarrow> newer_pin (lock_find (cf_ours c) n) (Some p))"
  using assms
proof (induction ps arbitrary: st)
  case (Cons p ps)
  let ?st = "merge_package c p st"
  have step: "lock_find (fst ?st) m
      = (if m = k_name p then newer_pin (lock_find (cf_ours c) m) (Some p) else lock_find (fst st) m)" for m
    using Cons.prems(2) by (intro merge_package_find) simp
  have "\<forall>q\<in>set ps. lock_find (fst ?st) (k_name q) = lock_find (cf_ours c) (k_name q)"
  proof
    fix q assume "q \<in> set ps"
    then have "k_name q \<noteq> k_name p"
      using Cons.prems(1) by (metis distinct.simps(2) image_eqI list.set_map list.simps(9))
    moreover have "lock_find (fst st) (k_name q) = lock_find (cf_ours c) (k_name q)"
      using \<open>q \<in> set ps\<close> Cons.prems(2) by simp
    ultimately show "lock_find (fst ?st) (k_name q) = lock_find (cf_ours c) (k_name q)" by (simp add: step)
  qed
  with Cons.IH[of ?st] Cons.prems(1)
  have ih: "lock_find (fst (fold (merge_package c) ps ?st)) n
    = (case find (\<lambda>p. k_name p = n) ps of
         None \<Rightarrow> lock_find (fst ?st) n | Some p \<Rightarrow> newer_pin (lock_find (cf_ours c) n) (Some p))" by simp
  show ?case
  proof (cases "k_name p = n")
    case True
    then have "find (\<lambda>p. k_name p = n) ps = None" using Cons.prems(1)
      by (auto simp: find_None_iff dest: image_eqI[where f = k_name, OF sym])
    with ih step True show ?thesis by simp
  qed (simp add: ih step split: option.split)
qed simp

lemma lock_find_same_packages: "lock_packages l = lock_packages l' \<Longrightarrow> lock_find l n = lock_find l' n"
  by (simp add: lock_find_def)

lemma merge_locks_find:
  assumes "distinct_names (cf_theirs c)"
  shows "lock_find (fst (merge_locks c)) n = newer_pin (lock_find (cf_ours c) n) (lock_find (cf_theirs c) n)"
proof -
  let ?st = "fold (merge_include c) (lock_includes (cf_theirs c)) (cf_ours c, [])"
  have st: "lock_find (fst ?st) m = lock_find (cf_ours c) m" for m
    using merge_include_packages[of c "lock_includes (cf_theirs c)" "(cf_ours c, [])"]
    by (intro lock_find_same_packages) simp
  have "lock_find (fst (merge_locks c)) n =
      (case lock_find (cf_theirs c) n of
         None \<Rightarrow> lock_find (cf_ours c) n | Some p \<Rightarrow> newer_pin (lock_find (cf_ours c) n) (Some p))"
    unfolding merge_locks_def using assms
    by (subst merge_packages_find)
      (simp_all only: st distinct_names_def lock_find_def[of "cf_theirs c"] simp_thms, simp)
  then show ?thesis by (auto simp: newer_pin_def split: option.splits)
qed

text \<open>
  C25. A merge loses nothing and takes the newer side. The merged lock holds a name exactly when one of the
  sides does; its version is the version of one of the sides, and no side has a newer one; and every platform
  that a side pins at the version that was taken is pinned in the merge.
\<close>

theorem merge_takes_newer:
  assumes "distinct_names (cf_theirs c)"
  shows "lock_find (fst (merge_locks c)) n = newer_pin (lock_find (cf_ours c) n) (lock_find (cf_theirs c) n)
    \<and> (lock_find (fst (merge_locks c)) n = None \<longleftrightarrow> lock_find (cf_ours c) n = None \<and> lock_find (cf_theirs c) n = None)
    \<and> (\<forall>p side. lock_find (fst (merge_locks c)) n = Some p
         \<longrightarrow> (lock_find (cf_ours c) n = Some side \<or> lock_find (cf_theirs c) n = Some side)
         \<longrightarrow> compare (k_version side) (k_version p) \<le> 0
           \<and> (compare (k_version side) (k_version p) = 0 \<longrightarrow> dom (platform_at side) \<subseteq> dom (platform_at p)))"
proof -
  have find: "lock_find (fst (merge_locks c)) n = newer_pin (lock_find (cf_ours c) n) (lock_find (cf_theirs c) n)"
    by (rule merge_locks_find[OF assms])
  have swap: "compare v w = - compare w v" for v w by (rule compare_swap_any)
  have "compare (k_version side) (k_version p) \<le> 0
      \<and> (compare (k_version side) (k_version p) = 0 \<longrightarrow> dom (platform_at side) \<subseteq> dom (platform_at p))"
    if p: "newer_pin a b = Some p" and side: "a = Some side \<or> b = Some side" for a b p side
  proof (cases a; cases b)
    fix x y assume ab: "a = Some x" "b = Some y"
    consider (less) "compare (k_version x) (k_version y) < 0" | (gt) "compare (k_version x) (k_version y) > 0"
      | (eq) "compare (k_version x) (k_version y) = 0" by linarith
    then show ?thesis
    proof cases
      case less
      then show ?thesis using p side ab by (auto simp: newer_pin_def)
    next
      case gt
      then have "compare (k_version y) (k_version x) < 0" using swap[of "k_version y"] by simp
      then show ?thesis using p side ab gt by (auto simp: newer_pin_def)
    next
      case eq
      then have "compare (k_version y) (k_version x) = 0" using swap[of "k_version y"] by simp
      then show ?thesis using p side ab eq
        by (auto simp: newer_pin_def platform_at_same_pin dom_def split: option.splits)
    qed
  qed (use p side in \<open>auto simp: newer_pin_def\<close>)
  moreover have "newer_pin a b = None \<longleftrightarrow> a = None \<and> b = None" for a b
    by (auto simp: newer_pin_def split: option.splits)
  ultimately show ?thesis unfolding find by blast
qed

definition merge_example :: conflict where
  "merge_example =
     \<lparr>cf_ours = \<lparr>lock_includes = [], lock_packages = [pinned ''rg'' ''github:o/rg'' ''14.1'' [], pinned ''fd'' ''github:s/fd'' ''9.0'' []]\<rparr>,
      cf_theirs = \<lparr>lock_includes = [], lock_packages = [pinned ''fd'' ''github:s/fd'' ''10.0'' [], pinned ''jq'' ''github:j/jq'' ''1.7'' []]\<rparr>,
      cf_ours_name = ''HEAD'', cf_theirs_name = ''feature''\<rparr>"

theorem merge_takes_newer_witness:
  "lock_find (fst (merge_locks merge_example)) ''fd''
     = newer_pin (lock_find (cf_ours merge_example) ''fd'') (lock_find (cf_theirs merge_example) ''fd'')
   \<and> newer_pin (lock_find (cf_ours merge_example) ''fd'') (lock_find (cf_theirs merge_example) ''fd'')
     = Some (pinned ''fd'' ''github:s/fd'' ''10.0'' [])"
proof
  have "distinct_names (cf_theirs merge_example)" by code_simp
  from merge_takes_newer[OF this, of "''fd''"]
  show "lock_find (fst (merge_locks merge_example)) ''fd''
     = newer_pin (lock_find (cf_ours merge_example) ''fd'') (lock_find (cf_theirs merge_example) ''fd'')" by blast
  show "newer_pin (lock_find (cf_ours merge_example) ''fd'') (lock_find (cf_theirs merge_example) ''fd'')
     = Some (pinned ''fd'' ''github:s/fd'' ''10.0'' [])" by code_simp
qed

text \<open>
  \<open>samePin\<close> does not compare the refs of the two sides. When they pin one version of a name from two refs,
  the merge gives the package of ours the downloads of the other ref for the platforms that ours lacks.
\<close>

definition from_ref :: "string \<Rightarrow> string \<Rightarrow> string \<Rightarrow> package" where
  "from_ref r key url = with_pins (pinned ''fd'' r ''10.0'' [])
     [(key, \<lparr>l_strategy = [], l_url = url, l_sha256 = [], l_verified = [], l_impure = False, l_commands = False,
        l_vendor_sha256 = [], l_version = [], l_tag = [], l_signed_at = 0\<rparr>)] []"

theorem merge_mixes_refs:
  "(let c = \<lparr>cf_ours = \<lparr>lock_includes = [], lock_packages = [from_ref ''github:sharkdp/fd'' ''linux-amd64'' ''https://a'']\<rparr>,
      cf_theirs = \<lparr>lock_includes = [], lock_packages = [from_ref ''github:fork/fd'' ''darwin-arm64'' ''https://b'']\<rparr>,
      cf_ours_name = ''HEAD'', cf_theirs_name = ''feature''\<rparr>;
        p = lock_find (fst (merge_locks c)) ''fd''
    in map_option k_ref p = Some ''github:sharkdp/fd''
       \<and> map_option (\<lambda>p. map_option l_url (platform_at p ''darwin-arm64'')) p = Some (Some ''https://b''))"
  by code_simp

end
