(* ===== verification/Extract.thy ===== *)
theory Extract
  imports Go_Path "HOL-Library.Word"
begin

unbundle bit_operations_syntax

text \<open>
  Unpacking archives, \<open>internal/store/extract.go\<close>, on Unix. The readers of the formats are outside: an archive
  is the list of its entries. The times of files are left out. \<open>os.Root\<close> is modelled by what its
  documentation says: it follows links that stay in the root, at most eight of them, and fails on one that
  leaves it.
\<close>

subsection \<open>The directory that an archive unpacks to\<close>

text \<open>A file is a number into the heap, so two hard links share their bytes and their mode.\<close>

datatype node = NDir | NFile nat | NLink string

record unpacked =
  un_nodes :: "(string list \<times> node) list"
  un_heap :: "(nat \<times> string) list"
  un_written :: int

definition empty_root :: unpacked where
  "empty_root = \<lparr>un_nodes = [], un_heap = [], un_written = 0\<rparr>"

definition node_at :: "unpacked \<Rightarrow> string list \<Rightarrow> node option" where
  "node_at u p = (if p = [] then Some NDir else map_of (un_nodes u) p)"

definition add_node :: "string list \<Rightarrow> node \<Rightarrow> unpacked \<Rightarrow> unpacked" where
  "add_node p n u = u\<lparr>un_nodes := (p, n) # un_nodes u\<rparr>"

definition comps :: "string \<Rightarrow> string list" where
  "comps name = split_char (CHR ''/'') name"

datatype extract_error =
    OutsideEntry string
  | Escapes
  | TooManyLinks
  | NotDirectory
  | IsDirectory
  | Exists
  | Missing
  | LinkOutside string
  | StrippedTarget string
  | NoRelative
  | TooLarge
  | BadArchive string

text \<open>A loop over items that stops at the first error.\<close>

fun each :: "('a \<Rightarrow> 's \<Rightarrow> ('e, 's) res) \<Rightarrow> 'a list \<Rightarrow> 's \<Rightarrow> ('e, 's) res" where
  "each f [] s = Inr s"
| "each f (x # xs) s = and_then (f x s) (each f xs)"

definition root_links :: nat where "root_links = 8"

text \<open>
  The place that a name leads to below the directory \<open>b\<close>, links in every element followed. \<open>n\<close> is how many
  links are left.
\<close>

function root_find ::
  "unpacked \<Rightarrow> string list \<Rightarrow> nat \<Rightarrow> string list \<Rightarrow> string list \<Rightarrow> (extract_error, string list) res" where
  "root_find u b n at [] = Inr at"
| "root_find u b n at (part # rest) =
     (if part = [] \<or> part = ''.'' then root_find u b n at rest
      else if part = ''..'' then (if at = [] then Inl Escapes else root_find u b n (butlast at) rest)
      else (case node_at u (b @ at @ [part]) of
              Some NDir \<Rightarrow> root_find u b n (at @ [part]) rest
            | Some (NFile _) \<Rightarrow> if rest = [] then Inr (at @ [part]) else Inl NotDirectory
            | Some (NLink target) \<Rightarrow>
                if is_abs target then Inl Escapes
                else if n = 0 then Inl TooManyLinks
                else root_find u b (n - 1) at (comps target @ rest)
            | None \<Rightarrow> if rest = [] then Inr (at @ [part]) else Inl Missing))"
  by pat_completeness auto

termination
  by (relation "measures [\<lambda>(u, b, n, at, rest). n, \<lambda>(u, b, n, at, rest). length rest]") auto

text \<open>\<open>MkdirAll\<close>: what is missing becomes a directory.\<close>

function root_mkdirs ::
  "unpacked \<Rightarrow> nat \<Rightarrow> string list \<Rightarrow> string list \<Rightarrow> (extract_error, unpacked) res" where
  "root_mkdirs u n at [] = Inr u"
| "root_mkdirs u n at (part # rest) =
     (if part = [] \<or> part = ''.'' then root_mkdirs u n at rest
      else if part = ''..'' then (if at = [] then Inl Escapes else root_mkdirs u n (butlast at) rest)
      else (case node_at u (at @ [part]) of
              Some NDir \<Rightarrow> root_mkdirs u n (at @ [part]) rest
            | Some (NFile _) \<Rightarrow> Inl NotDirectory
            | Some (NLink target) \<Rightarrow>
                if is_abs target then Inl Escapes
                else if n = 0 then Inl TooManyLinks
                else root_mkdirs u (n - 1) at (comps target @ rest)
            | None \<Rightarrow> root_mkdirs (add_node (at @ [part]) NDir u) n (at @ [part]) rest))"
  by pat_completeness auto

termination
  by (relation "measures [\<lambda>(u, n, at, rest). n, \<lambda>(u, n, at, rest). length rest]") auto

definition mkdir_all :: "string \<Rightarrow> unpacked \<Rightarrow> (extract_error, unpacked) res" where
  "mkdir_all name u = root_mkdirs u root_links [] (comps name)"

definition root_dir :: "unpacked \<Rightarrow> string list \<Rightarrow> (extract_error, string list) res" where
  "root_dir u ps =
     and_then (root_find u [] root_links [] ps) (\<lambda>p.
       case node_at u p of Some NDir \<Rightarrow> Inr p | None \<Rightarrow> Inl Missing | _ \<Rightarrow> Inl NotDirectory)"

text \<open>The place of a name whose last element is not followed.\<close>

definition root_place :: "unpacked \<Rightarrow> string \<Rightarrow> (extract_error, string list) res" where
  "root_place u name = and_then (root_dir u (butlast (comps name))) (\<lambda>d. Inr (d @ [last (comps name)]))"

definition root_symlink :: "string \<Rightarrow> string \<Rightarrow> unpacked \<Rightarrow> (extract_error, unpacked) res" where
  "root_symlink target name u =
     and_then (root_place u name) (\<lambda>p.
       if node_at u p \<noteq> None then Inl Exists else Inr (add_node p (NLink target) u))"

definition root_link :: "string \<Rightarrow> string \<Rightarrow> unpacked \<Rightarrow> (extract_error, unpacked) res" where
  "root_link old new u =
     and_then (root_place u old) (\<lambda>p.
     and_then (root_place u new) (\<lambda>q.
       case node_at u p of
         None \<Rightarrow> Inl Missing
       | Some NDir \<Rightarrow> Inl IsDirectory
       | Some n \<Rightarrow> if node_at u q \<noteq> None then Inl Exists else Inr (add_node q n u)))"

subsection \<open>Names\<close>

definition slashes :: "string \<Rightarrow> string" where
  "slashes name = map (\<lambda>c. if c = CHR 0x5C then CHR ''/'' else c) name"

definition strip_path :: "string \<Rightarrow> nat \<Rightarrow> (extract_error, string option) res" where
  "strip_path name n =
     (let clean = path_clean (slashes name)
      in if is_abs clean \<or> clean = ''..'' \<or> has_prefix clean ''../'' then Inl (OutsideEntry clean)
         else (let parts = comps clean
               in if length parts \<le> n then Inr None
                  else (let rest = path_join (drop n parts) in Inr (if rest \<noteq> ''.'' then Some rest else None))))"

definition rooted :: "string \<Rightarrow> bool" where
  "rooted target \<longleftrightarrow> is_abs target \<or> has_prefix target ''/'' \<or> has_prefix target [CHR 0x5C]"

definition rooted_link :: "string \<Rightarrow> string \<Rightarrow> nat \<Rightarrow> (extract_error, string) res" where
  "rooted_link name target strip =
     (if \<not> is_abs target then Inr target
      else and_then (strip_path (trim_left_of target ''/'') strip) (\<lambda>found.
        case found of
          None \<Rightarrow> Inl (StrippedTarget target)
        | Some stripped \<Rightarrow>
            (case path_rel (path_dir name) stripped of None \<Rightarrow> Inl NoRelative | Some rel \<Rightarrow> Inr rel)))"

subsection \<open>Writing one entry\<close>

definition max_unpacked :: int where "max_unpacked = 32 * 2 ^ 30"

definition file_write :: "string \<Rightarrow> nat \<Rightarrow> string \<Rightarrow> unpacked \<Rightarrow> (extract_error, unpacked) res" where
  "file_write name mode data u =
     and_then (mkdir_all (path_dir name) u) (\<lambda>u'.
     and_then (root_dir u' (comps (path_dir name))) (\<lambda>d.
     and_then (root_find u' d root_links [] [path_base name]) (\<lambda>q.
       case node_at u' (d @ q) of
         Some NDir \<Rightarrow> Inl IsDirectory
       | Some (NLink _) \<Rightarrow> Inl TooManyLinks
       | found \<Rightarrow>
           (let written = un_written u' + int (length data)
            in if written > max_unpacked then Inl TooLarge
               else Inr (case found of
                   Some (NFile i) \<Rightarrow>
                     u'\<lparr>un_heap := (un_heap u')[i := (fst (un_heap u' ! i), data)], un_written := written\<rparr>
                 | _ \<Rightarrow> (add_node (d @ q) (NFile (length (un_heap u'))) u')
                         \<lparr>un_heap := un_heap u' @ [((mode AND 0x1FF) OR 0x180, data)], un_written := written\<rparr>)))))"

definition write_symlink :: "string \<Rightarrow> string \<Rightarrow> unpacked \<Rightarrow> (extract_error, unpacked) res" where
  "write_symlink name target u =
     (let resolved = path_join [path_dir name, target]
      in if rooted target \<or> resolved = ''..'' \<or> has_prefix resolved ''../'' then Inl (LinkOutside target)
         else and_then (mkdir_all (path_dir name) u) (root_symlink target name))"

subsection \<open>Tar\<close>

datatype tar_entry =
    TarDir string
  | TarFile string nat string
  | TarSymlink string string
  | TarLink string string
  | TarOther string

fun tar_name :: "tar_entry \<Rightarrow> string" where
  "tar_name (TarDir n) = n"
| "tar_name (TarFile n m d) = n"
| "tar_name (TarSymlink n t) = n"
| "tar_name (TarLink n t) = n"
| "tar_name (TarOther n) = n"

definition untar_entry :: "nat \<Rightarrow> bool \<Rightarrow> tar_entry \<Rightarrow> string \<Rightarrow> unpacked \<Rightarrow> (extract_error, unpacked) res" where
  "untar_entry strip deb e name u =
     (case e of
        TarDir _ \<Rightarrow> mkdir_all name u
      | TarFile _ mode data \<Rightarrow> file_write name mode data u
      | TarSymlink _ target \<Rightarrow>
          and_then (if deb then rooted_link name target strip else Inr target) (\<lambda>t. write_symlink name t u)
      | TarLink _ linked \<Rightarrow>
          and_then (strip_path linked strip) (\<lambda>found.
            case found of None \<Rightarrow> Inl (StrippedTarget linked) | Some old \<Rightarrow> root_link old name u)
      | TarOther _ \<Rightarrow> Inr u)"

text \<open>The reader gives the entries one after the other, or an error.\<close>

definition untar_round ::
  "nat \<Rightarrow> bool \<Rightarrow> (string, tar_entry) res \<Rightarrow> unpacked \<Rightarrow> (extract_error, unpacked) res" where
  "untar_round strip deb read u =
     (case read of
        Inl e \<Rightarrow> Inl (BadArchive e)
      | Inr e \<Rightarrow>
          and_then (strip_path (tar_name e) strip) (\<lambda>found.
            case found of None \<Rightarrow> Inr u | Some name \<Rightarrow> untar_entry strip deb e name u))"

definition untar :: "nat \<Rightarrow> bool \<Rightarrow> (string, tar_entry) res list \<Rightarrow> unpacked \<Rightarrow> (extract_error, unpacked) res" where
  "untar strip deb es = each (untar_round strip deb) es"

subsection \<open>Zip\<close>

datatype zip_kind = ZDir | ZLink | ZFile

record zip_entry =
  ze_name :: string
  ze_kind :: zip_kind
  ze_mode :: nat
  ze_data :: string

text \<open>The entries that are left, each under its new name.\<close>

fun strip_entries :: "nat \<Rightarrow> zip_entry list \<Rightarrow> (extract_error, zip_entry list) res" where
  "strip_entries n [] = Inr []"
| "strip_entries n (e # es) =
     and_then (strip_path (ze_name e) n) (\<lambda>found.
     and_then (strip_entries n es) (\<lambda>rest.
       Inr (case found of None \<Rightarrow> rest | Some name \<Rightarrow> e\<lparr>ze_name := name\<rparr> # rest)))"

text \<open>The directories above a name, up to and without the root. A name has no more of them than bytes.\<close>

fun above :: "nat \<Rightarrow> string \<Rightarrow> string list" where
  "above 0 name = []"
| "above (Suc n) name = (let dir = path_dir name in if dir = ''.'' then [] else dir # above n dir)"

definition in_order :: "zip_entry list \<Rightarrow> bool" where
  "in_order es \<longleftrightarrow>
     \<not> distinct (map ze_name es)
     \<or> list_ex (\<lambda>e. list_ex (\<lambda>dir. dir \<in> ze_name ` set (filter (\<lambda>l. ze_kind l = ZLink) es))
                    (above (length (ze_name e)) (ze_name e))) es"

definition unpack_entry :: "zip_entry \<Rightarrow> unpacked \<Rightarrow> (extract_error, unpacked) res" where
  "unpack_entry e u =
     (case ze_kind e of
        ZDir \<Rightarrow> mkdir_all (ze_name e) u
      | ZLink \<Rightarrow> write_symlink (ze_name e) (ze_data e) u
      | ZFile \<Rightarrow> file_write (ze_name e) (ze_mode e) (ze_data e) u)"

text \<open>The first loop: the directories of the archive, and those of its files once each.\<close>

definition make_dirs :: "zip_entry \<Rightarrow> unpacked \<times> string list \<Rightarrow> (extract_error, unpacked \<times> string list) res" where
  "make_dirs e st =
     (let (u, dirs) = st
      in case ze_kind e of
           ZDir \<Rightarrow> and_then (mkdir_all (ze_name e) u) (\<lambda>u'. Inr (u', dirs))
         | ZLink \<Rightarrow> Inr st
         | ZFile \<Rightarrow>
             if path_dir (ze_name e) \<in> set dirs then Inr st
             else and_then (mkdir_all (path_dir (ze_name e)) u) (\<lambda>u'. Inr (u', dirs @ [path_dir (ze_name e)])))"

text \<open>
  The workers write the files in some order, which is the argument \<open>sched\<close>: every order in which eight
  workers that take a directory at a time can write them is one of its values.
\<close>

definition unzip_at_once :: "zip_entry list \<Rightarrow> zip_entry list \<Rightarrow> unpacked \<Rightarrow> (extract_error, unpacked) res" where
  "unzip_at_once es sched u =
     and_then (each make_dirs es (u, [])) (\<lambda>(u1, dirs).
     and_then (each unpack_entry sched u1) (each unpack_entry (filter (\<lambda>e. ze_kind e = ZLink) es)))"

definition unzip :: "nat \<Rightarrow> zip_entry list \<Rightarrow> zip_entry list \<Rightarrow> unpacked \<Rightarrow> (extract_error, unpacked) res" where
  "unzip strip es sched u =
     and_then (strip_entries strip es) (\<lambda>named.
       if in_order named then each unpack_entry named u else unzip_at_once named sched u)"

subsection \<open>The links of the finished tree\<close>

definition max_links :: nat where "max_links = 255"

function resolves_inside :: "unpacked \<Rightarrow> nat \<Rightarrow> string list \<Rightarrow> string list \<Rightarrow> bool" where
  "resolves_inside u n at [] = True"
| "resolves_inside u n at (part # rest) =
     (if part = [] \<or> part = ''.'' then resolves_inside u n at rest
      else if part = ''..'' then at \<noteq> [] \<and> resolves_inside u n (butlast at) rest
      else (case node_at u (at @ [part]) of
              Some (NLink target) \<Rightarrow>
                if n = 0 \<or> rooted target then False else resolves_inside u (n - 1) at (comps target @ rest)
            | _ \<Rightarrow> resolves_inside u n (at @ [part]) rest))"
  by pat_completeness auto

termination
  by (relation "measures [\<lambda>(u, n, at, rest). n, \<lambda>(u, n, at, rest). length rest]") auto

definition link_inside :: "unpacked \<Rightarrow> string list \<times> node \<Rightarrow> bool" where
  "link_inside u e =
     (case e of
        (p, NLink target) \<Rightarrow>
          \<not> rooted target \<and> resolves_inside u max_links [] (comps (path_dir (join ''/'' p) @ ''/'' @ target))
      | _ \<Rightarrow> True)"

definition links_inside :: "unpacked \<Rightarrow> bool" where
  "links_inside u \<longleftrightarrow> list_all (link_inside u) (un_nodes u)"

text \<open>\<open>extract\<close>: what a reader unpacks into an empty directory, and the check of the result.\<close>

datatype archive =
    Tar bool "(string, tar_entry) res list"
  | Zip "zip_entry list" "zip_entry list"

definition unpack_archive :: "archive \<Rightarrow> nat \<Rightarrow> unpacked \<Rightarrow> (extract_error, unpacked) res" where
  "unpack_archive a strip u =
     (case a of Tar deb es \<Rightarrow> untar strip deb es u | Zip es sched \<Rightarrow> unzip strip es sched u)"

definition extract_archive :: "archive \<Rightarrow> nat \<Rightarrow> unpacked \<Rightarrow> (extract_error, unpacked) res" where
  "extract_archive a strip u =
     and_then (unpack_archive a strip u) (\<lambda>u'. if links_inside u' then Inr u' else Inl (LinkOutside []))"

end
