(* ===== verification/Extract_Laws.thy ===== *)
theory Extract_Laws
  imports Extract
begin

text \<open>
  The shape that every operation of the root keeps: each entry is below a directory, under a plain name, and
  once only.
\<close>

subsection \<open>Well-formed trees\<close>

definition plain_name :: "string \<Rightarrow> bool" where
  "plain_name e \<longleftrightarrow> e \<notin> {[], ''.'', ''..''} \<and> CHR ''/'' \<notin> set e"

lemma plain_names_all: "plain_names es \<longleftrightarrow> (\<forall>e\<in>set es. plain_name e)"
  by (auto simp: plain_names_def plain_name_def)

definition no_slash :: "string list \<Rightarrow> bool" where
  "no_slash es \<longleftrightarrow> (\<forall>e\<in>set es. CHR ''/'' \<notin> set e)"

lemma no_slash_simps [simp]:
  "no_slash []" "no_slash (e # es) \<longleftrightarrow> CHR ''/'' \<notin> set e \<and> no_slash es"
  "no_slash (es @ fs) \<longleftrightarrow> no_slash es \<and> no_slash fs" "no_slash (comps name)"
  by (auto simp: no_slash_def comps_def dest: split_char_no_sep)

lemma no_slash_butlast: "no_slash es \<Longrightarrow> no_slash (butlast es)"
  by (auto simp: no_slash_def dest: in_set_butlastD)

definition tree_ok :: "unpacked \<Rightarrow> bool" where
  "tree_ok u \<longleftrightarrow> distinct (map fst (un_nodes u))
     \<and> (\<forall>(p, n)\<in>set (un_nodes u). p \<noteq> [] \<and> plain_names p \<and> node_at u (butlast p) = Some NDir)"

lemma tree_ok_empty [simp]: "tree_ok empty_root"
  by (simp add: tree_ok_def empty_root_def)

lemma node_at_root [simp]: "node_at u [] = Some NDir"
  by (simp add: node_at_def)

lemma node_at_add: "node_at (add_node p n u) q = (if q = [] then Some NDir else if q = p then Some n else node_at u q)"
  by (simp add: node_at_def add_node_def)

lemma node_at_more [simp]:
  "node_at (u\<lparr>un_heap := h\<rparr>) p = node_at u p" "node_at (u\<lparr>un_written := w\<rparr>) p = node_at u p"
  by (simp_all add: node_at_def)

lemma tree_ok_more [simp]: "tree_ok (u\<lparr>un_heap := h\<rparr>) = tree_ok u" "tree_ok (u\<lparr>un_written := w\<rparr>) = tree_ok u"
  by (simp_all add: tree_ok_def)

lemma tree_ok_at:
  "tree_ok u \<Longrightarrow> node_at u p = Some n \<Longrightarrow> plain_names p \<and> node_at u (butlast p) = Some NDir"
  by (auto simp: tree_ok_def node_at_def plain_names_def dest!: map_of_SomeD split: if_splits)

lemma tree_ok_mem: "tree_ok u \<Longrightarrow> (p, n) \<in> set (un_nodes u) \<longleftrightarrow> p \<noteq> [] \<and> node_at u p = Some n"
  by (auto simp: tree_ok_def node_at_def dest: map_of_SomeD)

lemma tree_ok_add:
  assumes "tree_ok u" "node_at u p = None" "plain_name (last p)" "node_at u (butlast p) = Some NDir"
  shows "tree_ok (add_node p n u)"
proof -
  have p: "p \<noteq> []" using assms(2) by (cases p) auto
  with assms(2) have "map_of (un_nodes u) p = None" by (simp add: node_at_def)
  then have p': "p \<notin> fst ` set (un_nodes u)" by (simp add: map_of_eq_None_iff)
  have "plain_names p"
    using tree_ok_at[OF assms(1,4)] assms(3) p by (metis append_butlast_last_id plain_names_all rotate1.simps(2) set_ConsD set_rotate1)
  moreover have "butlast p \<noteq> p" using p by (metis append_butlast_last_id append_self_conv not_Cons_self2)
  moreover have "node_at (add_node p n u) (butlast q) = Some NDir" if "node_at u (butlast q) = Some NDir" for q
    using that assms(2) by (auto simp: node_at_add)
  ultimately show ?thesis
    using assms(1,4) p p' by (auto simp: tree_ok_def add_node_def[of p n u] node_at_add[unfolded add_node_def])
qed

text \<open>An operation keeps what is there.\<close>

definition grows :: "unpacked \<Rightarrow> unpacked \<Rightarrow> bool" where
  "grows u u' \<longleftrightarrow> (\<forall>p n. node_at u p = Some n \<longrightarrow> node_at u' p = Some n)"

lemma grows_refl [simp]: "grows u u"
  by (simp add: grows_def)

lemma grows_trans: "grows u v \<Longrightarrow> grows v w \<Longrightarrow> grows u w"
  by (simp add: grows_def)

lemma grows_add: "node_at u p = None \<Longrightarrow> grows u (add_node p n u)"
  by (auto simp: grows_def node_at_add)

text \<open>A place where something is, or where something can be made.\<close>

definition place_ok :: "unpacked \<Rightarrow> string list \<Rightarrow> bool" where
  "place_ok u p \<longleftrightarrow> node_at u p \<noteq> None \<or> (plain_name (last p) \<and> node_at u (butlast p) = Some NDir)"

lemma root_find_ok:
  "root_find u b n at rest = Inr q \<Longrightarrow> tree_ok u \<Longrightarrow> node_at u (b @ at) = Some NDir \<Longrightarrow> no_slash rest \<Longrightarrow>
   place_ok u (b @ q) \<and> (\<forall>t. node_at u (b @ q) \<noteq> Some (NLink t))"
proof (induction u b n at rest rule: root_find.induct)
  case (1 u b n at)
  then show ?case by (simp add: place_ok_def)
next
  case (2 u b n at part rest)
  let ?p = "b @ at @ [part]"
  consider (skip) "part = [] \<or> part = ''.''" | (up) "part = ''..''" | (name) "part \<notin> {[], ''.'', ''..''}" by blast
  then show ?case
  proof cases
    case skip
    with 2 show ?thesis by simp
  next
    case up
    with "2.prems" have at: "at \<noteq> []" and r: "root_find u b n (butlast at) rest = Inr q" by (auto split: if_splits)
    then have "node_at u (b @ butlast at) = Some NDir"
      using tree_ok_at[OF "2.prems"(2,3)] by (simp add: butlast_append)
    with 2 up at r show ?thesis by simp
  next
    case name
    then have plain: "plain_name part" using "2.prems"(4) by (simp add: plain_name_def)
    have last: "last ?p = part" "butlast ?p = b @ at" by (simp_all add: butlast_append)
    show ?thesis
    proof (cases "node_at u ?p")
      case None
      with 2 name plain last show ?thesis by (auto simp: place_ok_def split: if_splits)
    next
      case (Some x)
      show ?thesis
      proof (cases x)
        case NDir
        with 2 name Some show ?thesis by simp
      next
        case (NFile i)
        with 2 name Some show ?thesis by (auto simp: place_ok_def split: if_splits)
      next
        case (NLink t)
        with "2.prems" name Some have r: "\<not> is_abs t" "n \<noteq> 0" "root_find u b (n - 1) at (comps t @ rest) = Inr q"
          by (auto split: if_splits)
        with 2 name Some NLink show ?thesis by simp
      qed
    qed
  qed
qed

lemma root_mkdirs_ok:
  "root_mkdirs u n at rest = Inr u' \<Longrightarrow> tree_ok u \<Longrightarrow> node_at u at = Some NDir \<Longrightarrow> no_slash rest \<Longrightarrow>
   tree_ok u' \<and> grows u u' \<and> un_heap u' = un_heap u \<and> un_written u' = un_written u"
proof (induction u n at rest rule: root_mkdirs.induct)
  case (1 u n at)
  then show ?case by simp
next
  case (2 u n at part rest)
  let ?p = "at @ [part]"
  consider (skip) "part = [] \<or> part = ''.''" | (up) "part = ''..''" | (name) "part \<notin> {[], ''.'', ''..''}" by blast
  then show ?case
  proof cases
    case skip
    with 2 show ?thesis by simp
  next
    case up
    with "2.prems" have at: "at \<noteq> []" and r: "root_mkdirs u n (butlast at) rest = Inr u'" by (auto split: if_splits)
    then have "node_at u (butlast at) = Some NDir" using tree_ok_at[OF "2.prems"(2,3)] by simp
    with 2 up at r show ?thesis by simp
  next
    case name
    then have plain: "plain_name part" using "2.prems"(4) by (simp add: plain_name_def)
    show ?thesis
    proof (cases "node_at u ?p")
      case None
      let ?v = "add_node ?p NDir u"
      have ok: "tree_ok ?v" using "2.prems"(2,3) None plain by (intro tree_ok_add) simp_all
      have "root_mkdirs ?v n ?p rest = Inr u'" using "2.prems"(1) name None by simp
      with "2.IH"(3)[OF _ _ None] name ok "2.prems"(4)
      have "tree_ok u' \<and> grows ?v u' \<and> un_heap u' = un_heap ?v \<and> un_written u' = un_written ?v"
        by (simp add: node_at_add)
      with grows_add[OF None] show ?thesis using grows_trans by (auto simp: add_node_def)
    next
      case (Some x)
      show ?thesis
      proof (cases x)
        case NDir
        with 2 name Some show ?thesis by simp
      next
        case (NFile i)
        with 2 name Some show ?thesis by simp
      next
        case (NLink t)
        with "2.prems" name Some have r: "\<not> is_abs t" "n \<noteq> 0" "root_mkdirs u (n - 1) at (comps t @ rest) = Inr u'"
          by (auto split: if_splits)
        with 2 name Some NLink show ?thesis by simp
      qed
    qed
  qed
qed

subsection \<open>The operations\<close>

lemma each_inv:
  "each f xs s = Inr s' \<Longrightarrow> P s \<Longrightarrow> (\<And>x s s'. x \<in> set xs \<Longrightarrow> f x s = Inr s' \<Longrightarrow> P s \<Longrightarrow> P s') \<Longrightarrow> P s'"
  by (induction xs arbitrary: s) (auto simp: and_then_Inr)

lemma mkdir_all_ok:
  "mkdir_all name u = Inr u' \<Longrightarrow> tree_ok u \<Longrightarrow> tree_ok u' \<and> grows u u' \<and> un_heap u' = un_heap u \<and> un_written u' = un_written u"
  unfolding mkdir_all_def by (erule root_mkdirs_ok) simp_all

lemma root_dir_ok: "root_dir u ps = Inr p \<Longrightarrow> node_at u p = Some NDir"
proof -
  assume "root_dir u ps = Inr p"
  then obtain q where "root_find u [] root_links [] ps = Inr q"
    and q: "(case node_at u q of Some NDir \<Rightarrow> Inr q | None \<Rightarrow> Inl Missing | _ \<Rightarrow> Inl NotDirectory) = Inr p"
    unfolding root_dir_def and_then_Inr by blast
  show ?thesis
  proof (cases "node_at u q")
    case (Some x)
    with q show ?thesis by (cases x) simp_all
  qed (use q in simp)
qed

text \<open>A name whose last element a link may have: what the callers have checked.\<close>

definition leaf_ok :: "string \<Rightarrow> bool" where
  "leaf_ok name \<longleftrightarrow> plain_name (last (comps name))"

lemma root_place_ok:
  "root_place u name = Inr p \<Longrightarrow> leaf_ok name \<Longrightarrow> p \<noteq> [] \<and> plain_name (last p) \<and> node_at u (butlast p) = Some NDir"
  by (auto simp: root_place_def and_then_Inr leaf_ok_def dest: root_dir_ok)

definition stored :: "unpacked \<Rightarrow> int" where
  "stored u = int (sum_list (map (\<lambda>f. length (snd f)) (un_heap u)))"

text \<open>The bytes that are stored, and those that were written, stay below the limit.\<close>

definition small :: "unpacked \<Rightarrow> bool" where
  "small u \<longleftrightarrow> stored u \<le> un_written u \<and> un_written u \<le> max_unpacked"

definition kept :: "unpacked \<Rightarrow> unpacked \<Rightarrow> bool" where
  "kept u u' \<longleftrightarrow> tree_ok u' \<and> grows u u' \<and> (small u \<longrightarrow> small u')"

lemma small_same: "un_heap v = un_heap u \<Longrightarrow> un_written v = un_written u \<Longrightarrow> small v = small u"
  by (simp add: small_def stored_def)

lemma stored_overwrite:
  "int (sum_list (map (\<lambda>f. length (snd f)) ((un_heap v)[i := (m, data)]))) \<le> stored v + int (length data)"
proof (cases "i < length (un_heap v)")
  case True
  then show ?thesis by (simp add: stored_def map_update sum_list_update)
next
  case False
  then have "(un_heap v)[i := (m, data)] = un_heap v" by (intro list_update_beyond) simp
  then show ?thesis by (simp add: stored_def)
qed

lemma kept_refl: "tree_ok u \<Longrightarrow> kept u u"
  by (simp add: kept_def)

lemma kept_trans: "kept u v \<Longrightarrow> kept v w \<Longrightarrow> kept u w"
  by (auto simp: kept_def intro: grows_trans)

lemma kept_mkdir: "mkdir_all name u = Inr u' \<Longrightarrow> tree_ok u \<Longrightarrow> kept u u'"
  using mkdir_all_ok[of name u u'] small_same[of u' u] by (auto simp: kept_def)

lemma kept_add:
  "tree_ok u \<Longrightarrow> node_at u p = None \<Longrightarrow> plain_name (last p) \<Longrightarrow> node_at u (butlast p) = Some NDir \<Longrightarrow> kept u (add_node p n u)"
  using small_same[of "add_node p n u" u] by (simp add: kept_def tree_ok_add grows_add) (simp add: add_node_def)

lemma kept_symlink: "root_symlink target name u = Inr u' \<Longrightarrow> leaf_ok name \<Longrightarrow> tree_ok u \<Longrightarrow> kept u u'"
  by (auto simp: root_symlink_def and_then_Inr dest!: root_place_ok split: if_splits intro: kept_add)

lemma kept_link: "root_link old new u = Inr u' \<Longrightarrow> leaf_ok new \<Longrightarrow> tree_ok u \<Longrightarrow> kept u u'"
proof -
  assume l: "root_link old new u = Inr u'" and new: "leaf_ok new" and u: "tree_ok u"
  then obtain p q where q: "root_place u new = Inr q"
    and r: "(case node_at u p of
         None \<Rightarrow> Inl Missing
       | Some NDir \<Rightarrow> Inl IsDirectory
       | Some n \<Rightarrow> if node_at u q \<noteq> None then Inl Exists else Inr (add_node q n u)) = Inr u'"
    unfolding root_link_def and_then_Inr by blast
  show ?thesis
  proof (cases "node_at u p")
    case (Some x)
    with r have "node_at u q = None" "u' = add_node q x u" by (cases x; auto split: if_splits)+
    then show ?thesis using root_place_ok[OF q new] u by (auto intro: kept_add)
  qed (use r in simp)
qed

lemma kept_write_symlink: "write_symlink name target u = Inr u' \<Longrightarrow> leaf_ok name \<Longrightarrow> tree_ok u \<Longrightarrow> kept u u'"
  unfolding write_symlink_def Let_def
  by (auto simp: and_then_Inr split: if_splits intro: kept_trans dest: kept_mkdir kept_symlink)
    (metis kept_mkdir kept_symlink kept_trans mkdir_all_ok)

lemma base_leaf: "leaf_ok name \<Longrightarrow> path_base name = last (comps name)"
proof -
  assume l: "leaf_ok name"
  then have "name \<noteq> []" by (auto simp: leaf_ok_def comps_def plain_name_def)
  then obtain s c where name: "name = s @ [c]" by (cases name rule: rev_cases) auto
  have "c \<noteq> CHR ''/''"
  proof
    assume "c = CHR ''/''"
    then have "comps name = comps s @ [[]]" using split_char_sep[of "CHR ''/''" s "[]"] by (simp add: comps_def name)
    with l show False by (simp add: leaf_ok_def plain_name_def)
  qed
  then have "rev (dropWhile (\<lambda>c. c = CHR ''/'') (rev name)) = name" by (simp add: name)
  then show ?thesis using \<open>name \<noteq> []\<close> by (simp add: path_base_def Let_def comps_def)
qed

lemma no_slash_base: "leaf_ok name \<Longrightarrow> no_slash [path_base name]"
  by (simp add: base_leaf) (simp add: leaf_ok_def plain_name_def)

lemma kept_file_write: "file_write name mode data u = Inr u' \<Longrightarrow> leaf_ok name \<Longrightarrow> tree_ok u \<Longrightarrow> kept u u'"
proof -
  assume w: "file_write name mode data u = Inr u'" and leaf: "leaf_ok name" and u: "tree_ok u"
  from w obtain v d q where v: "mkdir_all (path_dir name) u = Inr v" and d: "root_dir v (comps (path_dir name)) = Inr d"
    and q: "root_find v d root_links [] [path_base name] = Inr q"
    and r: "(case node_at v (d @ q) of
         Some NDir \<Rightarrow> Inl IsDirectory
       | Some (NLink _) \<Rightarrow> Inl TooManyLinks
       | found \<Rightarrow>
           (let written = un_written v + int (length data)
            in if written > max_unpacked then Inl TooLarge
               else Inr (case found of
                   Some (NFile i) \<Rightarrow>
                     v\<lparr>un_heap := (un_heap v)[i := (fst (un_heap v ! i), data)], un_written := written\<rparr>
                 | _ \<Rightarrow> (add_node (d @ q) (NFile (length (un_heap v))) v)
                         \<lparr>un_heap := un_heap v @ [((mode AND 0x1FF) OR 0x180, data)], un_written := written\<rparr>))) = Inr u'"
    unfolding file_write_def and_then_Inr by blast
  from kept_mkdir[OF v u] have k: "kept u v" "tree_ok v" by (simp_all add: kept_def)
  have "kept v u'"
  proof (cases "node_at v (d @ q)")
    case None
    have "place_ok v (d @ q)"
      using root_find_ok[OF q k(2) _ no_slash_base[OF leaf]] root_dir_ok[OF d] by simp
    with None have p: "plain_name (last (d @ q))" "node_at v (butlast (d @ q)) = Some NDir" by (simp_all add: place_ok_def)
    let ?w = "add_node (d @ q) (NFile (length (un_heap v))) v"
    from kept_add[OF k(2) None p] have a: "kept v ?w" .
    from r None have "u' = ?w\<lparr>un_heap := un_heap v @ [((mode AND 0x1FF) OR 0x180, data)],
        un_written := un_written v + int (length data)\<rparr>" "un_written v + int (length data) \<le> max_unpacked"
      by (auto simp: Let_def split: if_splits)
    with a show ?thesis by (auto simp: kept_def grows_def small_def stored_def add_node_def)
  next
    case (Some x)
    with r obtain i where "x = NFile i" by (auto split: node.splits)
    with r Some have "u' = v\<lparr>un_heap := (un_heap v)[i := (fst (un_heap v ! i), data)],
        un_written := un_written v + int (length data)\<rparr>" "un_written v + int (length data) \<le> max_unpacked"
      by (auto simp: Let_def split: if_splits)
    with k(2) stored_overwrite[of v i "fst (un_heap v ! i)" data]
    show ?thesis by (auto simp: kept_def grows_def small_def stored_def)
  qed
  with k(1) show ?thesis by (rule kept_trans)
qed

subsection \<open>Names\<close>

lemma comps_join: "plain_names cs \<Longrightarrow> cs \<noteq> [] \<Longrightarrow> comps (join ''/'' cs) = cs"
  unfolding comps_def by (rule split_char_join) (auto simp: plain_names_def)

lemma plain_stack_False: "plain_names cs \<Longrightarrow> clean_stack False cs"
  by (auto simp: clean_stack_iff intro: exI[of _ 0])

lemma join_render: "cs \<noteq> [] \<Longrightarrow> join ''/'' cs = render_path False cs"
  by (simp add: render_path_def)

lemma plain_names_butlast: "plain_names cs \<Longrightarrow> plain_names (butlast cs)"
  by (auto simp: plain_names_def dest: in_set_butlastD)

lemma plain_names_drop: "plain_names cs \<Longrightarrow> plain_names (drop n cs)"
  by (auto simp: plain_names_def dest: in_set_dropD)

lemma path_dir_join:
  assumes "plain_names cs" "cs \<noteq> []"
  shows "path_dir (join ''/'' cs) = render_path False (butlast cs)"
proof -
  obtain ds c where cs: "cs = ds @ [c]" using assms(2) by (cases cs rule: rev_cases) auto
  have c: "CHR ''/'' \<notin> set c" using assms(1) by (simp add: cs plain_names_def)
  have drop: "dropWhile (\<lambda>x. x \<noteq> CHR ''/'') (rev c @ r) = dropWhile (\<lambda>x. x \<noteq> CHR ''/'') r" for r
    using c by (intro dropWhile_append2) auto
  show ?thesis
  proof (cases "ds = []")
    case True
    with drop[of "[]"] show ?thesis by (simp add: cs path_dir_def path_clean_def render_path_def)
  next
    case False
    have j: "join ''/'' cs = join ''/'' ds @ CHR ''/'' # c"
      using False unfolding cs by (induction ds rule: induct_list012) auto
    have ds: "plain_names ds" using assms(1) by (simp add: cs plain_names_def)
    have "path_dir (join ''/'' cs) = path_clean (join ''/'' ds @ ''/'')"
      using drop[of "CHR ''/'' # rev (join ''/'' ds)"] by (simp add: path_dir_def j)
    also have "\<dots> = render_path False ds"
    proof -
      have abs: "\<not> is_abs (join ''/'' ds)" using is_abs_render[OF plain_stack_False[OF ds]] False by (simp add: join_render)
      moreover have ne: "join ''/'' ds \<noteq> []" using render_not_Nil[OF plain_stack_False[OF ds]] False by (simp add: join_render)
      ultimately have "\<not> is_abs (join ''/'' ds @ ''/'')" by (cases "join ''/'' ds") (auto simp: is_abs_def has_prefix_iff)
      moreover from this have "clean_elems (join ''/'' ds @ ''/'') = ds"
        using fold_clean_names[OF ds, of False "[]"] comps_join[OF ds False]
        by (simp add: clean_elems_def split_char_sep comps_def clean_elem_def)
      ultimately show ?thesis using ne by (simp add: path_clean_def)
    qed
    finally show ?thesis by (simp add: cs)
  qed
qed

lemma comps_render: "plain_names cs \<Longrightarrow> comps (render_path False cs) = (if cs = [] then [''.''] else cs)"
proof (cases "cs = []")
  case True
  have "comps ''.'' = [''.'']" by code_simp
  with True show ?thesis by (simp add: render_path_def)
next
  case False
  assume "plain_names cs"
  with False comps_join show ?thesis by (simp add: render_path_def)
qed

lemma strip_path_Some:
  assumes "strip_path name n = Inr (Some found)"
  shows "\<exists>cs. found = join ''/'' cs \<and> plain_names cs \<and> cs \<noteq> [] \<and> cs = drop n (clean_elems (slashes name))"
proof -
  define es where "es = clean_elems (slashes name)"
  let ?clean = "path_clean (slashes name)"
  from assms have out: "\<not> is_abs ?clean" "?clean \<noteq> ''..''" "\<not> has_prefix ?clean ''../''"
    and len: "\<not> length (comps ?clean) \<le> n" and f: "found = path_join (drop n (comps ?clean))" "found \<noteq> ''.''"
    by (auto simp: strip_path_def Let_def split: if_splits)
  have abs: "\<not> is_abs (slashes name)"
  proof
    assume a: "is_abs (slashes name)"
    then have "?clean = render_path True es" by (auto simp: path_clean_def es_def is_abs_def)
    with out(1) show False by (simp add: render_path_def is_abs_def)
  qed
  have stack: "clean_stack False es" using clean_elems_stack[of "slashes name"] abs by (simp add: es_def)
  have clean: "?clean = render_path False es"
  proof (cases "slashes name = []")
    case True
    have "clean_elems [] = []" by code_simp
    with True show ?thesis by (simp add: path_clean_def render_path_def es_def)
  qed (simp add: path_clean_def abs es_def)
  have low: "es = [] \<or> hd es \<noteq> ''..''"
  proof (rule ccontr)
    assume "\<not> ?thesis"
    then obtain es' where "es = ''..'' # es'" by (cases es) auto
    with clean out(2,3) show False by (cases es') (auto simp: render_path_def)
  qed
  have plain: "plain_names es"
  proof -
    from stack obtain k names where es: "es = replicate k ''..'' @ names" "plain_names names" by (auto simp: clean_stack_iff)
    with low have "k = 0" by (cases k) auto
    with es show ?thesis by simp
  qed
  have ne: "es \<noteq> []"
  proof
    assume "es = []"
    then have "comps ?clean = [''.'']" by (simp add: clean comps_render plain_names_def)
    moreover from this len have "n = 0" by simp
    moreover have "path_join [''.''] = ''.''" by code_simp
    ultimately show False using f by simp
  qed
  then have comps: "comps ?clean = es" by (simp add: clean comps_render[OF plain])
  let ?ds = "drop n es"
  have ds: "plain_names ?ds" "?ds \<noteq> []" using plain len comps by (auto intro: plain_names_drop)
  have "path_join ?ds = path_clean (join ''/'' ?ds)"
    using ds by (cases ?ds) (auto simp: path_join_def plain_names_def)
  also have "\<dots> = join ''/'' ?ds" using ds by (simp add: join_render plain_stack_False)
  finally show ?thesis using f ds comps by (auto simp: es_def)
qed

lemma strip_path_leaf: "strip_path name n = Inr (Some found) \<Longrightarrow> leaf_ok found"
proof -
  assume "strip_path name n = Inr (Some found)"
  then obtain cs where cs: "found = join ''/'' cs" "plain_names cs" "cs \<noteq> []" using strip_path_Some by blast
  then have "last cs \<in> set cs" by simp
  with cs show ?thesis by (simp add: leaf_ok_def comps_join) (simp add: plain_names_all)
qed

subsection \<open>Unpacking keeps the shape\<close>

lemma kept_untar_entry: "untar_entry strip deb e name u = Inr u' \<Longrightarrow> leaf_ok name \<Longrightarrow> tree_ok u \<Longrightarrow> kept u u'"
  by (cases e) (auto simp: untar_entry_def and_then_Inr kept_refl split: option.splits if_splits
      intro: kept_mkdir kept_file_write kept_write_symlink kept_link)

lemma kept_untar_round: "untar_round strip deb r u = Inr u' \<Longrightarrow> tree_ok u \<Longrightarrow> kept u u'"
  by (auto simp: untar_round_def and_then_Inr kept_refl split: sum.splits option.splits
      intro: kept_untar_entry strip_path_leaf)

lemma kept_unpack_entry: "unpack_entry e u = Inr u' \<Longrightarrow> leaf_ok (ze_name e) \<Longrightarrow> tree_ok u \<Longrightarrow> kept u u'"
  by (cases "ze_kind e") (auto simp: unpack_entry_def intro: kept_mkdir kept_file_write kept_write_symlink)

lemma kept_ok: "kept u v \<Longrightarrow> tree_ok v"
  by (simp add: kept_def)

lemma kept_each:
  "each f xs u = Inr u' \<Longrightarrow> tree_ok u \<Longrightarrow> (\<And>x u u'. x \<in> set xs \<Longrightarrow> f x u = Inr u' \<Longrightarrow> tree_ok u \<Longrightarrow> kept u u') \<Longrightarrow> kept u u'"
proof -
  assume e: "each f xs u = Inr u'" and u: "tree_ok u"
    and step: "\<And>x u u'. x \<in> set xs \<Longrightarrow> f x u = Inr u' \<Longrightarrow> tree_ok u \<Longrightarrow> kept u u'"
  show ?thesis
  proof (rule each_inv[OF e])
    fix x s s' assume "x \<in> set xs" "f x s = Inr s'" "kept u s"
    with step[of x s s'] show "kept u s'" by (metis kept_ok kept_trans)
  qed (rule kept_refl[OF u])
qed

lemma kept_make_dirs: "make_dirs e (u, dirs) = Inr (u', dirs') \<Longrightarrow> tree_ok u \<Longrightarrow> kept u u'"
  by (auto simp: make_dirs_def and_then_Inr kept_refl split: zip_kind.splits if_splits intro: kept_mkdir)

lemma kept_each_dirs: "each make_dirs es (u, dirs) = Inr (u', dirs') \<Longrightarrow> tree_ok u \<Longrightarrow> kept u u'"
proof -
  assume e: "each make_dirs es (u, dirs) = Inr (u', dirs')" and u: "tree_ok u"
  have "kept u (fst (u', dirs'))"
  proof (rule each_inv[OF e, where P = "\<lambda>st. kept u (fst st)"])
    fix x st st' assume "make_dirs x st = Inr st'" "kept u (fst st)"
    with kept_make_dirs[of x "fst st" "snd st" "fst st'" "snd st'"] show "kept u (fst st')"
      by (metis kept_ok kept_trans prod.collapse)
  qed (simp add: kept_refl[OF u])
  then show ?thesis by simp
qed

lemma strip_entries_leaf: "strip_entries n es = Inr named \<Longrightarrow> \<forall>e\<in>set named. leaf_ok (ze_name e)"
  by (induction es arbitrary: named) (auto simp: and_then_Inr strip_path_leaf split: option.splits)

lemma kept_unpack:
  assumes "unpack_archive a strip u = Inr u'" "tree_ok u"
    and "case a of Zip es sched \<Rightarrow> (\<forall>e\<in>set sched. leaf_ok (ze_name e)) | _ \<Rightarrow> True"
  shows "kept u u'"
proof (cases a)
  case (Tar deb es)
  with assms(1) have "each (untar_round strip deb) es u = Inr u'" by (simp add: unpack_archive_def untar_def)
  then show ?thesis using assms(2) by (rule kept_each) (auto intro: kept_untar_round)
next
  case (Zip es sched)
  with assms(1) obtain named where named: "strip_entries strip es = Inr named"
    and r: "(if in_order named then each unpack_entry named u else unzip_at_once named sched u) = Inr u'"
    by (auto simp: unpack_archive_def unzip_def and_then_Inr)
  have leaf: "\<forall>e\<in>set named. leaf_ok (ze_name e)" by (rule strip_entries_leaf[OF named])
  show ?thesis
  proof (cases "in_order named")
    case True
    with r have "each unpack_entry named u = Inr u'" by simp
    then show ?thesis using assms(2) by (rule kept_each) (use leaf in \<open>auto intro: kept_unpack_entry\<close>)
  next
    case False
    with r obtain u1 dirs u2 where 1: "each make_dirs named (u, []) = Inr (u1, dirs)"
      and 2: "each unpack_entry sched u1 = Inr u2"
      and 3: "each unpack_entry (filter (\<lambda>e. ze_kind e = ZLink) named) u2 = Inr u'"
      by (auto simp: unzip_at_once_def and_then_Inr)
    have k1: "kept u u1" using kept_each_dirs[OF 1 assms(2)] .
    have k2: "kept u1 u2" using 2 kept_ok[OF k1] by (rule kept_each) (use assms(3) Zip in \<open>auto intro: kept_unpack_entry\<close>)
    have k3: "kept u2 u'" using 3 kept_ok[OF k2] by (rule kept_each) (use leaf in \<open>auto intro: kept_unpack_entry\<close>)
    from kept_trans[OF kept_trans[OF k1 k2] k3] show ?thesis .
  qed
qed

end
