(* ===== verification/Extract_Props.thy ===== *)
theory Extract_Props
  imports Extract_Laws
begin

text \<open>
  What unpacking promises: nothing that an archive leaves leads out of the directory, and it never fills the
  disk.
\<close>

subsection \<open>How an operating system follows a path\<close>

text \<open>
  A file system maps an absolute place to what is there. A step takes the next element of a path: a link that
  is relative continues from its directory, and an absolute one from the root.
\<close>

inductive os_step :: "(string list \<Rightarrow> node option) \<Rightarrow> string list \<times> string list \<Rightarrow> string list \<times> string list \<Rightarrow> bool"
  for w where
  os_stay: "part = [] \<or> part = ''.'' \<Longrightarrow> os_step w (at, part # rest) (at, rest)"
| os_up: "os_step w (at, ''..'' # rest) (butlast at, rest)"
| os_down: "plain_name part \<Longrightarrow> w (at @ [part]) = Some n \<Longrightarrow> \<forall>t. n \<noteq> NLink t \<Longrightarrow>
    os_step w (at, part # rest) (at @ [part], rest)"
| os_link: "plain_name part \<Longrightarrow> w (at @ [part]) = Some (NLink t) \<Longrightarrow> \<not> is_abs t \<Longrightarrow>
    os_step w (at, part # rest) (at, comps t @ rest)"
| os_link_abs: "plain_name part \<Longrightarrow> w (at @ [part]) = Some (NLink t) \<Longrightarrow> is_abs t \<Longrightarrow>
    os_step w (at, part # rest) ([], comps t @ rest)"

inductive_cases os_step_nilE: "os_step w (at, []) st"

lemma tree_ok_prefix: "tree_ok u \<Longrightarrow> node_at u (p @ q) = Some NDir \<Longrightarrow> node_at u p = Some NDir"
proof (induction q rule: rev_induct)
  case (snoc x q)
  then have "node_at u (p @ q) = Some NDir" using tree_ok_at[of u "p @ q @ [x]"] by (simp add: butlast_append)
  with snoc show ?case by simp
qed simp

lemma resolves_dirs:
  assumes "tree_ok u" "node_at u (b @ at) = Some NDir"
  shows "resolves_inside u n b (at @ r) = resolves_inside u n (b @ at) r"
  using assms(2)
proof (induction at arbitrary: b)
  case (Cons x at)
  have d: "node_at u (b @ [x]) = Some NDir" using tree_ok_prefix[OF assms(1), of "b @ [x]" at] Cons.prems by simp
  have "plain_name x" using tree_ok_at[OF assms(1) d] by (simp add: plain_names_all)
  then have "resolves_inside u n b (x # at @ r) = resolves_inside u n (b @ [x]) (at @ r)"
    using d by (simp add: plain_name_def)
  with Cons.IH[of "b @ [x]"] Cons.prems show ?case by simp
qed simp

lemma link_resolves:
  assumes "tree_ok u" "links_inside u" "node_at u (at @ [part]) = Some (NLink t)"
  shows "\<not> rooted t \<and> resolves_inside u max_links at (comps t)"
proof -
  let ?p = "at @ [part]"
  have plain: "plain_names ?p" and dir: "node_at u at = Some NDir" using tree_ok_at[OF assms(1,3)] by auto
  have "(?p, NLink t) \<in> set (un_nodes u)" using tree_ok_mem[OF assms(1)] assms(3) by simp
  then have l: "\<not> rooted t" "resolves_inside u max_links [] (comps (path_dir (join ''/'' ?p) @ ''/'' @ t))"
    using assms(2) by (auto simp: links_inside_def list_all_iff link_inside_def)
  have "comps (path_dir (join ''/'' ?p) @ ''/'' @ t) = comps (render_path False at) @ comps t"
    using path_dir_join[OF plain] split_char_sep[of "CHR ''/''" "render_path False at" t] by (simp add: comps_def)
  also have "\<dots> = (if at = [] then [''.''] else at) @ comps t"
    using plain comps_render[of at] by (simp add: plain_names_all)
  finally have "resolves_inside u max_links [] ((if at = [] then [''.''] else at) @ comps t)" using l(2) by simp
  then have "resolves_inside u max_links [] (at @ comps t)" by (cases "at = []") simp_all
  with resolves_dirs[OF assms(1), of "[]" at] dir l(1) show ?thesis by simp
qed

text \<open>
  A position inside: the part of the path that the check has followed, and a part of the user's path without
  parent elements.
\<close>

definition inside_at :: "unpacked \<Rightarrow> string list \<Rightarrow> string list \<times> string list \<Rightarrow> bool" where
  "inside_at u D st \<longleftrightarrow> (\<exists>at r1 r2 n. st = (D @ at, r1 @ r2) \<and> resolves_inside u n at r1 \<and> ''..'' \<notin> set r2)"

lemma inside_atI: "resolves_inside u n at r1 \<Longrightarrow> ''..'' \<notin> set r2 \<Longrightarrow> inside_at u D (D @ at, r1 @ r2)"
  unfolding inside_at_def by blast

lemma inside_step:
  assumes "tree_ok u" "links_inside u" "\<forall>p. w (D @ p) = node_at u p" "os_step w st st'" "inside_at u D st"
  shows "inside_at u D st'"
proof -
  from assms(5) obtain at r1 r2 n where st: "st = (D @ at, r1 @ r2)" and r1: "resolves_inside u n at r1" and r2: "''..'' \<notin> set r2"
    unfolding inside_at_def by blast
  have at_w: "w ((D @ at) @ [part]) = node_at u (at @ [part])" for part using assms(3) by simp
  show ?thesis
  proof (cases r1)
    case Nil
    show ?thesis
    proof (cases r2)
      case Nil
      with \<open>r1 = []\<close> assms(4) st show ?thesis by (auto elim: os_step_nilE)
    next
      case (Cons part rest)
      with r2 have no: "part \<noteq> ''..''" "''..'' \<notin> set rest" by auto
      from assms(4) have "os_step w (D @ at, part # rest) st'" by (simp add: st Cons \<open>r1 = []\<close>)
      then show ?thesis
      proof cases
        case os_stay
        then show ?thesis using no inside_atI[of u n at "[]" rest D] by simp
      next
        case os_up
        with no show ?thesis by simp
      next
        case (os_down n')
        then show ?thesis using no inside_atI[of u n "at @ [part]" "[]" rest D] by simp
      next
        case (os_link t)
        then have "resolves_inside u max_links at (comps t)" using link_resolves[OF assms(1,2)] at_w by simp
        with os_link no show ?thesis using inside_atI by blast
      next
        case (os_link_abs t)
        then have "\<not> rooted t" using link_resolves[OF assms(1,2)] at_w by simp
        with os_link_abs show ?thesis by (simp add: rooted_def)
      qed
    qed
  next
    case (Cons part rest)
    from assms(4) have "os_step w (D @ at, part # rest @ r2) st'" by (simp add: st Cons)
    then show ?thesis
    proof cases
      case os_stay
      with r1 Cons have "resolves_inside u n at rest" by auto
      with os_stay r2 show ?thesis using inside_atI by simp
    next
      case os_up
      with r1 Cons have a: "at \<noteq> []" "resolves_inside u n (butlast at) rest" by auto
      with os_up r2 show ?thesis using inside_atI[OF a(2), of r2 D] by (simp add: butlast_append)
    next
      case (os_down n')
      with r1 Cons at_w have "resolves_inside u n (at @ [part]) rest"
        by (cases n') (auto simp: plain_name_def)
      from inside_atI[OF this r2, of D] os_down show ?thesis by simp
    next
      case (os_link t)
      with r1 Cons at_w have "resolves_inside u (n - 1) at (comps t @ rest)"
        by (auto simp: plain_name_def split: if_splits)
      from inside_atI[OF this r2, of D] os_link show ?thesis by simp
    next
      case (os_link_abs t)
      with r1 Cons at_w have "\<not> rooted t" by (auto simp: plain_name_def split: if_splits)
      with os_link_abs show ?thesis by (simp add: rooted_def)
    qed
  qed
qed

lemma inside_steps:
  assumes "(os_step w)\<^sup>*\<^sup>* st st'" "tree_ok u" "links_inside u" "\<forall>p. w (D @ p) = node_at u p" "inside_at u D st"
  shows "inside_at u D st'"
  using assms(1,5) by (induction rule: rtranclp_induct) (use inside_step[OF assms(2-4)] in blast)+

subsection \<open>Properties\<close>

text \<open>The workers write each file of a zip once.\<close>

definition schedule_ok :: "nat \<Rightarrow> archive \<Rightarrow> bool" where
  "schedule_ok strip a \<longleftrightarrow>
     (case a of
        Tar deb es \<Rightarrow> True
      | Zip es sched \<Rightarrow>
          (case strip_entries strip es of
             Inl e \<Rightarrow> True
           | Inr named \<Rightarrow> mset sched = mset (filter (\<lambda>e. ze_kind e = ZFile) named)))"

lemma kept_extract:
  assumes "extract_archive a strip empty_root = Inr u" "schedule_ok strip a"
  shows "kept empty_root u \<and> links_inside u"
proof -
  from assms(1) have u: "unpack_archive a strip empty_root = Inr u" "links_inside u"
    by (auto simp: extract_archive_def and_then_Inr split: if_splits)
  have "case a of Zip es sched \<Rightarrow> (\<forall>e\<in>set sched. leaf_ok (ze_name e)) | _ \<Rightarrow> True"
  proof (cases a)
    case (Zip es sched)
    with u(1) obtain named where named: "strip_entries strip es = Inr named"
      by (auto simp: unpack_archive_def unzip_def and_then_Inr)
    with assms(2) Zip have "mset sched = mset (filter (\<lambda>e. ze_kind e = ZFile) named)" by (simp add: schedule_ok_def)
    then have "set sched = set (filter (\<lambda>e. ze_kind e = ZFile) named)" by (metis set_mset_mset)
    with strip_entries_leaf[OF named] Zip show ?thesis by auto
  qed simp
  from kept_unpack[OF u(1) tree_ok_empty this] u(2) show ?thesis by simp
qed

text \<open>
  C20. Nothing that an archive leaves leads out of its directory. When \<open>extract\<close> succeeds, then wherever the
  directory is, a path of names below it that the operating system follows, through every link on the way and the
  parent elements in their targets, never is at a place outside the directory.
\<close>

theorem extract_stays_inside:
  assumes "extract_archive a strip empty_root = Inr u" "schedule_ok strip a"
    and "\<forall>p. w (D @ p) = node_at u p" "''..'' \<notin> set path"
    and "(os_step w)\<^sup>*\<^sup>* (D, path) (place, rest)"
  shows "\<exists>p. place = D @ p"
proof -
  have k: "tree_ok u" "links_inside u" using kept_extract[OF assms(1,2)] by (auto dest: kept_ok)
  have "inside_at u D (D @ [], [] @ path)" using assms(4) by (intro inside_atI[where n = 0]) simp_all
  then have "inside_at u D (place, rest)" using inside_steps[OF assms(5) k assms(3)] by simp
  then show ?thesis by (auto simp: inside_at_def)
qed

definition sample_tar :: archive where
  "sample_tar = Tar False [Inr (TarDir ''fd-10/''), Inr (TarFile ''fd-10/bin/fd'' 0x1ED ''elf''),
     Inr (TarSymlink ''fd-10/bin/fdfind'' ''fd''), Inr (TarSymlink ''fd-10/doc'' ''bin/../bin'')]"

definition sample_world :: "unpacked \<Rightarrow> string list \<Rightarrow> node option" where
  "sample_world u q = (if take 2 q = [''opt'', ''fd''] then node_at u (drop 2 q)
     else if q = [] \<or> q = [''opt''] then Some NDir else None)"

theorem extract_stays_inside_witness:
  "\<exists>u. extract_archive sample_tar 1 empty_root = Inr u \<and> node_at u [''doc''] = Some (NLink ''bin/../bin'')
     \<and> os_step (sample_world u) ([''opt'', ''fd''], [''doc'', ''fd'']) ([''opt'', ''fd''], [''bin'', ''..'', ''bin'', ''fd''])
     \<and> (\<exists>p. [''opt'', ''fd''] = [''opt'', ''fd''] @ p)"
proof -
  have ok: "case extract_archive sample_tar 1 empty_root of Inl _ \<Rightarrow> False
      | Inr u \<Rightarrow> node_at u [''doc''] = Some (NLink ''bin/../bin'')" by code_simp
  then obtain u where u: "extract_archive sample_tar 1 empty_root = Inr u"
    and doc: "node_at u [''doc''] = Some (NLink ''bin/../bin'')" by (auto split: sum.splits)
  have "comps ''bin/../bin'' = [''bin'', ''..'', ''bin'']" "\<not> is_abs ''bin/../bin''" "plain_name ''doc''" by code_simp+
  then have step: "os_step (sample_world u) ([''opt'', ''fd''], [''doc'', ''fd'']) ([''opt'', ''fd''], [''bin'', ''..'', ''bin'', ''fd''])"
    using os_link[of "''doc''" "sample_world u" "[''opt'', ''fd'']" "''bin/../bin''" "[''fd'']"] doc
    by (simp add: sample_world_def)
  have "schedule_ok 1 sample_tar" by (simp add: schedule_ok_def sample_tar_def)
  moreover have "\<forall>p. sample_world u ([''opt'', ''fd''] @ p) = node_at u p" by (simp add: sample_world_def)
  moreover have "''..'' \<notin> set [''doc'', ''fd'']" by simp
  ultimately have "\<exists>p. [''opt'', ''fd''] = [''opt'', ''fd''] @ p"
    using extract_stays_inside[OF u _ _ _ r_into_rtranclp[of "os_step (sample_world u)", OF step]] by blast
  with u doc step show ?thesis by blast
qed

text \<open>
  An archive never stores more than the limit: when \<open>extract\<close> succeeds, the files hold at most 32 GiB in
  total, whatever the entries are, the ones that write one file again included.
\<close>

theorem extract_bounded:
  assumes "extract_archive a strip empty_root = Inr u" "schedule_ok strip a"
  shows "sum_list (map (\<lambda>f. length (snd f)) (un_heap u)) \<le> 32 * 2 ^ 30"
proof -
  have "small empty_root" by (simp add: small_def stored_def empty_root_def max_unpacked_def)
  with kept_extract[OF assms] have "small u" by (simp add: kept_def)
  then have "stored u \<le> max_unpacked" by (simp add: small_def)
  then show ?thesis by (simp add: stored_def max_unpacked_def)
qed

theorem extract_bounded_witness:
  "\<exists>u. extract_archive sample_tar 1 empty_root = Inr u \<and> sum_list (map (\<lambda>f. length (snd f)) (un_heap u)) \<le> 32 * 2 ^ 30"
proof -
  have "is_ok (extract_archive sample_tar 1 empty_root)" by code_simp
  then obtain u where u: "extract_archive sample_tar 1 empty_root = Inr u" by (auto simp: is_ok_iff)
  have "schedule_ok 1 sample_tar" by (simp add: schedule_ok_def sample_tar_def)
  from extract_bounded[OF u this] u show ?thesis by blast
qed

end
