(* ===== verification/Extract_Zip.thy ===== *)
theory Extract_Zip
  imports Extract_Laws Toml
begin

text \<open>
  Why the entries of a zip may be unpacked in another order: when no entry is below a link, the result of
  unpacking a list of entries depends on the set of directories that they need and on their files and links,
  and not on the order.
\<close>

subsection \<open>What a tree shows\<close>

datatype shown = SDir | SFile nat string | SLink string

definition shown_at :: "unpacked \<Rightarrow> string list \<Rightarrow> shown option" where
  "shown_at u p =
     (case node_at u p of
        None \<Rightarrow> None
      | Some NDir \<Rightarrow> Some SDir
      | Some (NFile i) \<Rightarrow> Some (SFile (fst (un_heap u ! i)) (snd (un_heap u ! i)))
      | Some (NLink t) \<Rightarrow> Some (SLink t))"

definition heap_ok :: "unpacked \<Rightarrow> bool" where
  "heap_ok u \<longleftrightarrow> (\<forall>p i. node_at u p = Some (NFile i) \<longrightarrow> i < length (un_heap u))"

lemma add_node_heap [simp]: "un_heap (add_node p n u) = un_heap u" "un_written (add_node p n u) = un_written u"
  by (simp_all add: add_node_def)

lemma shown_at_cases:
  "shown_at u p = None \<longleftrightarrow> node_at u p = None" "shown_at u p = Some SDir \<longleftrightarrow> node_at u p = Some NDir"
  "shown_at u p = Some (SLink t) \<longleftrightarrow> node_at u p = Some (NLink t)"
  by (auto simp: shown_at_def split: option.splits node.splits)

subsection \<open>What a list of entries asks for\<close>

definition pth :: "zip_entry \<Rightarrow> string list" where
  "pth e = clean_elems (ze_name e)"

definition prefs :: "string list \<Rightarrow> string list set" where
  "prefs p = {take k p | k. True}"

definition dirs_of :: "zip_entry \<Rightarrow> string list set" where
  "dirs_of e = prefs (if ze_kind e = ZDir then pth e else butlast (pth e))"

definition needs :: "zip_entry list \<Rightarrow> string list set" where
  "needs L = insert [] (\<Union>e\<in>set L. dirs_of e)"

definition leaves :: "zip_entry list \<Rightarrow> zip_entry list" where
  "leaves L = filter (\<lambda>e. ze_kind e \<noteq> ZDir) L"

definition content :: "zip_entry \<Rightarrow> shown" where
  "content e = (if ze_kind e = ZLink then SLink (ze_data e) else SFile ((ze_mode e AND 0x1FF) OR 0x180) (ze_data e))"

definition asked :: "zip_entry list \<Rightarrow> string list \<Rightarrow> shown option" where
  "asked L p = (if p \<in> needs L then Some SDir else map_of (map (\<lambda>e. (pth e, content e)) (leaves L)) p)"

definition total_data :: "zip_entry list \<Rightarrow> int" where
  "total_data L = sum_list (map (\<lambda>e. int (length (ze_data e))) (filter (\<lambda>e. ze_kind e = ZFile) L))"

definition link_static :: "zip_entry \<Rightarrow> bool" where
  "link_static e \<longleftrightarrow>
     \<not> (rooted (ze_data e) \<or> path_join [path_dir (ze_name e), ze_data e] = ''..''
        \<or> has_prefix (path_join [path_dir (ze_name e), ze_data e]) ''../'')"

text \<open>When unpacking succeeds.\<close>

definition fits :: "zip_entry list \<Rightarrow> bool" where
  "fits L \<longleftrightarrow> (\<forall>e\<in>set (leaves L). pth e \<notin> needs L) \<and> (\<forall>e\<in>set L. ze_kind e = ZLink \<longrightarrow> link_static e)
     \<and> (total_data L \<le> max_unpacked)"

text \<open>What the check of the order ensures.\<close>

definition entry_named :: "zip_entry \<Rightarrow> bool" where
  "entry_named e \<longleftrightarrow> (\<exists>cs. ze_name e = render_path False cs \<and> plain_names cs \<and> (ze_kind e \<noteq> ZDir \<longrightarrow> cs \<noteq> []))"

definition unordered :: "zip_entry list \<Rightarrow> bool" where
  "unordered L \<longleftrightarrow> list_all entry_named L \<and> distinct (map pth (leaves L))
     \<and> (\<forall>e\<in>set L. ze_kind e = ZLink \<longrightarrow> pth e \<notin> needs L)"

lemma prefs_self: "p \<in> prefs p" "[] \<in> prefs p"
  by (auto simp: prefs_def intro: exI[of _ "length p"] exI[of _ 0])

lemma needs_simps [simp]:
  "needs [] = {[]}" "needs (e # L) = needs L \<union> dirs_of e" "needs (L @ M) = needs L \<union> needs M" "[] \<in> needs L"
  by (auto simp: needs_def)

lemma leaves_simps [simp]: "leaves [] = []" "leaves (L @ M) = leaves L @ leaves M"
  "leaves (e # L) = (if ze_kind e = ZDir then leaves L else e # leaves L)"
  by (simp_all add: leaves_def)

lemma total_simps [simp]: "total_data [] = 0" "total_data (L @ M) = total_data L + total_data M"
  "total_data (e # L) = (if ze_kind e = ZFile then int (length (ze_data e)) else 0) + total_data L"
  by (simp_all add: total_data_def)

lemma total_nonneg: "0 \<le> total_data L"
  by (induction L) auto

lemma entry_pth: "entry_named e \<Longrightarrow> ze_name e = render_path False (pth e) \<and> plain_names (pth e) \<and> (ze_kind e \<noteq> ZDir \<longrightarrow> pth e \<noteq> [])"
  by (auto simp: entry_named_def pth_def plain_stack_False)

lemma unordered_prefix: "unordered (L @ [e]) \<Longrightarrow> unordered L"
  by (auto simp: unordered_def split: if_splits)

lemma fits_prefix: "fits (L @ [e]) \<Longrightarrow> fits L"
  using total_nonneg[of "[e]"] by (auto simp: fits_def split: if_splits)

subsection \<open>Without links on the way\<close>

lemma plain_parts: "plain_name part \<Longrightarrow> part \<noteq> [] \<and> part \<noteq> ''.'' \<and> part \<noteq> ''..''"
  by (simp add: plain_name_def)

lemma take_Cons_ex: "(\<exists>k. p = at @ take k (x # xs)) \<longleftrightarrow> p = at \<or> (\<exists>k. p = (at @ [x]) @ take k xs)"
proof
  assume "\<exists>k. p = at @ take k (x # xs)"
  then obtain k where "p = at @ take k (x # xs)" ..
  then show "p = at \<or> (\<exists>k. p = (at @ [x]) @ take k xs)" by (cases k) auto
next
  assume "p = at \<or> (\<exists>k. p = (at @ [x]) @ take k xs)"
  then show "\<exists>k. p = at @ take k (x # xs)" by (auto intro: exI[of _ 0] exI[of _ "Suc _"])
qed

lemma mkdirs_file:
  assumes "node_at u at = Some NDir" "plain_names rest" "\<forall>k t. node_at u (at @ take k rest) \<noteq> Some (NLink t)"
    and "\<exists>k i. node_at u (at @ take k rest) = Some (NFile i)"
  shows "root_mkdirs u n at rest = Inl NotDirectory"
  using assms
proof (induction rest arbitrary: u at)
  case (Cons x rest)
  have x: "plain_name x" "plain_names rest" using Cons.prems(2) by (auto simp: plain_names_all)
  have link: "node_at u (at @ [x]) \<noteq> Some (NLink t)" for t using Cons.prems(3)[rule_format, of 1] by simp
  have below: "\<forall>k t. node_at u ((at @ [x]) @ take k rest) \<noteq> Some (NLink t)"
    using Cons.prems(3)[rule_format, of "Suc _"] by simp
  obtain k i where "node_at u (at @ take k (x # rest)) = Some (NFile i)" using Cons.prems(4) by blast
  moreover from this have "k \<noteq> 0" using Cons.prems(1) by (cases k) auto
  ultimately obtain k' where fl: "node_at u ((at @ [x]) @ take k' rest) = Some (NFile i)" by (cases k) auto
  show ?case
  proof (cases "node_at u (at @ [x])")
    case None
    let ?v = "add_node (at @ [x]) NDir u"
    have same: "node_at ?v ((at @ [x]) @ take j rest) = (if j = 0 \<or> rest = [] then Some NDir else node_at u ((at @ [x]) @ take j rest))" for j
      by (auto simp: node_at_add)
    have "k' \<noteq> 0 \<and> rest \<noteq> []" using fl None by (cases "k' = 0 \<or> rest = []") auto
    then have "\<exists>k i. node_at ?v ((at @ [x]) @ take k rest) = Some (NFile i)" using same[of k'] fl by auto
    moreover have "\<forall>k t. node_at ?v ((at @ [x]) @ take k rest) \<noteq> Some (NLink t)" using below same by simp
    ultimately show ?thesis
      using Cons.IH[of ?v "at @ [x]"] x None plain_parts[OF x(1)] by (simp add: node_at_add)
  next
    case (Some m)
    show ?thesis
    proof (cases m)
      case NDir
      with Cons.IH[of u "at @ [x]"] below fl Some x plain_parts[OF x(1)] show ?thesis by auto
    next
      case (NFile j)
      with Some plain_parts[OF x(1)] show ?thesis by simp
    next
      case (NLink t)
      with Some link show ?thesis by simp
    qed
  qed
qed simp

lemma mkdirs_free:
  assumes "tree_ok u" "node_at u at = Some NDir" "plain_names rest"
    and "\<forall>k. node_at u (at @ take k rest) \<in> {None, Some NDir}"
  shows "\<exists>u'. root_mkdirs u n at rest = Inr u' \<and> un_heap u' = un_heap u \<and> un_written u' = un_written u
    \<and> (\<forall>p. node_at u' p = (if \<exists>k. p = at @ take k rest then Some NDir else node_at u p))"
  using assms
proof (induction rest arbitrary: u at)
  case (Cons x rest)
  have x: "plain_name x" "plain_names rest" using Cons.prems(3) by (auto simp: plain_names_all)
  have here: "node_at u (at @ [x]) \<in> {None, Some NDir}" using Cons.prems(4)[rule_format, of 1] by simp
  have below: "\<forall>k. node_at u ((at @ [x]) @ take k rest) \<in> {None, Some NDir}"
    using Cons.prems(4)[rule_format, of "Suc _"] by simp
  define v where "v = (if node_at u (at @ [x]) = None then add_node (at @ [x]) NDir u else u)"
  have step: "root_mkdirs u n at (x # rest) = root_mkdirs v n (at @ [x]) rest"
    using here plain_parts[OF x(1)] by (auto simp: v_def)
  have v: "tree_ok v" "node_at v (at @ [x]) = Some NDir"
    using here Cons.prems(1,2) x(1) by (auto simp: v_def node_at_add intro: tree_ok_add)
  have w: "un_heap v = un_heap u" "un_written v = un_written u" by (auto simp: v_def)
  have at_v: "node_at v p = (if p = at @ [x] then Some NDir else node_at u p)" for p
    using here by (auto simp: v_def node_at_add)
  have "\<forall>k. node_at v ((at @ [x]) @ take k rest) \<in> {None, Some NDir}" using below at_v by auto
  from Cons.IH[OF v(1,2) x(2) this] obtain u' where u': "root_mkdirs v n (at @ [x]) rest = Inr u'"
    "un_heap u' = un_heap v" "un_written u' = un_written v"
    "\<forall>p. node_at u' p = (if \<exists>k. p = (at @ [x]) @ take k rest then Some NDir else node_at v p)" by blast
  have "node_at u' p = (if \<exists>k. p = at @ take k (x # rest) then Some NDir else node_at u p)" for p
    unfolding take_Cons_ex using u'(4)[rule_format, of p] at_v[of p] Cons.prems(2)
    by (auto intro: exI[of _ 0])
  with step u' v w show ?case by auto
qed auto

lemma find_dirs:
  assumes "\<forall>k. node_at u (at @ take k rest) = Some NDir" "plain_names rest"
  shows "root_find u [] n at rest = Inr (at @ rest)"
  using assms
proof (induction rest arbitrary: at)
  case (Cons x rest)
  have x: "plain_name x" "plain_names rest" using Cons.prems(2) by (auto simp: plain_names_all)
  have "node_at u (at @ [x]) = Some NDir" using Cons.prems(1)[rule_format, of 1] by simp
  moreover have "\<forall>k. node_at u ((at @ [x]) @ take k rest) = Some NDir"
    using Cons.prems(1)[rule_format, of "Suc _"] by simp
  ultimately show ?case using Cons.IH[of "at @ [x]"] x plain_parts[OF x(1)] by simp
qed simp

subsection \<open>One entry\<close>

definition displays :: "unpacked \<Rightarrow> zip_entry list \<Rightarrow> bool" where
  "displays u L \<longleftrightarrow> tree_ok u \<and> heap_ok u \<and> shown_at u = asked L \<and> un_written u = total_data L"

lemma asked_dir: "asked L p = Some SDir \<longleftrightarrow> p \<in> needs L"
  by (auto simp: asked_def content_def dest!: map_of_SomeD split: if_splits)

lemma asked_leaf:
  assumes "fits L" "unordered L" "e \<in> set (leaves L)"
  shows "asked L (pth e) = Some (content e)"
proof -
  have "pth e \<notin> needs L" using assms(1,3) by (simp add: fits_def)
  moreover have "map_of (map (\<lambda>e. (pth e, content e)) (leaves L)) (pth e) = Some (content e)"
    using assms(2,3) by (intro map_of_is_SomeI) (auto simp: unordered_def comp_def)
  ultimately show ?thesis by (simp add: asked_def)
qed

lemma asked_None: "asked L p = None \<longleftrightarrow> p \<notin> needs L \<and> p \<notin> pth ` set (leaves L)"
  by (auto simp: asked_def map_of_eq_None_iff image_image)

lemma mkdirs_render: "plain_names dp \<Longrightarrow> mkdir_all (render_path False dp) u = root_mkdirs u root_links [] dp"
  by (cases "dp = []") (simp_all add: mkdir_all_def comps_render)

lemma find_render: "plain_names dp \<Longrightarrow> root_find u b n [] (comps (render_path False dp)) = root_find u b n [] dp"
  by (cases "dp = []") (simp_all add: comps_render)

text \<open>Making the directories up to \<open>dp\<close>.\<close>

lemma mkdir_shows:
  assumes "displays u L" "fits L" "unordered L" "plain_names dp" "\<forall>e\<in>set (leaves L). ze_kind e = ZLink \<longrightarrow> pth e \<notin> prefs dp"
  shows "(\<exists>e\<in>set (leaves L). pth e \<in> prefs dp) \<Longrightarrow> mkdir_all (render_path False dp) u = Inl NotDirectory"
    and "\<forall>e\<in>set (leaves L). pth e \<notin> prefs dp \<Longrightarrow>
      \<exists>u'. mkdir_all (render_path False dp) u = Inr u' \<and> tree_ok u' \<and> un_heap u' = un_heap u \<and> un_written u' = un_written u
        \<and> (\<forall>p. node_at u' p = (if p \<in> prefs dp then Some NDir else node_at u p))"
proof -
  have u: "tree_ok u" "shown_at u = asked L" using assms(1) by (auto simp: displays_def)
  have link: "node_at u (take k dp) \<noteq> Some (NLink t)" for k t
  proof
    assume "node_at u (take k dp) = Some (NLink t)"
    then have "asked L (take k dp) = Some (SLink t)" using u(2) shown_at_cases(3) by metis
    then obtain e where "e \<in> set (leaves L)" "pth e = take k dp" "content e = SLink t"
      by (auto simp: asked_def dest!: map_of_SomeD split: if_splits)
    then show False using assms(5) by (auto simp: content_def prefs_def split: if_splits)
  qed
  show "mkdir_all (render_path False dp) u = Inl NotDirectory" if leaf: "\<exists>e\<in>set (leaves L). pth e \<in> prefs dp"
  proof -
    from leaf obtain e k where e: "e \<in> set (leaves L)" "pth e = take k dp" by (auto simp: prefs_def)
    then have "shown_at u (take k dp) = Some (content e)" using asked_leaf[OF assms(2,3)] u(2) by metis
    then obtain i where "node_at u (take k dp) = Some (NFile i)"
      using link by (auto simp: shown_at_def content_def split: option.splits node.splits if_splits)
    with mkdirs_file[of u "[]" dp root_links] assms(4) link show ?thesis by (auto simp: mkdirs_render)
  qed
  show "\<exists>u'. mkdir_all (render_path False dp) u = Inr u' \<and> tree_ok u' \<and> un_heap u' = un_heap u \<and> un_written u' = un_written u
        \<and> (\<forall>p. node_at u' p = (if p \<in> prefs dp then Some NDir else node_at u p))"
    if free: "\<forall>e\<in>set (leaves L). pth e \<notin> prefs dp"
  proof -
    have "node_at u (take k dp) \<in> {None, Some NDir}" for k
    proof (cases "take k dp \<in> needs L")
      case True
      then show ?thesis using u(2) asked_dir shown_at_cases(2) by (metis insertCI)
    next
      case False
      moreover have "take k dp \<notin> pth ` set (leaves L)" using free by (auto simp: prefs_def dest: sym[of "take k dp"])
      ultimately have "asked L (take k dp) = None" by (simp add: asked_None)
      then show ?thesis using u(2) shown_at_cases(1) by (metis insertCI)
    qed
    then have "\<exists>u'. root_mkdirs u root_links [] dp = Inr u' \<and> un_heap u' = un_heap u \<and> un_written u' = un_written u
      \<and> (\<forall>p. node_at u' p = (if \<exists>k. p = [] @ take k dp then Some NDir else node_at u p))"
      using u(1) assms(4) by (intro mkdirs_free) simp_all
    then obtain u' where u': "root_mkdirs u root_links [] dp = Inr u'" "un_heap u' = un_heap u" "un_written u' = un_written u"
      "\<forall>p. node_at u' p = (if p \<in> prefs dp then Some NDir else node_at u p)"
      by (auto simp: prefs_def)
    moreover have "tree_ok u'" using root_mkdirs_ok[OF u'(1) u(1)] assms(4) by (simp add: no_slash_def plain_names_def)
    ultimately show ?thesis using assms(4) by (auto simp: mkdirs_render)
  qed
qed

lemma shown_after_dirs:
  assumes "\<forall>p. node_at u' p = (if p \<in> prefs dp then Some NDir else node_at u p)" "un_heap u' = un_heap u"
  shows "shown_at u' p = (if p \<in> prefs dp then Some SDir else shown_at u p)"
  using assms by (auto simp: shown_at_def split: option.split node.split)

lemma heap_after_dirs:
  assumes "\<forall>p. node_at u' p = (if p \<in> prefs dp then Some NDir else node_at u p)" "un_heap u' = un_heap u" "heap_ok u"
  shows "heap_ok u'"
  using assms by (auto simp: heap_ok_def split: if_splits)

lemma asked_snoc_leaf:
  assumes "ze_kind e \<noteq> ZDir" "pth e \<notin> needs (L @ [e])" "pth e \<notin> pth ` set (leaves L)"
  shows "asked (L @ [e]) p = (if p \<in> dirs_of e then Some SDir else if p = pth e then Some (content e) else asked L p)"
proof -
  let ?m = "map (\<lambda>e. (pth e, content e)) (leaves L)"
  have none: "map_of ?m (pth e) = None" using assms(3) by (simp add: map_of_eq_None_iff image_image)
  have "map_of (?m @ [(pth e, content e)]) p = (if p = pth e then Some (content e) else map_of ?m p)"
    using none by (cases "p = pth e") (auto simp: map_add_def split: option.split)
  with assms show ?thesis by (auto simp: asked_def)
qed

lemma asked_snoc_dir:
  "ze_kind e = ZDir \<Longrightarrow> asked (L @ [e]) p = (if p \<in> dirs_of e then Some SDir else asked L p)"
  by (simp add: asked_def)

lemma not_prefs_butlast: "p \<noteq> [] \<Longrightarrow> p \<notin> prefs (butlast p)"
proof
  assume "p \<noteq> []" "p \<in> prefs (butlast p)"
  then obtain k where "p = take k (butlast p)" by (auto simp: prefs_def)
  then have "length p \<le> length (butlast p)" by (metis length_take min.cobounded1 min_def nat_le_linear)
  moreover have "0 < length p" using \<open>p \<noteq> []\<close> by simp
  ultimately show False by (simp only: length_butlast)
qed

lemma unpack_dir:
  assumes "displays u L" "fits L" "unordered (L @ [e])" "ze_kind e = ZDir"
  shows "fits (L @ [e]) \<Longrightarrow> \<exists>u'. unpack_entry e u = Inr u' \<and> displays u' (L @ [e])"
    and "\<not> fits (L @ [e]) \<Longrightarrow> \<exists>x. unpack_entry e u = Inl x"
proof -
  have L: "unordered L" by (rule unordered_prefix[OF assms(3)])
  have e: "ze_name e = render_path False (pth e)" "plain_names (pth e)"
    using entry_pth[of e] assms(3) by (auto simp: unordered_def)
  have d: "dirs_of e = prefs (pth e)" using assms(4) by (simp add: dirs_of_def)
  have link: "\<forall>f\<in>set (leaves L). ze_kind f = ZLink \<longrightarrow> pth f \<notin> prefs (pth e)"
    using assms(3) d by (auto simp: unordered_def leaves_def)
  have fits: "fits (L @ [e]) \<longleftrightarrow> (\<forall>f\<in>set (leaves L). pth f \<notin> prefs (pth e))"
    using assms(2,4) d by (auto simp: fits_def)
  note m = mkdir_shows[OF assms(1,2) L e(2) link]
  show "\<exists>x. unpack_entry e u = Inl x" if "\<not> fits (L @ [e])"
    using m(1) that fits assms(4) e(1) by (auto simp: unpack_entry_def)
  show "\<exists>u'. unpack_entry e u = Inr u' \<and> displays u' (L @ [e])" if f: "fits (L @ [e])"
  proof -
    from m(2) f fits obtain u' where u': "mkdir_all (ze_name e) u = Inr u'" "tree_ok u'" "un_heap u' = un_heap u"
      "un_written u' = un_written u" "\<forall>p. node_at u' p = (if p \<in> prefs (pth e) then Some NDir else node_at u p)"
      by (auto simp: e(1))
    have "shown_at u' = asked (L @ [e])"
      using shown_after_dirs[OF u'(5,3)] assms(1,4) by (intro ext) (simp add: asked_snoc_dir d displays_def)
    then have "displays u' (L @ [e])"
      using u' heap_after_dirs[OF u'(5,3)] assms(1,4) by (simp add: displays_def)
    with u'(1) assms(4) show ?thesis by (simp add: unpack_entry_def)
  qed
qed


text \<open>A place that a file or a link asks for is free exactly when no entry needs it as a directory.\<close>

lemma leaf_place:
  assumes "displays u L" "unordered (L @ [e])" "ze_kind e \<noteq> ZDir"
  shows "pth e \<notin> pth ` set (leaves L)"
    and "pth e \<notin> needs L \<Longrightarrow> node_at u (pth e) = None" and "pth e \<in> needs L \<Longrightarrow> node_at u (pth e) = Some NDir"
proof -
  have u: "shown_at u = asked L" using assms(1) by (simp add: displays_def)
  show n: "pth e \<notin> pth ` set (leaves L)" using assms(2,3) by (auto simp: unordered_def)
  show "node_at u (pth e) = None" if "pth e \<notin> needs L"
    using n that u asked_None[of L "pth e"] shown_at_cases(1) by metis
  show "node_at u (pth e) = Some NDir" if "pth e \<in> needs L"
    using that u asked_dir[of L "pth e"] shown_at_cases(2) by metis
qed

lemma leaf_parts:
  assumes "unordered (L @ [e])" "ze_kind e \<noteq> ZDir"
  shows "plain_names (pth e)" "pth e \<noteq> []" "path_dir (ze_name e) = render_path False (butlast (pth e))"
    "path_base (ze_name e) = last (pth e)" "plain_name (last (pth e))" "comps (ze_name e) = pth e"
    "dirs_of e = prefs (butlast (pth e))" "butlast (pth e) @ [last (pth e)] = pth e"
proof -
  show p: "plain_names (pth e)" "pth e \<noteq> []" using entry_pth[of e] assms by (auto simp: unordered_def)
  have name: "ze_name e = join ''/'' (pth e)" using entry_pth[of e] assms p by (auto simp: unordered_def join_render)
  show "path_dir (ze_name e) = render_path False (butlast (pth e))" unfolding name by (rule path_dir_join[OF p])
  show c: "comps (ze_name e) = pth e" unfolding name by (rule comps_join[OF p])
  have "last (pth e) \<in> set (pth e)" using p by simp
  then show l: "plain_name (last (pth e))" using p by (simp add: plain_names_all)
  show "path_base (ze_name e) = last (pth e)" using base_leaf[of "ze_name e"] l c by (simp add: leaf_ok_def)
  show "dirs_of e = prefs (butlast (pth e))" using assms(2) by (simp add: dirs_of_def)
  show "butlast (pth e) @ [last (pth e)] = pth e" using p by simp
qed

lemma fits_snoc_leaf:
  assumes "fits L" "unordered (L @ [e])" "ze_kind e \<noteq> ZDir"
  shows "fits (L @ [e]) \<longleftrightarrow> (\<forall>f\<in>set (leaves L). pth f \<notin> prefs (butlast (pth e))) \<and> pth e \<notin> needs L
     \<and> (ze_kind e = ZLink \<longrightarrow> link_static e) \<and> total_data (L @ [e]) \<le> max_unpacked"
  using assms not_prefs_butlast[OF leaf_parts(2)[OF assms(2,3)]] leaf_parts(7)[OF assms(2,3)]
  by (auto simp: fits_def)

lemma dirs_then_place:
  assumes "displays u L" "unordered (L @ [e])" "ze_kind e \<noteq> ZDir"
    and "\<forall>p. node_at u' p = (if p \<in> prefs (butlast (pth e)) then Some NDir else node_at u p)"
  shows "root_dir u' (comps (path_dir (ze_name e))) = Inr (butlast (pth e))" "root_dir u' (butlast (comps (ze_name e))) = Inr (butlast (pth e))"
    "node_at u' (pth e) = node_at u (pth e)"
proof -
  note l = leaf_parts[OF assms(2,3)]
  have b: "plain_names (butlast (pth e))" by (rule plain_names_butlast[OF l(1)])
  have "\<forall>k. node_at u' ([] @ take k (butlast (pth e))) = Some NDir" using assms(4) by (auto simp: prefs_def)
  from find_dirs[OF this b] have "root_find u' [] root_links [] (butlast (pth e)) = Inr (butlast (pth e))" by simp
  moreover have "node_at u' (butlast (pth e)) = Some NDir" using assms(4) prefs_self by simp
  ultimately show "root_dir u' (comps (path_dir (ze_name e))) = Inr (butlast (pth e))"
    "root_dir u' (butlast (comps (ze_name e))) = Inr (butlast (pth e))"
    using find_render[OF b] by (simp_all add: root_dir_def l(3,6))
  show "node_at u' (pth e) = node_at u (pth e)" using assms(4) not_prefs_butlast[OF l(2)] by simp
qed

lemma unpack_link:
  assumes "displays u L" "fits L" "unordered (L @ [e])" "ze_kind e = ZLink"
  shows "fits (L @ [e]) \<Longrightarrow> \<exists>u'. unpack_entry e u = Inr u' \<and> displays u' (L @ [e])"
    and "\<not> fits (L @ [e]) \<Longrightarrow> \<exists>x. unpack_entry e u = Inl x"
proof -
  have nd: "ze_kind e \<noteq> ZDir" using assms(4) by simp
  note l = leaf_parts[OF assms(3) nd]
  have L: "unordered L" by (rule unordered_prefix[OF assms(3)])
  have link: "\<forall>f\<in>set (leaves L). ze_kind f = ZLink \<longrightarrow> pth f \<notin> prefs (butlast (pth e))"
    using assms(3) l(7) by (auto simp: unordered_def leaves_def)
  have free: "pth e \<notin> needs L" using assms(3,4) by (auto simp: unordered_def)
  note m = mkdir_shows[OF assms(1,2) L plain_names_butlast[OF l(1)] link]
  have tot: "total_data (L @ [e]) \<le> max_unpacked" using assms(2,4) by (simp add: fits_def)
  have fits: "fits (L @ [e]) \<longleftrightarrow> (\<forall>f\<in>set (leaves L). pth f \<notin> prefs (butlast (pth e))) \<and> link_static e"
    using fits_snoc_leaf[OF assms(2,3) nd] free assms(4) tot by simp
  have entry: "unpack_entry e u = (if link_static e then and_then (mkdir_all (render_path False (butlast (pth e))) u)
      (root_symlink (ze_data e) (ze_name e)) else Inl (LinkOutside (ze_data e)))"
    using assms(4) by (simp add: unpack_entry_def write_symlink_def Let_def link_static_def l(3))
  show "\<exists>x. unpack_entry e u = Inl x" if "\<not> fits (L @ [e])"
  proof (cases "link_static e")
    case True
    with that fits have "mkdir_all (render_path False (butlast (pth e))) u = Inl NotDirectory" by (intro m(1)) blast
    with True show ?thesis by (simp add: entry)
  qed (simp add: entry)
  show "\<exists>u'. unpack_entry e u = Inr u' \<and> displays u' (L @ [e])" if f: "fits (L @ [e])"
  proof -
    from m(2) f fits obtain u' where u': "mkdir_all (render_path False (butlast (pth e))) u = Inr u'" "tree_ok u'"
      "un_heap u' = un_heap u" "un_written u' = un_written u"
      "\<forall>p. node_at u' p = (if p \<in> prefs (butlast (pth e)) then Some NDir else node_at u p)" by blast
    note d = dirs_then_place[OF assms(1,3) nd u'(5)]
    have none: "node_at u' (pth e) = None" using d(3) leaf_place(2)[OF assms(1,3) nd free] by simp
    let ?w = "add_node (pth e) (NLink (ze_data e)) u'"
    have "root_symlink (ze_data e) (ze_name e) u' = Inr ?w"
      using d(2) none by (simp add: root_symlink_def root_place_def l(6,8))
    with f fits u'(1) have unpacked: "unpack_entry e u = Inr ?w" by (simp add: entry)
    have ok: "tree_ok ?w" using u'(2,5) none l(5) prefs_self by (intro tree_ok_add) simp_all
    have "heap_ok u'" using heap_after_dirs[OF u'(5,3)] assms(1) by (simp add: displays_def)
    then have heap: "heap_ok ?w" by (auto simp: heap_ok_def node_at_add split: if_splits)
    have "shown_at ?w p = asked (L @ [e]) p" for p
    proof -
      have "shown_at ?w p = (if p = pth e then Some (SLink (ze_data e)) else shown_at u' p)"
        using l(2) by (auto simp: shown_at_def node_at_add split: option.split node.split)
      moreover have "pth e \<notin> needs (L @ [e])" using free l(2,7) not_prefs_butlast[OF l(2)] by simp
      ultimately show ?thesis
        using shown_after_dirs[OF u'(5,3), of p] asked_snoc_leaf[OF nd _ leaf_place(1)[OF assms(1,3) nd], of p]
          assms(1,4) l(7) not_prefs_butlast[OF l(2)]
        by (auto simp: displays_def content_def)
    qed
    then have "shown_at ?w = asked (L @ [e])" by (rule ext)
    with ok heap u'(4) assms(1,4) have "displays ?w (L @ [e])" by (simp add: displays_def)
    with unpacked show ?thesis by blast
  qed
qed


lemma file_write_found:
  assumes "mkdir_all (path_dir name) u = Inr u'" "root_dir u' (comps (path_dir name)) = Inr d"
    and "root_find u' d root_links [] [path_base name] = Inr q"
  shows "node_at u' (d @ q) = Some NDir \<Longrightarrow> file_write name mode data u = Inl IsDirectory"
    and "node_at u' (d @ q) = None \<Longrightarrow> file_write name mode data u =
      (if un_written u' + int (length data) > max_unpacked then Inl TooLarge
       else Inr ((add_node (d @ q) (NFile (length (un_heap u'))) u')
         \<lparr>un_heap := un_heap u' @ [((mode AND 0x1FF) OR 0x180, data)], un_written := un_written u' + int (length data)\<rparr>))"
  unfolding file_write_def assms and_then_simps by (simp_all add: Let_def)

lemma unpack_file:
  assumes "displays u L" "fits L" "unordered (L @ [e])" "ze_kind e = ZFile"
  shows "fits (L @ [e]) \<Longrightarrow> \<exists>u'. unpack_entry e u = Inr u' \<and> displays u' (L @ [e])"
    and "\<not> fits (L @ [e]) \<Longrightarrow> \<exists>x. unpack_entry e u = Inl x"
proof -
  have nd: "ze_kind e \<noteq> ZDir" using assms(4) by simp
  note l = leaf_parts[OF assms(3) nd]
  have L: "unordered L" by (rule unordered_prefix[OF assms(3)])
  have link: "\<forall>f\<in>set (leaves L). ze_kind f = ZLink \<longrightarrow> pth f \<notin> prefs (butlast (pth e))"
    using assms(3) l(7) by (auto simp: unordered_def leaves_def)
  note m = mkdir_shows[OF assms(1,2) L plain_names_butlast[OF l(1)] link]
  have fits: "fits (L @ [e]) \<longleftrightarrow> (\<forall>f\<in>set (leaves L). pth f \<notin> prefs (butlast (pth e))) \<and> pth e \<notin> needs L
      \<and> total_data (L @ [e]) \<le> max_unpacked"
    using fits_snoc_leaf[OF assms(2,3) nd] assms(4) by simp
  have data: "un_written u + int (length (ze_data e)) = total_data (L @ [e])"
    using assms(1,4) by (simp add: displays_def)
  consider (blocked) "\<exists>f\<in>set (leaves L). pth f \<in> prefs (butlast (pth e))"
    | (free) "\<forall>f\<in>set (leaves L). pth f \<notin> prefs (butlast (pth e))" by blast
  then have "(fits (L @ [e]) \<longrightarrow> (\<exists>u'. unpack_entry e u = Inr u' \<and> displays u' (L @ [e])))
      \<and> (\<not> fits (L @ [e]) \<longrightarrow> (\<exists>x. unpack_entry e u = Inl x))"
  proof cases
    case blocked
    then have "unpack_entry e u = Inl NotDirectory" using m(1) assms(4) by (simp add: unpack_entry_def file_write_def l(3))
    moreover have "\<not> fits (L @ [e])" using blocked fits by blast
    ultimately show ?thesis by simp
  next
    case free
    from m(2)[OF free] obtain u' where u': "mkdir_all (render_path False (butlast (pth e))) u = Inr u'" "tree_ok u'"
      "un_heap u' = un_heap u" "un_written u' = un_written u"
      "\<forall>p. node_at u' p = (if p \<in> prefs (butlast (pth e)) then Some NDir else node_at u p)" by blast
    note d = dirs_then_place[OF assms(1,3) nd u'(5)]
    have at: "butlast (pth e) @ [last (pth e)] = pth e" by (rule l(8))
    show ?thesis
    proof (cases "pth e \<in> needs L")
      case True
      then have dir: "node_at u' (pth e) = Some NDir" using d(3) leaf_place(3)[OF assms(1,3) nd] by simp
      have "root_find u' (butlast (pth e)) root_links [] [last (pth e)] = Inr [last (pth e)]"
        using dir plain_parts[OF l(5)] at by simp
      then have "file_write (ze_name e) (ze_mode e) (ze_data e) u = Inl IsDirectory"
        using file_write_found(1)[of "ze_name e" u u' "butlast (pth e)" "[last (pth e)]"] u'(1) d(1) dir at by (simp add: l(3,4))
      then have "unpack_entry e u = Inl IsDirectory" using assms(4) by (simp add: unpack_entry_def)
      with True fits show ?thesis by simp
    next
      case False
      have none: "node_at u' (pth e) = None" using d(3) leaf_place(2)[OF assms(1,3) nd False] by simp
      have found: "root_find u' (butlast (pth e)) root_links [] [last (pth e)] = Inr [last (pth e)]"
        using none plain_parts[OF l(5)] at by simp
      let ?w = "(add_node (pth e) (NFile (length (un_heap u'))) u')
          \<lparr>un_heap := un_heap u' @ [((ze_mode e AND 0x1FF) OR 0x180, ze_data e)], un_written := total_data (L @ [e])\<rparr>"
      have entry: "unpack_entry e u = (if total_data (L @ [e]) > max_unpacked then Inl TooLarge else Inr ?w)"
        using file_write_found(2)[of "ze_name e" u u' "butlast (pth e)" "[last (pth e)]" "ze_mode e" "ze_data e"]
          u'(1,4) d(1) found none at data assms(4) by (simp add: l(3,4) unpack_entry_def)
      have ok: "tree_ok ?w" using u'(2,5) none l(5) prefs_self by (simp add: tree_ok_add)
      have heap': "heap_ok u'" using heap_after_dirs[OF u'(5,3)] assms(1) by (simp add: displays_def)
      have heap: "heap_ok ?w" using heap' by (fastforce simp: heap_ok_def node_at_add split: if_splits)
      have "shown_at ?w p = asked (L @ [e]) p" for p
      proof -
        have old: "node_at u' p = Some (NFile i) \<Longrightarrow> i < length (un_heap u')" for i using heap' by (simp add: heap_ok_def)
        have "shown_at ?w p = (if p = pth e then Some (content e) else shown_at u' p)"
          using l(2) assms(4) old
          by (auto simp: shown_at_def node_at_add content_def nth_append split: option.splits node.splits)
        moreover have "pth e \<notin> needs (L @ [e])" using False l(2,7) not_prefs_butlast[OF l(2)] by simp
        ultimately show ?thesis
          using shown_after_dirs[OF u'(5,3), of p] asked_snoc_leaf[OF nd _ leaf_place(1)[OF assms(1,3) nd], of p]
            assms(1) l(7) not_prefs_butlast[OF l(2)]
          by (auto simp: displays_def)
      qed
      then have "shown_at ?w = asked (L @ [e])" by (rule ext)
      with ok heap have "displays ?w (L @ [e])" by (simp add: displays_def)
      with entry fits free False show ?thesis by auto
    qed
  qed
  then show "fits (L @ [e]) \<Longrightarrow> \<exists>u'. unpack_entry e u = Inr u' \<and> displays u' (L @ [e])"
    and "\<not> fits (L @ [e]) \<Longrightarrow> \<exists>x. unpack_entry e u = Inl x" by blast+
qed

subsection \<open>A list of entries\<close>

lemma each_append: "each f (xs @ ys) s = and_then (each f xs s) (each f ys)"
proof (induction xs arbitrary: s)
  case (Cons x xs)
  then show ?case by (cases "f x s") simp_all
qed simp

lemma displays_empty: "displays empty_root []"
proof -
  have "shown_at empty_root p = asked [] p" for p
    by (simp add: shown_at_def node_at_def asked_def empty_root_def)
  then have "shown_at empty_root = asked []" by (rule ext)
  then show ?thesis by (simp add: displays_def heap_ok_def node_at_def) (simp add: empty_root_def)
qed

lemma unpack_each:
  "unordered L \<Longrightarrow> (fits L \<longrightarrow> (\<exists>u. each unpack_entry L empty_root = Inr u \<and> displays u L))
     \<and> (\<not> fits L \<longrightarrow> (\<exists>x. each unpack_entry L empty_root = Inl x))"
proof (induction L rule: rev_induct)
  case Nil
  have "fits []" by (simp add: fits_def max_unpacked_def)
  with displays_empty show ?case by simp
next
  case (snoc e L)
  have ih: "fits L \<Longrightarrow> \<exists>u. each unpack_entry L empty_root = Inr u \<and> displays u L"
    "\<not> fits L \<Longrightarrow> \<exists>x. each unpack_entry L empty_root = Inl x"
    using snoc.IH unordered_prefix[OF snoc.prems] by auto
  show ?case
  proof (cases "fits L")
    case False
    with fits_prefix[of L e] ih(2) show ?thesis by (auto simp: each_append)
  next
    case True
    with ih(1) obtain u where u: "each unpack_entry L empty_root = Inr u" "displays u L" by blast
    have one: "each unpack_entry (L @ [e]) empty_root = unpack_entry e u"
      by (cases "unpack_entry e u") (simp_all add: each_append u(1))
    show ?thesis unfolding one
      by (cases "ze_kind e")
        (use unpack_dir[OF u(2) True snoc.prems] unpack_link[OF u(2) True snoc.prems] unpack_file[OF u(2) True snoc.prems] in blast)+
  qed
qed

text \<open>Two lists that ask for the same give the same result.\<close>

definition same_ask :: "zip_entry list \<Rightarrow> zip_entry list \<Rightarrow> bool" where
  "same_ask L M \<longleftrightarrow> needs L = needs M \<and> mset (leaves L) = mset (leaves M)"

lemma leaves_mem: "e \<in> set (leaves L) \<longleftrightarrow> e \<in> set L \<and> ze_kind e \<noteq> ZDir"
  by (auto simp: leaves_def)

lemma total_leaves: "total_data L = total_data (leaves L)"
  by (induction L) auto

lemma total_mset: "mset L = mset M \<Longrightarrow> total_data L = total_data M"
proof -
  assume "mset L = mset M"
  then have "mset (map (\<lambda>e. int (length (ze_data e))) (filter (\<lambda>e. ze_kind e = ZFile) L))
      = mset (map (\<lambda>e. int (length (ze_data e))) (filter (\<lambda>e. ze_kind e = ZFile) M))" by simp
  then show ?thesis unfolding total_data_def by (metis sum_mset_sum_list)
qed

lemma fits_leaves: "fits L \<longleftrightarrow> (\<forall>e\<in>set (leaves L). pth e \<notin> needs L \<and> (ze_kind e = ZLink \<longrightarrow> link_static e))
    \<and> total_data (leaves L) \<le> max_unpacked"
proof -
  have "(\<forall>e\<in>set L. ze_kind e = ZLink \<longrightarrow> link_static e) \<longleftrightarrow> (\<forall>e\<in>set (leaves L). ze_kind e = ZLink \<longrightarrow> link_static e)"
    by (auto simp: leaves_mem)
  then show ?thesis unfolding fits_def total_leaves[of L, symmetric] by blast
qed

lemma same_ask_fits: "same_ask L M \<Longrightarrow> fits L = fits M"
proof -
  assume s: "same_ask L M"
  then have "set (leaves L) = set (leaves M)" "total_data (leaves L) = total_data (leaves M)"
    unfolding same_ask_def by (metis set_mset_mset, metis total_mset)
  with s show ?thesis by (simp add: fits_leaves same_ask_def)
qed

lemma same_ask_asked:
  assumes "same_ask L M" "unordered L"
  shows "asked L = asked M"
proof -
  have "distinct (map fst (map (\<lambda>e. (pth e, content e)) (leaves L)))" using assms(2) by (simp add: unordered_def comp_def)
  moreover have "mset (map (\<lambda>e. (pth e, content e)) (leaves L)) = mset (map (\<lambda>e. (pth e, content e)) (leaves M))"
    using assms(1) by (simp add: same_ask_def)
  ultimately have "map_of (map (\<lambda>e. (pth e, content e)) (leaves L)) = map_of (map (\<lambda>e. (pth e, content e)) (leaves M))"
    by (rule map_of_perm)
  with assms(1) show ?thesis by (auto simp: asked_def same_ask_def)
qed

text \<open>The same outcome: both fail, or both show the same tree.\<close>

definition same_result :: "(extract_error, unpacked) res \<Rightarrow> (extract_error, unpacked) res \<Rightarrow> bool" where
  "same_result r s \<longleftrightarrow>
     (case (r, s) of (Inl _, Inl _) \<Rightarrow> True | (Inr u, Inr v) \<Rightarrow> shown_at u = shown_at v | _ \<Rightarrow> False)"

lemma same_ask_result:
  assumes "same_ask L M" "unordered L" "unordered M"
  shows "same_result (each unpack_entry L empty_root) (each unpack_entry M empty_root)"
proof (cases "fits L")
  case True
  with same_ask_fits[OF assms(1)] unpack_each[OF assms(2)] unpack_each[OF assms(3)]
  obtain u v where "each unpack_entry L empty_root = Inr u" "displays u L" "each unpack_entry M empty_root = Inr v" "displays v M"
    by blast
  then show ?thesis using same_ask_asked[OF assms(1,2)] by (simp add: same_result_def displays_def)
next
  case False
  with same_ask_fits[OF assms(1)] unpack_each[OF assms(2)] unpack_each[OF assms(3)]
  obtain x y where "each unpack_entry L empty_root = Inl x" "each unpack_entry M empty_root = Inl y" by blast
  then show ?thesis by (simp add: same_result_def)
qed

subsection \<open>At once\<close>

text \<open>The directories that the first loop makes, as entries.\<close>

fun dir_entries :: "zip_entry list \<Rightarrow> string list \<Rightarrow> zip_entry list" where
  "dir_entries [] seen = []"
| "dir_entries (e # es) seen =
     (case ze_kind e of
        ZDir \<Rightarrow> e # dir_entries es seen
      | ZLink \<Rightarrow> dir_entries es seen
      | ZFile \<Rightarrow>
          (let dir = path_dir (ze_name e)
           in if dir \<in> set seen then dir_entries es seen
              else e\<lparr>ze_name := dir, ze_kind := ZDir\<rparr> # dir_entries es (seen @ [dir])))"

fun seen_dirs :: "zip_entry list \<Rightarrow> string list \<Rightarrow> string list" where
  "seen_dirs [] seen = seen"
| "seen_dirs (e # es) seen =
     seen_dirs es (if ze_kind e = ZFile \<and> path_dir (ze_name e) \<notin> set seen then seen @ [path_dir (ze_name e)] else seen)"

lemma make_dirs_each:
  "each make_dirs es (u, seen) = and_then (each unpack_entry (dir_entries es seen) u) (\<lambda>u'. Inr (u', seen_dirs es seen))"
proof (induction es arbitrary: u seen)
  case (Cons e es)
  show ?case
  proof (cases "ze_kind e")
    case ZDir
    with Cons show ?thesis
      by (cases "mkdir_all (ze_name e) u") (simp_all add: make_dirs_def unpack_entry_def)
  next
    case ZLink
    with Cons show ?thesis by (simp add: make_dirs_def)
  next
    case ZFile
    with Cons show ?thesis
      by (cases "mkdir_all (path_dir (ze_name e)) u") (simp_all add: make_dirs_def unpack_entry_def Let_def)
  qed
qed simp

lemma unzip_at_once_each:
  "unzip_at_once es sched u =
     each unpack_entry (dir_entries es [] @ sched @ filter (\<lambda>e. ze_kind e = ZLink) es) u"
  by (cases "each unpack_entry (dir_entries es []) u") (simp_all add: unzip_at_once_def make_dirs_each each_append)

lemma dir_entries_kind: "e \<in> set (dir_entries es seen) \<Longrightarrow> ze_kind e = ZDir"
  by (induction es seen rule: dir_entries.induct) (auto simp: Let_def split: zip_kind.splits if_splits)

lemma dir_entries_from:
  "e \<in> set (dir_entries es seen) \<Longrightarrow>
     (\<exists>f\<in>set es. (ze_kind f = ZDir \<and> e = f) \<or> (ze_kind f = ZFile \<and> ze_name e = path_dir (ze_name f)))"
  by (induction es seen rule: dir_entries.induct) (auto simp: Let_def split: zip_kind.splits if_splits)

lemma dir_entries_dirs: "e \<in> set es \<Longrightarrow> ze_kind e = ZDir \<Longrightarrow> e \<in> set (dir_entries es seen)"
  by (induction es seen rule: dir_entries.induct) (auto simp: Let_def split: zip_kind.splits)

subsection \<open>The check of the order\<close>

lemma above_takes:
  assumes "plain_names cs" "0 < k" "k < length cs" "length cs \<le> n"
  shows "render_path False (take k cs) \<in> set (above n (render_path False cs))"
  using assms
proof (induction n arbitrary: cs)
  case (Suc n)
  let ?b = "butlast cs"
  have b: "?b \<noteq> []" "plain_names ?b" "cs \<noteq> []"
    using Suc.prems plain_names_butlast by (auto simp flip: length_greater_0_conv)
  have dir: "path_dir (render_path False cs) = render_path False ?b"
    using path_dir_join[OF Suc.prems(1) b(3)] b(3) Suc.prems(1) by (simp add: join_render)
  have dot: "render_path False ?b \<noteq> ''.''"
  proof
    assume "render_path False ?b = ''.''"
    then have "comps (render_path False ?b) = [''.'']" by (simp add: comps_def)
    then have "?b = [''.'']" using b by (simp add: comps_render)
    then show False using b(2) by (auto simp: plain_names_all plain_name_def)
  qed
  have set: "set (above (Suc n) (render_path False cs)) = insert (render_path False ?b) (set (above n (render_path False ?b)))"
    using dir dot by (simp add: Let_def)
  show ?case
  proof (cases "k = length ?b")
    case True
    then have "take k cs = ?b" by (simp add: butlast_conv_take)
    with set show ?thesis by simp
  next
    case False
    with Suc.prems have k: "k < length ?b" "length ?b \<le> n" by auto
    then have "take k cs = take k ?b" by (simp add: take_butlast)
    with Suc.IH[OF b(2) Suc.prems(2) k] set show ?thesis by simp
  qed
qed simp

end
