(* ===== verification/Extract_Zip_Props.thy ===== *)
theory Extract_Zip_Props
  imports Extract_Zip Extract_Props
begin

text \<open>
  The schedule of the workers that write the files of a zip does not matter: \<open>unzip\<close> gives the result of
  unpacking the entries one after the other, in the order of the archive.
\<close>

lemma strip_entries_named: "strip_entries n es = Inr named \<Longrightarrow> e \<in> set named \<Longrightarrow> entry_named e"
proof (induction es arbitrary: named)
  case (Cons x es)
  from Cons.prems(1) obtain found rest where f: "strip_path (ze_name x) n = Inr found" "strip_entries n es = Inr rest"
    and named: "named = (case found of None \<Rightarrow> rest | Some name \<Rightarrow> x\<lparr>ze_name := name\<rparr> # rest)"
    by (auto simp: and_then_Inr)
  show ?case
  proof (cases found)
    case None
    with Cons f named show ?thesis by simp
  next
    case (Some name)
    with f(1) obtain cs where "name = join ''/'' cs" "plain_names cs" "cs \<noteq> []" using strip_path_Some by blast
    then have "entry_named (x\<lparr>ze_name := name\<rparr>)" by (auto simp: entry_named_def join_render)
    with Cons f named Some show ?thesis by auto
  qed
qed simp

lemma length_join: "[] \<notin> set cs \<Longrightarrow> cs \<noteq> [] \<Longrightarrow> length cs \<le> length (join ''/'' cs)"
proof (induction cs rule: induct_list012)
  case (2 x)
  then show ?case by (cases x) auto
next
  case (3 x y zs)
  then show ?case by simp
qed simp

lemma length_render: "plain_names cs \<Longrightarrow> length cs \<le> length (render_path False cs)"
  using length_join[of cs] by (cases "cs = []") (auto simp: render_path_def plain_names_all plain_name_def)

text \<open>No directory above an entry is a link, so no link is needed as a directory.\<close>

lemma named_unordered:
  assumes "\<forall>e\<in>set named. entry_named e" "\<not> in_order named"
  shows "unordered named"
proof -
  have names: "distinct (map ze_name named)" using assms(2) by (simp add: in_order_def)
  have inj: "pth e = pth f \<longleftrightarrow> ze_name e = ze_name f" if "e \<in> set named" "f \<in> set named" for e f
    using entry_pth[of e] entry_pth[of f] assms(1) that by (auto simp: pth_def)
  have "distinct (map ze_name (leaves named))" using names by (simp add: leaves_def distinct_map_filter)
  then have dist: "distinct (map pth (leaves named))"
    using inj by (auto simp: distinct_map inj_on_def leaves_def)
  have above: "ze_name l \<notin> set (above (length (ze_name e)) (ze_name e))"
    if "e \<in> set named" "l \<in> set named" "ze_kind l = ZLink" for e l
    using assms(2) that by (auto simp: in_order_def list_ex_iff)
  have "pth l \<notin> needs named" if l: "l \<in> set named" "ze_kind l = ZLink" for l
  proof
    assume "pth l \<in> needs named"
    have lp: "ze_name l = render_path False (pth l)" "pth l \<noteq> []" using entry_pth[of l] assms(1) l by auto
    from \<open>pth l \<in> needs named\<close> lp(2) obtain e where e: "e \<in> set named" "pth l \<in> dirs_of e" by (auto simp: needs_def)
    have ep: "ze_name e = render_path False (pth e)" "plain_names (pth e)" using entry_pth[of e] assms(1) e(1) by auto
    have "pth l = pth e \<and> ze_kind e = ZDir \<or> (\<exists>k. 0 < k \<and> k < length (pth e) \<and> pth l = take k (pth e))"
    proof -
      from e(2) obtain k where k: "pth l = take k (if ze_kind e = ZDir then pth e else butlast (pth e))"
        by (auto simp: dirs_of_def prefs_def)
      have "0 < k" using k lp(2) by (cases k) auto
      show ?thesis
      proof (cases "ze_kind e = ZDir")
        case True
        with k \<open>0 < k\<close> show ?thesis by (cases "k < length (pth e)") auto
      next
        case False
        with k have t: "pth l = take (min k (length (pth e) - 1)) (pth e)" by (simp add: butlast_conv_take min_def)
        have "0 < length (pth e) - 1" using t lp(2) by (intro gr0I) simp
        with \<open>0 < k\<close> have "0 < min k (length (pth e) - 1)" "min k (length (pth e) - 1) < length (pth e)" by linarith+
        with t show ?thesis by blast
      qed
    qed
    then show False
    proof
      assume eq: "pth l = pth e \<and> ze_kind e = ZDir"
      then have "l = e" using names inj l(1) e(1) by (auto simp: distinct_map dest: inj_onD)
      with eq l(2) show False by simp
    next
      assume "\<exists>k. 0 < k \<and> k < length (pth e) \<and> pth l = take k (pth e)"
      then obtain k where k: "0 < k" "k < length (pth e)" "pth l = take k (pth e)" by blast
      from above_takes[OF ep(2) k(1,2), of "length (ze_name e)"] length_render[OF ep(2)]
      have "ze_name l \<in> set (above (length (ze_name e)) (ze_name e))" by (simp add: lp(1) ep(1) k(3))
      with above e(1) l show False by blast
    qed
  qed
  with dist assms(1) show ?thesis by (auto simp: unordered_def list_all_iff)
qed

text \<open>The order of the two loops of \<open>unzipAtOnce\<close> asks for the same.\<close>

definition at_once :: "zip_entry list \<Rightarrow> zip_entry list \<Rightarrow> zip_entry list" where
  "at_once named sched = dir_entries named [] @ sched @ filter (\<lambda>e. ze_kind e = ZLink) named"

lemma at_once_same:
  assumes "\<forall>e\<in>set named. entry_named e" "mset sched = mset (filter (\<lambda>e. ze_kind e = ZFile) named)"
  shows "same_ask named (at_once named sched)" "\<forall>e\<in>set (at_once named sched). entry_named e"
proof -
  have sched: "set sched = {e \<in> set named. ze_kind e = ZFile}"
    using assms(2) by (metis set_filter set_mset_mset)
  have pseudo: "entry_named e \<and> (\<exists>f\<in>set named. dirs_of e = dirs_of f)" if e: "e \<in> set (dir_entries named [])" for e
  proof -
    from dir_entries_from[OF e] obtain f where f: "f \<in> set named"
      "ze_kind f = ZDir \<and> e = f \<or> ze_kind f = ZFile \<and> ze_name e = path_dir (ze_name f)" by blast
    show ?thesis
    proof (cases "ze_kind f = ZDir")
      case True
      with f assms(1) show ?thesis by auto
    next
      case False
      have p: "ze_name f = render_path False (pth f)" "plain_names (pth f)" "pth f \<noteq> []"
        using entry_pth[of f] assms(1) f(1) False by auto
      have b: "plain_names (butlast (pth f))" by (rule plain_names_butlast[OF p(2)])
      have name: "ze_name e = render_path False (butlast (pth f))"
        using f(2) False path_dir_join[OF p(2,3)] by (simp add: p(1) join_render[OF p(3)])
      have "pth e = clean_elems (render_path False (butlast (pth f)))" by (simp add: pth_def name)
      then have "pth e = butlast (pth f)" using b by (simp add: plain_stack_False)
      with name b f(1) False dir_entries_kind[OF e] show ?thesis by (auto simp: entry_named_def dirs_of_def pth_def)
    qed
  qed
  have "needs (at_once named sched) = needs named"
  proof (rule set_eqI)
    fix p
    have "(\<exists>e\<in>set (at_once named sched). p \<in> dirs_of e) \<longleftrightarrow> (\<exists>e\<in>set named. p \<in> dirs_of e)"
    proof
      assume "\<exists>e\<in>set (at_once named sched). p \<in> dirs_of e"
      with pseudo sched show "\<exists>e\<in>set named. p \<in> dirs_of e" by (fastforce simp: at_once_def)
    next
      assume "\<exists>e\<in>set named. p \<in> dirs_of e"
      then obtain e where e: "e \<in> set named" "p \<in> dirs_of e" by blast
      moreover from e(1) have "e \<in> set (at_once named sched)"
        using dir_entries_dirs[of e named "[]"] sched by (cases "ze_kind e") (auto simp: at_once_def)
      ultimately show "\<exists>e\<in>set (at_once named sched). p \<in> dirs_of e" by blast
    qed
    then show "p \<in> needs (at_once named sched) \<longleftrightarrow> p \<in> needs named" by (auto simp: needs_def)
  qed
  moreover have "mset (leaves (at_once named sched)) = mset (leaves named)"
  proof -
    have d: "leaves (dir_entries named []) = []" using dir_entries_kind by (auto simp: leaves_def filter_empty_conv)
    have "leaves sched = sched" using sched by (auto simp: leaves_def filter_id_conv)
    moreover have "leaves (filter (\<lambda>e. ze_kind e = ZLink) named) = filter (\<lambda>e. ze_kind e = ZLink) named"
      by (auto simp: leaves_def intro: filter_cong)
    moreover have "mset (filter (\<lambda>e. ze_kind e = ZFile) L) + mset (filter (\<lambda>e. ze_kind e = ZLink) L) = mset (leaves L)" for L
    proof (induction L)
      case (Cons a L)
      then show ?case by (cases "ze_kind a") auto
    qed simp
    ultimately show ?thesis using d assms(2) by (simp add: at_once_def)
  qed
  ultimately show "same_ask named (at_once named sched)" by (simp add: same_ask_def)
  show "\<forall>e\<in>set (at_once named sched). entry_named e" using pseudo sched assms(1) by (auto simp: at_once_def)
qed

lemma at_once_unordered:
  assumes "unordered named" "same_ask named L" "\<forall>e\<in>set L. entry_named e"
  shows "unordered L"
proof -
  have "mset (map pth (leaves L)) = mset (map pth (leaves named))" using assms(2) by (simp add: same_ask_def)
  then have "distinct (map pth (leaves L)) \<longleftrightarrow> distinct (map pth (leaves named))" by (rule mset_eq_imp_distinct_iff)
  then have "distinct (map pth (leaves L))" using assms(1) by (simp add: unordered_def)
  moreover have "set (leaves L) = set (leaves named)" using assms(2) unfolding same_ask_def by (metis set_mset_mset)
  then have "\<forall>e\<in>set L. ze_kind e = ZLink \<longrightarrow> pth e \<notin> needs L"
    using assms(1,2) leaves_mem[of _ L] leaves_mem[of _ named] by (fastforce simp: unordered_def same_ask_def)
  ultimately show ?thesis using assms(3) by (simp add: unordered_def list_all_iff)
qed

definition unzip_one_by_one :: "nat \<Rightarrow> zip_entry list \<Rightarrow> (extract_error, unpacked) res" where
  "unzip_one_by_one strip es = and_then (strip_entries strip es) (\<lambda>named. each unpack_entry named empty_root)"

text \<open>
  C21. Writing the files of a zip at once changes nothing: for every order in which the workers write them,
  \<open>unzip\<close> fails exactly when unpacking the entries one by one fails, and else both leave the same
  directories, files with the same bytes and modes, and links.
\<close>

theorem unzip_any_schedule:
  assumes "schedule_ok strip (Zip es sched)"
  shows "same_result (unzip strip es sched empty_root) (unzip_one_by_one strip es)"
proof (cases "strip_entries strip es")
  case (Inl e)
  then show ?thesis by (simp add: unzip_def unzip_one_by_one_def same_result_def)
next
  case (Inr named)
  have self: "same_result r r" for r by (cases r) (simp_all add: same_result_def)
  have sched: "mset sched = mset (filter (\<lambda>e. ze_kind e = ZFile) named)" using assms Inr by (simp add: schedule_ok_def)
  have all: "\<forall>e\<in>set named. entry_named e" using strip_entries_named[OF Inr] by blast
  show ?thesis
  proof (cases "in_order named")
    case True
    with Inr self show ?thesis by (simp add: unzip_def unzip_one_by_one_def)
  next
    case False
    note un = named_unordered[OF all False]
    note same = at_once_same[OF all sched]
    from same_ask_result[OF same(1) un at_once_unordered[OF un same]]
    have "same_result (each unpack_entry named empty_root) (each unpack_entry (at_once named sched) empty_root)" .
    then show ?thesis using Inr False
      by (auto simp: unzip_def unzip_one_by_one_def unzip_at_once_each at_once_def same_result_def split: sum.splits)
  qed
qed

definition sample_zip :: "zip_entry list" where
  "sample_zip = [\<lparr>ze_name = ''a/b/x'', ze_kind = ZFile, ze_mode = 0x1A4, ze_data = ''1''\<rparr>,
     \<lparr>ze_name = ''a/l'', ze_kind = ZLink, ze_mode = 0, ze_data = ''b''\<rparr>,
     \<lparr>ze_name = ''a/c/y'', ze_kind = ZFile, ze_mode = 0x1ED, ze_data = ''2''\<rparr>]"

definition sample_named :: "zip_entry list" where
  "sample_named = [\<lparr>ze_name = ''b/x'', ze_kind = ZFile, ze_mode = 0x1A4, ze_data = ''1''\<rparr>,
     \<lparr>ze_name = ''l'', ze_kind = ZLink, ze_mode = 0, ze_data = ''b''\<rparr>,
     \<lparr>ze_name = ''c/y'', ze_kind = ZFile, ze_mode = 0x1ED, ze_data = ''2''\<rparr>]"

theorem unzip_any_schedule_witness:
  "\<not> in_order sample_named \<and> is_ok (unzip_one_by_one 1 sample_zip)
     \<and> same_result (unzip 1 sample_zip [sample_named ! 2, sample_named ! 0] empty_root) (unzip_one_by_one 1 sample_zip)"
proof -
  have named: "strip_entries 1 sample_zip = Inr sample_named" by code_simp
  then have "schedule_ok 1 (Zip sample_zip [sample_named ! 2, sample_named ! 0])"
    by (simp add: schedule_ok_def) (simp add: sample_named_def)
  note same = unzip_any_schedule[OF this]
  have "\<not> in_order sample_named" "is_ok (unzip_one_by_one 1 sample_zip)" by code_simp+
  with same show ?thesis by simp
qed

end
