(* ===== verification/Template.thy ===== *)
theory Template
  imports Go_Num Go_Regex
begin

text \<open>
  The variables in the texts of a manifest, \<open>Expand\<close>, \<open>NamesDir\<close> and the variables derived from the version in
  \<open>internal/manifest/manifest.go\<close>.
\<close>

subsection \<open>Finding the variables\<close>

text \<open>\<open>\s\<close> of a Go expression.\<close>

definition is_re_space :: "char \<Rightarrow> bool" where
  "is_re_space c \<longleftrightarrow> byte c \<in> {9, 10, 12, 13, 32}"

text \<open>
  \<open>templateRe\<close> at the start of a text: the name, and the text after the match. The three classes of the
  expression have no character in common, so the longest run of each is the only one that can match.
\<close>

definition template_at :: "string \<Rightarrow> (string \<times> string) option" where
  "template_at s =
     (case cut_prefix s ''{{'' of
        None \<Rightarrow> None
      | Some t \<Rightarrow>
          (let u = dropWhile is_re_space t; name = takeWhile (alnum_or ''_.-'') u;
               v = dropWhile is_re_space (dropWhile (alnum_or ''_.-'') u)
           in if name = [] then None
              else (case cut_prefix v ''}}'' of None \<Rightarrow> None | Some rest \<Rightarrow> Some (name, rest))))"

datatype template_piece = Chr char | Var string

lemma template_at_shorter: "template_at s = Some (name, rest) \<Longrightarrow> length rest < length s"
proof -
  assume "template_at s = Some (name, rest)"
  then obtain t where t: "s = ''{{'' @ t"
    "cut_prefix (dropWhile is_re_space (dropWhile (alnum_or ''_.-'') (dropWhile is_re_space t))) ''}}'' = Some rest"
    by (auto simp: template_at_def Let_def cut_prefix_Some split: option.splits if_splits)
  have "length (dropWhile is_re_space (dropWhile (alnum_or ''_.-'') (dropWhile is_re_space t))) \<le> length t"
    by (meson le_trans length_dropWhile_le)
  with t show ?thesis by (auto simp: cut_prefix_Some)
qed

function template_pieces :: "string \<Rightarrow> template_piece list" where
  "template_pieces s =
     (case template_at s of
        Some (name, rest) \<Rightarrow> Var name # template_pieces rest
      | None \<Rightarrow> (case s of [] \<Rightarrow> [] | c # cs \<Rightarrow> Chr c # template_pieces cs))"
  by pat_completeness auto

termination
  by (relation "measure length") (auto dest: template_at_shorter)

declare template_pieces.simps [simp del]

fun piece_names :: "template_piece list \<Rightarrow> string list" where
  "piece_names [] = []"
| "piece_names (Chr c # ps) = piece_names ps"
| "piece_names (Var name # ps) = name # piece_names ps"

definition names_dir :: "string \<Rightarrow> bool" where
  "names_dir s \<longleftrightarrow>
     list_ex (\<lambda>name. name = ''prefix'' \<or> name = ''pkg'' \<or> has_prefix name ''dep.'' \<and> has_suffix name ''.prefix'')
       (piece_names (template_pieces s))"

subsection \<open>The variables of the version\<close>

definition version_vars :: "string list" where
  "version_vars = [''version_major'', ''version_minor'', ''version_patch'', ''version_nodots'',
     ''version_underscores'', ''version_dashes'']"

text \<open>\<open>versionPartRe\<close>: the digits after the name.\<close>

definition version_part :: "string \<Rightarrow> string option" where
  "version_part name =
     (case cut_prefix name ''version_part'' of
        None \<Rightarrow> None
      | Some ds \<Rightarrow> if ds \<noteq> [] \<and> list_all is_digit ds \<and> hd ds \<noteq> CHR ''0'' then Some ds else None)"

definition is_version_var :: "string \<Rightarrow> bool" where
  "is_version_var name \<longleftrightarrow> name \<in> set version_vars \<or> version_part name \<noteq> None"

datatype template_error =
    UnknownVars "string list"
  | VersionHasNo string string

definition nth_part :: "string \<Rightarrow> string \<Rightarrow> string list \<Rightarrow> int \<Rightarrow> (template_error, string) res" where
  "nth_part name version ps i =
     (if i \<ge> int (length ps) then Inl (VersionHasNo name version)
      else if ps ! nat i = [] then Inl (VersionHasNo name version) else Inr (ps ! nat i))"

definition version_var :: "string \<Rightarrow> string \<Rightarrow> (template_error, string) res" where
  "version_var name version =
     (let base = (case cut_char (CHR ''+'') version of None \<Rightarrow> version | Some (b, _) \<Rightarrow> b);
          numbers = split_char (CHR ''.'') base;
          dots = (\<lambda>d. concat (map (\<lambda>c. if c = CHR ''.'' then d else [c]) version))
      in if name = ''version_major'' then nth_part name version numbers 0
         else if name = ''version_minor'' then nth_part name version numbers 1
         else if name = ''version_patch'' then nth_part name version numbers 2
         else if name = ''version_nodots'' then Inr (dots [])
         else if name = ''version_underscores'' then Inr (dots ''_'')
         else if name = ''version_dashes'' then Inr (dots ''-'')
         else nth_part name version (split_char (CHR ''+'') version)
                (atoi_value (case version_part name of Some ds \<Rightarrow> ds | None \<Rightarrow> []) - 1))"

subsection \<open>Expand\<close>

text \<open>The value of a name: \<open>None\<close> for one that is not known.\<close>

definition template_value :: "(string \<times> string) list \<Rightarrow> string \<Rightarrow> (template_error, string) res option" where
  "template_value vars name =
     (case map_of vars name of
        Some v \<Rightarrow> Some (Inr v)
      | None \<Rightarrow>
          (case map_of vars ''version'' of
             Some version \<Rightarrow> if is_version_var name then Some (version_var name version) else None
           | None \<Rightarrow> None))"

fun piece_text :: "(string \<times> string) list \<Rightarrow> template_piece \<Rightarrow> string" where
  "piece_text vars (Chr c) = [c]"
| "piece_text vars (Var name) = (case template_value vars name of Some (Inr v) \<Rightarrow> v | _ \<Rightarrow> [])"

definition expand_template :: "string \<Rightarrow> (string \<times> string) list \<Rightarrow> (template_error, string) res" where
  "expand_template s vars =
     (let ps = template_pieces s;
          unknown = filter (\<lambda>name. template_value vars name = None) (piece_names ps);
          failed = List.map_filter (\<lambda>name. case template_value vars name of Some (Inl e) \<Rightarrow> Some e | _ \<Rightarrow> None) (piece_names ps)
      in if unknown \<noteq> [] then Inl (UnknownVars unknown)
         else (case failed of e # _ \<Rightarrow> Inl e | [] \<Rightarrow> Inr (concat (map (piece_text vars) ps))))"

end
