(* ===== verification/Manifest_Parts.thy ===== *)
theory Manifest_Parts
  imports Template Oku_List Ref Lock
begin

text \<open>
  The parts of a manifest that are read from decoded TOML: \<open>bin\<close>, \<open>app\<close>, \<open>completions\<close> and the schedule of a
  service, in \<open>internal/manifest/manifest.go\<close>, \<open>completions.go\<close> and \<open>schedule.go\<close>.
\<close>

subsection \<open>Programs\<close>

record wrapper =
  wr_name :: string
  wr_run :: string
  wr_args :: "string list"
  wr_path :: string

datatype bin_error =
    BinArgs nat
  | BinUnknownKey nat string
  | BinLineBreak nat
  | BinTable nat
  | BinPathAndRun nat
  | BinWrongType nat

fun all_strings :: "toml list \<Rightarrow> string list option" where
  "all_strings [] = Some []"
| "all_strings (v # vs) =
     (case v of TStr s \<Rightarrow> (case all_strings vs of None \<Rightarrow> None | Some ss \<Rightarrow> Some (s # ss)) | _ \<Rightarrow> None)"

definition as_list :: "toml option \<Rightarrow> toml list" where
  "as_list v = (case v of Some (TArr vs) \<Rightarrow> vs | _ \<Rightarrow> [])"

definition split_wrapper :: "nat \<Rightarrow> table \<Rightarrow> (bin_error, wrapper) res" where
  "split_wrapper i t =
     (case all_strings (as_list (get_key t ''args'')) of
        None \<Rightarrow> Inl (BinArgs i)
      | Some args \<Rightarrow>
          (let w = \<lparr>wr_name = as_string (get_key t ''name''), wr_run = as_string (get_key t ''run''), wr_args = args,
                    wr_path = as_string (get_key t ''path'')\<rparr>
           in case find (\<lambda>key. key \<notin> {''name'', ''run'', ''args'', ''path''}) (keys t) of
                Some key \<Rightarrow> Inl (BinUnknownKey i key)
              | None \<Rightarrow>
                  if contains_any (wr_run w @ concat (wr_args w)) [CHR 0x0D, CHR 0x0A] then Inl (BinLineBreak i)
                  else if \<not> rx_match name_re (wr_name w) \<or> wr_run w = [] \<and> wr_path w = [] then Inl (BinTable i)
                  else if wr_path w \<noteq> [] \<and> (wr_run w \<noteq> [] \<or> wr_args w \<noteq> []) then Inl (BinPathAndRun i)
                  else Inr w))"

fun split_bin_from :: "nat \<Rightarrow> toml list \<Rightarrow> (bin_error, string list \<times> wrapper list) res" where
  "split_bin_from i [] = Inr ([], [])"
| "split_bin_from i (v # vs) =
     (case v of
        TStr s \<Rightarrow> and_then (split_bin_from (Suc i) vs) (\<lambda>(paths, wraps). Inr (s # paths, wraps))
      | TTab t \<Rightarrow>
          and_then (split_wrapper i t) (\<lambda>w.
          and_then (split_bin_from (Suc i) vs) (\<lambda>(paths, wraps). Inr (paths, w # wraps)))
      | _ \<Rightarrow> Inl (BinWrongType i))"

definition split_bin :: "toml list \<Rightarrow> (bin_error, string list \<times> wrapper list) res" where
  "split_bin raw = split_bin_from 0 raw"

definition bin_names :: "string list \<Rightarrow> wrapper list \<Rightarrow> string list" where
  "bin_names bins wraps = bins @ map wr_name wraps"

subsection \<open>Apps\<close>

record app_entry =
  ap_path :: string
  ap_name :: string
  ap_icon :: string

definition is_bundle :: "app_entry \<Rightarrow> bool" where
  "is_bundle e \<longleftrightarrow> has_suffix (trim_suffix (ap_path e) ''/'') ''.app''"

datatype app_error =
    AppUnknownKey nat string
  | AppNotString nat string
  | AppWrongType nat
  | AppNoPath nat
  | AppBundleName nat

definition app_table :: "nat \<Rightarrow> table \<Rightarrow> (app_error, app_entry) res" where
  "app_table i t =
     (case find (\<lambda>(key, field). key \<notin> {''path'', ''name'', ''icon''} \<or> \<not> is_string field) t of
        Some (key, field) \<Rightarrow> if key \<notin> {''path'', ''name'', ''icon''} then Inl (AppUnknownKey i key) else Inl (AppNotString i key)
      | None \<Rightarrow> Inr \<lparr>ap_path = as_string (get_key t ''path''), ap_name = as_string (get_key t ''name''),
                   ap_icon = as_string (get_key t ''icon'')\<rparr>)"

definition split_app_one :: "nat \<Rightarrow> toml \<Rightarrow> (app_error, app_entry) res" where
  "split_app_one i v =
     and_then
       (case v of
          TStr s \<Rightarrow> Inr \<lparr>ap_path = s, ap_name = [], ap_icon = []\<rparr>
        | TTab t \<Rightarrow> app_table i t
        | _ \<Rightarrow> Inl (AppWrongType i))
       (\<lambda>e. if ap_path e = [] then Inl (AppNoPath i)
            else if is_bundle e \<and> (ap_name e \<noteq> [] \<or> ap_icon e \<noteq> []) then Inl (AppBundleName i)
            else Inr e)"

fun split_app_from :: "nat \<Rightarrow> toml list \<Rightarrow> (app_error, app_entry list) res" where
  "split_app_from i [] = Inr []"
| "split_app_from i (v # vs) =
     and_then (split_app_one i v) (\<lambda>e. and_then (split_app_from (Suc i) vs) (\<lambda>es. Inr (e # es)))"

definition split_app :: "toml list \<Rightarrow> (app_error, app_entry list) res" where
  "split_app raw = split_app_from 0 raw"

subsection \<open>Completions\<close>

definition shells :: "string list" where
  "shells = [''fish'', ''zsh'', ''bash'', ''pwsh'']"

definition generate_name :: "string \<Rightarrow> string" where
  "generate_name shell = (if shell = ''pwsh'' then ''powershell'' else shell)"

text \<open>The map \<open>Paths\<close> is the list of its entries in the order of the shells' names.\<close>

record completions =
  cm_paths :: "(string \<times> string) list"
  cm_from_dir :: bool
  cm_generate :: string
  cm_name :: string
  cm_unknown :: "string list"

definition no_completions :: completions where
  "no_completions = \<lparr>cm_paths = [], cm_from_dir = False, cm_generate = [], cm_name = [], cm_unknown = []\<rparr>"

definition completions_empty :: "completions \<Rightarrow> bool" where
  "completions_empty c \<longleftrightarrow> cm_paths c = [] \<and> cm_generate c = []"

definition completion_file :: "string \<Rightarrow> string \<Rightarrow> string" where
  "completion_file shell name =
     (if shell = ''zsh'' then ''_'' @ name
      else if shell = ''pwsh'' then ''_'' @ name @ ''.ps1''
      else name @ ''.'' @ shell)"

datatype completions_error =
    DirNeedsBin
  | TwoPowershells
  | CompletionNotString string
  | GenerateAndPaths
  | NameNeedsGenerate
  | NothingSet
  | GenerateLineBreak
  | GenerateNeedsName
  | BadCompletionName string
  | CompletionsWrongType

definition first_bin :: "string list \<Rightarrow> string" where
  "first_bin bins = (case bins of [] \<Rightarrow> [] | b # _ \<Rightarrow> path_base b)"

text \<open>The loop over the table: what it has read so far, and its error.\<close>

fun completion_fields ::
  "table \<Rightarrow> completions \<Rightarrow> (string \<times> string) list \<Rightarrow> completions \<times> (string \<times> string) list \<times> completions_error option" where
  "completion_fields [] c paths = (c, paths, None)"
| "completion_fields ((key, v) # rest) c paths =
     (case v of
        TStr txt \<Rightarrow>
          if key = ''generate'' then completion_fields rest (c\<lparr>cm_generate := txt\<rparr>) paths
          else if key = ''name'' then completion_fields rest (c\<lparr>cm_name := txt\<rparr>) paths
          else if key = ''powershell'' then completion_fields rest c (put_sorted ''pwsh'' txt paths)
          else if key \<notin> set shells then completion_fields rest (c\<lparr>cm_unknown := cm_unknown c @ [key]\<rparr>) paths
          else completion_fields rest c (put_sorted key txt paths)
      | _ \<Rightarrow> (c, paths, Some (CompletionNotString key)))"

definition completion_table :: "table \<Rightarrow> string list \<Rightarrow> completions \<times> completions_error option" where
  "completion_table t bins =
     (if get_key t ''pwsh'' \<noteq> None \<and> get_key t ''powershell'' \<noteq> None then (no_completions, Some TwoPowershells)
      else (case completion_fields t no_completions [] of
          (c, paths, Some e) \<Rightarrow> (c, Some e)
        | (c0, paths, None) \<Rightarrow>
            (let c = c0\<lparr>cm_unknown := sort_func str_cmp (cm_unknown c0)\<rparr>
             in if cm_generate c \<noteq> [] \<and> paths \<noteq> [] then (c, Some GenerateAndPaths)
                else if cm_generate c = [] \<and> cm_name c \<noteq> [] then (c, Some NameNeedsGenerate)
                else if cm_generate c = [] \<and> paths = [] then (c, Some NothingSet)
                else if cm_generate c \<noteq> []
                then (if contains_any (cm_generate c) [CHR 0x0D, CHR 0x0A] then (c, Some GenerateLineBreak)
                      else (let n = (if cm_name c = [] then c\<lparr>cm_name := first_bin bins\<rparr> else c)
                            in if cm_name n = [] then (n, Some GenerateNeedsName)
                               else if \<not> rx_match name_re (cm_name n) then (n, Some (BadCompletionName (cm_name n)))
                               else (n, None)))
                else (c\<lparr>cm_paths := paths\<rparr>, None))))"

definition parse_completions :: "toml option \<Rightarrow> string list \<Rightarrow> completions \<times> completions_error option" where
  "parse_completions raw bins =
     (case raw of
        None \<Rightarrow> (no_completions, None)
      | Some (TStr dir) \<Rightarrow>
          (let c = no_completions\<lparr>cm_from_dir := True, cm_name := first_bin bins\<rparr>
           in if cm_name c = [] then (c, Some DirNeedsBin)
              else (c\<lparr>cm_paths := fold (\<lambda>shell. put_sorted shell (path_join [dir, completion_file shell (cm_name c)])) shells []\<rparr>,
                    None))
      | Some (TTab t) \<Rightarrow> completion_table t bins
      | Some _ \<Rightarrow> (no_completions, Some CompletionsWrongType))"

subsection \<open>Schedules\<close>

record schedule =
  sd_every :: string
  sd_at :: string
  sd_weekdays :: "string list"
  sd_interval :: int
  sd_hour :: int
  sd_minute :: int
  sd_days :: "nat list"

datatype schedule_error =
    EveryAndAt
  | NoTime
  | WeekdaysNeedAt
  | BadEvery string
  | BadAt string
  | NotDay string
  | DayTwice string

definition weekdays :: "string list" where
  "weekdays = [''sun'', ''mon'', ''tue'', ''wed'', ''thu'', ''fri'', ''sat'']"

text \<open>A unit is the text after the last byte; the product of a \<open>Duration\<close> wraps around.\<close>

definition every_unit :: "string \<Rightarrow> int option" where
  "every_unit u = (if u = ''m'' then Some (60 * 1000000000) else if u = ''h'' then Some (3600 * 1000000000) else None)"

definition schedule_every :: "schedule \<Rightarrow> (schedule_error, schedule) res" where
  "schedule_every s =
     (let at = length (sd_every s) - 1; n = atoi_value (take at (sd_every s));
          unit = every_unit (drop at (sd_every s));
          interval = wrap (n * (case unit of Some u \<Rightarrow> u | None \<Rightarrow> 0))
      in if atoi (take at (sd_every s)) = None \<or> unit = None \<or> interval < 60 * 1000000000
           \<or> interval > 24 * (3600 * 1000000000)
         then Inl (BadEvery (sd_every s)) else Inr (s\<lparr>sd_interval := interval\<rparr>))"

fun schedule_days :: "string list \<Rightarrow> nat list \<Rightarrow> (schedule_error, nat list) res" where
  "schedule_days [] days = Inr days"
| "schedule_days (d # ds) days =
     (case find (\<lambda>i. weekdays ! i = d) [0..<7] of
        None \<Rightarrow> Inl (NotDay d)
      | Some i \<Rightarrow> if i \<in> set days then Inl (DayTwice d) else schedule_days ds (days @ [i]))"

definition schedule_at :: "schedule \<Rightarrow> (schedule_error, schedule) res" where
  "schedule_at s =
     (case cut_char (CHR '':'') (sd_at s) of
        None \<Rightarrow> Inl (BadAt (sd_at s))
      | Some (hh, mm) \<Rightarrow>
          (case (atoi hh, atoi mm) of
             (Some h, Some m) \<Rightarrow>
               if length hh \<noteq> 2 \<or> length mm \<noteq> 2 \<or> h > 23 \<or> m > 59 then Inl (BadAt (sd_at s))
               else and_then (schedule_days (sd_weekdays s) (sd_days s)) (\<lambda>days.
                 Inr (s\<lparr>sd_hour := h, sd_minute := m, sd_days := sort days\<rparr>))
           | _ \<Rightarrow> Inl (BadAt (sd_at s))))"

definition parse_schedule :: "schedule \<Rightarrow> (schedule_error, schedule) res" where
  "parse_schedule s =
     (if sd_every s \<noteq> [] \<and> sd_at s \<noteq> [] then Inl EveryAndAt
      else if sd_every s = [] \<and> sd_at s = [] then Inl NoTime
      else if sd_every s \<noteq> [] \<and> sd_weekdays s \<noteq> [] then Inl WeekdaysNeedAt
      else if sd_every s \<noteq> [] then schedule_every s
      else schedule_at s)"

end
