(* ===== verification/Manifest.thy ===== *)
theory Manifest
  imports Manifest_Parts Resolve
begin

text \<open>
  A manifest and its validation, \<open>internal/manifest/manifest.go\<close> and \<open>build.go\<close>. The decoder of TOML, the
  parsers of keys and the compiler of regular expressions are outside: a manifest is what the decoder fills in,
  with the parts of type \<open>any\<close> as decoded TOML. An empty and an absent list or text are not told apart.
\<close>

subsection \<open>The data of a manifest\<close>

record package_info =
  pk_name :: string
  pk_description :: string
  pk_homepage :: string
  pk_license :: string
  pk_relocatable :: bool
  pk_signing_key :: string
  pk_signer_workflow :: string
  pk_attestations :: bool

record artifact =
  ar_match :: selector
  ar_url :: string
  ar_sha256 :: string
  ar_sha256_url :: string
  ar_sigstore_bundle :: string
  ar_sha256_url_bundle :: string
  ar_sigstore_signature :: string
  ar_sigstore_certificate :: string
  ar_sha256_url_signature :: string
  ar_sha256_url_certificate :: string
  ar_provenance :: string
  ar_version :: "version_spec option"
  ar_integrity :: string
  ar_strip :: int
  ar_raw_bin :: "toml list"
  ar_bin :: "string list"
  ar_wrap :: "wrapper list"
  ar_man :: "string list"
  ar_raw_completions :: "toml option"
  ar_completions :: completions
  ar_lib :: "string list"
  ar_include :: "string list"
  ar_share :: "string list"
  ar_raw_app :: "toml list"
  ar_app :: "app_entry list"
  ar_font :: "string list"
  ar_data :: bool

record unit_service =
  sv_name :: string
  sv_command :: string
  sv_args :: "string list"
  sv_env :: "(string \<times> string) list"
  sv_restart :: string
  sv_interactive :: bool
  sv_schedule :: "schedule option"
  sv_raw_when :: "toml option"
  sv_when :: when_list

record build_source =
  bs_git :: string
  bs_tag :: string
  bs_url :: string
  bs_sha256 :: string
  bs_sha256_url :: string
  bs_strip :: int

record install_step =
  is_raw_bin :: "toml list"
  is_bin :: "string list"
  is_wrap :: "wrapper list"
  is_lib :: "string list"
  is_include :: "string list"
  is_man :: "string list"
  is_share :: "string list"
  is_raw_completions :: "toml option"
  is_completions :: completions
  is_raw_app :: "toml list"
  is_app :: "app_entry list"
  is_font :: "string list"

record fetch_step =
  fe_url :: string
  fe_sha256 :: string
  fe_sha256_url :: string
  fe_to :: string

record patch_step =
  pa_file :: string
  pa_strip :: int

record extract_step =
  xs_file :: string
  xs_to :: string
  xs_strip :: int

record copy_step =
  cs_from :: string
  cs_to :: string

record build_step =
  st_run :: "string option"
  st_install :: "install_step option"
  st_fetch :: "fetch_step option"
  st_extract :: "extract_step option"
  st_copy :: "copy_step option"
  st_vendor :: "string option"
  st_package :: string
  st_scripts :: "string list"
  st_patch :: "patch_step option"
  st_raw_when :: "toml option"
  st_when :: when_list
  st_shell :: string
  st_env :: "(string \<times> string) list"
  st_network :: bool

record build_rules =
  br_needs :: "string list"
  br_raw_deps :: "toml list"
  br_deps :: "dep list"
  br_source :: build_source
  br_steps :: "build_step list"
  br_raw_when :: "toml option"
  br_when :: when_list

text \<open>\<open>m_versions\<close> and \<open>m_tags\<close> are keyed by the text of a platform.\<close>

record manifest =
  m_package :: package_info
  m_version :: version_spec
  m_artifacts :: "artifact list"
  m_build :: "build_rules option"
  m_runtime_raw :: "toml list"
  m_runtime_deps :: "dep list"
  m_old_apps :: "toml list"
  m_services :: "unit_service list"
  m_env :: "(string \<times> string) list"
  m_raw_host :: table
  m_host :: "requirement list"
  m_sha256 :: string
  m_unknown :: "string list"
  m_tag :: string
  m_tag_commit :: string
  m_versions :: "(string \<times> string) list"
  m_tags :: "(string \<times> string) list"

definition zero_version :: version_spec where
  "zero_version = \<lparr>v_value = [], v_from = [], v_repo = [], v_strip_prefix = [], v_tag = [], v_latest = False,
     v_branch = [], v_regex = [], v_join = [], v_json = []\<rparr>"

subsection \<open>What a step does\<close>

definition kinds :: "build_step \<Rightarrow> string list" where
  "kinds s =
     map fst (filter snd
       [(''copy'', st_copy s \<noteq> None), (''extract'', st_extract s \<noteq> None), (''fetch'', st_fetch s \<noteq> None),
        (''install'', st_install s \<noteq> None), (''patch'', st_patch s \<noteq> None), (''run'', st_run s \<noteq> None),
        (''vendor'', st_vendor s \<noteq> None)])"

definition impure :: "build_step \<Rightarrow> bool" where
  "impure s \<longleftrightarrow> st_run s \<noteq> None \<and> st_network s \<or> st_vendor s \<noteq> None \<and> st_scripts s \<noteq> []"

definition step_generates :: "build_step \<Rightarrow> bool" where
  "step_generates s \<longleftrightarrow>
     (case st_install s of None \<Rightarrow> False | Some i \<Rightarrow> cm_generate (is_completions i) \<noteq> [])"

definition command_steps :: "build_rules option \<Rightarrow> platform \<Rightarrow> (nat \<times> build_step) list" where
  "command_steps b p =
     (case b of
        None \<Rightarrow> []
      | Some r \<Rightarrow>
          filter (\<lambda>(i, s). (st_run s \<noteq> None \<or> st_vendor s \<noteq> None \<or> step_generates s) \<and> when_matches (st_when s) p)
            (enumerate 0 (br_steps r)))"

subsection \<open>Keys and digests\<close>

record outside =
  o_minisign :: "string \<Rightarrow> bool"
  o_base64 :: "string \<Rightarrow> string option"
  o_pkix :: "string \<Rightarrow> bool"
  o_regex :: "string \<Rightarrow> (string, nat) res"

definition cosign_key :: "outside \<Rightarrow> string \<Rightarrow> bool" where
  "cosign_key out txt = (case o_base64 out txt of None \<Rightarrow> False | Some der \<Rightarrow> o_pkix out der)"

definition check_signing_key :: "outside \<Rightarrow> string \<Rightarrow> bool" where
  "check_signing_key out txt \<longleftrightarrow> o_minisign out txt \<or> cosign_key out txt"

definition sigstore :: "artifact \<Rightarrow> bool" where
  "sigstore a \<longleftrightarrow> ar_sigstore_bundle a \<noteq> [] \<or> ar_sha256_url_bundle a \<noteq> [] \<or> ar_sigstore_signature a \<noteq> []
     \<or> ar_sha256_url_signature a \<noteq> []"

definition is_hex :: "char \<Rightarrow> bool" where
  "is_hex c \<longleftrightarrow> is_digit c \<or> c \<in> set ''abcdef''"

definition valid_sha256 :: "string \<Rightarrow> bool" where
  "valid_sha256 s \<longleftrightarrow> length s = 64 \<and> list_all is_hex s"

definition valid_integrity :: "string \<Rightarrow> bool" where
  "valid_integrity s =
     (case cut_prefix s ''sha512-'' of
        None \<Rightarrow> False
      | Some b \<Rightarrow> length b = 88 \<and> list_all (alnum_or ''+/'') (take 86 b) \<and> drop 86 b = ''=='')"

subsection \<open>Errors\<close>

datatype version_fault =
    NoValueOrFrom
  | ValueAndFrom
  | BadValue Lock.version_error
  | BadRepo string
  | NoStripPrefix string
  | NotSource string
  | NotHttp string
  | RegexRequired string
  | RegexSyntax string
  | RegexNoGroup
  | BadJoin
  | JsonEmptyPart string
  | JsonTwoLists string
  | JsonOtherList
  | RegexNeedsPage
  | JoinNeedsParts
  | JsonNeedsPage
  | BranchNeedsGitBranch
  | TagNeedsReleases
  | TagAndStripPrefix
  | LatestNeedsReleases
  | TagAndLatest
  | VersionRequired
  | NotArtifactSource
  | OnlyReads
  | RegexAndJoin

datatype artifact_fault =
    NoURL
  | BadSHA256
  | BadIntegrity
  | TwoSHA256
  | SigstoreNeedsSigner
  | SignatureNeedsSHA256URL
  | ProvenanceNeedsGitHub
  | KeyHasNoCertificate
  | SignatureNeedsCertificate
  | ExposesNothing
  | DataExposes
  | NegativeStrip
  | BadMatch platform_error
  | MatchHost
  | ArtifactBin bin_error
  | ArtifactCompletions completions_error
  | ArtifactApp app_error
  | ArtifactVersion version_fault

datatype step_fault =
    NoStepKind
  | ManyKinds "string list"
  | StepWhen platform_error
  | StepBin bin_error
  | StepCompletions completions_error
  | StepApp app_error
  | NotCrate
  | NotModule
  | NotPython
  | NotNpm
  | ScriptsNeedNpm
  | PackageNeedsVendor
  | BadScript string

datatype service_fault =
    ServiceWhen platform_error
  | ServiceName string
  | ServiceNoCommand
  | ServiceRestart string
  | ScheduleRestart
  | ScheduleInteractive
  | ServiceSchedule schedule_error

datatype manifest_fault =
    SigningKey
  | SignerWorkflow string
  | AttestationsNeedWorkflow
  | StepFault nat step_fault
  | BuildDeps dep_error
  | BuildWhen platform_error
  | OldApp
  | ServiceFault nat service_fault
  | EnvFault string
  | RuntimeDeps dep_error
  | BadName string
  | VersionFault version_fault
  | PerArtifactVersion
  | PerArtifactBuild
  | ArtifactFault nat artifact_fault
  | HostFault host_error

end
