(* ===== verification/Manifest_Check.thy ===== *)
theory Manifest_Check
  imports Manifest
begin

text \<open>
  The validation of a manifest, \<open>validate\<close> in \<open>internal/manifest/manifest.go\<close>, and the choice of an artifact. Each
  check gives the list of its errors, in the order of the source, and the parts that it fills in.
\<close>

subsection \<open>Versions\<close>

definition release_sources :: "string list" where
  "release_sources = [''github-releases'', ''gitea-releases'', ''gitlab-releases'']"

definition version_sources :: "string list" where
  "version_sources = release_sources @ [''git-tags'', ''git-branch'', ''npm'', ''pypi'', ''go'', ''crates'',
     ''redirect'', ''page'', ''sparkle'']"

definition artifact_sources :: "string list" where
  "artifact_sources = release_sources @ [''git-tags'', ''redirect'', ''page'', ''sparkle'']"

definition read_errors :: "version_spec \<Rightarrow> version_fault list" where
  "read_errors v =
     (if v_regex v \<noteq> [] \<and> v_from v \<noteq> ''redirect'' \<and> v_from v \<noteq> ''page'' then [RegexNeedsPage] else [])
     @ (if v_join v \<noteq> [] \<and> v_regex v = [] \<and> v_json v = [] \<and> v_from v \<noteq> ''sparkle'' then [JoinNeedsParts] else [])
     @ (if v_json v \<noteq> [] \<and> v_from v \<noteq> ''page'' then [JsonNeedsPage] else [])"

text \<open>\<open>found\<close> is the list that the paths with a star go through, once one has set it.\<close>

fun json_path_errors :: "string list \<Rightarrow> string \<Rightarrow> version_fault list" where
  "json_path_errors [] found = []"
| "json_path_errors (p # ps) found =
     (if [] \<in> set (split_char (CHR ''.'') p) then JsonEmptyPart p # json_path_errors ps found
      else (case cut_char (CHR ''*'') p of
              None \<Rightarrow> json_path_errors ps found
            | Some (before, rest) \<Rightarrow>
                if CHR ''*'' \<in> set rest then JsonTwoLists p # json_path_errors ps found
                else if found \<noteq> [] \<and> before \<noteq> found then JsonOtherList # json_path_errors ps found
                else json_path_errors ps before))"

definition scrape_errors :: "outside \<Rightarrow> version_spec \<Rightarrow> version_fault list" where
  "scrape_errors out v =
     (if \<not> has_prefix (v_repo v) ''https://'' \<and> \<not> has_prefix (v_repo v) ''http://'' then [NotHttp (v_from v)] else [])
     @ (if v_strip_prefix v \<noteq> [] then [NoStripPrefix (v_from v)] else [])
     @ json_path_errors (v_json v) []
     @ (if v_from v = ''sparkle'' then []
        else if v_regex v = [] \<and> v_json v \<noteq> [] then []
        else if v_regex v = [] then [RegexRequired (v_from v)]
        else (case o_regex out (v_regex v) of
                Inl e \<Rightarrow> [RegexSyntax e]
              | Inr groups \<Rightarrow> if groups = 0 then [RegexNoGroup] else []))
     @ (if v_join v \<noteq> [] \<and> v_join v \<notin> {''.'', ''+'', ''-'', ''_''} then [BadJoin] else [])"

definition release_errors :: "version_spec \<Rightarrow> version_fault list" where
  "release_errors v =
     (if v_from v = ''github-releases'' \<and> \<not> rx_match github_re (v_repo v) then [BadRepo (v_from v)]
      else if v_from v = ''gitea-releases'' \<and> \<not> rx_match gitea_re (v_repo v) then [BadRepo (v_from v)]
      else if v_from v = ''gitlab-releases'' \<and> \<not> rx_match gitlab_re (v_repo v) then [BadRepo (v_from v)]
      else if v_from v = ''git-tags'' \<and> v_repo v = [] then [BadRepo (v_from v)]
      else [])
     @ (if v_regex v \<noteq> [] \<or> v_join v \<noteq> [] then [RegexAndJoin] else [])"

definition version_errors :: "outside \<Rightarrow> version_spec \<Rightarrow> version_fault list" where
  "version_errors out v =
     (let from = v_from v; repo = v_repo v
      in if from = [] \<and> v_value v = [] then [NoValueOrFrom]
         else if from \<noteq> [] \<and> v_value v \<noteq> [] then [ValueAndFrom]
         else if check_version (v_value v) \<noteq> None then [BadValue (the (check_version (v_value v)))]
         else if from = ''github-releases'' \<and> \<not> rx_match github_re repo then [BadRepo from]
         else if from = ''gitea-releases'' \<and> \<not> rx_match gitea_re repo then [BadRepo from]
         else if from = ''gitlab-releases'' \<and> \<not> rx_match gitlab_re repo then [BadRepo from]
         else if from = ''npm'' \<and> \<not> rx_match npm_re repo then [BadRepo from]
         else if from = ''npm'' \<and> v_strip_prefix v \<noteq> [] then [NoStripPrefix from]
         else if from = ''pypi'' \<and> \<not> valid_pypi repo then [BadRepo from]
         else if from = ''go'' \<and> \<not> valid_go_path repo then [BadRepo from]
         else if from = ''crates'' \<and> \<not> valid_crate repo then [BadRepo from]
         else if (from = ''pypi'' \<or> from = ''go'' \<or> from = ''crates'') \<and> v_strip_prefix v \<noteq> [] then [NoStripPrefix from]
         else if from = ''git-tags'' \<and> repo = [] then [BadRepo from]
         else if from = ''git-branch'' \<and> (repo = [] \<or> v_branch v = []) then [BadRepo from]
         else if from = ''git-branch'' \<and> v_strip_prefix v \<noteq> [] then [NoStripPrefix from]
         else if from = ''redirect'' \<or> from = ''page'' \<or> from = ''sparkle'' then scrape_errors out v
         else if from \<noteq> [] \<and> from \<notin> set version_sources then [NotSource from]
         else [])"

definition tag_errors :: "version_spec \<Rightarrow> version_fault list" where
  "tag_errors v =
     (if v_branch v \<noteq> [] \<and> v_from v \<noteq> ''git-branch'' then [BranchNeedsGitBranch] else [])
     @ (if v_tag v = [] then []
        else if v_from v \<notin> set release_sources then [TagNeedsReleases]
        else if v_strip_prefix v \<noteq> [] then [TagAndStripPrefix]
        else [])
     @ (if \<not> v_latest v then []
        else if v_from v \<notin> set release_sources then [LatestNeedsReleases]
        else if v_tag v \<noteq> [] then [TagAndLatest]
        else [])"

definition per_artifact :: "manifest \<Rightarrow> bool" where
  "per_artifact m \<longleftrightarrow> list_ex (\<lambda>a. ar_version a \<noteq> None) (m_artifacts m)"

definition own_version_errors :: "outside \<Rightarrow> artifact \<Rightarrow> version_fault list" where
  "own_version_errors out a =
     (case ar_version a of
        None \<Rightarrow> [VersionRequired]
      | Some v \<Rightarrow>
          (if v_from v \<notin> set artifact_sources then [NotArtifactSource]
           else if v_value v \<noteq> [] \<or> v_tag v \<noteq> [] \<or> v_branch v \<noteq> [] then [OnlyReads]
           else if v_latest v \<and> v_from v \<notin> set release_sources then [LatestNeedsReleases]
           else if v_from v = ''redirect'' \<or> v_from v = ''page'' \<or> v_from v = ''sparkle'' then scrape_errors out v
           else release_errors v)
          @ read_errors v)"

text \<open>The errors of the items of a list, each with its position.\<close>

definition indexed :: "(nat \<Rightarrow> 'f \<Rightarrow> 'e) \<Rightarrow> ('a \<Rightarrow> 'f list) \<Rightarrow> 'a list \<Rightarrow> 'e list" where
  "indexed wrap_error f xs = concat (map (\<lambda>(i, x). map (wrap_error i) (f x)) (enumerate 0 xs))"

definition per_artifact_errors :: "outside \<Rightarrow> manifest \<Rightarrow> manifest_fault list" where
  "per_artifact_errors out m =
     (if m_version m \<noteq> zero_version then [PerArtifactVersion] else [])
     @ (if m_build m \<noteq> None then [PerArtifactBuild] else [])
     @ indexed (\<lambda>i e. ArtifactFault i (ArtifactVersion e)) (own_version_errors out) (m_artifacts m)"

subsection \<open>Artifacts\<close>

definition split_artifact :: "artifact \<Rightarrow> artifact \<times> artifact_fault list" where
  "split_artifact a =
     (case split_bin (ar_raw_bin a) of
        Inl e \<Rightarrow> (a\<lparr>ar_bin := [], ar_wrap := []\<rparr>, [ArtifactBin e])
      | Inr (bins, wraps) \<Rightarrow>
          (case parse_completions (ar_raw_completions a) (bin_names bins wraps) of
             (c, Some e) \<Rightarrow> (a\<lparr>ar_bin := bins, ar_wrap := wraps, ar_completions := c\<rparr>, [ArtifactCompletions e])
           | (c, None) \<Rightarrow>
               (case split_app (ar_raw_app a) of
                  Inl e \<Rightarrow> (a\<lparr>ar_bin := bins, ar_wrap := wraps, ar_completions := c, ar_app := []\<rparr>, [ArtifactApp e])
                | Inr apps \<Rightarrow> (a\<lparr>ar_bin := bins, ar_wrap := wraps, ar_completions := c, ar_app := apps\<rparr>, []))))"

definition exposes :: "artifact \<Rightarrow> bool" where
  "exposes a \<longleftrightarrow> ar_bin a \<noteq> [] \<or> ar_wrap a \<noteq> [] \<or> ar_man a \<noteq> [] \<or> ar_app a \<noteq> [] \<or> ar_font a \<noteq> [] \<or> ar_lib a \<noteq> []
     \<or> ar_include a \<noteq> [] \<or> ar_share a \<noteq> [] \<or> \<not> completions_empty (ar_completions a)"

definition artifact_errors :: "outside \<Rightarrow> package_info \<Rightarrow> version_spec \<Rightarrow> artifact \<Rightarrow> artifact_fault list" where
  "artifact_errors out p v a =
     (let keyed = cosign_key out (pk_signing_key p)
      in (if ar_url a = [] then [NoURL] else [])
         @ (if ar_sha256 a \<noteq> [] \<and> \<not> valid_sha256 (ar_sha256 a) then [BadSHA256] else [])
         @ (if ar_integrity a \<noteq> [] \<and> \<not> valid_integrity (ar_integrity a) then [BadIntegrity] else [])
         @ (if ar_sha256 a \<noteq> [] \<and> ar_sha256_url a \<noteq> [] then [TwoSHA256] else [])
         @ (if sigstore a \<and> pk_signer_workflow p = [] \<and> \<not> keyed then [SigstoreNeedsSigner] else [])
         @ (if (ar_sha256_url_bundle a \<noteq> [] \<or> ar_sha256_url_signature a \<noteq> []) \<and> ar_sha256_url a = []
            then [SignatureNeedsSHA256URL] else [])
         @ (if ar_provenance a \<noteq> []
               \<and> (v_from v \<noteq> ''github-releases'' \<or> length (filter (\<lambda>c. c = CHR ''/'') (v_repo v)) \<noteq> 1)
            then [ProvenanceNeedsGitHub] else [])
         @ (if keyed \<and> (ar_sigstore_certificate a \<noteq> [] \<or> ar_sha256_url_certificate a \<noteq> []) then [KeyHasNoCertificate]
            else if \<not> keyed \<and> ((ar_sigstore_signature a = []) \<noteq> (ar_sigstore_certificate a = [])
                 \<or> (ar_sha256_url_signature a = []) \<noteq> (ar_sha256_url_certificate a = [])) then [SignatureNeedsCertificate]
            else [])
         @ (if \<not> exposes a \<and> \<not> ar_data a then [ExposesNothing]
            else if exposes a \<and> ar_data a then [DataExposes] else [])
         @ (if ar_strip a < 0 then [NegativeStrip] else [])
         @ (case check_selector (ar_match a) of None \<Rightarrow> [] | Some e \<Rightarrow> [BadMatch e])
         @ (if s_host (ar_match a) \<noteq> [] then [MatchHost] else []))"

subsection \<open>Steps of a build\<close>

definition kind_errors :: "build_step \<Rightarrow> step_fault list" where
  "kind_errors s =
     (if kinds s = [] then [NoStepKind] else if length (kinds s) = 1 then [] else [ManyKinds (kinds s)])"

definition split_install :: "install_step \<Rightarrow> install_step \<times> step_fault list" where
  "split_install i0 =
     (let (i1, e1) = (case split_bin (is_raw_bin i0) of
            Inl e \<Rightarrow> (i0\<lparr>is_bin := [], is_wrap := []\<rparr>, [StepBin e])
          | Inr (bins, wraps) \<Rightarrow> (i0\<lparr>is_bin := bins, is_wrap := wraps\<rparr>, []));
          (c, ce) = parse_completions (is_raw_completions i1) (bin_names (is_bin i1) (is_wrap i1));
          i2 = i1\<lparr>is_completions := c\<rparr>;
          (i3, e3) = (case split_app (is_raw_app i2) of
            Inl e \<Rightarrow> (i2\<lparr>is_app := []\<rparr>, [StepApp e]) | Inr apps \<Rightarrow> (i2\<lparr>is_app := apps\<rparr>, []))
      in (i3, e1 @ (case ce of None \<Rightarrow> [] | Some e \<Rightarrow> [StepCompletions e]) @ e3))"

definition vendor_errors :: "build_step \<Rightarrow> step_fault list" where
  "vendor_errors s =
     (let scripts = (if st_scripts s \<noteq> [] then [ScriptsNeedNpm] else [])
      in if st_package s \<noteq> [] \<and> st_vendor s = Some ''cargo''
         then (if valid_crate (st_package s) then [] else [NotCrate]) @ scripts
         else if st_package s \<noteq> [] \<and> st_vendor s = Some ''go''
         then (if valid_go_path (st_package s) then [] else [NotModule]) @ scripts
         else if st_package s = [] \<or> st_vendor s = Some ''pip''
         then scripts @ (if st_package s \<noteq> [] \<and> \<not> valid_pypi (st_package s) then [NotPython] else [])
         else if st_vendor s \<noteq> Some ''npm'' then [PackageNeedsVendor]
         else if \<not> rx_match npm_re (st_package s) then [NotNpm]
         else [])"

definition check_step :: "build_step \<Rightarrow> build_step \<times> step_fault list" where
  "check_step s0 =
     (let (w, e1) = (case parse_manifest_when (st_raw_when s0) of Inl e \<Rightarrow> ([], [StepWhen e]) | Inr w \<Rightarrow> (w, []));
          s1 = s0\<lparr>st_when := w\<rparr>;
          (s2, e2) = (case st_install s1 of
            None \<Rightarrow> (s1, []) | Some i \<Rightarrow> (let (i', es) = split_install i in (s1\<lparr>st_install := Some i'\<rparr>, es)))
      in (s2, e1 @ e2 @ vendor_errors s2
            @ map BadScript (filter (\<lambda>n. \<not> rx_match npm_re n) (st_scripts s2))))"

definition check_build :: "build_rules \<Rightarrow> build_rules \<times> manifest_fault list" where
  "check_build b =
     (let (deps, e2) = (case parse_deps (br_raw_deps b) of Inl e \<Rightarrow> ([], [BuildDeps e]) | Inr ds \<Rightarrow> (ds, []));
          (w, e3) = (case parse_manifest_when (br_raw_when b) of Inl e \<Rightarrow> ([], [BuildWhen e]) | Inr w \<Rightarrow> (w, []))
      in (b\<lparr>br_steps := map (fst \<circ> check_step) (br_steps b), br_deps := deps, br_when := w\<rparr>,
          indexed StepFault kind_errors (br_steps b)
          @ indexed StepFault (snd \<circ> check_step) (br_steps b) @ e2 @ e3))"

subsection \<open>Services\<close>

definition check_service :: "unit_service \<Rightarrow> unit_service \<times> service_fault list" where
  "check_service s0 =
     (let (w, e1) = (case parse_manifest_when (sv_raw_when s0) of Inl e \<Rightarrow> ([], [ServiceWhen e]) | Inr w \<Rightarrow> (w, []));
          s = s0\<lparr>sv_when := w\<rparr>;
          (s', e2) =
            (if \<not> rx_match name_re (sv_name s) then (s, [ServiceName (sv_name s)])
             else if sv_command s = [] then (s, [ServiceNoCommand])
             else if sv_restart s \<noteq> [] \<and> sv_restart s \<notin> {''never'', ''on-failure'', ''always''}
             then (s, [ServiceRestart (sv_restart s)])
             else if sv_schedule s \<noteq> None \<and> sv_restart s \<noteq> [] \<and> sv_restart s \<noteq> ''never'' then (s, [ScheduleRestart])
             else if sv_schedule s \<noteq> None \<and> sv_interactive s then (s, [ScheduleInteractive])
             else (case sv_schedule s of
                     None \<Rightarrow> (s, [])
                   | Some sched \<Rightarrow>
                       (case parse_schedule sched of
                          Inl e \<Rightarrow> (s, [ServiceSchedule e])
                        | Inr sched' \<Rightarrow> (s\<lparr>sv_schedule := Some sched'\<rparr>, []))))
      in (s', e1 @ e2))"

subsection \<open>The whole manifest\<close>

definition check_hosts :: "manifest \<Rightarrow> requirement list \<times> manifest_fault list" where
  "check_hosts m =
     (let found = map (\<lambda>name. case get_key (m_raw_host m) name of
              None \<Rightarrow> Inl (HostNotTable name) | Some v \<Rightarrow> parse_host parse_manifest_when name v)
            (sort_func str_cmp (keys (m_raw_host m)))
      in (List.map_filter (\<lambda>r. case r of Inl e \<Rightarrow> None | Inr q \<Rightarrow> Some (q\<lparr>rq_package := pk_name (m_package m)\<rparr>)) found,
          List.map_filter (\<lambda>r. case r of Inl e \<Rightarrow> Some (HostFault e) | Inr q \<Rightarrow> None) found))"

definition package_errors :: "outside \<Rightarrow> package_info \<Rightarrow> manifest_fault list" where
  "package_errors out p =
     (if pk_signing_key p \<noteq> [] \<and> \<not> check_signing_key out (pk_signing_key p) then [SigningKey] else [])
     @ (if pk_signer_workflow p \<noteq> [] \<and> \<not> check_signer_workflow (pk_signer_workflow p)
        then [SignerWorkflow (pk_signer_workflow p)] else [])
     @ (if pk_attestations p \<and> pk_signer_workflow p = [] then [AttestationsNeedWorkflow] else [])"

definition check_builds :: "build_rules option \<Rightarrow> build_rules option \<times> manifest_fault list" where
  "check_builds b = (case b of None \<Rightarrow> (None, []) | Some r \<Rightarrow> (let (r', es) = check_build r in (Some r', es)))"

definition env_errors :: "manifest \<Rightarrow> manifest_fault list" where
  "env_errors m = map (EnvFault \<circ> fst) (filter (\<lambda>(n, _). \<not> valid_env_name n \<or> reserved_env n) (m_env m))"

definition runtime_deps :: "manifest \<Rightarrow> dep list \<times> manifest_fault list" where
  "runtime_deps m = (case parse_deps (m_runtime_raw m) of Inl e \<Rightarrow> ([], [RuntimeDeps e]) | Inr ds \<Rightarrow> (ds, []))"

definition all_version_errors :: "outside \<Rightarrow> manifest \<Rightarrow> manifest_fault list" where
  "all_version_errors out m =
     (if per_artifact m then per_artifact_errors out m else map VersionFault (version_errors out (m_version m)))
     @ map VersionFault (read_errors (m_version m) @ tag_errors (m_version m))"

text \<open>\<open>validate\<close>: the manifest with its parts filled in, and the errors.\<close>

definition validate :: "outside \<Rightarrow> manifest \<Rightarrow> manifest \<times> manifest_fault list" where
  "validate out m0 =
     (let (build, e_build) = check_builds (m_build m0);
          services = map check_service (m_services m0);
          (deps, e_deps) = runtime_deps m0;
          split = map split_artifact (m_artifacts m0);
          (hosts, e_hosts) = check_hosts m0
      in (m0\<lparr>m_build := build, m_services := map fst services, m_runtime_deps := deps, m_artifacts := map fst split,
             m_host := hosts\<rparr>,
          package_errors out (m_package m0) @ e_build
          @ (if m_old_apps m0 \<noteq> [] then [OldApp] else [])
          @ indexed ServiceFault snd services @ env_errors m0 @ e_deps
          @ (if rx_match name_re (pk_name (m_package m0)) then [] else [BadName (pk_name (m_package m0))])
          @ all_version_errors out m0
          @ indexed ArtifactFault snd split
          @ indexed ArtifactFault (artifact_errors out (m_package m0) (m_version m0)) (map fst split)
          @ e_hosts))"

text \<open>\<open>Parse\<close>, with the decoder, the search for unknown keys and SHA-256 as arguments.\<close>

definition parse_manifest ::
  "outside \<Rightarrow> (string \<Rightarrow> (string, manifest) res) \<Rightarrow> (string \<Rightarrow> string list) \<Rightarrow> (string \<Rightarrow> string) \<Rightarrow> string
     \<Rightarrow> (string + manifest_fault list, manifest) res" where
  "parse_manifest out decode unknown_keys digest data =
     (case decode data of
        Inl e \<Rightarrow> Inl (Inl e)
      | Inr m0 \<Rightarrow>
          (let (m, es) = validate out (m0\<lparr>m_unknown := unknown_keys data\<rparr>)
           in if es \<noteq> [] then Inl (Inr es)
              else Inr (m\<lparr>m_unknown := m_unknown m
                       @ concat (map (\<lambda>a. map (\<lambda>key. ''unknown key artifact.completions.'' @ key)
                           (cm_unknown (ar_completions a))) (m_artifacts m)),
                     m_sha256 := digest (replace_crlf data)\<rparr>)))"

subsection \<open>What a platform gets\<close>

definition services_for :: "manifest \<Rightarrow> platform \<Rightarrow> unit_service list" where
  "services_for m p =
     map (\<lambda>s. s\<lparr>sv_raw_when := None, sv_when := []\<rparr>) (filter (\<lambda>s. when_matches (sv_when s) p) (m_services m))"

definition has_build :: "manifest \<Rightarrow> bool" where
  "has_build m \<longleftrightarrow> (case m_build m of None \<Rightarrow> False | Some b \<Rightarrow> br_steps b \<noteq> [])"

definition builds_on :: "manifest \<Rightarrow> platform \<Rightarrow> bool" where
  "builds_on m p \<longleftrightarrow> has_build m \<and> (case m_build m of None \<Rightarrow> False | Some b \<Rightarrow> when_matches (br_when b) p)"

definition supports :: "manifest \<Rightarrow> platform \<Rightarrow> bool" where
  "supports m p \<longleftrightarrow> builds_on m p \<or> list_ex (\<lambda>a. sel_matches (ar_match a) p) (m_artifacts m)"

datatype select_error =
    NoVersionFor platform
  | BadTemplate string template_error

definition own_text :: "string \<Rightarrow> string \<Rightarrow> string" where
  "own_text a b = (if a \<noteq> [] then a else b)"

definition text_at :: "(string \<times> string) list \<Rightarrow> string \<Rightarrow> string" where
  "text_at t k = (case map_of t k of None \<Rightarrow> [] | Some v \<Rightarrow> v)"

text \<open>The version and the tag of an artifact on a platform.\<close>

definition artifact_version :: "manifest \<Rightarrow> artifact \<Rightarrow> platform \<Rightarrow> string \<times> string" where
  "artifact_version m a p =
     (if ar_version a = None then (v_value (m_version m), m_tag m)
      else (text_at (m_versions m) (platform_string p),
            own_text (text_at (m_tags m) (platform_string p)) (text_at (m_versions m) (platform_string p))))"

definition template_vars :: "string \<Rightarrow> string \<Rightarrow> platform \<Rightarrow> (string \<times> string) list" where
  "template_vars version tag p =
     [(''version'', version), (''tag'', tag), (''os'', p_os p), (''arch'', p_arch p), (''libc'', p_libc p)]"

definition in_field :: "string \<Rightarrow> string \<Rightarrow> (string \<times> string) list \<Rightarrow> (select_error, string) res" where
  "in_field field s vars = (case expand_template s vars of Inl e \<Rightarrow> Inl (BadTemplate field e) | Inr t \<Rightarrow> Inr t)"

text \<open>The last six fields are visited in the order of a Go map, which only decides which error is reported.\<close>

definition expand_artifact :: "artifact \<Rightarrow> (string \<times> string) list \<Rightarrow> (select_error, artifact) res" where
  "expand_artifact a vars =
     and_then (in_field ''url'' (ar_url a) vars) (\<lambda>url.
     and_then (in_field ''sha256_url'' (ar_sha256_url a) vars) (\<lambda>sums.
     and_then (in_field ''sigstore_bundle'' (ar_sigstore_bundle a) vars) (\<lambda>bundle.
     and_then (in_field ''sha256_url_bundle'' (ar_sha256_url_bundle a) vars) (\<lambda>sb.
     and_then (in_field ''sigstore_signature'' (ar_sigstore_signature a) vars) (\<lambda>ss.
     and_then (in_field ''sigstore_certificate'' (ar_sigstore_certificate a) vars) (\<lambda>sc.
     and_then (in_field ''sha256_url_signature'' (ar_sha256_url_signature a) vars) (\<lambda>us.
     and_then (in_field ''sha256_url_certificate'' (ar_sha256_url_certificate a) vars) (\<lambda>uc.
     and_then (in_field ''provenance'' (ar_provenance a) vars) (\<lambda>pr.
       Inr (a\<lparr>ar_url := url, ar_sha256_url := sums, ar_sigstore_bundle := bundle, ar_sha256_url_bundle := sb,
              ar_sigstore_signature := ss, ar_sigstore_certificate := sc, ar_sha256_url_signature := us,
              ar_sha256_url_certificate := uc, ar_provenance := pr\<rparr>))))))))))"

definition select_artifact :: "manifest \<Rightarrow> platform \<Rightarrow> (select_error, artifact option) res" where
  "select_artifact m p =
     (case find (\<lambda>a. sel_matches (ar_match a) p) (m_artifacts m) of
        None \<Rightarrow> Inr None
      | Some a \<Rightarrow>
          (let (version, tag) = artifact_version m a p
           in if ar_version a \<noteq> None \<and> version = [] then Inl (NoVersionFor p)
              else and_then (expand_artifact a (template_vars version tag p)) (\<lambda>a'. Inr (Some a'))))"

end
