(* ===== verification/Manifest_Lint.thy ===== *)
theory Manifest_Lint
  imports Manifest_Check
begin

text \<open>
  The check of a manifest before it is published, \<open>Lint\<close> in \<open>internal/manifest/lint.go\<close>. The strict decoder gives
  the manifest and the keys that no part of the schema has.
\<close>

subsection \<open>Variables\<close>

definition artifact_vars :: "string list" where
  "artifact_vars = [''version'', ''tag'', ''os'', ''arch'', ''libc'']"

definition wrap_vars :: "string list" where
  "wrap_vars = [''prefix'', ''pkg''] @ artifact_vars"

definition build_vars :: "string list" where
  "build_vars = [''prefix'', ''src'', ''jobs''] @ artifact_vars"

definition build_wrap_vars :: "string list" where
  "build_wrap_vars = [''pkg''] @ build_vars"

definition generate_vars :: "string list" where
  "generate_vars = [''shell'']"

definition known_var :: "string list \<Rightarrow> string \<Rightarrow> bool" where
  "known_var known name \<longleftrightarrow>
     name \<in> set known \<or> (''version'' \<in> set known \<and> is_version_var name)
     \<or> (has_prefix name ''dep.'' \<and> has_suffix name ''.prefix'')"

definition unknown_vars :: "string \<Rightarrow> string list \<Rightarrow> string list" where
  "unknown_vars txt known = filter (\<lambda>name. \<not> known_var known name) (piece_names (template_pieces txt))"

definition release_downloads :: "string \<Rightarrow> string" where
  "release_downloads repo =
     (let (host, name) = forge_split repo
      in if host \<noteq> [] then ''https://'' @ host @ ''/'' @ name @ ''/releases/download/''
         else ''https://github.com/'' @ repo @ ''/releases/download/'')"

definition crate_url :: "string \<Rightarrow> string \<Rightarrow> string \<Rightarrow> string" where
  "crate_url downloads name version =
     trim_right_of (if downloads = [] then ''https://static.crates.io/crates'' else downloads) ''/''
     @ ''/'' @ name @ ''/'' @ name @ ''-'' @ version @ ''.crate''"

subsection \<open>Steps\<close>

definition vendor_kinds :: "string list" where
  "vendor_kinds = [''cargo'', ''go'', ''npm'', ''pip'']"

datatype lint_fault =
    LintDecode string
  | LintUnknownKey string
  | LintInvalid manifest_fault
  | LintShellKey nat string
  | LintVar string nat string string
  | LintHttp nat
  | LintSourceHttp
  | LintSourceDigests
  | LintNeedsShell nat
  | LintWindowsShell nat string
  | LintCmd nat
  | LintVendor nat string
  | LintFetchDigest nat
  | LintFetchDigests nat
  | LintPatchFile nat

definition parsed_when :: "toml option \<Rightarrow> when_list" where
  "parsed_when raw = (case parse_manifest_when raw of Inl e \<Rightarrow> [] | Inr w \<Rightarrow> w)"

definition lint_run :: "nat \<Rightarrow> build_step \<Rightarrow> when_list \<Rightarrow> lint_fault list" where
  "lint_run i s build_when =
     (case st_run s of
        None \<Rightarrow> []
      | Some run \<Rightarrow>
          (let reach = filter (when_matches build_when) (platforms_of (parsed_when (st_raw_when s)));
               on_windows = list_ex (\<lambda>p. p_os p = ''windows'') reach;
               off_windows = list_ex (\<lambda>p. p_os p \<noteq> ''windows'') reach
           in (if on_windows \<and> st_shell s = [] then [LintNeedsShell i]
               else if on_windows \<and> (st_shell s = ''sh'' \<or> st_shell s = ''bash'') then [LintWindowsShell i (st_shell s)]
               else if off_windows \<and> st_shell s = ''cmd'' then [LintCmd i] else [])
              @ map (LintVar ''build.step'' i []) (unknown_vars run build_vars)))"

definition lint_step :: "nat \<Rightarrow> build_step \<Rightarrow> when_list \<Rightarrow> lint_fault list" where
  "lint_step i s build_when =
     lint_run i s build_when
     @ (case st_vendor s of None \<Rightarrow> [] | Some v \<Rightarrow> if v \<in> set vendor_kinds then [] else [LintVendor i v])
     @ (case st_fetch s of
          None \<Rightarrow> []
        | Some f \<Rightarrow>
            if fe_sha256 f = [] \<and> fe_sha256_url f = [] then [LintFetchDigest i]
            else if fe_sha256 f \<noteq> [] \<and> fe_sha256_url f \<noteq> [] then [LintFetchDigests i] else [])
     @ (case st_patch s of None \<Rightarrow> [] | Some f \<Rightarrow> if pa_file f = [] then [LintPatchFile i] else [])"

subsection \<open>Artifacts\<close>

definition lint_wrappers :: "string \<Rightarrow> nat \<Rightarrow> wrapper list \<Rightarrow> string list \<Rightarrow> lint_fault list" where
  "lint_wrappers what i wraps known =
     concat (map (\<lambda>w. concat (map (\<lambda>txt. map (LintVar what i (wr_name w)) (unknown_vars txt known))
       (wr_run w # wr_args w))) wraps)"

text \<open>The parts that validation fills in.\<close>

definition lint_outputs :: "nat \<Rightarrow> artifact \<Rightarrow> lint_fault list" where
  "lint_outputs i a =
     map (LintShellKey i) (cm_unknown (ar_completions a))
     @ map (LintVar ''artifact.completions.generate'' i []) (unknown_vars (cm_generate (ar_completions a)) generate_vars)
     @ lint_wrappers ''artifact.bin'' i (ar_wrap a) wrap_vars"

definition artifact_texts :: "artifact \<Rightarrow> string list" where
  "artifact_texts a =
     [ar_url a, ar_sha256_url a, ar_sigstore_bundle a, ar_sha256_url_bundle a, ar_sigstore_signature a,
      ar_sigstore_certificate a, ar_sha256_url_signature a, ar_sha256_url_certificate a, ar_provenance a]"

definition signed_by_key :: "outside \<Rightarrow> package_info \<Rightarrow> artifact \<Rightarrow> bool" where
  "signed_by_key out p a \<longleftrightarrow> pk_signing_key p \<noteq> [] \<and> (sigstore a \<or> \<not> cosign_key out (pk_signing_key p))"

definition lint_artifact :: "outside \<Rightarrow> package_info \<Rightarrow> nat \<Rightarrow> artifact \<Rightarrow> lint_fault list" where
  "lint_artifact out p i a =
     concat (map (\<lambda>txt. map (LintVar ''artifact'' i []) (unknown_vars txt artifact_vars)) (artifact_texts a))
     @ (if has_prefix (ar_url a) ''http://'' \<and> ar_sha256 a = [] \<and> \<not> signed_by_key out p a then [LintHttp i] else [])"

text \<open>The warnings.\<close>

datatype lint_warning =
    TrustFirst nat
  | OnlyGitHubReports nat
  | OutsideReleases nat string
  | SourceTrustFirst
  | NoDescription

definition warn_artifact :: "outside \<Rightarrow> manifest \<Rightarrow> nat \<Rightarrow> artifact \<Rightarrow> lint_warning list" where
  "warn_artifact out full i a =
     (let p = m_package full;
          version = (case ar_version a of None \<Rightarrow> m_version full | Some v \<Rightarrow> v);
          from_release = release_downloads (v_repo version)
      in if ar_sha256 a \<noteq> [] \<or> ar_sha256_url a \<noteq> [] \<or> ar_integrity a \<noteq> [] \<or> ar_sigstore_bundle a \<noteq> []
            \<or> ar_sigstore_signature a \<noteq> [] \<or> ar_provenance a \<noteq> [] \<or> signed_by_key out p a \<or> pk_attestations p
            \<or> v_from version = ''npm'' then []
         else if v_from version \<noteq> ''github-releases'' \<and> v_tag version = [] then [TrustFirst i]
         else if v_from version \<noteq> ''github-releases'' then [OnlyGitHubReports i]
         else if \<not> has_prefix (ar_url a) from_release then [OutsideReleases i from_release]
         else [])"

subsection \<open>The source of a build\<close>

definition empty_source :: build_source where
  "empty_source = \<lparr>bs_git = [], bs_tag = [], bs_url = [], bs_sha256 = [], bs_sha256_url = [], bs_strip = 0\<rparr>"

definition empty_build :: build_rules where
  "empty_build = \<lparr>br_needs = [], br_raw_deps = [], br_deps = [], br_source = empty_source, br_steps = [],
     br_raw_when = None, br_when = []\<rparr>"

definition source_of :: "manifest \<Rightarrow> build_rules" where
  "source_of m = (case m_build m of None \<Rightarrow> empty_build | Some b \<Rightarrow> b)"

definition lint_source :: "build_source \<Rightarrow> lint_fault list" where
  "lint_source s =
     (if has_prefix (bs_url s) ''http://'' \<and> bs_sha256 s = [] then [LintSourceHttp] else [])
     @ (if bs_sha256 s \<noteq> [] \<and> bs_sha256_url s \<noteq> [] then [LintSourceDigests] else [])
     @ map (LintVar ''build.source'' 0 []) (unknown_vars (bs_sha256_url s) artifact_vars)"

definition warn_source :: "version_spec \<Rightarrow> build_source \<Rightarrow> lint_warning list" where
  "warn_source v s =
     (if bs_sha256 s \<noteq> [] \<and> bs_sha256_url s \<noteq> [] then []
      else if bs_url s \<noteq> [] \<and> bs_sha256 s = [] \<and> bs_sha256_url s = []
        \<and> (v_from v \<noteq> ''github-releases'' \<or> \<not> has_prefix (bs_url s) (release_downloads (v_repo v)))
        \<and> (v_from v \<noteq> ''crates'' \<or> bs_url s \<noteq> crate_url [] (v_repo v) ''{{version}}'')
      then [SourceTrustFirst] else [])"

definition lint_install :: "nat \<Rightarrow> build_step \<Rightarrow> lint_fault list" where
  "lint_install i s =
     (case st_install s of
        None \<Rightarrow> []
      | Some t \<Rightarrow>
          lint_wrappers ''build.step.install.bin'' i (is_wrap t) build_wrap_vars
          @ map (LintShellKey i) (cm_unknown (is_completions t))
          @ (if \<not> step_generates s then []
             else map (LintVar ''build.step.install.completions.generate'' i [])
               (unknown_vars (cm_generate (is_completions t)) generate_vars)))"

subsection \<open>Lint\<close>

definition numbered :: "(nat \<Rightarrow> 'a \<Rightarrow> 'e list) \<Rightarrow> 'a list \<Rightarrow> 'e list" where
  "numbered f xs = concat (map (\<lambda>(i, x). f i x) (enumerate 0 xs))"

definition lint ::
  "outside \<Rightarrow> (string \<Rightarrow> (string, manifest \<times> string list) res) \<Rightarrow> string \<Rightarrow> lint_fault list \<times> lint_warning list" where
  "lint out decode data =
     (case decode data of
        Inl e \<Rightarrow> ([LintDecode e], [])
      | Inr (full, unknown) \<Rightarrow>
          (let (m, invalid) = validate out full; b = source_of full
           in (map LintUnknownKey unknown @ map LintInvalid invalid
               @ numbered lint_outputs (m_artifacts m)
               @ numbered (lint_artifact out (m_package full)) (m_artifacts full)
               @ lint_source (br_source b)
               @ numbered (\<lambda>i s. lint_step i s (parsed_when (br_raw_when b))) (br_steps b)
               @ (case m_build m of None \<Rightarrow> [] | Some mb \<Rightarrow> numbered lint_install (br_steps mb)),
               numbered (warn_artifact out full) (m_artifacts full)
               @ warn_source (m_version full) (br_source b)
               @ (if pk_description (m_package full) = [] then [NoDescription] else []))))"

end
