(* ===== verification/Manifest_Props.thy ===== *)
theory Manifest_Props
  imports Manifest_Lint
begin

text \<open>
  What an accepted manifest looks like, what its variables expand to, and what the check before publishing
  ensures of an install.
\<close>

subsection \<open>Lists of errors\<close>

named_theorems no_errors

lemma all_enumerate: "(\<forall>p\<in>set (enumerate 0 xs). P (fst p) (snd p)) \<longleftrightarrow> (\<forall>i < length xs. P i (xs ! i))"
  unfolding Ball_def split_paired_All by (auto simp: in_set_enumerate_eq)

lemma numbered_Nil [no_errors]: "numbered f xs = [] \<longleftrightarrow> (\<forall>i < length xs. f i (xs ! i) = [])"
  using all_enumerate[of xs "\<lambda>i x. f i x = []"] by (auto simp: numbered_def case_prod_unfold)

lemma indexed_Nil [no_errors]: "indexed w f xs = [] \<longleftrightarrow> (\<forall>x\<in>set xs. f x = [])"
  using all_enumerate[of xs "\<lambda>i x. f x = []"] by (auto simp: indexed_def case_prod_unfold all_set_conv_all_nth)

lemma if_Nil [no_errors]: "(if c then x # xs else []) = [] \<longleftrightarrow> \<not> c" "(if c then [] else x # xs) = [] \<longleftrightarrow> c"
  by simp_all

subsection \<open>Programs and apps\<close>

definition wrapper_ok :: "wrapper \<Rightarrow> bool" where
  "wrapper_ok w \<longleftrightarrow> rx_match name_re (wr_name w) \<and> (wr_run w = []) \<noteq> (wr_path w = []) \<and> (wr_path w = [] \<or> wr_args w = [])
     \<and> \<not> contains_any (wr_run w @ concat (wr_args w)) [CHR 0x0D, CHR 0x0A]"

lemma split_wrapper_ok: "split_wrapper i t = Inr w \<Longrightarrow> wrapper_ok w"
  by (auto simp: split_wrapper_def wrapper_ok_def Let_def split: option.splits if_splits)

lemma split_bin_from_ok: "split_bin_from i raw = Inr (bins, wraps) \<Longrightarrow> \<forall>w\<in>set wraps. wrapper_ok w"
  by (induction i raw arbitrary: bins wraps rule: split_bin_from.induct)
    (auto simp: and_then_Inr split: toml.splits dest: split_wrapper_ok)

lemma split_bin_ok: "split_bin raw = Inr (bins, wraps) \<Longrightarrow> \<forall>w\<in>set wraps. wrapper_ok w"
  unfolding split_bin_def by (rule split_bin_from_ok)

definition app_ok :: "app_entry \<Rightarrow> bool" where
  "app_ok e \<longleftrightarrow> ap_path e \<noteq> [] \<and> (is_bundle e \<longrightarrow> ap_name e = [] \<and> ap_icon e = [])"

lemma split_app_from_ok: "split_app_from i raw = Inr es \<Longrightarrow> \<forall>e\<in>set es. app_ok e"
proof (induction i raw arbitrary: es rule: split_app_from.induct)
  case (2 i v vs)
  then show ?case by (auto simp: and_then_Inr split_app_one_def app_ok_def split: if_splits)
qed simp

lemma split_app_ok: "split_app raw = Inr es \<Longrightarrow> \<forall>e\<in>set es. app_ok e"
  unfolding split_app_def by (rule split_app_from_ok)

subsection \<open>Artifacts, steps and services\<close>

definition artifact_ok :: "outside \<Rightarrow> package_info \<Rightarrow> artifact \<Rightarrow> bool" where
  "artifact_ok out p a \<longleftrightarrow>
     ar_url a \<noteq> [] \<and> (ar_sha256 a = [] \<or> valid_sha256 (ar_sha256 a) \<and> ar_sha256_url a = [])
     \<and> (ar_integrity a = [] \<or> valid_integrity (ar_integrity a)) \<and> 0 \<le> ar_strip a \<and> exposes a \<noteq> ar_data a
     \<and> check_selector (ar_match a) = None \<and> s_host (ar_match a) = []
     \<and> (sigstore a \<longrightarrow> pk_signer_workflow p \<noteq> [] \<or> cosign_key out (pk_signing_key p))
     \<and> (\<forall>w\<in>set (ar_wrap a). wrapper_ok w) \<and> (\<forall>e\<in>set (ar_app a). app_ok e)"

lemma split_artifact_ok: "split_artifact a = (a', []) \<Longrightarrow> (\<forall>w\<in>set (ar_wrap a'). wrapper_ok w) \<and> (\<forall>e\<in>set (ar_app a'). app_ok e)"
  by (auto simp: split_artifact_def split: sum.splits option.splits prod.splits dest!: split_bin_ok split_app_ok)

lemma artifact_errors_Nil: "artifact_errors out p v a = [] \<Longrightarrow>
    (\<forall>w\<in>set (ar_wrap a). wrapper_ok w) \<and> (\<forall>e\<in>set (ar_app a). app_ok e) \<Longrightarrow> artifact_ok out p a"
  by (auto simp: artifact_errors_def artifact_ok_def Let_def split: if_splits option.splits)

definition step_ok :: "build_step \<Rightarrow> bool" where
  "step_ok s \<longleftrightarrow>
     length (kinds s) = 1 \<and> (st_scripts s \<noteq> [] \<longrightarrow> st_vendor s = Some ''npm'' \<and> rx_match npm_re (st_package s))
     \<and> (st_package s \<noteq> [] \<longrightarrow> st_vendor s \<in> {Some ''cargo'', Some ''go'', Some ''pip'', Some ''npm''})
     \<and> (\<forall>i. st_install s = Some i \<longrightarrow> (\<forall>w\<in>set (is_wrap i). wrapper_ok w) \<and> (\<forall>e\<in>set (is_app i). app_ok e))"

lemma split_install_ok: "split_install i = (i', []) \<Longrightarrow> (\<forall>w\<in>set (is_wrap i'). wrapper_ok w) \<and> (\<forall>e\<in>set (is_app i'). app_ok e)"
  by (auto simp: split_install_def Let_def split: sum.splits prod.splits option.splits dest!: split_bin_ok split_app_ok)

lemma check_step_ok:
  assumes "kind_errors s = []" "check_step s = (s', [])"
  shows "step_ok s'"
proof -
  have "\<exists>w i. s' = s\<lparr>st_when := w, st_install := i\<rparr> \<and> vendor_errors s' = [] \<and> (i = None \<longleftrightarrow> st_install s = None)
      \<and> (\<forall>t. i = Some t \<longrightarrow> (\<forall>w\<in>set (is_wrap t). wrapper_ok w) \<and> (\<forall>e\<in>set (is_app t). app_ok e))"
  proof (cases "st_install s")
    case None
    with assms(2) obtain w where w: "s' = s\<lparr>st_when := w\<rparr>" "vendor_errors s' = []"
      by (auto simp: check_step_def Let_def split: sum.splits)
    from w(1) None have "s' = s\<lparr>st_when := w, st_install := None\<rparr>" by simp
    with w(2) None show ?thesis by blast
  next
    case (Some t)
    then obtain t' es where t': "split_install t = (t', es)" by fastforce
    with Some assms(2) have "es = []" "vendor_errors s' = []" "\<exists>w. s' = s\<lparr>st_when := w, st_install := Some t'\<rparr>"
      by (auto simp: check_step_def Let_def split: sum.splits)
    then obtain w where "s' = s\<lparr>st_when := w, st_install := Some t'\<rparr>" "vendor_errors s' = []" "es = []" by blast
    with t' Some split_install_ok[of t t'] show ?thesis by (intro exI[of _ w] exI[of _ "Some t'"]) simp
  qed
  then obtain w i where s': "s' = s\<lparr>st_when := w, st_install := i\<rparr>" "vendor_errors s' = []"
    "i = None \<longleftrightarrow> st_install s = None"
    "\<forall>t. i = Some t \<longrightarrow> (\<forall>w\<in>set (is_wrap t). wrapper_ok w) \<and> (\<forall>e\<in>set (is_app t). app_ok e)"
    by (elim exE conjE) (rule that)
  have "kinds s' = kinds s" using s'(1,3) by (simp add: kinds_def)
  with assms(1) s' show ?thesis
    by (auto simp: step_ok_def kind_errors_def vendor_errors_def Let_def split: if_splits)
qed

definition service_ok :: "unit_service \<Rightarrow> bool" where
  "service_ok s \<longleftrightarrow>
     rx_match name_re (sv_name s) \<and> sv_command s \<noteq> [] \<and> sv_restart s \<in> {[], ''never'', ''on-failure'', ''always''}
     \<and> (\<forall>d. sv_schedule s = Some d \<longrightarrow> \<not> sv_interactive s \<and> sv_restart s \<in> {[], ''never''}
          \<and> (sd_every d \<noteq> [] \<longrightarrow> 60 * 1000000000 \<le> sd_interval d \<and> sd_interval d \<le> 24 * 3600 * 1000000000)
          \<and> (sd_every d = [] \<longrightarrow> sd_hour d \<le> 23 \<and> sd_minute d \<le> 59 \<and> sorted (sd_days d)))"

lemma parse_schedule_ok:
  assumes "parse_schedule s = Inr d"
  shows "(sd_every d \<noteq> [] \<longrightarrow> 60 * 1000000000 \<le> sd_interval d \<and> sd_interval d \<le> 24 * 3600 * 1000000000)
    \<and> (sd_every d = [] \<longrightarrow> sd_hour d \<le> 23 \<and> sd_minute d \<le> 59 \<and> sorted (sd_days d))"
proof (cases "sd_every s = []")
  case True
  with assms have "schedule_at s = Inr d" by (auto simp: parse_schedule_def split: if_splits)
  with True show ?thesis by (auto simp: schedule_at_def and_then_Inr split: option.splits if_splits)
next
  case False
  with assms have "schedule_every s = Inr d" by (auto simp: parse_schedule_def split: if_splits)
  with False show ?thesis by (auto simp: schedule_every_def Let_def split: if_splits)
qed

lemma check_service_ok: "check_service s = (s', []) \<Longrightarrow> service_ok s'"
  using parse_schedule_ok
  by (auto simp: check_service_def service_ok_def Let_def split: sum.splits option.splits if_splits)

definition version_ok :: "version_spec \<Rightarrow> bool" where
  "version_ok v \<longleftrightarrow>
     (v_from v = []) \<noteq> (v_value v = []) \<and> check_version (v_value v) = None
     \<and> (v_from v \<noteq> [] \<longrightarrow> v_from v \<in> set version_sources)
     \<and> (v_tag v \<noteq> [] \<or> v_latest v \<longrightarrow> v_from v \<in> set release_sources) \<and> (v_tag v = [] \<or> \<not> v_latest v)
     \<and> (v_branch v \<noteq> [] \<longrightarrow> v_from v = ''git-branch'') \<and> (v_json v \<noteq> [] \<longrightarrow> v_from v = ''page'')
     \<and> (v_strip_prefix v \<noteq> [] \<longrightarrow> v_tag v = [] \<and> v_from v \<in> {[], ''git-tags''} \<union> set release_sources)"

lemma scrape_errors_strip: "scrape_errors out v = [] \<Longrightarrow> v_strip_prefix v = []"
  by (auto simp: scrape_errors_def split: if_splits)

lemma version_errors_Nil:
  assumes "version_errors out v = []" "read_errors v = []" "tag_errors v = []"
  shows "version_ok v"
proof -
  have src: "(v_from v = []) \<noteq> (v_value v = [])" "check_version (v_value v) = None"
    "v_from v \<noteq> [] \<longrightarrow> v_from v \<in> set version_sources"
    using assms(1) by (auto simp: version_errors_def Let_def version_sources_def split: if_splits)
  have strip: "v_strip_prefix v \<noteq> [] \<longrightarrow> v_from v \<in> {[], ''git-tags''} \<union> set release_sources"
  proof
    assume s: "v_strip_prefix v \<noteq> []"
    then have "\<not> (v_from v = ''redirect'' \<or> v_from v = ''page'' \<or> v_from v = ''sparkle'')"
      using assms(1) scrape_errors_strip[of out v] by (auto simp: version_errors_def Let_def split: if_splits)
    then show "v_from v \<in> {[], ''git-tags''} \<union> set release_sources"
      using assms(1) s src(3) by (auto simp: version_errors_def Let_def version_sources_def split: if_splits)
  qed
  show ?thesis using src strip assms(2,3)
    by (auto simp: version_ok_def read_errors_def tag_errors_def split: if_splits)
qed

subsection \<open>The whole manifest\<close>

definition manifest_ok :: "outside \<Rightarrow> manifest \<Rightarrow> bool" where
  "manifest_ok out m \<longleftrightarrow>
     rx_match name_re (pk_name (m_package m))
     \<and> (pk_attestations (m_package m) \<longrightarrow> pk_signer_workflow (m_package m) \<noteq> [])
     \<and> (if per_artifact m
        then m_version m = zero_version \<and> m_build m = None
          \<and> (\<forall>a\<in>set (m_artifacts m). \<exists>v. ar_version a = Some v \<and> v_from v \<in> set artifact_sources \<and> v_value v = [])
        else version_ok (m_version m))
     \<and> (\<forall>a\<in>set (m_artifacts m). artifact_ok out (m_package m) a)
     \<and> (\<forall>b. m_build m = Some b \<longrightarrow> (\<forall>s\<in>set (br_steps b). step_ok s))
     \<and> (\<forall>s\<in>set (m_services m). service_ok s)
     \<and> (\<forall>(n, x)\<in>set (m_env m). valid_env_name n \<and> \<not> reserved_env n)
     \<and> (\<forall>r\<in>set (m_host m). rq_command r \<noteq> [] \<or> rq_path r \<noteq> [] \<or> rq_packages r \<noteq> [])"

lemma own_version_Nil:
  "own_version_errors out a = [] \<Longrightarrow> \<exists>v. ar_version a = Some v \<and> v_from v \<in> set artifact_sources \<and> v_value v = []"
  by (auto simp: own_version_errors_def split: option.splits if_splits)

lemma split_artifact_same: "ar_version (fst (split_artifact a)) = ar_version a"
  by (auto simp: split_artifact_def split: sum.splits prod.splits option.splits)

lemma check_build_ok:
  assumes "check_build b = (b', [])"
  shows "\<forall>s\<in>set (br_steps b'). step_ok s"
proof -
  from assms have b': "br_steps b' = map (fst \<circ> check_step) (br_steps b)"
    and e: "\<forall>s\<in>set (br_steps b). kind_errors s = [] \<and> snd (check_step s) = []"
    by (auto simp: check_build_def Let_def no_errors split: prod.splits)
  have "step_ok (fst (check_step s))" if "s \<in> set (br_steps b)" for s
    using check_step_ok[of s "fst (check_step s)"] e that by (metis prod.collapse)
  with b' show ?thesis by simp
qed

lemma check_hosts_ok:
  assumes "check_hosts m = (hosts, es)" "r \<in> set hosts"
  shows "rq_command r \<noteq> [] \<or> rq_path r \<noteq> [] \<or> rq_packages r \<noteq> []"
proof -
  from assms obtain name v q where "parse_host parse_manifest_when name v = Inr q" "r = q\<lparr>rq_package := pk_name (m_package m)\<rparr>"
    by (auto simp: check_hosts_def Let_def map_filter_def split: option.splits sum.splits)
  then show ?thesis by (auto simp: parse_host_def and_then_Inr split: toml.splits if_splits)
qed

lemma validate_parts:
  assumes "validate out m0 = (m, [])"
  shows "m_package m = m_package m0" "m_version m = m_version m0" "m_env m = m_env m0"
    "m_artifacts m = map (fst \<circ> split_artifact) (m_artifacts m0)" "m_services m = map (fst \<circ> check_service) (m_services m0)"
    "m_build m = fst (check_builds (m_build m0))" "m_host m = fst (check_hosts m0)"
    "package_errors out (m_package m0) = []" "snd (check_builds (m_build m0)) = []"
    "\<forall>s\<in>set (m_services m0). snd (check_service s) = []" "env_errors m0 = []" "rx_match name_re (pk_name (m_package m0))"
    "all_version_errors out m0 = []" "\<forall>a\<in>set (m_artifacts m0). snd (split_artifact a) = []"
    "\<forall>a\<in>set (m_artifacts m0). artifact_errors out (m_package m0) (m_version m0) (fst (split_artifact a)) = []"
  using assms by (auto simp: validate_def Let_def no_errors split: prod.splits if_splits)

lemma versions_ok:
  assumes "all_version_errors out m = []"
  shows "if per_artifact m
        then m_version m = zero_version \<and> m_build m = None
          \<and> (\<forall>a\<in>set (m_artifacts m). \<exists>v. ar_version a = Some v \<and> v_from v \<in> set artifact_sources \<and> v_value v = [])
        else version_ok (m_version m)"
proof (cases "per_artifact m")
  case True
  with assms have "per_artifact_errors out m = []" by (simp add: all_version_errors_def)
  then have "m_version m = zero_version" "m_build m = None" "\<forall>a\<in>set (m_artifacts m). own_version_errors out a = []"
    by (auto simp: per_artifact_errors_def no_errors split: if_splits)
  with True show ?thesis by (auto dest: own_version_Nil)
next
  case False
  with assms version_errors_Nil[of out "m_version m"] show ?thesis by (simp add: all_version_errors_def)
qed

lemma validate_ok:
  assumes "validate out m0 = (m, [])"
  shows "manifest_ok out m"
proof -
  note v = validate_parts[OF assms]
  have per: "per_artifact m = per_artifact m0" by (simp add: per_artifact_def v(4) list_ex_iff split_artifact_same)
  have art: "artifact_ok out (m_package m) a" if "a \<in> set (m_artifacts m)" for a
  proof -
    from that obtain a0 where a0: "a0 \<in> set (m_artifacts m0)" "a = fst (split_artifact a0)" by (auto simp: v(4))
    with v(14) have "split_artifact a0 = (a, [])" by (metis prod.collapse)
    note split_artifact_ok[OF this]
    moreover have "artifact_errors out (m_package m) (m_version m0) a = []" using v(15) a0 by (simp add: v(1))
    ultimately show ?thesis using artifact_errors_Nil by blast
  qed
  have build: "\<forall>s\<in>set (br_steps b). step_ok s" if b: "m_build m = Some b" for b
  proof -
    from b v(6,9) obtain b0 where "check_build b0 = (b, [])"
      by (auto simp: check_builds_def split: option.splits prod.splits)
    then show ?thesis by (rule check_build_ok)
  qed
  have serv: "service_ok s" if "s \<in> set (m_services m)" for s
  proof -
    from that obtain s0 where "s0 \<in> set (m_services m0)" "s = fst (check_service s0)" by (auto simp: v(5))
    with v(10) have "check_service s0 = (s, [])" by (metis prod.collapse)
    then show ?thesis by (rule check_service_ok)
  qed
  have host: "rq_command r \<noteq> [] \<or> rq_path r \<noteq> [] \<or> rq_packages r \<noteq> []" if "r \<in> set (m_host m)" for r
    using check_hosts_ok[of m0 "m_host m" "snd (check_hosts m0)" r] that by (simp add: v(7))
  have none: "m_build m = None \<longleftrightarrow> m_build m0 = None"
    by (auto simp: v(6) check_builds_def split: option.splits prod.splits)
  have vers: "if per_artifact m
        then m_version m = zero_version \<and> m_build m = None
          \<and> (\<forall>a\<in>set (m_artifacts m). \<exists>v. ar_version a = Some v \<and> v_from v \<in> set artifact_sources \<and> v_value v = [])
        else version_ok (m_version m)"
    using versions_ok[OF v(13)] by (simp add: per v(2,4) none split_artifact_same)
  have env: "\<forall>(n, x)\<in>set (m_env m). valid_env_name n \<and> \<not> reserved_env n"
    using v(11) by (auto simp: v(3) env_errors_def filter_empty_conv)
  have att: "pk_attestations (m_package m) \<longrightarrow> pk_signer_workflow (m_package m) \<noteq> []"
    using v(8) by (auto simp: v(1) package_errors_def split: if_splits)
  show ?thesis unfolding manifest_ok_def
    using v(1,12) art build serv host vers env att by simp
qed

text \<open>
  C22. Every manifest that \<open>Parse\<close> accepts is well formed: names are valid; the version is fixed or read from one
  known source, or every artifact has a source of its own and nothing builds; each artifact has a URL, one valid
  digest at most, a valid selector without a host, and exposes files or is data; a signature has a signer; a
  wrapper runs a command or names a file; a step does one thing; install scripts run for npm only; a scheduled
  service is not interactive; no variable is one that loads code into other programs.
\<close>

theorem accepted_manifest_well_formed:
  assumes "parse_manifest out decode unknown_keys digest data = Inr m"
  shows "manifest_ok out m"
proof -
  from assms obtain m0 m1 where "validate out m0 = (m1, [])"
    and m: "m_package m = m_package m1" "m_version m = m_version m1" "m_artifacts m = m_artifacts m1" "m_build m = m_build m1"
      "m_services m = m_services m1" "m_env m = m_env m1" "m_host m = m_host m1"
    by (auto simp: parse_manifest_def Let_def split: sum.splits prod.splits if_splits)
  from validate_ok[OF this(1)] show ?thesis by (simp add: manifest_ok_def per_artifact_def m)
qed

end
