(* ===== verification/Manifest_Lint_Props.thy ===== *)
theory Manifest_Lint_Props
  imports Manifest_Props
begin

text \<open>
  What a manifest without errors of \<open>Lint\<close> gives to an install, what \<open>Expand\<close> does with a text, and the times
  of a schedule.
\<close>

subsection \<open>Variables\<close>

definition dep_variable :: "string \<Rightarrow> bool" where
  "dep_variable name \<longleftrightarrow> has_prefix name ''dep.'' \<and> has_suffix name ''.prefix''"

lemma unknown_artifact_var:
  assumes "known_var artifact_vars name" "template_value (template_vars version tag p) name = None"
  shows "dep_variable name"
  using assms by (auto simp: known_var_def artifact_vars_def template_value_def template_vars_def dep_variable_def split: if_splits)

lemma version_var_fault: "version_var name version = Inl e \<Longrightarrow> e = VersionHasNo name version"
  by (auto simp: version_var_def nth_part_def Let_def split: if_splits)

lemma expand_fault:
  assumes "expand_template s (template_vars version tag p) = Inl e" "unknown_vars s artifact_vars = []"
  shows "case e of UnknownVars names \<Rightarrow> names \<noteq> [] \<and> list_all dep_variable names | VersionHasNo n v \<Rightarrow> v = version"
proof -
  let ?names = "piece_names (template_pieces s)" and ?val = "template_value (template_vars version tag p)"
  have known: "known_var artifact_vars name" if "name \<in> set ?names" for name
    using assms(2) that by (auto simp: unknown_vars_def filter_empty_conv)
  show ?thesis
  proof (cases "filter (\<lambda>name. ?val name = None) ?names = []")
    case False
    with assms(1) have "e = UnknownVars (filter (\<lambda>name. ?val name = None) ?names)"
      by (simp add: expand_template_def Let_def)
    with False known unknown_artifact_var show ?thesis by (auto simp: list_all_iff)
  next
    case True
    with assms(1) obtain es where
      "List.map_filter (\<lambda>name. case ?val name of Some (Inl e) \<Rightarrow> Some e | _ \<Rightarrow> None) ?names = e # es"
      by (auto simp: expand_template_def Let_def split: list.splits)
    then have "e \<in> set (List.map_filter (\<lambda>name. case ?val name of Some (Inl e) \<Rightarrow> Some e | _ \<Rightarrow> None) ?names)" by simp
    then obtain name where "?val name = Some (Inl e)"
      by (auto simp: map_filter_def split: option.splits sum.splits)
    then have "version_var name version = Inl e"
      by (auto simp: template_value_def template_vars_def split: option.splits if_splits)
    then have "e = VersionHasNo name version" by (rule version_var_fault)
    then show ?thesis by simp
  qed
qed

lemma in_field_fault: "in_field field s vars = Inl x \<Longrightarrow> \<exists>e. x = BadTemplate field e \<and> expand_template s vars = Inl e"
  by (auto simp: in_field_def split: sum.splits)

lemma expand_artifact_fault:
  "expand_artifact a vars = Inl x \<Longrightarrow> \<exists>field e s. x = BadTemplate field e \<and> s \<in> set (artifact_texts a) \<and> expand_template s vars = Inl e"
  unfolding expand_artifact_def and_then_Inl artifact_texts_def by (auto dest!: in_field_fault)

lemma lint_parts:
  assumes "lint out decode data = ([], ws)" "decode data = Inr (full, unknown)"
  shows "snd (validate out full) = []" "\<forall>a\<in>set (m_artifacts full). \<forall>s\<in>set (artifact_texts a). unknown_vars s artifact_vars = []"
proof -
  obtain m es where m: "validate out full = (m, es)" by fastforce
  with assms have e: "es = []" and a: "numbered (lint_artifact out (m_package full)) (m_artifacts full) = []"
    by (auto simp: lint_def Let_def)
  show "snd (validate out full) = []" by (simp add: m e)
  have "lint_artifact out (m_package full) i a = [] \<Longrightarrow> s \<in> set (artifact_texts a) \<Longrightarrow> unknown_vars s artifact_vars = []" for i a s
    by (auto simp: lint_artifact_def)
  moreover have "\<exists>i. lint_artifact out (m_package full) i a = []" if "a \<in> set (m_artifacts full)" for a
    using a that by (auto simp: no_errors in_set_conv_nth)
  ultimately show "\<forall>a\<in>set (m_artifacts full). \<forall>s\<in>set (artifact_texts a). unknown_vars s artifact_vars = []" by blast
qed

lemma split_artifact_texts: "artifact_texts (fst (split_artifact a)) = artifact_texts a"
  by (auto simp: split_artifact_def artifact_texts_def split: sum.splits prod.splits option.splits)

text \<open>A manifest with the versions and tags that resolving found.\<close>

definition chosen :: "manifest \<Rightarrow> string \<Rightarrow> string \<Rightarrow> (string \<times> string) list \<Rightarrow> (string \<times> string) list \<Rightarrow> manifest" where
  "chosen m version tag versions tags =
     m\<lparr>m_version := (m_version m)\<lparr>v_value := version\<rparr>, m_tag := tag, m_versions := versions, m_tags := tags\<rparr>"

text \<open>What an install of a checked manifest can find.\<close>

definition select_fits :: "manifest \<Rightarrow> platform \<Rightarrow> (select_error, artifact option) res \<Rightarrow> bool" where
  "select_fits m p r \<longleftrightarrow>
     (case r of
        Inr None \<Rightarrow> \<not> list_ex (\<lambda>a. sel_matches (ar_match a) p) (m_artifacts m)
      | Inr (Some a) \<Rightarrow> sel_matches (ar_match a) p
      | Inl (NoVersionFor q) \<Rightarrow> q = p \<and> per_artifact m \<and> text_at (m_versions m) (platform_string p) = []
      | Inl (BadTemplate f (VersionHasNo n v)) \<Rightarrow> v = v_value (m_version m) \<or> v = text_at (m_versions m) (platform_string p)
      | Inl (BadTemplate f (UnknownVars names)) \<Rightarrow> names \<noteq> [] \<and> list_all dep_variable names)"

lemma expand_artifact_match: "expand_artifact a vars = Inr a' \<Longrightarrow> ar_match a' = ar_match a"
  by (auto simp: expand_artifact_def and_then_Inr)

text \<open>
  C23. A manifest that \<open>Lint\<close> finds no error in is one that \<open>Parse\<close> accepts, and whatever versions it is resolved to,
  \<open>Select\<close> finds the artifact of every platform that has one. It can only fail when no version was found for the
  platform, when a version lacks a part that a URL names, or on a variable of the form dep.<name>.prefix.
\<close>

theorem lint_then_select:
  assumes "lint out decode data = ([], ws)" "decode data = Inr (full, unknown)"
  shows "snd (validate out full) = []
    \<and> (let m = chosen (fst (validate out full)) version tag versions tags in select_fits m p (select_artifact m p))"
proof -
  note l = lint_parts[OF assms]
  obtain m0 where m0: "validate out full = (m0, [])" using l(1) by (metis prod.collapse)
  note arts = validate_parts(4)[OF m0]
  define m where "m = chosen m0 version tag versions tags"
  have same: "m_artifacts m = m_artifacts m0" by (simp add: m_def chosen_def)
  have texts: "unknown_vars s artifact_vars = []" if "a \<in> set (m_artifacts m)" "s \<in> set (artifact_texts a)" for a s
    using that l(2) by (auto simp: same arts split_artifact_texts)
  have "select_fits m p (select_artifact m p)"
  proof (cases "find (\<lambda>a. sel_matches (ar_match a) p) (m_artifacts m)")
    case None
    then have "\<not> list_ex (\<lambda>a. sel_matches (ar_match a) p) (m_artifacts m)" by (auto simp: find_None_iff list_ex_iff)
    with None show ?thesis by (simp add: select_artifact_def select_fits_def)
  next
    case (Some a)
    then have a: "a \<in> set (m_artifacts m)" "sel_matches (ar_match a) p" by (auto dest: find_SomeD)
    obtain v t where vt: "artifact_version m a p = (v, t)" by fastforce
    have v: "v = v_value (m_version m) \<or> v = text_at (m_versions m) (platform_string p)"
      using vt by (auto simp: artifact_version_def split: if_splits)
    show ?thesis
    proof (cases "ar_version a \<noteq> None \<and> v = []")
      case True
      with vt a Some show ?thesis
        by (auto simp: select_artifact_def select_fits_def per_artifact_def artifact_version_def list_ex_iff split: if_splits)
    next
      case False
      then have sel: "select_artifact m p = and_then (expand_artifact a (template_vars v t p)) (\<lambda>a'. Inr (Some a'))"
        using Some vt by (auto simp: select_artifact_def)
      show ?thesis
      proof (cases "expand_artifact a (template_vars v t p)")
        case (Inr a')
        with sel a expand_artifact_match[OF Inr] show ?thesis by (simp add: select_fits_def)
      next
        case (Inl x)
        from expand_artifact_fault[OF this] obtain field e s where x: "x = BadTemplate field e" "s \<in> set (artifact_texts a)"
          "expand_template s (template_vars v t p) = Inl e" by blast
        from expand_fault[OF x(3) texts[OF a(1) x(2)]] x(1) sel Inl v show ?thesis
          by (cases e) (auto simp: select_fits_def)
      qed
    qed
  qed
  then show ?thesis by (simp add: m0 m_def Let_def)
qed

subsection \<open>Expand\<close>

datatype tmpl = Words string | Name string string string

fun tmpl_ok :: "tmpl \<Rightarrow> bool" where
  "tmpl_ok (Words w) = (CHR ''{'' \<notin> set w)"
| "tmpl_ok (Name before n after) = (n \<noteq> [] \<and> list_all (alnum_or ''_.-'') n \<and> list_all is_re_space before \<and> list_all is_re_space after)"

fun tmpl_text :: "tmpl \<Rightarrow> string" where
  "tmpl_text (Words w) = w"
| "tmpl_text (Name before n after) = ''{{'' @ before @ n @ after @ ''}}''"

fun tmpl_names :: "tmpl list \<Rightarrow> string list" where
  "tmpl_names [] = []"
| "tmpl_names (Words w # ts) = tmpl_names ts"
| "tmpl_names (Name b n a # ts) = n # tmpl_names ts"

fun tmpl_value :: "(string \<times> string) list \<Rightarrow> tmpl \<Rightarrow> string" where
  "tmpl_value vars (Words w) = w"
| "tmpl_value vars (Name b n a) = piece_text vars (Var n)"

fun tmpl_pieces :: "tmpl \<Rightarrow> template_piece list" where
  "tmpl_pieces (Words w) = map Chr w"
| "tmpl_pieces (Name b n a) = [Var n]"

lemma pieces_words: "CHR ''{'' \<notin> set w \<Longrightarrow> template_pieces (w @ s) = map Chr w @ template_pieces s"
proof (induction w)
  case (Cons c w)
  have "template_at (c # w @ s) = None"
    using Cons.prems by (auto simp: template_at_def cut_prefix_def has_prefix_def split: option.splits)
  then show ?case using Cons template_pieces.simps[of "c # w @ s"] by simp
qed simp

lemma class_disjoint: "alnum_or ''_.-'' c \<Longrightarrow> \<not> is_re_space c" "\<not> alnum_or ''_.-'' (CHR ''}'')" "\<not> is_re_space (CHR ''}'')"
proof -
  show "\<not> is_re_space c" if "alnum_or ''_.-'' c"
    using that by (auto simp: alnum_or_def is_re_space_def is_letter_def is_upper_def is_lower_def is_digit_def)
qed code_simp+

lemma template_at_name:
  assumes "tmpl_ok (Name b n a)"
  shows "template_at (tmpl_text (Name b n a) @ s) = Some (n, s)"
proof -
  have n: "n \<noteq> []" "\<forall>c\<in>set n. alnum_or ''_.-'' c" and b: "\<forall>c\<in>set b. is_re_space c" and a: "\<forall>c\<in>set a. is_re_space c"
    using assms by (auto simp: list_all_iff)
  have drop_b: "dropWhile is_re_space (b @ n @ a @ ''}}'' @ s) = n @ a @ ''}}'' @ s"
    using b n class_disjoint(1) by (cases n) (auto simp: dropWhile_append2)
  have stop: "takeWhile (alnum_or ''_.-'') (a @ ''}}'' @ s) = []" "dropWhile (alnum_or ''_.-'') (a @ ''}}'' @ s) = a @ ''}}'' @ s"
    using a class_disjoint by (cases a; auto)+
  have take_n: "takeWhile (alnum_or ''_.-'') (n @ a @ ''}}'' @ s) = n" "dropWhile (alnum_or ''_.-'') (n @ a @ ''}}'' @ s) = a @ ''}}'' @ s"
    using n stop by (simp_all add: takeWhile_append2 dropWhile_append2)
  have drop_a: "dropWhile is_re_space (a @ ''}}'' @ s) = ''}}'' @ s"
    using a class_disjoint(3) by (simp add: dropWhile_append2)
  have pre: "cut_prefix (tmpl_text (Name b n a) @ s) ''{{'' = Some (b @ n @ a @ ''}}'' @ s)" by (simp add: cut_prefix_Some)
  have post: "cut_prefix (''}}'' @ s) ''}}'' = Some s" by (simp only: cut_prefix_Some)
  show ?thesis unfolding template_at_def pre option.case Let_def drop_b take_n drop_a post using n(1) by simp
qed

lemma pieces_tmpl: "list_all tmpl_ok ts \<Longrightarrow> template_pieces (concat (map tmpl_text ts)) = concat (map tmpl_pieces ts)"
proof (induction ts)
  case Nil
  show ?case using template_pieces.simps[of "[]"] by (simp add: template_at_def cut_prefix_def has_prefix_def)
next
  case (Cons t ts)
  show ?case
  proof (cases t)
    case (Words w)
    with Cons pieces_words show ?thesis by simp
  next
    case (Name b n a)
    with Cons.prems have "template_at (tmpl_text t @ concat (map tmpl_text ts)) = Some (n, concat (map tmpl_text ts))"
      using template_at_name by (simp only: list.pred_inject)
    then show ?thesis using Cons template_pieces.simps[of "tmpl_text t @ concat (map tmpl_text ts)"] Name by simp
  qed
qed

lemma piece_names_append: "piece_names (ps @ qs) = piece_names ps @ piece_names qs"
  by (induction ps rule: piece_names.induct) simp_all

lemma piece_names_tmpl: "piece_names (concat (map tmpl_pieces ts)) = tmpl_names ts"
proof (induction ts rule: tmpl_names.induct)
  case (2 w ts)
  have "piece_names (map Chr w) = []" by (induction w) simp_all
  with 2 show ?case by (simp add: piece_names_append)
qed simp_all

text \<open>
  C39. \<open>Expand\<close> on a text of words without an opening brace and of variables between double braces, with any white
  space around the name: it fails on the unknown names, in their order, and when every name has a value it gives the
  words with each variable replaced once, so a brace in a value starts no variable.
\<close>

theorem expand_exact:
  assumes "list_all tmpl_ok ts"
  shows "((\<forall>n\<in>set (tmpl_names ts). \<exists>v. template_value vars n = Some (Inr v)) \<longrightarrow>
      expand_template (concat (map tmpl_text ts)) vars = Inr (concat (map (tmpl_value vars) ts)))
    \<and> ((\<exists>n\<in>set (tmpl_names ts). template_value vars n = None) \<longrightarrow>
      expand_template (concat (map tmpl_text ts)) vars = Inl (UnknownVars (filter (\<lambda>n. template_value vars n = None) (tmpl_names ts))))"
proof (intro conjI)
  have vals: "concat (map (piece_text vars) (tmpl_pieces t)) = tmpl_value vars t" for t
    by (cases t) (simp_all add: comp_def concat_map_singleton)
  then have out: "concat (map (piece_text vars) (concat (map tmpl_pieces ts))) = concat (map (tmpl_value vars) ts)"
    by (induction ts) simp_all
  note p = pieces_tmpl[OF assms]
  show "(\<forall>n\<in>set (tmpl_names ts). \<exists>v. template_value vars n = Some (Inr v)) \<longrightarrow>
      expand_template (concat (map tmpl_text ts)) vars = Inr (concat (map (tmpl_value vars) ts))"
  proof
    assume all: "\<forall>n\<in>set (tmpl_names ts). \<exists>v. template_value vars n = Some (Inr v)"
    then have "filter (\<lambda>n. template_value vars n = None) (tmpl_names ts) = []" by (auto simp: filter_empty_conv)
    moreover have "List.map_filter (\<lambda>n. case template_value vars n of Some (Inl e) \<Rightarrow> Some e | _ \<Rightarrow> None) (tmpl_names ts) = []"
      using all by (auto simp: map_filter_def filter_empty_conv split: option.splits sum.splits)
    ultimately show "expand_template (concat (map tmpl_text ts)) vars = Inr (concat (map (tmpl_value vars) ts))"
      by (simp add: expand_template_def p piece_names_tmpl out Let_def)
  qed
  show "(\<exists>n\<in>set (tmpl_names ts). template_value vars n = None) \<longrightarrow>
      expand_template (concat (map tmpl_text ts)) vars = Inl (UnknownVars (filter (\<lambda>n. template_value vars n = None) (tmpl_names ts)))"
    by (auto simp: expand_template_def p piece_names_tmpl Let_def filter_empty_conv)
qed

end
