(* ===== verification/Manifest_Samples.thy ===== *)
theory Manifest_Samples
  imports Manifest_Lint_Props
begin

text \<open>
  Concrete manifests: the witnesses of the properties, the times of a schedule, and two texts that the sources
  accept and should not.
\<close>

subsection \<open>Schedules\<close>

definition two_digits :: "nat \<Rightarrow> string" where
  "two_digits n = [digit_char (n div 10), digit_char (n mod 10)]"

definition at_time :: "string \<Rightarrow> string list \<Rightarrow> schedule" where
  "at_time at days = \<lparr>sd_every = [], sd_at = at, sd_weekdays = days, sd_interval = 0, sd_hour = 0, sd_minute = 0, sd_days = []\<rparr>"

lemma atoi_two_digits:
  assumes "n < 100"
  shows "atoi (two_digits n) = Some (int n)"
proof -
  have d: "n div 10 < 10" "n mod 10 < 10" using assms by auto
  then have "list_all is_digit (two_digits n)" by (simp add: two_digits_def is_digit_digit_char)
  moreover have "digits_val (two_digits n) = n"
    using d by (simp add: two_digits_def digits_val_def digit_val_digit_char)
  moreover have "in_int (int n)" using assms by (simp add: in_int_def max_int_def min_int_def)
  ultimately show ?thesis using atoi_digits[of "two_digits n"] by (simp add: two_digits_def)
qed

lemma two_digits_colon: "n < 100 \<Longrightarrow> CHR '':'' \<notin> set (two_digits n)"
proof -
  assume "n < 100"
  then have "n div 10 < 10" "n mod 10 < 10" by auto
  then have "is_digit (digit_char (n div 10))" "is_digit (digit_char (n mod 10))" by (simp_all add: is_digit_digit_char)
  moreover have "\<not> is_digit (CHR '':'')" by code_simp
  ultimately show ?thesis by (auto simp: two_digits_def)
qed

lemma find_weekday: "i < 7 \<Longrightarrow> find (\<lambda>j. weekdays ! j = weekdays ! i) [0..<7] = Some i"
proof -
  assume i: "i < 7"
  have "\<forall>i\<in>set [0..<7]. find (\<lambda>j. weekdays ! j = weekdays ! i) [0..<7] = Some i" by code_simp
  with i show ?thesis by simp
qed

lemma schedule_days_all:
  "distinct (before @ days) \<Longrightarrow> \<forall>i\<in>set days. i < 7 \<Longrightarrow> schedule_days (map (\<lambda>i. weekdays ! i) days) before = Inr (before @ days)"
proof (induction days arbitrary: before)
  case (Cons i days)
  then show ?case using find_weekday[of i] Cons.IH[of "before @ [i]"] by auto
qed simp

text \<open>
  C40. A schedule that names a time of day is read back: for every hour, minute and list of different weekdays,
  the text HH:MM and the names of the days give exactly that hour, minute and the days in order.
\<close>

theorem schedule_round_trip:
  assumes "h < 24" "m < 60" "distinct days" "\<forall>i\<in>set days. i < 7"
  shows "parse_schedule (at_time (two_digits h @ '':'' @ two_digits m) (map (\<lambda>i. weekdays ! i) days)) =
    Inr ((at_time (two_digits h @ '':'' @ two_digits m) (map (\<lambda>i. weekdays ! i) days))
      \<lparr>sd_hour := int h, sd_minute := int m, sd_days := sort days\<rparr>)"
proof -
  have "cut_char (CHR '':'') (two_digits h @ CHR '':'' # two_digits m) = Some (two_digits h, two_digits m)"
    using assms(1) by (intro cut_char_append two_digits_colon) simp
  moreover have "atoi (two_digits h) = Some (int h)" "atoi (two_digits m) = Some (int m)"
    using assms(1,2) by (simp_all add: atoi_two_digits)
  moreover have "length (two_digits n) = 2" for n by (simp add: two_digits_def)
  moreover have "schedule_days (map (\<lambda>i. weekdays ! i) days) [] = Inr days"
    using schedule_days_all[of "[]" days] assms(3,4) by simp
  ultimately show ?thesis using assms(1,2) by (simp add: parse_schedule_def schedule_at_def at_time_def)
qed

theorem schedule_round_trip_witness:
  "parse_schedule (at_time (two_digits 3 @ '':'' @ two_digits 5) [''fri'', ''mon'']) =
    Inr ((at_time (two_digits 3 @ '':'' @ two_digits 5) [''fri'', ''mon''])
      \<lparr>sd_hour := 3, sd_minute := 5, sd_days := [1, 5]\<rparr>)"
  using schedule_round_trip[of 3 5 "[5, 1]"] by (simp add: weekdays_def)

text \<open>A sign is no digit, but \<open>Atoi\<close> reads it, so a time of day can lie before midnight.\<close>

theorem schedule_negative_hour:
  "parse_schedule (at_time ''-1:30'' []) = Inr ((at_time ''-1:30'' [])\<lparr>sd_hour := -1, sd_minute := 30\<rparr>)"
proof -
  have "cut_char (CHR '':'') ''-1:30'' = Some (''-1'', ''30'')" "atoi ''-1'' = Some (-1)" "atoi ''30'' = Some 30" by code_simp+
  then show ?thesis by (simp add: parse_schedule_def schedule_at_def at_time_def)
qed

text \<open>The product of a large number of minutes wraps around to an interval of 78 seconds.\<close>

theorem schedule_interval_wraps:
  "parse_schedule \<lparr>sd_every = ''922337205m'', sd_at = [], sd_weekdays = [], sd_interval = 0, sd_hour = 0, sd_minute = 0, sd_days = []\<rparr>
    = Inr \<lparr>sd_every = ''922337205m'', sd_at = [], sd_weekdays = [], sd_interval = 78871345152, sd_hour = 0, sd_minute = 0, sd_days = []\<rparr>"
proof -
  have "atoi ''922337205'' = Some 922337205"
    by (simp add: atoi_def atoi_unsigned_def digits_val_def digit_val_def is_digit_def in_int_def max_int_def min_int_def)
  moreover from this have "atoi_value ''922337205'' = 922337205" by (simp add: atoi_value_def)
  moreover have "every_unit ''m'' = Some (60 * 1000000000)" "wrap (922337205 * (60 * 1000000000)) = 78871345152"
    by (simp_all add: every_unit_def wrap_def)
  ultimately show ?thesis by (simp add: parse_schedule_def schedule_every_def Let_def)
qed

subsection \<open>A manifest\<close>

definition no_keys :: outside where
  "no_keys = \<lparr>o_minisign = (\<lambda>_. False), o_base64 = (\<lambda>_. None), o_pkix = (\<lambda>_. False), o_regex = (\<lambda>_. Inr 1)\<rparr>"

definition sample_artifact :: "string \<Rightarrow> artifact" where
  "sample_artifact url =
     \<lparr>ar_match = \<lparr>s_os = ''linux'', s_arch = [], s_libc = [], s_host = []\<rparr>, ar_url = url, ar_sha256 = [], ar_sha256_url = [],
      ar_sigstore_bundle = [], ar_sha256_url_bundle = [], ar_sigstore_signature = [], ar_sigstore_certificate = [],
      ar_sha256_url_signature = [], ar_sha256_url_certificate = [], ar_provenance = [], ar_version = None,
      ar_integrity = [], ar_strip = 1,
      ar_raw_bin = [TStr ''fd'', TTab [(''path'', TStr ''bin/fd''), (''name'', TStr ''fdfind'')]],
      ar_bin = [], ar_wrap = [], ar_man = [], ar_raw_completions = Some (TTab [(''zsh'', TStr ''c/_fd'')]),
      ar_completions = no_completions, ar_lib = [], ar_include = [], ar_share = [], ar_raw_app = [], ar_app = [],
      ar_font = [], ar_data = False\<rparr>"

definition sample_manifest :: "string \<Rightarrow> manifest" where
  "sample_manifest url =
     \<lparr>m_package = \<lparr>pk_name = ''fd'', pk_description = ''find'', pk_homepage = [], pk_license = [], pk_relocatable = False,
        pk_signing_key = [], pk_signer_workflow = [], pk_attestations = False\<rparr>,
      m_version = zero_version\<lparr>v_from := ''github-releases'', v_repo := ''sharkdp/fd'', v_strip_prefix := ''v''\<rparr>,
      m_artifacts = [sample_artifact url], m_build = None, m_runtime_raw = [], m_runtime_deps = [], m_old_apps = [],
      m_services = [], m_env = [(''FD_OPTIONS'', ''-H'')], m_raw_host = [], m_host = [], m_sha256 = [], m_unknown = [],
      m_tag = [], m_tag_commit = [], m_versions = [], m_tags = []\<rparr>"

definition linux_machine :: platform where
  "linux_machine = \<lparr>p_os = ''linux'', p_arch = ''amd64'', p_libc = ''musl''\<rparr>"

theorem accepted_manifest_well_formed_witness:
  "\<exists>m. parse_manifest no_keys (\<lambda>_. Inr (sample_manifest ''https://x/{{version}}-{{arch}}'')) (\<lambda>_. []) (\<lambda>d. d) ''...'' = Inr m
     \<and> manifest_ok no_keys m"
proof -
  have "is_ok (parse_manifest no_keys (\<lambda>_. Inr (sample_manifest ''https://x/{{version}}-{{arch}}'')) (\<lambda>_. []) (\<lambda>d. d) ''...'')"
    by code_simp
  then obtain m where m: "parse_manifest no_keys (\<lambda>_. Inr (sample_manifest ''https://x/{{version}}-{{arch}}'')) (\<lambda>_. []) (\<lambda>d. d) ''...'' = Inr m"
    by (auto simp: is_ok_iff)
  from accepted_manifest_well_formed[OF m] m show ?thesis by blast
qed

theorem lint_then_select_witness:
  "let full = sample_manifest ''https://x/{{version}}-{{arch}}'';
       m = chosen (fst (validate no_keys full)) ''10.2'' ''v10.2'' [] []
   in fst (lint no_keys (\<lambda>_. Inr (full, [])) ''...'') = []
      \<and> map_sum (\<lambda>_. ()) (map_option ar_url) (select_artifact m linux_machine) = Inr (Some ''https://x/10.2-amd64'')
      \<and> select_fits m linux_machine (select_artifact m linux_machine)"
proof -
  let ?full = "sample_manifest ''https://x/{{version}}-{{arch}}''"
  let ?m = "chosen (fst (validate no_keys ?full)) ''10.2'' ''v10.2'' [] []"
  have "fst (lint no_keys (\<lambda>_. Inr (?full, [])) ''...'') = []" by code_simp
  moreover from this obtain ws where "lint no_keys (\<lambda>_. Inr (?full, [])) ''...'' = ([], ws)" by (metis prod.collapse)
  note lint_then_select[OF this, of ?full "[]" "''10.2''" "''v10.2''" "[]" "[]" linux_machine]
  moreover have "map_sum (\<lambda>_. ()) (map_option ar_url) (select_artifact ?m linux_machine) = Inr (Some ''https://x/10.2-amd64'')"
    by code_simp
  ultimately show ?thesis by (simp add: Let_def)
qed

text \<open>\<open>Lint\<close> takes a variable that names a dependency for known in a URL too, where no install knows it.\<close>

theorem lint_misses_dep_variable:
  "let full = sample_manifest ''https://x/{{dep.zlib.prefix}}'';
       m = chosen (fst (validate no_keys full)) ''10.2'' ''v10.2'' [] []
   in fst (lint no_keys (\<lambda>_. Inr (full, [])) ''...'') = []
      \<and> select_artifact m linux_machine = Inl (BadTemplate ''url'' (UnknownVars [''dep.zlib.prefix'']))"
proof -
  let ?full = "sample_manifest ''https://x/{{dep.zlib.prefix}}''"
  have "fst (lint no_keys (\<lambda>_. Inr (?full, [])) ''...'') = []" by code_simp
  moreover have "case select_artifact (chosen (fst (validate no_keys ?full)) ''10.2'' ''v10.2'' [] []) linux_machine of
      Inl e \<Rightarrow> e = BadTemplate ''url'' (UnknownVars [''dep.zlib.prefix'']) | Inr _ \<Rightarrow> False" by code_simp
  ultimately show ?thesis by (simp add: Let_def split: sum.splits)
qed

theorem expand_exact_witness:
  "expand_template ''https://x/{{ version }}/{{version_major}}'' [(''version'', ''10.2'')] = Inr ''https://x/10.2/10''"
proof -
  let ?ts = "[Words ''https://x/'', Name '' '' ''version'' '' '', Words ''/'', Name [] ''version_major'' []]"
  have "list_all tmpl_ok ?ts" by code_simp
  moreover have v: "template_value [(''version'', ''10.2'')] ''version'' = Some (Inr ''10.2'')" by code_simp
  moreover have w: "template_value [(''version'', ''10.2'')] ''version_major'' = Some (Inr ''10'')" by code_simp
  ultimately show ?thesis using expand_exact[of ?ts "[(''version'', ''10.2'')]"] by simp
qed

end
