(* ===== verification/Expose.thy ===== *)
theory Expose
  imports Prelude
begin

text \<open>
  What oku places outside its own directories, and the ledger that records it: \<open>internal/expose/expose.go\<close> and the
  handlers of \<open>internal/cli/expose.go\<close>, \<open>settings.go\<close>, \<open>secrets.go\<close> and \<open>service.go\<close>, on Unix. The process can end
  before every effect: \<open>mc_budget\<close> is the number of effects that it still has, so a statement for every budget is
  one for every point of a crash. A write of the ledger and of a link is one effect, a copy of a tree is two.
\<close>

subsection \<open>The machine\<close>

datatype thing =
    Symlink string
  | Copying string
  | Copied string
  | Plain string

record item =
  it_kind :: string
  it_package :: string
  it_source :: string
  it_target :: string
  it_name :: string
  it_enabled :: bool
  it_system :: bool
  it_user :: string
  it_hash :: string
  it_domain :: string
  it_key :: string
  it_prior :: string
  it_had_prior :: bool
  it_dir :: nat

record machine =
  mc_budget :: nat
  mc_ledger :: "item list"
  mc_paths :: "string \<rightharpoonup> thing"
  mc_settings :: "string \<times> string \<rightharpoonup> string"
  mc_units :: "string \<rightharpoonup> item"

datatype ('e, 'a) outcome = Value 'a | Failed 'e | Crashed

definition andthen :: "('e, 'a) outcome \<times> 's \<Rightarrow> ('a \<Rightarrow> 's \<Rightarrow> ('e, 'b) outcome \<times> 's) \<Rightarrow> ('e, 'b) outcome \<times> 's" where
  "andthen r f = (case r of (Value a, m) \<Rightarrow> f a m | (Failed e, m) \<Rightarrow> (Failed e, m) | (Crashed, m) \<Rightarrow> (Crashed, m))"

lemma andthen_simps [simp]:
  "andthen (Value a, m) f = f a m" "andthen (Failed e, m) f = (Failed e, m)" "andthen (Crashed, m) f = (Crashed, m)"
  by (simp_all add: andthen_def)

definition effect :: "(machine \<Rightarrow> machine) \<Rightarrow> machine \<Rightarrow> ('e, unit) outcome \<times> machine" where
  "effect f m = (if mc_budget m = 0 then (Crashed, m) else (Value (), f (m\<lparr>mc_budget := mc_budget m - 1\<rparr>)))"

datatype expose_error =
    Occupied string
  | PlaceFailed item
  | RemoveFailed item
  | WriteFailed
  | ReadFailed item
  | NotDecrypted string

text \<open>Which operations fail: the errors of the system, of the service manager and of a missing permission.\<close>

record faults =
  ft_read :: "item \<Rightarrow> bool"
  ft_place :: "item \<Rightarrow> bool"
  ft_remove :: "item \<Rightarrow> bool"
  ft_write :: "item list \<Rightarrow> bool"

subsection \<open>Comparing items\<close>

definition bare :: "item \<Rightarrow> item" where
  "bare i = i\<lparr>it_prior := [], it_had_prior := False, it_dir := 0\<rparr>"

definition wants :: "item list \<Rightarrow> item \<Rightarrow> bool" where
  "wants items i \<longleftrightarrow> list_ex (\<lambda>have. bare have = bare i) items"

definition is_listed :: "item \<Rightarrow> bool" where
  "is_listed i \<longleftrightarrow> it_kind i = ''file'' \<or> it_kind i = ''secret''"

text \<open>\<open>Check\<close> and \<open>Leaving\<close>.\<close>

definition ledger_check :: "item list \<Rightarrow> (string \<rightharpoonup> thing) \<Rightarrow> item list \<Rightarrow> string option" where
  "ledger_check items paths wanted =
     map_option it_target (find (\<lambda>w. \<not> (wants items w \<or> it_target w = [] \<or> it_kind w = ''setting'')
       \<and> \<not> list_ex (\<lambda>have. it_target have = it_target w) items \<and> paths (it_target w) \<noteq> None) wanted)"

definition leaving :: "item list \<Rightarrow> item list \<Rightarrow> item list" where
  "leaving items wanted = filter (\<lambda>have. \<not> list_ex (\<lambda>w. it_target w = it_target have) wanted) items"

text \<open>\<open>keepSystem\<close>.\<close>

definition keep_system :: "item list \<Rightarrow> item list \<Rightarrow> item list" where
  "keep_system have wanted = filter (\<lambda>i. \<not> it_system i) wanted @ filter it_system have"

subsection \<open>The handlers\<close>

definition set_path :: "string \<Rightarrow> thing \<Rightarrow> machine \<Rightarrow> machine" where
  "set_path p t m = m\<lparr>mc_paths := (mc_paths m)(p \<mapsto> t)\<rparr>"

definition clear_path :: "string \<Rightarrow> machine \<Rightarrow> machine" where
  "clear_path p m = m\<lparr>mc_paths := (mc_paths m)(p := None)\<rparr>"

text \<open>\<open>os.Symlink\<close> fails when the target exists.\<close>

definition place_link :: "item \<Rightarrow> machine \<Rightarrow> (expose_error, unit) outcome \<times> machine" where
  "place_link i m =
     (if mc_paths m (it_target i) \<noteq> None then (Failed (PlaceFailed i), m)
      else effect (set_path (it_target i) (Symlink (it_source i))) m)"

definition place_secret :: "(string \<rightharpoonup> string) \<Rightarrow> item \<Rightarrow> machine \<Rightarrow> (expose_error, unit) outcome \<times> machine" where
  "place_secret contents i m =
     (case contents (it_target i) of
        None \<Rightarrow> (Failed (NotDecrypted (it_target i)), m)
      | Some data \<Rightarrow> andthen (effect (set_path (it_source i) (Plain data)) m) (\<lambda>_. place_link i))"

definition place_copy :: "item \<Rightarrow> machine \<Rightarrow> (expose_error, unit) outcome \<times> machine" where
  "place_copy i m =
     (if has_prefix (it_source i) ''[Desktop Entry]'' then effect (set_path (it_target i) (Plain (it_source i))) m
      else andthen (effect (set_path (it_target i) (Copying (it_source i))) m)
             (\<lambda>_. effect (set_path (it_target i) (Copied (it_source i)))))"

definition set_setting :: "item \<Rightarrow> string option \<Rightarrow> machine \<Rightarrow> machine" where
  "set_setting i v m = m\<lparr>mc_settings := (mc_settings m)((it_domain i, it_key i) := v)\<rparr>"

definition place_item ::
  "faults \<Rightarrow> (string \<rightharpoonup> string) \<Rightarrow> item \<Rightarrow> machine \<Rightarrow> (expose_error, unit) outcome \<times> machine" where
  "place_item ft contents i m =
     (if ft_place ft i then (Failed (PlaceFailed i), m)
      else if it_kind i = ''setting'' then effect (set_setting i (Some (it_source i))) m
      else if it_kind i = ''service'' then effect (\<lambda>m. m\<lparr>mc_units := (mc_units m)(it_name i \<mapsto> i)\<rparr>) m
      else if it_kind i = ''secret'' then place_secret contents i m
      else if it_kind i = ''file'' then place_link i m
      else place_copy i m)"

text \<open>\<open>RemoveFile\<close> and \<open>removeSecretTarget\<close>: what is no link any more is the user's.\<close>

definition remove_link :: "item \<Rightarrow> machine \<Rightarrow> (expose_error, unit) outcome \<times> machine" where
  "remove_link i m =
     (case mc_paths m (it_target i) of Some (Symlink _) \<Rightarrow> effect (clear_path (it_target i)) m | _ \<Rightarrow> (Value (), m))"

definition remove_item :: "faults \<Rightarrow> item \<Rightarrow> machine \<Rightarrow> (expose_error, unit) outcome \<times> machine" where
  "remove_item ft i m =
     (if ft_remove ft i then (Failed (RemoveFailed i), m)
      else if it_kind i = ''setting''
      then effect (set_setting i (if it_had_prior i then Some (it_prior i) else None)) m
      else if it_kind i = ''service'' then effect (\<lambda>m. m\<lparr>mc_units := (mc_units m)(it_name i := None)\<rparr>) m
      else if it_kind i = ''secret''
      then andthen (remove_link i m) (\<lambda>_. effect (clear_path (it_source i)))
      else if it_kind i = ''file'' then remove_link i m
      else effect (clear_path (it_target i)) m)"

text \<open>\<open>Before\<close> of a setting keeps the value that it is about to replace.\<close>

definition before_place :: "item \<Rightarrow> machine \<Rightarrow> item" where
  "before_place i m =
     (if it_kind i = ''setting''
      then (case mc_settings m (it_domain i, it_key i) of
              None \<Rightarrow> i\<lparr>it_prior := [], it_had_prior := False\<rparr>
            | Some v \<Rightarrow> i\<lparr>it_prior := v, it_had_prior := True\<rparr>)
      else i)"

subsection \<open>Sync\<close>

text \<open>The steps work on the items in memory, and every write makes them the ledger on disk.\<close>

definition write_ledger :: "faults \<Rightarrow> item list \<Rightarrow> machine \<Rightarrow> (expose_error, unit) outcome \<times> machine" where
  "write_ledger ft items m =
     (if ft_write ft items then (Failed WriteFailed, m)
      else effect (mc_ledger_update (\<lambda>_. map (it_dir_update (\<lambda>_. 0)) items)) m)"

definition lost :: "machine \<Rightarrow> item \<Rightarrow> bool" where
  "lost m i \<longleftrightarrow> is_listed i \<and> mc_paths m (it_target i) = None"

text \<open>A lost secret takes its decrypted copy with it, and an error of that is ignored.\<close>

fun drop_lost :: "item list \<Rightarrow> machine \<Rightarrow> (expose_error, item list) outcome \<times> machine" where
  "drop_lost [] m = (Value [], m)"
| "drop_lost (i # is) m =
     (if \<not> lost m i then andthen (drop_lost is m) (\<lambda>rest m. (Value (i # rest), m))
      else if it_kind i = ''secret'' then andthen (effect (clear_path (it_source i)) m) (\<lambda>_. drop_lost is)
      else drop_lost is m)"

definition remove_one :: "faults \<Rightarrow> item \<Rightarrow> item list \<Rightarrow> machine \<Rightarrow> (expose_error, item list) outcome \<times> machine" where
  "remove_one ft i items m =
     andthen (remove_item ft i m) (\<lambda>_ m.
       let rest = filter (\<lambda>have. have \<noteq> i) items
       in andthen (write_ledger ft rest m) (\<lambda>_ m. (Value rest, m)))"

fun remove_unwanted ::
  "faults \<Rightarrow> item list \<Rightarrow> item list \<Rightarrow> item list \<Rightarrow> machine \<Rightarrow> (expose_error, item list) outcome \<times> machine" where
  "remove_unwanted ft wanted [] items m = (Value items, m)"
| "remove_unwanted ft wanted (have # haves) items m =
     (if wants wanted have then remove_unwanted ft wanted haves items m
      else andthen (remove_one ft have items m) (remove_unwanted ft wanted haves))"

definition place_one ::
  "faults \<Rightarrow> (string \<rightharpoonup> string) \<Rightarrow> item \<Rightarrow> item list \<Rightarrow> machine \<Rightarrow> (expose_error, item list) outcome \<times> machine" where
  "place_one ft contents w items m =
     (if it_kind w = ''setting'' \<and> ft_read ft w then (Failed (ReadFailed w), m)
      else (let i = before_place w m; items' = items @ [i]
            in andthen (write_ledger ft items' m) (\<lambda>_ m.
                 andthen (place_item ft contents i m) (\<lambda>_ m. (Value items', m)))))"

fun place_wanted ::
  "faults \<Rightarrow> (string \<rightharpoonup> string) \<Rightarrow> item list \<Rightarrow> item list \<Rightarrow> machine \<Rightarrow> (expose_error, item list) outcome \<times> machine" where
  "place_wanted ft contents [] items m = (Value items, m)"
| "place_wanted ft contents (w # ws) items m =
     (if wants items w then place_wanted ft contents ws items m
      else andthen (place_one ft contents w items m) (place_wanted ft contents ws))"

definition sync ::
  "faults \<Rightarrow> (string \<rightharpoonup> string) \<Rightarrow> item list \<Rightarrow> machine \<Rightarrow> (expose_error, item list) outcome \<times> machine" where
  "sync ft contents wanted m =
     andthen (drop_lost (mc_ledger m) m) (\<lambda>items m.
       case ledger_check items (mc_paths m) wanted of
         Some target \<Rightarrow> (Failed (Occupied target), m)
       | None \<Rightarrow> andthen (remove_unwanted ft wanted items items m) (place_wanted ft contents wanted))"

definition remove_all :: "faults \<Rightarrow> machine \<Rightarrow> (expose_error, item list) outcome \<times> machine" where
  "remove_all ft m = sync ft Map.empty [] m"

end
