(* ===== verification/Change.thy ===== *)
theory Change
  imports Expose
begin

text \<open>
  One switch of generation, and its undoing: \<open>internal/cli/change.go\<close> with \<open>planExposed\<close> and \<open>placeExposed\<close> of
  \<open>internal/cli/expose.go\<close>. The state is the machine of Expose with the two lists of the scope, its active generation,
  its generations, and \<open>pending.toml\<close>. The process can end before every effect, as in Expose, and an effect can fail: \<open>fails s n\<close>
  says that step \<open>s\<close> fails when \<open>n\<close> effects are left, so the same step can fail at one time and work at another.
  What a generation wants exposed, and the secrets that its files need, are arguments, since a generation does not change.
\<close>

subsection \<open>State\<close>

type_synonym lists = "string option \<times> string option"

record pending =
  pd_project :: bool
  pd_from :: nat
  pd_to :: nat
  pd_staged :: bool
  pd_elevated :: bool
  pd_before :: lists
  pd_started :: lists
  pd_committing :: bool
  pd_done :: bool

record system =
  sy_machine :: machine
  sy_lists :: lists
  sy_current :: nat
  sy_gens :: "nat list"
  sy_pending :: "pending option"

datatype change_step =
    PlanStep
  | PendingWrite
  | PendingRemove
  | Activation nat
  | ListWrite
  | LockWrite
  | Discarding nat
  | Reading nat

datatype change_error =
    StepFailed change_step
  | ExposeFailed expose_error
  | NotPutBack change_error change_error
  | NotDeleted change_error

text \<open>What the model does not decide: failures, and what a generation wants.\<close>

record surroundings =
  sr_fails :: "change_step \<Rightarrow> nat \<Rightarrow> bool"
  sr_faults :: "nat \<Rightarrow> faults"
  sr_wanted :: "nat \<Rightarrow> item list"
  sr_contents :: "nat \<Rightarrow> string \<rightharpoonup> string"
  sr_agreed :: bool

definition sy_budget :: "system \<Rightarrow> nat" where
  "sy_budget s = mc_budget (sy_machine s)"

definition spend :: "system \<Rightarrow> system" where
  "spend s = s\<lparr>sy_machine := (sy_machine s)\<lparr>mc_budget := sy_budget s - 1\<rparr>\<rparr>"

definition sys_effect :: "surroundings \<Rightarrow> change_step \<Rightarrow> (system \<Rightarrow> system) \<Rightarrow> system \<Rightarrow> (change_error, unit) outcome \<times> system" where
  "sys_effect sr st f s =
     (if sy_budget s = 0 then (Crashed, s)
      else if sr_fails sr st (sy_budget s) then (Failed (StepFailed st), spend s)
      else (Value (), f (spend s)))"

definition on_machine :: "system \<Rightarrow> (expose_error, 'a) outcome \<times> machine \<Rightarrow> (change_error, 'a) outcome \<times> system" where
  "on_machine s r =
     ((case fst r of Value a \<Rightarrow> Value a | Failed e \<Rightarrow> Failed (ExposeFailed e) | Crashed \<Rightarrow> Crashed), s\<lparr>sy_machine := snd r\<rparr>)"

subsection \<open>The plan\<close>

text \<open>A change of one list: the functions that it edits it with, in the order of its commit.\<close>

datatype list_edit = EditList "string option \<Rightarrow> string option" | EditLock "string option \<Rightarrow> string option"

record change =
  ch_to :: nat
  ch_staged :: bool
  ch_system :: bool
  ch_project :: bool
  ch_before :: "lists option"
  ch_commit :: "list_edit list"

definition pending_system :: "item list \<Rightarrow> item list \<Rightarrow> item list" where
  "pending_system have wanted = filter (\<lambda>i. it_system i \<and> i \<notin> set wanted) have @ filter (\<lambda>i. it_system i \<and> i \<notin> set have) wanted"

definition plan_exposed :: "bool \<Rightarrow> item list \<Rightarrow> item list \<Rightarrow> item list \<times> bool" where
  "plan_exposed agreed have wanted =
     (if pending_system have wanted = [] then (wanted, False)
      else if agreed then (wanted, True)
      else (keep_system have wanted, False))"

definition write_pending :: "surroundings \<Rightarrow> pending \<Rightarrow> system \<Rightarrow> (change_error, unit) outcome \<times> system" where
  "write_pending sr p = sys_effect sr PendingWrite (sy_pending_update (\<lambda>_. Some p))"

definition new_pending :: "change \<Rightarrow> bool \<Rightarrow> system \<Rightarrow> pending" where
  "new_pending c elevated s =
     \<lparr>pd_project = ch_project c, pd_from = sy_current s, pd_to = ch_to c, pd_staged = ch_staged c, pd_elevated = elevated,
      pd_before = (case ch_before c of None \<Rightarrow> sy_lists s | Some b \<Rightarrow> b), pd_started = sy_lists s,
      pd_committing = False, pd_done = False\<rparr>"

definition plan :: "surroundings \<Rightarrow> change \<Rightarrow> system \<Rightarrow> (change_error, pending \<times> item list) outcome \<times> system" where
  "plan sr c s =
     (let have = mc_ledger (sy_machine s);
          (wanted, elevated) = (if ch_project c then ([], False)
                                else plan_exposed (ch_system c \<and> sr_agreed sr) have (sr_wanted sr (ch_to c)));
          p = new_pending c elevated s
      in if sr_fails sr PlanStep (sy_budget s) then (Failed (StepFailed PlanStep), s)
         else (case ledger_check have (mc_paths (sy_machine s)) wanted of
                 Some target \<Rightarrow> (Failed (ExposeFailed (Occupied target)), s)
               | None \<Rightarrow> andthen (write_pending sr p s) (\<lambda>_ s. (Value (p, wanted), s))))"

definition discard_gen :: "surroundings \<Rightarrow> nat \<Rightarrow> system \<Rightarrow> (change_error, unit) outcome \<times> system" where
  "discard_gen sr n = sys_effect sr (Discarding n) (sy_gens_update (removeAll n))"

definition activate_gen :: "surroundings \<Rightarrow> nat \<Rightarrow> system \<Rightarrow> (change_error, unit) outcome \<times> system" where
  "activate_gen sr n = sys_effect sr (Activation n) (sy_current_update (\<lambda>_. n))"

definition sync_items :: "surroundings \<Rightarrow> nat \<Rightarrow> item list \<Rightarrow> system \<Rightarrow> (change_error, unit) outcome \<times> system" where
  "sync_items sr n wanted s =
     andthen (on_machine s (sync (sr_faults sr (sy_budget s)) (sr_contents sr n) wanted (sy_machine s))) (\<lambda>_ s. (Value (), s))"

definition place_exposed :: "surroundings \<Rightarrow> bool \<Rightarrow> nat \<Rightarrow> item list \<Rightarrow> system \<Rightarrow> (change_error, unit) outcome \<times> system" where
  "place_exposed sr project n wanted s = (if project then (Value (), s) else sync_items sr n wanted s)"

subsection \<open>The undoing\<close>

text \<open>\<open>restoreLists\<close> for one of the two files. A file that was edited since is kept.\<close>

definition restore_list ::
  "surroundings \<Rightarrow> pending \<Rightarrow> change_step \<Rightarrow> (lists \<Rightarrow> string option) \<Rightarrow> (string option \<Rightarrow> lists \<Rightarrow> lists) \<Rightarrow> system
    \<Rightarrow> (change_error, change_step list) outcome \<times> system" where
  "restore_list sr p st get put s =
     (if \<not> pd_committing p \<and> get (sy_lists s) \<noteq> get (pd_started p) then (Value [st], s)
      else andthen (sys_effect sr st (sy_lists_update (put (get (pd_before p)))) s) (\<lambda>_ s. (Value [], s)))"

definition restore_lists :: "surroundings \<Rightarrow> pending \<Rightarrow> system \<Rightarrow> (change_error, change_step list) outcome \<times> system" where
  "restore_lists sr p s =
     andthen (restore_list sr p ListWrite fst (\<lambda>t (_, lock). (t, lock)) s) (\<lambda>kept s.
       andthen (restore_list sr p LockWrite snd (\<lambda>t (txt, _). (txt, t)) s) (\<lambda>kept' s. (Value (kept @ kept'), s)))"

definition restore_exposed :: "surroundings \<Rightarrow> pending \<Rightarrow> system \<Rightarrow> (change_error, unit) outcome \<times> system" where
  "restore_exposed sr p s =
     (if pd_project p then (Value (), s)
      else if sr_fails sr (Reading (pd_from p)) (sy_budget s) then (Failed (StepFailed (Reading (pd_from p))), s)
      else (let wanted = sr_wanted sr (pd_from p)
            in sync_items sr (pd_from p)
                 (if pd_elevated p then wanted else keep_system (mc_ledger (sy_machine s)) wanted) s))"

definition remove_pending :: "surroundings \<Rightarrow> system \<Rightarrow> (change_error, unit) outcome \<times> system" where
  "remove_pending sr = sys_effect sr PendingRemove (sy_pending_update (\<lambda>_. None))"

definition revert :: "surroundings \<Rightarrow> pending \<Rightarrow> system \<Rightarrow> (change_error, change_step list) outcome \<times> system" where
  "revert sr p s =
     andthen (restore_lists sr p s) (\<lambda>kept s.
     andthen (activate_gen sr (pd_from p) s) (\<lambda>_ s.
     andthen (restore_exposed sr p s) (\<lambda>_ s.
     andthen (if pd_staged p then discard_gen sr (pd_to p) s else (Value (), s)) (\<lambda>_ s.
     andthen (remove_pending sr s) (\<lambda>_ s. (Value kept, s))))))"

text \<open>\<open>recoverPending\<close>, which every command that changes the machine runs first.\<close>

definition recover_pending :: "surroundings \<Rightarrow> system \<Rightarrow> (change_error, change_step list) outcome \<times> system" where
  "recover_pending sr s =
     (case sy_pending s of
        None \<Rightarrow> (Value [], s)
      | Some p \<Rightarrow> if pd_done p then andthen (remove_pending sr s) (\<lambda>_ s. (Value [], s)) else revert sr p s)"

subsection \<open>The change\<close>

definition edit_lists :: "list_edit \<Rightarrow> lists \<Rightarrow> lists" where
  "edit_lists e l = (case e of EditList f \<Rightarrow> (f (fst l), snd l) | EditLock f \<Rightarrow> (fst l, f (snd l)))"

definition edit_step :: "list_edit \<Rightarrow> change_step" where
  "edit_step e = (case e of EditList _ \<Rightarrow> ListWrite | EditLock _ \<Rightarrow> LockWrite)"

fun run_commit :: "surroundings \<Rightarrow> list_edit list \<Rightarrow> system \<Rightarrow> (change_error, unit) outcome \<times> system" where
  "run_commit sr [] s = (Value (), s)"
| "run_commit sr (e # es) s = andthen (sys_effect sr (edit_step e) (sy_lists_update (edit_lists e)) s) (\<lambda>_. run_commit sr es)"

text \<open>What \<open>apply\<close> does between the plan and the commit, and the commit. \<open>Committing\<close> is written before the lists are.\<close>

definition prepare :: "surroundings \<Rightarrow> change \<Rightarrow> item list \<Rightarrow> system \<Rightarrow> (change_error, unit) outcome \<times> system" where
  "prepare sr c wanted s = andthen (activate_gen sr (ch_to c) s) (\<lambda>_. place_exposed sr (ch_project c) (ch_to c) wanted)"

definition commit_lists :: "surroundings \<Rightarrow> change \<Rightarrow> pending \<Rightarrow> system \<Rightarrow> (change_error, unit) outcome \<times> system" where
  "commit_lists sr c p s = andthen (write_pending sr p s) (\<lambda>_. run_commit sr (ch_commit c))"

definition finish :: "surroundings \<Rightarrow> pending \<Rightarrow> system \<Rightarrow> (change_error, unit) outcome \<times> system" where
  "finish sr p s =
     (case remove_pending sr s of
        (Failed e, s') \<Rightarrow>
          (case write_pending sr (p\<lparr>pd_done := True\<rparr>) s' of
             (Crashed, s'') \<Rightarrow> (Crashed, s'')
           | (_, s'') \<Rightarrow> (Failed (NotDeleted e), s''))
      | r \<Rightarrow> r)"

definition undo :: "surroundings \<Rightarrow> change_error \<Rightarrow> pending \<Rightarrow> system \<Rightarrow> (change_error, unit) outcome \<times> system" where
  "undo sr e p s =
     (case revert sr p s of
        (Value kept, s') \<Rightarrow> (Failed e, s')
      | (Failed e', s') \<Rightarrow> (Failed (NotPutBack e e'), s')
      | (Crashed, s') \<Rightarrow> (Crashed, s'))"

definition apply_change :: "surroundings \<Rightarrow> change \<Rightarrow> system \<Rightarrow> (change_error, unit) outcome \<times> system" where
  "apply_change sr c s =
     (case plan sr c s of
        (Crashed, s1) \<Rightarrow> (Crashed, s1)
      | (Failed e, s1) \<Rightarrow>
          if ch_staged c
          then (case discard_gen sr (ch_to c) s1 of (Crashed, s2) \<Rightarrow> (Crashed, s2) | (_, s2) \<Rightarrow> (Failed e, s2))
          else (Failed e, s1)
      | (Value (p, wanted), s1) \<Rightarrow>
          (case prepare sr c wanted s1 of
             (Crashed, s2) \<Rightarrow> (Crashed, s2)
           | (Failed e, s2) \<Rightarrow> undo sr e p s2
           | (Value _, s2) \<Rightarrow>
               (let p' = p\<lparr>pd_committing := True\<rparr>
                in case commit_lists sr c p' s2 of
                     (Crashed, s3) \<Rightarrow> (Crashed, s3)
                   | (Failed e, s3) \<Rightarrow> undo sr e p' s3
                   | (Value _, s3) \<Rightarrow> finish sr p' s3)))"

end
