(* ===== verification/Expose_Laws.thy ===== *)
theory Expose_Laws
  imports Expose
begin

text \<open>
  What holds at every moment of a run, a crash included: whatever differs from the machine without oku is in the
  ledger on disk, and the ledger says what was there before.
\<close>

subsection \<open>Owning\<close>

definition on_path :: "item \<Rightarrow> bool" where
  "on_path i \<longleftrightarrow> it_kind i \<noteq> ''setting'' \<and> it_kind i \<noteq> ''service''"

definition is_link :: "thing \<Rightarrow> bool" where
  "is_link t \<longleftrightarrow> (case t of Symlink _ \<Rightarrow> True | _ \<Rightarrow> False)"

text \<open>Removing the item takes the thing away.\<close>

definition owns :: "item \<Rightarrow> string \<Rightarrow> thing \<Rightarrow> bool" where
  "owns i p t \<longleftrightarrow>
     (is_listed i \<and> it_target i = p \<and> is_link t) \<or> (it_kind i = ''secret'' \<and> it_source i = p)
     \<or> (on_path i \<and> \<not> is_listed i \<and> it_target i = p)"

definition covered :: "machine \<Rightarrow> item list \<Rightarrow> machine \<Rightarrow> bool" where
  "covered u items m \<longleftrightarrow>
     (\<forall>p. mc_paths m p \<noteq> mc_paths u p \<longrightarrow> (\<exists>t. mc_paths m p = Some t \<and> (\<exists>i\<in>set items. owns i p t)))
     \<and> (\<forall>k. mc_settings m k \<noteq> mc_settings u k \<longrightarrow> (\<exists>i\<in>set items. it_kind i = ''setting'' \<and> (it_domain i, it_key i) = k))
     \<and> (\<forall>n. mc_units m n \<noteq> mc_units u n \<longrightarrow> (\<exists>i\<in>set items. it_kind i = ''service'' \<and> it_name i = n))"

text \<open>What an item in the ledger promises of the machine without oku. \<open>units\<close> are the places of service units.\<close>

definition shape_ok :: "machine \<Rightarrow> string set \<Rightarrow> item \<Rightarrow> bool" where
  "shape_ok u units i \<longleftrightarrow>
     (on_path i \<longrightarrow> it_target i \<noteq> [] \<and> hd (it_target i) = CHR ''/'' \<and> it_target i \<notin> units)
     \<and> (it_kind i = ''setting'' \<longrightarrow> it_target i \<noteq> [] \<and> hd (it_target i) \<noteq> CHR ''/'' \<and> \<not> it_system i)
     \<and> (it_kind i = ''service'' \<longrightarrow> it_target i \<in> units \<and> mc_units u (it_name i) = None)
     \<and> (it_kind i = ''secret'' \<longrightarrow> mc_paths u (it_source i) = None)"

definition item_ok :: "machine \<Rightarrow> string set \<Rightarrow> item \<Rightarrow> bool" where
  "item_ok u units i \<longleftrightarrow> shape_ok u units i
     \<and> (on_path i \<longrightarrow> mc_paths u (it_target i) = None)
     \<and> (it_kind i = ''setting'' \<longrightarrow>
          mc_settings u (it_domain i, it_key i) = (if it_had_prior i then Some (it_prior i) else None))"

definition safe :: "machine \<Rightarrow> string set \<Rightarrow> item list \<Rightarrow> machine \<Rightarrow> bool" where
  "safe u units items m \<longleftrightarrow> covered u items m \<and> (\<forall>i\<in>set items. item_ok u units i)
     \<and> covered u (mc_ledger m) m \<and> (\<forall>i\<in>set (mc_ledger m). item_ok u units i)"

text \<open>The same for the ledger alone, which is what a crash leaves.\<close>

abbreviation safe_disk :: "machine \<Rightarrow> string set \<Rightarrow> machine \<Rightarrow> bool" where
  "safe_disk u units m \<equiv> safe u units (mc_ledger m) m"

lemma safe_safe_disk: "safe u units items m \<Longrightarrow> safe_disk u units m"
  by (simp add: safe_def)

lemma covered_mono: "covered u items m \<Longrightarrow> set items \<subseteq> set items' \<Longrightarrow> covered u items' m"
  unfolding covered_def by blast

lemma covered_budget [simp]: "covered u items (m\<lparr>mc_budget := n\<rparr>) = covered u items m"
  "covered u items (m\<lparr>mc_ledger := l\<rparr>) = covered u items m"
  by (simp_all add: covered_def)

lemma bare_same [simp]:
  "it_kind (bare i) = it_kind i" "it_target (bare i) = it_target i" "it_source (bare i) = it_source i"
  "it_domain (bare i) = it_domain i" "it_key (bare i) = it_key i" "it_name (bare i) = it_name i" "it_system (bare i) = it_system i"
  by (simp_all add: bare_def)

lemma bare_eq:
  assumes "bare i = bare j"
  shows "it_kind i = it_kind j" "it_target i = it_target j" "it_source i = it_source j" "it_domain i = it_domain j"
    "it_key i = it_key j" "it_name i = it_name j" "it_system i = it_system j"
  using arg_cong[OF assms, of it_system] arg_cong[OF assms, of it_kind] arg_cong[OF assms, of it_target] arg_cong[OF assms, of it_source]
    arg_cong[OF assms, of it_domain] arg_cong[OF assms, of it_key] arg_cong[OF assms, of it_name] by simp_all

lemma no_dir_same [simp]:
  "it_kind (it_dir_update f i) = it_kind i" "on_path (it_dir_update f i) = on_path i" "is_listed (it_dir_update f i) = is_listed i"
  "owns (it_dir_update f i) p t = owns i p t" "item_ok u units (it_dir_update f i) = item_ok u units i"
  "shape_ok u units (it_dir_update f i) = shape_ok u units i"
  by (simp_all add: on_path_def is_listed_def owns_def item_ok_def shape_ok_def)

lemma covered_no_dir [simp]: "covered u (map (it_dir_update f) items) m = covered u items m"
  by (simp add: covered_def)

subsection \<open>Effects\<close>

text \<open>Every result of a step satisfies \<open>P\<close>, and a result with a value satisfies \<open>Q\<close> too.\<close>

definition ensures :: "('e, 'a) outcome \<times> 's \<Rightarrow> ('s \<Rightarrow> bool) \<Rightarrow> ('a \<Rightarrow> 's \<Rightarrow> bool) \<Rightarrow> bool" where
  "ensures r P Q \<longleftrightarrow> P (snd r) \<and> (\<forall>a. fst r = Value a \<longrightarrow> Q a (snd r))"

lemma ensures_simps [simp]:
  "ensures (Value a, m) P Q = (P m \<and> Q a m)" "ensures (Failed e, m) P Q = P m" "ensures (Crashed, m) P Q = P m"
  by (simp_all add: ensures_def)

lemma ensures_andthen:
  assumes "ensures r P Q" "\<And>a m. P m \<Longrightarrow> Q a m \<Longrightarrow> ensures (f a m) P R"
  shows "ensures (andthen r f) P R"
proof -
  obtain out m where r: "r = (out, m)" by fastforce
  with assms show ?thesis by (cases out) (simp_all add: ensures_def)
qed

lemma ensures_mono: "ensures r P Q \<Longrightarrow> (\<And>a m. P m \<Longrightarrow> Q a m \<Longrightarrow> R a m) \<Longrightarrow> ensures r P R"
  by (auto simp: ensures_def)

lemma ensures_effect: "P m \<Longrightarrow> (\<And>n. P (f (m\<lparr>mc_budget := n\<rparr>)) \<and> Q () (f (m\<lparr>mc_budget := n\<rparr>))) \<Longrightarrow> ensures (effect f m) P Q"
  by (simp add: effect_def)

subsection \<open>The handlers\<close>

text \<open>The steps of a handler keep everything covered, as long as the item stays in the ledger on disk.\<close>

lemma covered_set_path:
  assumes "covered u items m" "\<exists>i\<in>set items. owns i p t"
  shows "covered u items (set_path p t m)"
  using assms unfolding covered_def set_path_def by auto

lemma covered_clear_path:
  assumes "covered u items m" "mc_paths u p = None"
  shows "covered u items (clear_path p m)"
  using assms unfolding covered_def clear_path_def by auto

lemma covered_setting:
  assumes "covered u items m" "\<exists>j\<in>set items. it_kind j = ''setting'' \<and> it_domain j = it_domain i \<and> it_key j = it_key i"
  shows "covered u items (set_setting i v m)"
  using assms unfolding covered_def set_setting_def by auto

lemma covered_unit:
  assumes "covered u items m" "\<exists>j\<in>set items. it_kind j = ''service'' \<and> it_name j = it_name i"
  shows "covered u items (m\<lparr>mc_units := (mc_units m)(it_name i := v)\<rparr>)"
  using assms unfolding covered_def by auto

lemma machine_parts [simp]:
  "mc_ledger (set_path p t m) = mc_ledger m" "mc_ledger (clear_path p m) = mc_ledger m" "mc_ledger (set_setting i v m) = mc_ledger m"
  "mc_paths (set_path p t m) = (mc_paths m)(p \<mapsto> t)" "mc_paths (clear_path p m) = (mc_paths m)(p := None)"
  "mc_paths (set_setting i v m) = mc_paths m" "mc_settings (set_setting i v m) = (mc_settings m)((it_domain i, it_key i) := v)"
  "mc_settings (set_path p t m) = mc_settings m" "mc_settings (clear_path p m) = mc_settings m"
  "mc_units (set_path p t m) = mc_units m" "mc_units (clear_path p m) = mc_units m" "mc_units (set_setting i v m) = mc_units m"
  by (simp_all add: set_path_def clear_path_def set_setting_def)

lemma listed_path: "is_listed i \<Longrightarrow> on_path i"
  by (auto simp: is_listed_def on_path_def)

text \<open>A step of an item that is in the ledger on disk.\<close>

lemma place_safe:
  assumes "safe_disk u units m" "\<exists>j\<in>set (mc_ledger m). bare j = bare i"
  shows "ensures (place_item ft contents i m) (\<lambda>m'. safe_disk u units m' \<and> mc_ledger m' = mc_ledger m) (\<lambda>_ _. True)"
proof -
  let ?P = "\<lambda>m'. safe_disk u units m' \<and> mc_ledger m' = mc_ledger m"
  obtain j where j: "j \<in> set (mc_ledger m)" "bare j = bare i" using assms(2) by blast
  note same = bare_eq[OF j(2)]
  have own: "\<exists>j\<in>set (mc_ledger m). owns j p t" if "owns i p t" for p t
    using that j(1) same by (auto simp: owns_def on_path_def is_listed_def intro!: bexI[of _ j])
  have ok: "?P m" using assms(1) by simp
  have step: "?P (f (m'\<lparr>mc_budget := n\<rparr>))"
    if "?P m'" "covered u (mc_ledger m) (f (m'\<lparr>mc_budget := n\<rparr>))" "mc_ledger (f (m'\<lparr>mc_budget := n\<rparr>)) = mc_ledger m" for f m' n
    using that by (simp add: safe_def)
  have put: "?P (set_path p t (m'\<lparr>mc_budget := n\<rparr>))" if "?P m'" "owns i p t" for p t n m'
    using that own by (intro step covered_set_path) (auto simp: safe_def)
  have link: "ensures (place_link i m') ?P (\<lambda>_ _. True)" if "?P m'" "is_listed i" for m'
    unfolding place_link_def using that put
    by (auto intro!: ensures_effect simp: owns_def is_link_def)
  consider "ft_place ft i" | "it_kind i = ''setting''" "\<not> ft_place ft i" | "it_kind i = ''service''" "\<not> ft_place ft i"
    | "it_kind i = ''secret''" "\<not> ft_place ft i" | "it_kind i = ''file''" "\<not> ft_place ft i"
    | "on_path i" "\<not> is_listed i" "\<not> ft_place ft i"
    by (auto simp: on_path_def is_listed_def)
  then show ?thesis
  proof cases
    case 1
    then show ?thesis using ok by (simp add: place_item_def)
  next
    case 2
    have "covered u (mc_ledger m) (set_setting i v (m\<lparr>mc_budget := n\<rparr>))" for v n
      using ok j(1) same 2 by (intro covered_setting) (auto simp: safe_def)
    with 2 ok step show ?thesis by (auto simp: place_item_def intro!: ensures_effect)
  next
    case 3
    have "covered u (mc_ledger m) (m\<lparr>mc_budget := n, mc_units := (mc_units m)(it_name i \<mapsto> i)\<rparr>)" for n
      using covered_unit[of u "mc_ledger m" "m\<lparr>mc_budget := n\<rparr>" i "Some i"] ok j(1) same 3 by (auto simp: safe_def)
    with 3 ok show ?thesis by (auto simp: place_item_def safe_def intro!: ensures_effect)
  next
    case 4
    have "ensures (place_secret contents i m) ?P (\<lambda>_ _. True)"
      unfolding place_secret_def using 4 ok put
      by (auto split: option.split intro!: ensures_andthen[where Q = "\<lambda>_ _. True"] ensures_effect link
          simp: is_listed_def owns_def)
    with 4 show ?thesis by (simp add: place_item_def)
  next
    case 5
    then show ?thesis using ok link[of m] by (simp add: place_item_def is_listed_def)
  next
    case 6
    have "owns i (it_target i) t" for t using 6 by (simp add: owns_def)
    then have "ensures (place_copy i m) ?P (\<lambda>_ _. True)"
      unfolding place_copy_def using ok put
      by (auto intro!: ensures_andthen[where Q = "\<lambda>_ _. True"] ensures_effect)
    with 6 show ?thesis by (simp add: place_item_def on_path_def is_listed_def)
  qed
qed

text \<open>Once nothing of an item is left, the others cover the rest.\<close>

lemma covered_without:
  assumes "covered u items m" "set items \<subseteq> insert i (set items')"
    and "\<And>p t. mc_paths m p = Some t \<Longrightarrow> owns i p t \<Longrightarrow> mc_paths u p = Some t"
    and "it_kind i = ''setting'' \<Longrightarrow> mc_settings m (it_domain i, it_key i) = mc_settings u (it_domain i, it_key i)"
    and "it_kind i = ''service'' \<Longrightarrow> mc_units m (it_name i) = mc_units u (it_name i)"
  shows "covered u items' m"
proof -
  have "\<exists>t. mc_paths m p = Some t \<and> (\<exists>j\<in>set items'. owns j p t)" if p: "mc_paths m p \<noteq> mc_paths u p" for p
  proof -
    from assms(1) p obtain t j where t: "mc_paths m p = Some t" "j \<in> set items" "owns j p t" by (auto simp: covered_def)
    then show ?thesis using assms(2) assms(3)[of p t] p by (cases "j = i") auto
  qed
  moreover have "\<exists>j\<in>set items'. it_kind j = ''setting'' \<and> (it_domain j, it_key j) = k"
    if k: "mc_settings m k \<noteq> mc_settings u k" for k
  proof -
    from assms(1) k obtain j where j: "j \<in> set items" "it_kind j = ''setting''" "(it_domain j, it_key j) = k"
      unfolding covered_def by blast
    with assms(2,4) k have "j \<in> set items'" by (cases "j = i") auto
    with j show ?thesis by blast
  qed
  moreover have "\<exists>j\<in>set items'. it_kind j = ''service'' \<and> it_name j = n"
    if n: "mc_units m n \<noteq> mc_units u n" for n
  proof -
    from assms(1) n obtain j where j: "j \<in> set items" "it_kind j = ''service''" "it_name j = n"
      unfolding covered_def by blast
    with assms(2,5) n have "j \<in> set items'" by (cases "j = i") auto
    with j show ?thesis by blast
  qed
  ultimately show ?thesis unfolding covered_def by blast
qed

lemma rest_insert: "set items \<subseteq> insert i (set (filter (\<lambda>have. have \<noteq> i) items))"
  by auto

lemma owns_on_path: "owns i p t \<Longrightarrow> item_ok u units i \<Longrightarrow> mc_paths u p = None"
  by (auto simp: owns_def item_ok_def shape_ok_def on_path_def is_listed_def)

text \<open>Taking an item away keeps every list of items a cover.\<close>

definition keeps :: "machine \<Rightarrow> machine \<Rightarrow> machine \<Rightarrow> bool" where
  "keeps u m m' \<longleftrightarrow> mc_ledger m' = mc_ledger m \<and> (\<forall>items. covered u items m \<longrightarrow> covered u items m')"

lemma keeping_refl: "keeps u m m"
  by (simp add: keeps_def)

lemma keeping_trans: "keeps u m m' \<Longrightarrow> keeps u m' m'' \<Longrightarrow> keeps u m m''"
  by (simp add: keeps_def)

lemma keeps_safe: "keeps u m m' \<Longrightarrow> safe u units items m \<Longrightarrow> safe u units items m'"
  by (auto simp: keeps_def safe_def)

lemma keeps_clear: "mc_paths u p = None \<Longrightarrow> keeps u m (clear_path p (m\<lparr>mc_budget := n\<rparr>))"
  using covered_clear_path[of u _ "m\<lparr>mc_budget := n\<rparr>" p] by (simp add: keeps_def)

lemma remove_link_keeps:
  assumes "item_ok u units i" "on_path i" "keeps u m0 m"
  shows "ensures (remove_link i m) (keeps u m0)
    (\<lambda>_ m'. (\<forall>t. mc_paths m' (it_target i) = Some t \<longrightarrow> \<not> is_link t) \<and> (\<forall>p. p \<noteq> it_target i \<longrightarrow> mc_paths m' p = mc_paths m p))"
proof -
  have "mc_paths u (it_target i) = None" using assms(1,2) by (simp add: item_ok_def)
  with assms(3) keeping_trans keeps_clear show ?thesis
    unfolding remove_link_def
    by (auto split: option.split thing.split simp: is_link_def intro!: ensures_effect)
qed

lemma remove_item_keeps:
  assumes "item_ok u units i" "covered u items m"
  shows "ensures (remove_item ft i m) (keeps u m) (\<lambda>_ m'. covered u (filter (\<lambda>have. have \<noteq> i) items) m')"
proof -
  have cov: "covered u items m'" if "keeps u m m'" for m' using assms(2) that by (simp add: keeps_def)
  consider "ft_remove ft i" | "it_kind i = ''setting''" "\<not> ft_remove ft i" | "it_kind i = ''service''" "\<not> ft_remove ft i"
    | "it_kind i = ''secret''" "\<not> ft_remove ft i" | "it_kind i = ''file''" "\<not> ft_remove ft i"
    | "on_path i" "\<not> is_listed i" "\<not> ft_remove ft i"
    by (auto simp: on_path_def is_listed_def)
  then show ?thesis
  proof cases
    case 1
    then show ?thesis using keeping_refl by (simp add: remove_item_def)
  next
    case 2
    let ?f = "set_setting i (if it_had_prior i then Some (it_prior i) else None)"
    have prior: "mc_settings u (it_domain i, it_key i) = (if it_had_prior i then Some (it_prior i) else None)"
      using assms(1) 2 by (simp add: item_ok_def)
    have k: "keeps u m (?f (m\<lparr>mc_budget := n\<rparr>))" for n
      using prior unfolding keeps_def covered_def by auto
    have "covered u (filter (\<lambda>have. have \<noteq> i) items) (?f (m\<lparr>mc_budget := n\<rparr>))" for n
      using cov[OF k[of n]] prior 2 by (intro covered_without[OF _ rest_insert]) (auto simp: owns_def on_path_def is_listed_def)
    with k 2 keeping_refl show ?thesis by (auto simp: remove_item_def intro!: ensures_effect)
  next
    case 3
    let ?f = "\<lambda>m. m\<lparr>mc_units := (mc_units m)(it_name i := None)\<rparr>"
    have none: "mc_units u (it_name i) = None" using assms(1) 3 by (simp add: item_ok_def shape_ok_def)
    have k: "keeps u m (?f (m\<lparr>mc_budget := n\<rparr>))" for n
      using none unfolding keeps_def covered_def by auto
    have "covered u (filter (\<lambda>have. have \<noteq> i) items) (?f (m\<lparr>mc_budget := n\<rparr>))" for n
      using cov[OF k[of n]] none 3 by (intro covered_without[OF _ rest_insert]) (auto simp: owns_def on_path_def is_listed_def)
    with k 3 keeping_refl show ?thesis by (auto simp: remove_item_def intro!: ensures_effect)
  next
    case 4
    have path: "on_path i" and src: "mc_paths u (it_source i) = None"
      using assms(1) 4 by (auto simp: on_path_def item_ok_def shape_ok_def)
    have "ensures (andthen (remove_link i m) (\<lambda>_. effect (clear_path (it_source i)))) (keeps u m)
        (\<lambda>_ m'. covered u (filter (\<lambda>have. have \<noteq> i) items) m')"
    proof (rule ensures_andthen[OF remove_link_keeps[OF assms(1) path keeping_refl]])
      fix a m1
      assume m1: "keeps u m m1" and gone: "(\<forall>t. mc_paths m1 (it_target i) = Some t \<longrightarrow> \<not> is_link t)
          \<and> (\<forall>p. p \<noteq> it_target i \<longrightarrow> mc_paths m1 p = mc_paths m p)"
      have k: "keeps u m (clear_path (it_source i) (m1\<lparr>mc_budget := n\<rparr>))" for n
        using keeping_trans[OF m1 keeps_clear[OF src]] .
      have "covered u (filter (\<lambda>have. have \<noteq> i) items) (clear_path (it_source i) (m1\<lparr>mc_budget := n\<rparr>))" for n
        using cov[OF k[of n]] gone 4 by (intro covered_without[OF _ rest_insert]) (auto simp: owns_def on_path_def is_listed_def split: if_splits)
      with k m1 show "ensures (effect (clear_path (it_source i)) m1) (keeps u m)
          (\<lambda>_ m'. covered u (filter (\<lambda>have. have \<noteq> i) items) m')" by (auto intro!: ensures_effect)
    qed
    with 4 show ?thesis by (simp add: remove_item_def)
  next
    case 5
    then have path: "on_path i" by (simp add: on_path_def)
    have "ensures (remove_link i m) (keeps u m) (\<lambda>_ m'. covered u (filter (\<lambda>have. have \<noteq> i) items) m')"
    proof (rule ensures_mono[OF remove_link_keeps[OF assms(1) path keeping_refl]])
      fix a m1
      assume "keeps u m m1" "(\<forall>t. mc_paths m1 (it_target i) = Some t \<longrightarrow> \<not> is_link t)
          \<and> (\<forall>p. p \<noteq> it_target i \<longrightarrow> mc_paths m1 p = mc_paths m p)"
      then show "covered u (filter (\<lambda>have. have \<noteq> i) items) m1"
        using cov 5 by (intro covered_without[OF _ rest_insert]) (auto simp: owns_def on_path_def is_listed_def)
    qed
    with 5 show ?thesis by (simp add: remove_item_def)
  next
    case 6
    have none: "mc_paths u (it_target i) = None" using assms(1) 6 by (simp add: item_ok_def)
    have "covered u (filter (\<lambda>have. have \<noteq> i) items) (clear_path (it_target i) (m\<lparr>mc_budget := n\<rparr>))" for n
      using cov[OF keeps_clear[OF none]] 6 by (intro covered_without[OF _ rest_insert]) (auto simp: owns_def on_path_def is_listed_def split: if_splits)
    with keeps_clear[OF none] keeping_refl 6 show ?thesis
      by (auto simp: remove_item_def on_path_def is_listed_def intro!: ensures_effect)
  qed
qed

subsection \<open>The loops\<close>

lemma write_safe:
  assumes "safe u units items m"
  shows "ensures (write_ledger ft items m) (safe_disk u units) (\<lambda>_ m'. safe u units items m' \<and> mc_ledger m' = map (it_dir_update (\<lambda>_. 0)) items
    \<and> mc_paths m' = mc_paths m \<and> mc_settings m' = mc_settings m \<and> mc_units m' = mc_units m)"
  using assms unfolding write_ledger_def
  by (auto simp: safe_def covered_def intro!: ensures_effect)

lemma remove_one_safe:
  assumes "safe u units items m" "item_ok u units i"
  shows "ensures (remove_one ft i items m) (safe_disk u units) (\<lambda>rest m'. rest = filter (\<lambda>have. have \<noteq> i) items \<and> safe u units rest m')"
proof -
  have i: "item_ok u units i" "covered u items m" using assms by (auto simp: safe_def)
  have "ensures (remove_item ft i m) (safe_disk u units) (\<lambda>_ m'. safe u units (filter (\<lambda>have. have \<noteq> i) items) m')"
    using remove_item_keeps[OF i, of ft] keeps_safe[OF _ assms(1)]
    by (fastforce simp: ensures_def safe_def keeps_def)
  then show ?thesis unfolding remove_one_def Let_def
  proof (rule ensures_andthen)
    fix a m1 assume m1: "safe_disk u units m1" "safe u units (filter (\<lambda>have. have \<noteq> i) items) m1"
    show "ensures (andthen (write_ledger ft (filter (\<lambda>have. have \<noteq> i) items) m1) (\<lambda>_ m. (Value (filter (\<lambda>have. have \<noteq> i) items), m)))
      (safe_disk u units) (\<lambda>rest m'. rest = filter (\<lambda>have. have \<noteq> i) items \<and> safe u units rest m')"
      by (rule ensures_andthen[OF write_safe[OF m1(2)]]) simp
  qed
qed

lemma remove_unwanted_safe:
  assumes "safe u units items m" "\<forall>have\<in>set items. wants wanted have \<or> have \<in> set haves" "\<forall>h\<in>set haves. item_ok u units h"
  shows "ensures (remove_unwanted ft wanted haves items m) (safe_disk u units)
    (\<lambda>rest m'. safe u units rest m' \<and> (\<forall>have\<in>set rest. wants wanted have) \<and> set rest \<subseteq> set items)"
  using assms
proof (induction haves arbitrary: items m)
  case Nil
  then show ?case using safe_safe_disk by auto
next
  case (Cons h haves)
  show ?case
  proof (cases "wants wanted h")
    case True
    with Cons show ?thesis by auto
  next
    case False
    have h: "item_ok u units h" using Cons.prems(3) by simp
    have "ensures (andthen (remove_one ft h items m) (remove_unwanted ft wanted haves)) (safe_disk u units)
        (\<lambda>rest m'. safe u units rest m' \<and> (\<forall>have\<in>set rest. wants wanted have) \<and> set rest \<subseteq> set items)"
    proof (rule ensures_andthen[OF remove_one_safe[OF Cons.prems(1) h]])
      fix rest m1
      assume m1: "safe_disk u units m1" "rest = filter (\<lambda>have. have \<noteq> h) items \<and> safe u units rest m1"
      have "ensures (remove_unwanted ft wanted haves rest m1) (safe_disk u units)
          (\<lambda>rest' m'. safe u units rest' m' \<and> (\<forall>have\<in>set rest'. wants wanted have) \<and> set rest' \<subseteq> set rest)"
        using m1 Cons.prems(2,3) by (intro Cons.IH) auto
      then show "ensures (remove_unwanted ft wanted haves rest m1) (safe_disk u units)
          (\<lambda>rest' m'. safe u units rest' m' \<and> (\<forall>have\<in>set rest'. wants wanted have) \<and> set rest' \<subseteq> set items)"
        using m1(2) by (auto elim!: ensures_mono)
    qed
    with False show ?thesis by simp
  qed
qed

lemma drop_lost_safe:
  assumes "safe u units (pre @ is) m"
  shows "ensures (drop_lost is m) (safe_disk u units) (\<lambda>rest m'. safe u units (pre @ rest) m' \<and> set rest \<subseteq> set is)"
  using assms
proof (induction "is" arbitrary: pre m)
  case Nil
  then show ?case using safe_safe_disk by auto
next
  case (Cons i "is")
  have i: "item_ok u units i" using Cons.prems by (simp add: safe_def)
  have sub: "set (pre @ i # is) \<subseteq> insert i (set (pre @ is))" by auto
  show ?case
  proof (cases "lost m i")
    case False
    have "ensures (andthen (drop_lost is m) (\<lambda>rest m. (Value (i # rest), m))) (safe_disk u units)
        (\<lambda>rest m'. safe u units (pre @ rest) m' \<and> set rest \<subseteq> set (i # is))"
      by (rule ensures_andthen[OF Cons.IH[of "pre @ [i]" m]]) (use Cons.prems in auto)
    with False show ?thesis by simp
  next
    case True
    then have gone: "is_listed i" "mc_paths m (it_target i) = None" by (auto simp: lost_def)
    have drop: "safe u units (pre @ is) m'"
      if "safe u units (pre @ i # is) m'" "mc_paths m' (it_target i) = None" "it_kind i = ''secret'' \<longrightarrow> mc_paths m' (it_source i) = None" for m'
    proof -
      have "covered u (pre @ is) m'"
        by (rule covered_without[OF _ sub]) (use that gone in \<open>auto simp: safe_def owns_def is_listed_def\<close>)
      with that(1) show ?thesis by (simp add: safe_def)
    qed
    have mono: "ensures r (safe_disk u units) (\<lambda>rest m'. safe u units (pre @ rest) m' \<and> set rest \<subseteq> set (i # is))"
      if "ensures r (safe_disk u units) (\<lambda>rest m'. safe u units (pre @ rest) m' \<and> set rest \<subseteq> set is)"
      for r :: "(expose_error, item list) outcome \<times> machine"
      using that by (auto elim!: ensures_mono)
    show ?thesis
    proof (cases "it_kind i = ''secret''")
      case False
      with True drop[OF Cons.prems] gone mono[OF Cons.IH] show ?thesis by simp
    next
      case secret: True
      have src: "mc_paths u (it_source i) = None" using i secret by (simp add: item_ok_def shape_ok_def)
      have after: "safe u units (pre @ i # is) (clear_path (it_source i) (m\<lparr>mc_budget := n\<rparr>))" for n
        using keeps_safe[OF keeps_clear[OF src] Cons.prems] .
      have "ensures (effect (clear_path (it_source i)) m) (safe_disk u units) (\<lambda>_ m'. safe u units (pre @ is) m')"
        using safe_safe_disk[OF Cons.prems] safe_safe_disk[OF after] drop[OF after] gone
        by (intro ensures_effect) auto
      then have "ensures (andthen (effect (clear_path (it_source i)) m) (\<lambda>_. drop_lost is)) (safe_disk u units)
          (\<lambda>rest m'. safe u units (pre @ rest) m' \<and> set rest \<subseteq> set is)"
        by (rule ensures_andthen) (rule Cons.IH)
      with True secret mono show ?thesis by simp
    qed
  qed
qed

subsection \<open>Sync\<close>

text \<open>What the caller hands over: settings of one key agree, and every item is one that oku may place.\<close>

definition wanted_ok :: "machine \<Rightarrow> string set \<Rightarrow> item list \<Rightarrow> bool" where
  "wanted_ok u units wanted \<longleftrightarrow> (\<forall>w\<in>set wanted. shape_ok u units w)
     \<and> (\<forall>v\<in>set wanted. \<forall>w\<in>set wanted. it_kind v = ''setting'' \<and> it_kind w = ''setting''
         \<and> it_domain v = it_domain w \<and> it_key v = it_key w \<longrightarrow> bare v = bare w)"

lemma before_place_same [simp]: "bare (before_place w m) = bare w"
  by (simp add: before_place_def bare_def split: option.split)

lemma wants_eq: "wants items i \<longleftrightarrow> (\<exists>have\<in>set items. bare have = bare i)"
  by (auto simp: wants_def list_ex_iff)

lemma wants_bare: "bare i = bare j \<Longrightarrow> wants items i = wants items j"
  by (simp add: wants_def)

lemma wants_refl: "w \<in> set items \<Longrightarrow> wants items w"
  by (auto simp: wants_eq)

lemma check_target:
  assumes "ledger_check items (mc_paths m) wanted = None" "safe u units items m" "w \<in> set wanted" "shape_ok u units w" "on_path w"
  shows "mc_paths u (it_target w) = None"
proof -
  have t: "it_target w \<noteq> []" "hd (it_target w) = CHR ''/''" "it_target w \<notin> units" "it_kind w \<noteq> ''setting''"
    using assms(4,5) by (auto simp: shape_ok_def on_path_def)
  with assms(1,3) have "wants items w \<or> (\<exists>have\<in>set items. it_target have = it_target w) \<or> mc_paths m (it_target w) = None"
    by (auto simp: ledger_check_def find_None_iff list_ex_iff)
  then consider h where "h \<in> set items" "it_target h = it_target w" | "mc_paths m (it_target w) = None"
    unfolding wants_eq by (metis bare_eq(2))
  then show ?thesis
  proof cases
    case 1
    have ok: "item_ok u units h" using assms(2) 1(1) by (simp add: safe_def)
    have "on_path h" using ok t 1(2) by (auto simp: item_ok_def shape_ok_def on_path_def)
    with ok 1(2) show ?thesis by (simp add: item_ok_def)
  next
    case 2
    then show ?thesis using assms(2) unfolding safe_def covered_def by (metis option.distinct(1))
  qed
qed

lemma shape_bare: "bare i = bare j \<Longrightarrow> shape_ok u units i = shape_ok u units j"
  using bare_eq[of i j] by (simp add: shape_ok_def on_path_def)

lemma before_place_ok:
  assumes "safe u units items m" "\<forall>have\<in>set items. wants wanted have" "\<not> wants items w" "w \<in> set wanted"
    "wanted_ok u units wanted" "on_path w \<longrightarrow> mc_paths u (it_target w) = None"
  shows "item_ok u units (before_place w m)"
proof -
  have shape: "shape_ok u units (before_place w m)"
    using assms(4,5) shape_bare[of "before_place w m" w] by (simp add: wanted_ok_def)
  have same: "it_kind (before_place w m) = it_kind w" "it_target (before_place w m) = it_target w"
    "it_domain (before_place w m) = it_domain w" "it_key (before_place w m) = it_key w"
    using bare_eq[of "before_place w m" w] by simp_all
  have prior: "mc_settings m (it_domain w, it_key w) = mc_settings u (it_domain w, it_key w)" if w: "it_kind w = ''setting''"
  proof (rule ccontr)
    assume "mc_settings m (it_domain w, it_key w) \<noteq> mc_settings u (it_domain w, it_key w)"
    then obtain j where j: "j \<in> set items" "it_kind j = ''setting''" "it_domain j = it_domain w" "it_key j = it_key w"
      using assms(1) unfolding safe_def covered_def by blast
    obtain v where v: "v \<in> set wanted" "bare v = bare j" using assms(2) j(1) unfolding wants_eq by blast
    have "it_kind v = ''setting''" "it_domain v = it_domain w" "it_key v = it_key w"
      using bare_eq[OF v(2)] j by simp_all
    with assms(4,5) v(1) w have "bare v = bare w" unfolding wanted_ok_def by blast
    with v j(1) assms(3) show False unfolding wants_eq by metis
  qed
  have "mc_settings u (it_domain w, it_key w) = (if it_had_prior (before_place w m) then Some (it_prior (before_place w m)) else None)"
    if "it_kind w = ''setting''"
    using prior[OF that] that by (auto simp: before_place_def split: option.split)
  with shape same assms(6) show ?thesis by (simp add: item_ok_def on_path_def)
qed

lemma place_one_safe:
  assumes "safe u units items m" "item_ok u units (before_place w m)"
  shows "ensures (place_one ft contents w items m) (safe_disk u units)
    (\<lambda>items' m'. safe u units items' m' \<and> (\<exists>i. bare i = bare w \<and> items' = items @ [i]))"
proof -
  let ?i = "before_place w m" and ?items = "items @ [before_place w m]"
  have new: "safe u units ?items m"
    using assms covered_mono[of u items m ?items] by (auto simp: safe_def)
  have "ensures (andthen (write_ledger ft ?items m) (\<lambda>_ m. andthen (place_item ft contents ?i m) (\<lambda>_ m. (Value ?items, m))))
    (safe_disk u units) (\<lambda>items' m'. safe u units items' m' \<and> (\<exists>i. bare i = bare w \<and> items' = items @ [i]))"
  proof (rule ensures_andthen[OF write_safe[OF new]])
    fix a m1
    assume "safe_disk u units m1" and m1: "safe u units ?items m1 \<and> mc_ledger m1 = map (it_dir_update (\<lambda>_. 0)) ?items
      \<and> mc_paths m1 = mc_paths m \<and> mc_settings m1 = mc_settings m \<and> mc_units m1 = mc_units m"
    then have "\<exists>j\<in>set (mc_ledger m1). bare j = bare ?i"
      by (intro bexI[of _ "it_dir_update (\<lambda>_. 0) ?i"]) (simp_all add: bare_def)
    note placed = place_safe[OF \<open>safe_disk u units m1\<close> this, of ft contents]
    have ledger: "safe u units ?items m'" if "safe_disk u units m'" "mc_ledger m' = map (it_dir_update (\<lambda>_. 0)) ?items" for m'
    proof -
      have "covered u ?items m'" using that covered_no_dir[of u "\<lambda>_. 0" ?items m'] by (simp only: safe_def)
      with that new show ?thesis by (simp add: safe_def)
    qed
    have "ensures (place_item ft contents ?i m1) (safe_disk u units) (\<lambda>_ m'. safe u units ?items m')"
    proof -
      let ?m' = "snd (place_item ft contents ?i m1)"
      have p: "safe_disk u units ?m'" "mc_ledger ?m' = mc_ledger m1" using placed unfolding ensures_def by blast+
      have "safe u units ?items ?m'" using ledger[OF p(1) trans[OF p(2) conjunct1[OF conjunct2[OF m1]]]] .
      with p(1) show ?thesis unfolding ensures_def by blast
    qed
    then show "ensures (andthen (place_item ft contents ?i m1) (\<lambda>_ m. (Value ?items, m))) (safe_disk u units)
      (\<lambda>items' m'. safe u units items' m' \<and> (\<exists>i. bare i = bare w \<and> items' = items @ [i]))"
      by (rule ensures_andthen) auto
  qed
  with safe_safe_disk[OF assms(1)] show ?thesis by (simp add: place_one_def Let_def)
qed

lemma place_wanted_safe:
  assumes "safe u units items m" "\<forall>have\<in>set items. wants wanted have" "set ws \<subseteq> set wanted" "wanted_ok u units wanted"
    "\<forall>w\<in>set wanted. on_path w \<longrightarrow> mc_paths u (it_target w) = None"
  shows "ensures (place_wanted ft contents ws items m) (safe_disk u units)
    (\<lambda>items' m'. safe u units items' m' \<and> (\<forall>have\<in>set items'. wants wanted have) \<and> set items \<subseteq> set items' \<and> (\<forall>w\<in>set ws. wants items' w))"
  using assms
proof (induction ws arbitrary: items m)
  case Nil
  then show ?case using safe_safe_disk by auto
next
  case (Cons w ws)
  let ?Q = "\<lambda>items items' m'. safe u units items' m' \<and> (\<forall>have\<in>set items'. wants wanted have) \<and> set items \<subseteq> set items' \<and> (\<forall>w\<in>set ws. wants items' w)"
  let ?R = "\<lambda>items' m'. safe u units items' m' \<and> (\<forall>have\<in>set items'. wants wanted have) \<and> set items \<subseteq> set items' \<and> (\<forall>v\<in>set (w # ws). wants items' v)"
  show ?case
  proof (cases "wants items w")
    case True
    have "ensures (place_wanted ft contents ws items m) (safe_disk u units) (?Q items)"
      using Cons.prems by (intro Cons.IH) auto
    then have "ensures (place_wanted ft contents ws items m) (safe_disk u units) ?R"
      using True by (auto elim!: ensures_mono simp: wants_eq)
    with True show ?thesis by simp
  next
    case False
    have ok: "item_ok u units (before_place w m)"
      using before_place_ok[OF Cons.prems(1,2) False _ Cons.prems(4)] Cons.prems(3,5) by simp
    have "ensures (andthen (place_one ft contents w items m) (place_wanted ft contents ws)) (safe_disk u units) ?R"
    proof (rule ensures_andthen[OF place_one_safe[OF Cons.prems(1) ok]])
      fix items1 m1
      assume m1: "safe u units items1 m1 \<and> (\<exists>i. bare i = bare w \<and> items1 = items @ [i])"
      have w: "w \<in> set wanted" using Cons.prems(3) by simp
      have "ensures (place_wanted ft contents ws items1 m1) (safe_disk u units) (?Q items1)"
      proof (rule Cons.IH)
        show "\<forall>have\<in>set items1. wants wanted have"
          using m1 Cons.prems(2) wants_refl[OF w] wants_bare by (metis UnE list.set(1) list.set(2) set_append singletonD)
      qed (use m1 Cons.prems(3-5) in auto)
      then show "ensures (place_wanted ft contents ws items1 m1) (safe_disk u units) ?R"
        using m1 by (auto elim!: ensures_mono simp: wants_eq)
    qed
    with False show ?thesis by simp
  qed
qed

lemma sync_safe:
  assumes "safe_disk u units m" "wanted_ok u units wanted"
  shows "ensures (sync ft contents wanted m) (safe_disk u units)
    (\<lambda>items m'. safe u units items m' \<and> (\<forall>have\<in>set items. wants wanted have) \<and> (\<forall>w\<in>set wanted. wants items w))"
  unfolding sync_def
proof (rule ensures_andthen[OF drop_lost_safe[where pre = "[]", simplified, OF assms(1)]])
  fix items m1
  assume "safe_disk u units m1" and m1: "safe u units items m1 \<and> set items \<subseteq> set (mc_ledger m)"
  show "ensures (case ledger_check items (mc_paths m1) wanted of
        Some target \<Rightarrow> (Failed (Occupied target), m1)
      | None \<Rightarrow> andthen (remove_unwanted ft wanted items items m1) (place_wanted ft contents wanted)) (safe_disk u units)
    (\<lambda>items m'. safe u units items m' \<and> (\<forall>have\<in>set items. wants wanted have) \<and> (\<forall>w\<in>set wanted. wants items w))"
  proof (cases "ledger_check items (mc_paths m1) wanted")
    case None
    have free: "\<forall>w\<in>set wanted. on_path w \<longrightarrow> mc_paths u (it_target w) = None"
      using check_target[OF None] m1 assms(2) by (auto simp: wanted_ok_def)
    have "ensures (andthen (remove_unwanted ft wanted items items m1) (place_wanted ft contents wanted)) (safe_disk u units)
      (\<lambda>items m'. safe u units items m' \<and> (\<forall>have\<in>set items. wants wanted have) \<and> (\<forall>w\<in>set wanted. wants items w))"
    proof (rule ensures_andthen[OF remove_unwanted_safe])
      fix rest m2
      assume m2: "safe u units rest m2 \<and> (\<forall>have\<in>set rest. wants wanted have) \<and> set rest \<subseteq> set items"
      show "ensures (place_wanted ft contents wanted rest m2) (safe_disk u units)
        (\<lambda>items m'. safe u units items m' \<and> (\<forall>have\<in>set items. wants wanted have) \<and> (\<forall>w\<in>set wanted. wants items w))"
        using m2 free assms(2) by (intro ensures_mono[OF place_wanted_safe]) auto
    qed (use m1 in \<open>auto simp: safe_def\<close>)
    with None show ?thesis by simp
  qed (use \<open>safe_disk u units m1\<close> in simp)
qed

end
