(* ===== verification/Expose_Props.thy ===== *)
theory Expose_Props
  imports Expose_Laws
begin

text \<open>
  What the syncs of a machine add up to: nothing of oku's is left once everything in the ledger is removed, whatever
  crashed or failed before, and a sync that succeeds on an intact machine has placed every item.
\<close>

subsection \<open>Histories\<close>

text \<open>The syncs that ran, each with what failed in it and where it ended, and what the user deleted of oku's.\<close>

datatype expose_event =
    Synced faults "string \<rightharpoonup> string" "item list" nat
  | UserDeleted string

definition run_event :: "expose_event \<Rightarrow> machine \<Rightarrow> machine" where
  "run_event e m = (case e of
      Synced ft contents wanted n \<Rightarrow> snd (sync ft contents wanted (m\<lparr>mc_budget := n\<rparr>))
    | UserDeleted p \<Rightarrow> clear_path p m)"

definition run_events :: "expose_event list \<Rightarrow> machine \<Rightarrow> machine" where
  "run_events es m = fold run_event es m"

definition event_ok :: "machine \<Rightarrow> string set \<Rightarrow> expose_event \<Rightarrow> bool" where
  "event_ok u units e \<longleftrightarrow> (case e of
      Synced ft contents wanted n \<Rightarrow> wanted_ok u units wanted
    | UserDeleted p \<Rightarrow> mc_paths u p = None)"

lemma safe_budget [simp]: "safe u units items (m\<lparr>mc_budget := n\<rparr>) = safe u units items m"
  by (simp add: safe_def)

lemma run_event_safe:
  assumes "safe_disk u units m" "event_ok u units e"
  shows "safe_disk u units (run_event e m)"
proof (cases e)
  case (Synced ft contents wanted n)
  have "safe_disk u units (m\<lparr>mc_budget := n\<rparr>)" using assms(1) by simp
  from sync_safe[OF this, of wanted ft contents] assms(2) show ?thesis
    by (simp add: Synced run_event_def event_ok_def ensures_def)
next
  case (UserDeleted p)
  then show ?thesis using assms covered_clear_path[of u _ m p] by (simp add: run_event_def event_ok_def safe_def)
qed

lemma run_events_safe:
  assumes "safe_disk u units m" "\<forall>e\<in>set es. event_ok u units e"
  shows "safe_disk u units (run_events es m)"
  using assms by (induction es arbitrary: m) (simp_all add: run_events_def run_event_safe)

lemma safe_start: "mc_ledger u = [] \<Longrightarrow> safe_disk u units u"
  by (simp add: safe_def covered_def)

lemma covered_nothing: "covered u [] m \<Longrightarrow> mc_paths m = mc_paths u \<and> mc_settings m = mc_settings u \<and> mc_units m = mc_units u"
  by (auto simp: covered_def fun_eq_iff)

lemma covered_keeps_users:
  assumes "covered u items m" "\<forall>i\<in>set items. item_ok u units i" "mc_paths u p = Some t"
  shows "mc_paths m p = Some t"
proof (rule ccontr)
  assume "mc_paths m p \<noteq> Some t"
  then obtain t' i where "i \<in> set items" "owns i p t'" using assms(1,3) unfolding covered_def by metis
  with assms(2,3) owns_on_path[of i p t'] show False by auto
qed

text \<open>
  C7. After any history of syncs, with any of them failing at any operation or ending at any effect, and with any of
  oku's files deleted by hand, a removal of everything in the ledger that succeeds leaves the files, settings and
  services of the machine exactly as they were before oku. At every point of the history, and so at every point where a
  sync can end, each file of the user is as it was, and every difference belongs to an item in the ledger on disk.
\<close>
theorem uninstall_leaves_no_trace:
  assumes "mc_ledger u = []" "\<forall>e\<in>set es. event_ok u units e" "fst (remove_all ft ((run_events es u)\<lparr>mc_budget := n\<rparr>)) = Value items"
    and "m' = snd (remove_all ft ((run_events es u)\<lparr>mc_budget := n\<rparr>))"
  shows "items = [] \<and> mc_paths m' = mc_paths u \<and> mc_settings m' = mc_settings u \<and> mc_units m' = mc_units u
    \<and> covered u (mc_ledger (run_events es u)) (run_events es u)
    \<and> (\<forall>p t. mc_paths u p = Some t \<longrightarrow> mc_paths (run_events es u) p = Some t)"
proof -
  let ?m = "(run_events es u)\<lparr>mc_budget := n\<rparr>"
  have safe: "safe_disk u units (run_events es u)" using run_events_safe[OF safe_start[OF assms(1)] assms(2)] .
  then have "safe_disk u units ?m" by simp
  from sync_safe[OF this, of "[]" ft Map.empty] assms(3,4)
  have "safe u units items m'" "\<forall>i\<in>set items. wants [] i"
    by (auto simp: remove_all_def ensures_def wanted_ok_def)
  then have "items = []" "covered u [] m'" by (cases items; auto simp: safe_def wants_eq)+
  moreover have "mc_paths (run_events es u) p = Some t" if "mc_paths u p = Some t" for p t
    using safe covered_keeps_users[OF _ _ that] unfolding safe_def by blast
  ultimately show ?thesis using covered_nothing[of u m'] safe by (simp add: safe_def)
qed

subsection \<open>In place\<close>

definition in_place :: "item \<Rightarrow> machine \<Rightarrow> bool" where
  "in_place i m \<longleftrightarrow>
     (if it_kind i = ''setting'' then mc_settings m (it_domain i, it_key i) = Some (it_source i)
      else if it_kind i = ''service'' then map_option bare (mc_units m (it_name i)) = Some (bare i)
      else if it_kind i = ''secret''
      then mc_paths m (it_target i) = Some (Symlink (it_source i))
        \<and> (case mc_paths m (it_source i) of Some (Plain _) \<Rightarrow> True | _ \<Rightarrow> False)
      else if it_kind i = ''file'' then mc_paths m (it_target i) = Some (Symlink (it_source i))
      else mc_paths m (it_target i) =
        Some (if has_prefix (it_source i) ''[Desktop Entry]'' then Plain (it_source i) else Copied (it_source i)))"

text \<open>What an item touches, and two items that touch nothing in common.\<close>

definition touched :: "item \<Rightarrow> string list" where
  "touched i = (if \<not> on_path i then [] else if it_kind i = ''secret'' then [it_target i, it_source i] else [it_target i])"

definition apart :: "item \<Rightarrow> item \<Rightarrow> bool" where
  "apart i j \<longleftrightarrow> list_all (\<lambda>p. p \<notin> set (touched j)) (touched i)
     \<and> \<not> (it_kind i = ''setting'' \<and> it_kind j = ''setting'' \<and> it_domain i = it_domain j \<and> it_key i = it_key j)
     \<and> \<not> (it_kind i = ''service'' \<and> it_kind j = ''service'' \<and> it_name i = it_name j)"

definition all_apart :: "item list \<Rightarrow> bool" where
  "all_apart items \<longleftrightarrow> (\<forall>i\<in>set items. (it_kind i = ''secret'' \<longrightarrow> it_source i \<noteq> it_target i)
     \<and> (\<forall>j\<in>set items. bare i = bare j \<or> apart i j))"

text \<open>A step changes only what its item touches.\<close>

definition framed :: "item \<Rightarrow> machine \<Rightarrow> machine \<Rightarrow> bool" where
  "framed i m m' \<longleftrightarrow> mc_ledger m' = mc_ledger m \<and> (\<forall>p. p \<notin> set (touched i) \<longrightarrow> mc_paths m' p = mc_paths m p)
     \<and> (\<forall>k. \<not> (it_kind i = ''setting'' \<and> (it_domain i, it_key i) = k) \<longrightarrow> mc_settings m' k = mc_settings m k)
     \<and> (\<forall>n. \<not> (it_kind i = ''service'' \<and> it_name i = n) \<longrightarrow> mc_units m' n = mc_units m n)"

lemma framed_refl: "framed i m m"
  by (simp add: framed_def)

lemma framed_budget [simp]: "framed i m (m'\<lparr>mc_budget := n\<rparr>) = framed i m m'"
  by (simp add: framed_def)

lemma framed_set_path: "framed i m m' \<Longrightarrow> p \<in> set (touched i) \<Longrightarrow> framed i m (set_path p t m')"
  by (auto simp: framed_def)

lemma framed_clear_path: "framed i m m' \<Longrightarrow> p \<in> set (touched i) \<Longrightarrow> framed i m (clear_path p m')"
  by (auto simp: framed_def)

lemma in_place_framed:
  assumes "in_place j m" "framed i m m'" "apart i j"
  shows "in_place j m'"
  using assms by (auto simp: in_place_def framed_def apart_def touched_def on_path_def split: if_splits)

lemma in_place_bare: "bare i = bare j \<Longrightarrow> in_place i m = in_place j m"
  using bare_eq[of i j] by (simp add: in_place_def)

lemma place_link_framed:
  assumes "framed i m0 m" "it_target i \<in> set (touched i)"
  shows "ensures (place_link i m) (framed i m0)
    (\<lambda>_ m'. mc_paths m' (it_target i) = Some (Symlink (it_source i)) \<and> (\<forall>p. p \<noteq> it_target i \<longrightarrow> mc_paths m' p = mc_paths m p))"
  using assms framed_set_path by (auto simp: place_link_def intro!: ensures_effect)

lemma place_item_framed:
  assumes "it_kind i = ''secret'' \<longrightarrow> it_source i \<noteq> it_target i"
  shows "ensures (place_item ft contents i m) (framed i m) (\<lambda>_. in_place i)"
proof -
  consider "ft_place ft i" | "it_kind i = ''setting''" "\<not> ft_place ft i" | "it_kind i = ''service''" "\<not> ft_place ft i"
    | "it_kind i = ''secret''" "\<not> ft_place ft i" | "it_kind i = ''file''" "\<not> ft_place ft i"
    | "on_path i" "\<not> is_listed i" "\<not> ft_place ft i"
    by (auto simp: on_path_def is_listed_def)
  then show ?thesis
  proof cases
    case 1
    then show ?thesis by (simp add: place_item_def framed_refl)
  next
    case 2
    then show ?thesis
      by (auto simp: place_item_def framed_def in_place_def intro!: ensures_effect)
  next
    case 3
    then show ?thesis
      by (auto simp: place_item_def framed_def in_place_def intro!: ensures_effect)
  next
    case 4
    have t: "it_target i \<in> set (touched i)" "it_source i \<in> set (touched i)" using 4 by (simp_all add: touched_def on_path_def)
    have "ensures (andthen (effect (set_path (it_source i) (Plain data)) m) (\<lambda>_. place_link i)) (framed i m) (\<lambda>_. in_place i)" for data
    proof (rule ensures_andthen[where Q = "\<lambda>_ m'. mc_paths m' (it_source i) = Some (Plain data)"])
      show "ensures (effect (set_path (it_source i) (Plain data)) m) (framed i m) (\<lambda>_ m'. mc_paths m' (it_source i) = Some (Plain data))"
        using t framed_refl framed_set_path by (auto intro!: ensures_effect)
      show "ensures (place_link i m') (framed i m) (\<lambda>_. in_place i)"
        if "framed i m m'" "mc_paths m' (it_source i) = Some (Plain data)" for m' a
        using assms 4 that by (intro ensures_mono[OF place_link_framed[OF that(1) t(1)]]) (auto simp: in_place_def)
    qed
    with 4 show ?thesis by (auto simp: place_item_def place_secret_def framed_refl split: option.split)
  next
    case 5
    have "it_target i \<in> set (touched i)" using 5 by (simp add: touched_def on_path_def)
    with 5 show ?thesis
      by (auto simp: place_item_def in_place_def intro!: ensures_mono[OF place_link_framed[OF framed_refl]])
  next
    case 6
    have t: "it_target i \<in> set (touched i)" using 6 by (simp add: touched_def)
    have "ensures (place_copy i m) (framed i m) (\<lambda>_. in_place i)"
      unfolding place_copy_def using 6 framed_refl framed_set_path t
      by (auto intro!: ensures_andthen[where Q = "\<lambda>_ _. True"] ensures_effect simp: in_place_def on_path_def is_listed_def)
    with 6 show ?thesis by (simp add: place_item_def on_path_def is_listed_def)
  qed
qed

lemma remove_item_framed: "ensures (remove_item ft i m) (framed i m) (\<lambda>_ _. True)"
proof -
  have link: "ensures (remove_link i m) (framed i m) (\<lambda>_ _. True)" if "it_target i \<in> set (touched i)"
    using that framed_refl framed_clear_path
    by (auto simp: remove_link_def split: option.split thing.split intro!: ensures_effect)
  consider "ft_remove ft i" | "it_kind i = ''setting''" "\<not> ft_remove ft i" | "it_kind i = ''service''" "\<not> ft_remove ft i"
    | "it_kind i = ''secret''" "\<not> ft_remove ft i" | "it_kind i = ''file''" "\<not> ft_remove ft i"
    | "on_path i" "\<not> is_listed i" "\<not> ft_remove ft i"
    by (auto simp: on_path_def is_listed_def)
  then show ?thesis
  proof cases
    case 1
    then show ?thesis by (simp add: remove_item_def framed_refl)
  next
    case 2
    then show ?thesis by (auto simp: remove_item_def framed_def intro!: ensures_effect)
  next
    case 3
    then show ?thesis by (auto simp: remove_item_def framed_def intro!: ensures_effect)
  next
    case 4
    then have "it_target i \<in> set (touched i)" "it_source i \<in> set (touched i)" by (simp_all add: touched_def on_path_def)
    with 4 link framed_clear_path show ?thesis
      by (auto simp: remove_item_def intro!: ensures_andthen[where Q = "\<lambda>_ _. True"] ensures_effect)
  next
    case 5
    then show ?thesis using link by (simp add: remove_item_def touched_def on_path_def)
  next
    case 6
    then have "it_target i \<in> set (touched i)" by (simp add: touched_def)
    with 6 framed_refl framed_clear_path show ?thesis
      by (auto simp: remove_item_def on_path_def is_listed_def intro!: ensures_effect)
  qed
qed

text \<open>The items that stay are in place.\<close>

definition kept_in_place :: "item list \<Rightarrow> item list \<Rightarrow> machine \<Rightarrow> bool" where
  "kept_in_place wanted items m \<longleftrightarrow> (\<forall>i\<in>set items. wants wanted i \<longrightarrow> in_place i m)"

lemma in_place_machine: "mc_paths m' = mc_paths m \<Longrightarrow> mc_settings m' = mc_settings m \<Longrightarrow> mc_units m' = mc_units m \<Longrightarrow> in_place i m' = in_place i m"
  by (simp add: in_place_def)

lemma write_same:
  "ensures (write_ledger ft items m) (\<lambda>m'. mc_paths m' = mc_paths m \<and> mc_settings m' = mc_settings m \<and> mc_units m' = mc_units m)
    (\<lambda>_ m'. mc_ledger m' = map (it_dir_update (\<lambda>_. 0)) items)"
  unfolding write_ledger_def by (auto intro!: ensures_effect)

definition tracked :: "item list \<Rightarrow> machine \<Rightarrow> bool" where
  "tracked items m \<longleftrightarrow> mc_ledger m = items \<or> mc_ledger m = map (it_dir_update (\<lambda>_. 0)) items"

lemma apart_bare: "bare i = bare i' \<Longrightarrow> bare j = bare j' \<Longrightarrow> apart i j = apart i' j'"
  using bare_eq[of i i'] bare_eq[of j j'] by (simp add: apart_def touched_def on_path_def)

lemma remove_one_in_place:
  assumes "kept_in_place wanted items m" "\<not> wants wanted h" "\<forall>k\<in>set items. bare h = bare k \<or> apart h k"
  shows "ensures (remove_one ft h items m) (\<lambda>_. True)
    (\<lambda>rest m'. rest = filter (\<lambda>have. have \<noteq> h) items \<and> kept_in_place wanted rest m' \<and> tracked rest m')"
  unfolding remove_one_def Let_def
proof (rule ensures_andthen[where Q = "\<lambda>_. framed h m"])
  show "ensures (remove_item ft h m) (\<lambda>_. True) (\<lambda>_. framed h m)"
    using remove_item_framed[of ft h m] by (simp add: ensures_def)
next
  fix a m1 assume m1: "framed h m m1"
  let ?rest = "filter (\<lambda>have. have \<noteq> h) items"
  have kept: "in_place k m1" if "k \<in> set items" "wants wanted k" for k
  proof -
    have "apart h k" using assms(2,3) that wants_bare by blast
    then show ?thesis using in_place_framed[OF _ m1] assms(1) that by (simp add: kept_in_place_def)
  qed
  show "ensures (andthen (write_ledger ft ?rest m1) (\<lambda>_ m. (Value ?rest, m))) (\<lambda>_. True)
    (\<lambda>rest m'. rest = ?rest \<and> kept_in_place wanted rest m' \<and> tracked rest m')"
  proof (rule ensures_andthen[where Q = "\<lambda>_ m'. mc_ledger m' = map (it_dir_update (\<lambda>_. 0)) ?rest \<and> (\<forall>i. in_place i m' = in_place i m1)"])
    show "ensures (write_ledger ft ?rest m1) (\<lambda>_. True)
      (\<lambda>_ m'. mc_ledger m' = map (it_dir_update (\<lambda>_. 0)) ?rest \<and> (\<forall>i. in_place i m' = in_place i m1))"
      using write_same[of ft ?rest m1] in_place_machine[of _ m1] unfolding ensures_def by blast
  qed (use kept in \<open>auto simp: kept_in_place_def tracked_def\<close>)
qed

lemma remove_unwanted_in_place:
  assumes "kept_in_place wanted items m" "tracked items m" "set haves \<subseteq> set ledger" "set items \<subseteq> set ledger" "all_apart ledger"
    "\<forall>i\<in>set items. wants wanted i \<or> i \<in> set haves"
  shows "ensures (remove_unwanted ft wanted haves items m) (\<lambda>_. True)
    (\<lambda>rest m'. kept_in_place wanted rest m' \<and> tracked rest m' \<and> (\<forall>i\<in>set rest. wants wanted i))"
  using assms
proof (induction haves arbitrary: items m)
  case (Cons h haves)
  show ?case
  proof (cases "wants wanted h")
    case True
    then show ?thesis using Cons by auto
  next
    case False
    have "\<forall>k\<in>set items. bare h = bare k \<or> apart h k" using Cons.prems(3-5) by (auto simp: all_apart_def)
    from remove_one_in_place[OF Cons.prems(1) False this, of ft]
    have "ensures (andthen (remove_one ft h items m) (remove_unwanted ft wanted haves)) (\<lambda>_. True)
      (\<lambda>rest m'. kept_in_place wanted rest m' \<and> tracked rest m' \<and> (\<forall>i\<in>set rest. wants wanted i))"
    proof (rule ensures_andthen)
      fix rest m1
      assume "rest = filter (\<lambda>have. have \<noteq> h) items \<and> kept_in_place wanted rest m1 \<and> tracked rest m1"
      then show "ensures (remove_unwanted ft wanted haves rest m1) (\<lambda>_. True)
        (\<lambda>rest m'. kept_in_place wanted rest m' \<and> tracked rest m' \<and> (\<forall>i\<in>set rest. wants wanted i))"
        using Cons.prems(3-6) by (intro Cons.IH) auto
    qed
    with False show ?thesis by simp
  qed
qed auto

lemma place_one_in_place:
  assumes "kept_in_place wanted items m" "\<forall>k\<in>set items. wants wanted k" "w \<in> set wanted" "\<not> wants items w" "all_apart wanted"
  shows "ensures (place_one ft contents w items m) (\<lambda>_. True)
    (\<lambda>items' m'. (\<exists>i. bare i = bare w \<and> items' = items @ [i]) \<and> kept_in_place wanted items' m' \<and> tracked items' m')"
proof -
  let ?i = "before_place w m" and ?items = "items @ [before_place w m]"
  have i: "it_kind ?i = ''secret'' \<longrightarrow> it_source ?i \<noteq> it_target ?i"
    using assms(3,5) bare_eq[OF before_place_same[of w m]] by (simp add: all_apart_def)
  have others: "apart ?i k" if k: "k \<in> set items" for k
  proof -
    obtain v where v: "v \<in> set wanted" "bare v = bare k" using assms(2) k unfolding wants_eq by blast
    have "bare w \<noteq> bare v" using assms(4) k v(2) unfolding wants_eq by metis
    with assms(3,5) v(1) have "apart w v" by (auto simp: all_apart_def)
    then show ?thesis using apart_bare[OF before_place_same[of w m] v(2)[symmetric]] by simp
  qed
  have "ensures (andthen (write_ledger ft ?items m) (\<lambda>_ m. andthen (place_item ft contents ?i m) (\<lambda>_ m. (Value ?items, m)))) (\<lambda>_. True)
    (\<lambda>items' m'. (\<exists>i. bare i = bare w \<and> items' = items @ [i]) \<and> kept_in_place wanted items' m' \<and> tracked items' m')"
  proof (rule ensures_andthen[where Q = "\<lambda>_ m'. mc_ledger m' = map (it_dir_update (\<lambda>_. 0)) ?items \<and> (\<forall>i. in_place i m' = in_place i m)"])
    show "ensures (write_ledger ft ?items m) (\<lambda>_. True)
      (\<lambda>_ m'. mc_ledger m' = map (it_dir_update (\<lambda>_. 0)) ?items \<and> (\<forall>i. in_place i m' = in_place i m))"
      using write_same[of ft ?items m] in_place_machine[of _ m] unfolding ensures_def by blast
  next
    fix a m1
    assume m1: "mc_ledger m1 = map (it_dir_update (\<lambda>_. 0)) ?items \<and> (\<forall>i. in_place i m1 = in_place i m)"
    have "ensures (place_item ft contents ?i m1) (\<lambda>_. True) (\<lambda>_ m'. framed ?i m1 m' \<and> in_place ?i m')"
      using place_item_framed[OF i, of ft contents m1] by (simp add: ensures_def)
    then show "ensures (andthen (place_item ft contents ?i m1) (\<lambda>_ m. (Value ?items, m))) (\<lambda>_. True)
      (\<lambda>items' m'. (\<exists>i. bare i = bare w \<and> items' = items @ [i]) \<and> kept_in_place wanted items' m' \<and> tracked items' m')"
    proof (rule ensures_andthen)
      fix b m2 assume m2: "framed ?i m1 m2 \<and> in_place ?i m2"
      have "in_place k m2" if "k \<in> set items" for k
        using in_place_framed[OF _ conjunct1[OF m2] others[OF that]] m1 assms(1,2) that by (simp add: kept_in_place_def)
      moreover have "mc_ledger m2 = map (it_dir_update (\<lambda>_. 0)) ?items" using m1 m2 unfolding framed_def by metis
      ultimately show "ensures (Value ?items, m2) (\<lambda>_. True)
        (\<lambda>items' m'. (\<exists>i. bare i = bare w \<and> items' = items @ [i]) \<and> kept_in_place wanted items' m' \<and> tracked items' m')"
        using m2 by (auto simp: kept_in_place_def tracked_def)
    qed
  qed
  then show ?thesis by (simp add: place_one_def Let_def)
qed

lemma place_wanted_in_place:
  assumes "kept_in_place wanted items m" "tracked items m" "\<forall>k\<in>set items. wants wanted k" "set ws \<subseteq> set wanted" "all_apart wanted"
  shows "ensures (place_wanted ft contents ws items m) (\<lambda>_. True)
    (\<lambda>items' m'. kept_in_place wanted items' m' \<and> tracked items' m' \<and> (\<forall>k\<in>set items'. wants wanted k) \<and> set items \<subseteq> set items' \<and> (\<forall>w\<in>set ws. wants items' w))"
  using assms
proof (induction ws arbitrary: items m)
  case (Cons w ws)
  let ?R = "\<lambda>ws items items' m'. kept_in_place wanted items' m' \<and> tracked items' m' \<and> (\<forall>k\<in>set items'. wants wanted k) \<and> set items \<subseteq> set items' \<and> (\<forall>w\<in>set ws. wants items' w)"
  have w: "w \<in> set wanted" using Cons.prems(4) by simp
  show ?case
  proof (cases "wants items w")
    case True
    have "ensures (place_wanted ft contents ws items m) (\<lambda>_. True) (?R ws items)"
      using Cons.prems by (intro Cons.IH) auto
    then have "ensures (place_wanted ft contents ws items m) (\<lambda>_. True) (?R (w # ws) items)"
      using True by (auto elim!: ensures_mono simp: wants_eq)
    with True show ?thesis by simp
  next
    case False
    have "ensures (andthen (place_one ft contents w items m) (place_wanted ft contents ws)) (\<lambda>_. True) (?R (w # ws) items)"
    proof (rule ensures_andthen[OF place_one_in_place[OF Cons.prems(1,3) w False Cons.prems(5)]])
      fix items1 m1
      assume m1: "(\<exists>i. bare i = bare w \<and> items1 = items @ [i]) \<and> kept_in_place wanted items1 m1 \<and> tracked items1 m1"
      have "ensures (place_wanted ft contents ws items1 m1) (\<lambda>_. True) (?R ws items1)"
      proof (rule Cons.IH)
        show "\<forall>k\<in>set items1. wants wanted k"
          using m1 Cons.prems(3) wants_refl[OF w] wants_bare by (metis UnE list.set(1) list.set(2) set_append singletonD)
      qed (use m1 Cons.prems(4,5) in auto)
      then show "ensures (place_wanted ft contents ws items1 m1) (\<lambda>_. True) (?R (w # ws) items)"
        using m1 by (auto elim!: ensures_mono simp: wants_eq)
    qed
    with False show ?thesis by simp
  qed
qed auto

subsection \<open>A sync that succeeds\<close>

definition intact :: "machine \<Rightarrow> bool" where
  "intact m \<longleftrightarrow> all_apart (mc_ledger m) \<and> (\<forall>i\<in>set (mc_ledger m). in_place i m)"

lemma in_place_not_lost: "in_place i m \<Longrightarrow> \<not> lost m i"
  by (auto simp: lost_def is_listed_def in_place_def)

lemma drop_nothing: "\<forall>i\<in>set items. \<not> lost m i \<Longrightarrow> drop_lost items m = (Value items, m)"
  by (induction items) auto

lemma all_apart_wanted:
  assumes "all_apart wanted" "\<forall>k\<in>set items. wants wanted k"
  shows "all_apart items"
proof -
  have pick: "\<exists>v\<in>set wanted. bare v = bare k" if "k \<in> set items" for k using assms(2) that by (simp add: wants_eq)
  have "it_source k \<noteq> it_target k" if k: "k \<in> set items" "it_kind k = ''secret''" for k
  proof -
    obtain v where "v \<in> set wanted" "bare v = bare k" using pick[OF k(1)] by blast
    with assms(1) k(2) show ?thesis using bare_eq[of v k] by (auto simp: all_apart_def)
  qed
  moreover have "bare i = bare j \<or> apart i j" if ij: "i \<in> set items" "j \<in> set items" for i j
  proof -
    obtain v w where "v \<in> set wanted" "bare v = bare i" "w \<in> set wanted" "bare w = bare j" using pick[OF ij(1)] pick[OF ij(2)] by blast
    with assms(1) show ?thesis using apart_bare[of v i w j] unfolding all_apart_def by metis
  qed
  ultimately show ?thesis by (simp add: all_apart_def)
qed

lemma tracked_intact:
  assumes "tracked items m" "all_apart items" "\<forall>i\<in>set items. in_place i m"
  shows "intact m"
proof -
  have same: "bare (it_dir_update (\<lambda>_. 0) i) = bare i" for i by (simp add: bare_def)
  have "\<forall>k\<in>set (map (it_dir_update (\<lambda>_. 0)) items). wants items k"
    using same by (auto simp: wants_eq intro!: bexI)
  then have "all_apart (mc_ledger m)"
    using assms(1) all_apart_wanted[OF assms(2)] assms(2) by (auto simp: tracked_def)
  moreover have "\<forall>i\<in>set (mc_ledger m). in_place i m"
    using assms(1,3) in_place_bare[OF same] by (auto simp: tracked_def)
  ultimately show ?thesis by (simp add: intact_def)
qed

text \<open>
  C19. A sync that succeeds, on a machine whose ledger tells the truth, leaves a ledger of exactly the wanted items,
  every one of them in place, and a ledger on disk that tells the truth again; so from an empty ledger any number of
  syncs that succeed keep every wanted item in place.
\<close>
theorem sync_places_everything:
  assumes "intact m" "all_apart wanted" "sync ft contents wanted m = (Value items, m')"
  shows "(\<forall>w\<in>set wanted. wants items w \<and> in_place w m') \<and> (\<forall>i\<in>set items. wants wanted i \<and> in_place i m') \<and> intact m'"
proof -
  let ?R = "\<lambda>items' m'. kept_in_place wanted items' m' \<and> tracked items' m' \<and> (\<forall>k\<in>set items'. wants wanted k) \<and> (\<forall>w\<in>set wanted. wants items' w)"
  have start: "kept_in_place wanted (mc_ledger m) m" "tracked (mc_ledger m) m" "all_apart (mc_ledger m)"
    using assms(1) by (auto simp: intact_def kept_in_place_def tracked_def)
  have "ensures (andthen (remove_unwanted ft wanted (mc_ledger m) (mc_ledger m) m) (place_wanted ft contents wanted)) (\<lambda>_. True) ?R"
    by (rule ensures_andthen[OF remove_unwanted_in_place[OF start(1,2) subset_refl subset_refl start(3)]])
      (auto intro!: ensures_mono[OF place_wanted_in_place[where wanted = wanted]] assms(2))
  moreover have "drop_lost (mc_ledger m) m = (Value (mc_ledger m), m)"
    using assms(1) in_place_not_lost by (intro drop_nothing) (auto simp: intact_def)
  ultimately have r: "?R items m'"
    using assms(3) by (auto simp: sync_def ensures_def split: option.splits)
  then have items: "\<forall>i\<in>set items. wants wanted i \<and> in_place i m'" by (simp add: kept_in_place_def)
  moreover have "in_place w m'" if "w \<in> set wanted" for w
    using r items that in_place_bare unfolding wants_eq by metis
  moreover have "intact m'" using r items all_apart_wanted[OF assms(2)] by (intro tracked_intact) auto
  ultimately show ?thesis using r by blast
qed


subsection \<open>Examples\<close>

definition no_faults :: faults where
  "no_faults = \<lparr>ft_read = (\<lambda>_. False), ft_place = (\<lambda>_. False), ft_remove = (\<lambda>_. False), ft_write = (\<lambda>_. False)\<rparr>"

definition plain_item :: "string \<Rightarrow> string \<Rightarrow> string \<Rightarrow> item" where
  "plain_item kind source target = \<lparr>it_kind = kind, it_package = ''p'', it_source = source, it_target = target, it_name = [],
     it_enabled = False, it_system = False, it_user = [], it_hash = [], it_domain = [], it_key = [], it_prior = [],
     it_had_prior = False, it_dir = 0\<rparr>"

definition setting_item :: "string \<Rightarrow> string \<Rightarrow> string \<Rightarrow> item" where
  "setting_item domain key v = (plain_item ''setting'' v (domain @ '' '' @ key))\<lparr>it_domain := domain, it_key := key\<rparr>"

definition some_machine :: machine where
  "some_machine = \<lparr>mc_budget = 0, mc_ledger = [], mc_paths = [''/home/mine'' \<mapsto> Plain ''x''],
     mc_settings = [(''d'', ''k'') \<mapsto> ''1''], mc_units = Map.empty\<rparr>"

definition some_wanted :: "item list" where
  "some_wanted = [plain_item ''font'' ''/oku/store/f'' ''/home/fonts/f'', plain_item ''file'' ''/oku/list/rc'' ''/home/rc'',
     setting_item ''d'' ''k'' ''2'']"

definition some_history :: "expose_event list" where
  "some_history = [Synced no_faults Map.empty some_wanted 2, Synced no_faults Map.empty some_wanted 9, UserDeleted ''/home/rc'']"

lemmas some_defs = some_history_def some_wanted_def some_machine_def setting_item_def plain_item_def no_faults_def

lemma some_removed: "fst (remove_all no_faults ((run_events some_history some_machine)\<lparr>mc_budget := 9\<rparr>)) = Value []"
  by code_simp

lemma some_events_ok: "\<forall>e\<in>set some_history. event_ok some_machine {} e"
  by code_simp

theorem uninstall_leaves_no_trace_witness:
  "mc_settings (snd (remove_all no_faults ((run_events some_history some_machine)\<lparr>mc_budget := 9\<rparr>))) (''d'', ''k'') = Some ''1''
   \<and> mc_settings (run_events some_history some_machine) (''d'', ''k'') = Some ''2''
   \<and> mc_paths (run_events some_history some_machine) ''/home/mine'' = Some (Plain ''x'')"
proof -
  have "mc_ledger some_machine = []" by (simp add: some_machine_def)
  from uninstall_leaves_no_trace[OF this some_events_ok some_removed refl]
  have "mc_settings (snd (remove_all no_faults ((run_events some_history some_machine)\<lparr>mc_budget := 9\<rparr>))) = mc_settings some_machine"
    "mc_paths (run_events some_history some_machine) ''/home/mine'' = Some (Plain ''x'')"
    by (simp_all add: some_machine_def)
  moreover have "mc_settings (run_events some_history some_machine) (''d'', ''k'') = Some ''2''" by code_simp
  ultimately show ?thesis by (simp add: some_machine_def)
qed

text \<open>
  A crash between the write of the ledger and the placing leaves an item that the next sync takes for placed: the font
  is in the ledger, the sync succeeds, and the font is not there.
\<close>
lemma crash_leaves_unplaced:
  "let m = run_event (Synced no_faults Map.empty some_wanted 1) some_machine;
       r = sync no_faults Map.empty some_wanted (m\<lparr>mc_budget := 9\<rparr>)
   in fst r \<noteq> Crashed \<and> (\<forall>e. fst r \<noteq> Failed e) \<and> mc_paths (snd r) ''/home/fonts/f'' = None"
proof -
  let ?r = "sync no_faults Map.empty some_wanted ((run_event (Synced no_faults Map.empty some_wanted 1) some_machine)\<lparr>mc_budget := 9\<rparr>)"
  have "(case fst ?r of Value _ \<Rightarrow> True | _ \<Rightarrow> False) \<and> mc_paths (snd ?r) ''/home/fonts/f'' = None" by code_simp
  then show ?thesis by (auto simp: Let_def split: outcome.splits)
qed

text \<open>
  An item that the user deleted and took out of the list leaves the items in memory and stays in the ledger on disk when
  the sync writes nothing else: a link that the user makes at that place later is deleted as oku's.
\<close>
lemma stale_entry_deletes_user_link:
  "let m = run_events [Synced no_faults Map.empty [plain_item ''file'' ''/oku/list/rc'' ''/home/rc''] 9, UserDeleted ''/home/rc'',
         Synced no_faults Map.empty [] 9] some_machine;
       m' = set_path ''/home/rc'' (Symlink ''/home/my/rc'') m
   in mc_paths m ''/home/rc'' = None \<and> mc_paths (run_event (Synced no_faults Map.empty [] 9) m') ''/home/rc'' = None"
  by code_simp

lemma some_synced:
  "case sync no_faults Map.empty some_wanted (some_machine\<lparr>mc_budget := 9\<rparr>) of (Value items, m') \<Rightarrow> length items = 3 | _ \<Rightarrow> False"
  by code_simp

theorem sync_places_everything_witness:
  "in_place (setting_item ''d'' ''k'' ''2'') (snd (sync no_faults Map.empty some_wanted (some_machine\<lparr>mc_budget := 9\<rparr>)))"
proof -
  obtain items m' where r: "sync no_faults Map.empty some_wanted (some_machine\<lparr>mc_budget := 9\<rparr>) = (Value items, m')"
    using some_synced by (auto split: prod.splits outcome.splits)
  have "intact (some_machine\<lparr>mc_budget := 9\<rparr>)" "all_apart some_wanted" by code_simp+
  from sync_places_everything[OF this r] r show ?thesis by (simp add: some_wanted_def)
qed

end
