(* ===== verification/Change_Props.thy ===== *)
theory Change_Props
  imports Change Expose_Props
begin

text \<open>
  A change is all or nothing: whatever crashed or failed in it, once a recovery succeeds the lists, the active generation
  and the generations on disk are those of before or those of after, and the machine stays one whose ledger accounts for
  everything that oku put there.
\<close>

subsection \<open>Steps\<close>

lemma spend_same [simp]:
  "sy_lists (spend s) = sy_lists s" "sy_current (spend s) = sy_current s" "sy_gens (spend s) = sy_gens s"
  "sy_pending (spend s) = sy_pending s" "safe u units items (sy_machine (spend s)) = safe u units items (sy_machine s)"
  "mc_ledger (sy_machine (spend s)) = mc_ledger (sy_machine s)"
  by (simp_all add: spend_def)

lemma ensures_sys_effect:
  "P s \<Longrightarrow> P (spend s) \<Longrightarrow> P (f (spend s)) \<and> Q () (f (spend s)) \<Longrightarrow> ensures (sys_effect sr st f s) P Q"
  by (simp add: sys_effect_def)

text \<open>A step that changes nothing but the machine, and leaves the machine safe.\<close>

definition same_lists :: "machine \<Rightarrow> string set \<Rightarrow> system \<Rightarrow> system \<Rightarrow> bool" where
  "same_lists u units s s' \<longleftrightarrow> sy_lists s' = sy_lists s \<and> sy_current s' = sy_current s \<and> sy_gens s' = sy_gens s
     \<and> sy_pending s' = sy_pending s \<and> safe_disk u units (sy_machine s')"

lemma sync_items_same:
  assumes "safe_disk u units (sy_machine s)" "wanted_ok u units wanted"
  shows "ensures (sync_items sr n wanted s) (same_lists u units s) (\<lambda>_ _. True)"
proof -
  let ?r = "sync (sr_faults sr (sy_budget s)) (sr_contents sr n) wanted (sy_machine s)"
  have "safe_disk u units (snd ?r)" using sync_safe[OF assms] by (simp add: ensures_def)
  then have "ensures (on_machine s ?r) (same_lists u units s) (\<lambda>_ _. True)"
    by (simp add: ensures_def on_machine_def same_lists_def)
  then show ?thesis unfolding sync_items_def by (rule ensures_andthen) simp
qed

lemma keep_system_ok:
  assumes "safe_disk u units m" "wanted_ok u units wanted"
  shows "wanted_ok u units (keep_system (mc_ledger m) wanted)"
proof -
  have shape: "shape_ok u units i" if "i \<in> set (mc_ledger m) \<or> i \<in> set wanted" for i
    using that assms by (auto simp: safe_def item_ok_def wanted_ok_def)
  have setting: "\<not> it_system i" if "i \<in> set (mc_ledger m) \<or> i \<in> set wanted" "it_kind i = ''setting''" for i
    using shape[OF that(1)] that(2) by (simp add: shape_ok_def)
  show ?thesis
    unfolding wanted_ok_def
  proof (intro conjI ballI impI)
    show "shape_ok u units w" if "w \<in> set (keep_system (mc_ledger m) wanted)" for w
      using that shape by (auto simp: keep_system_def)
  next
    fix v w
    assume vw: "v \<in> set (keep_system (mc_ledger m) wanted)" "w \<in> set (keep_system (mc_ledger m) wanted)"
      "it_kind v = ''setting'' \<and> it_kind w = ''setting'' \<and> it_domain v = it_domain w \<and> it_key v = it_key w"
    then have "v \<in> set wanted" "w \<in> set wanted" using setting by (auto simp: keep_system_def)
    with vw(3) assms(2) show "bare v = bare w" unfolding wanted_ok_def by blast
  qed
qed

subsection \<open>The points of a change\<close>

text \<open>\<open>c\<close> is the change and \<open>s0\<close> the system before it.\<close>

definition old_lists :: "change \<Rightarrow> system \<Rightarrow> lists" where
  "old_lists c s0 = (case ch_before c of None \<Rightarrow> sy_lists s0 | Some b \<Rightarrow> b)"

definition new_lists :: "change \<Rightarrow> system \<Rightarrow> lists" where
  "new_lists c s0 = fold edit_lists (ch_commit c) (sy_lists s0)"

definition without_staged :: "change \<Rightarrow> system \<Rightarrow> nat list" where
  "without_staged c s0 = (if ch_staged c then removeAll (ch_to c) (sy_gens s0) else sy_gens s0)"

definition changed :: "change \<Rightarrow> system \<Rightarrow> system \<Rightarrow> bool" where
  "changed c s0 s \<longleftrightarrow> sy_lists s = new_lists c s0 \<and> sy_current s = ch_to c \<and> sy_gens s = sy_gens s0"

definition put_back :: "change \<Rightarrow> system \<Rightarrow> system \<Rightarrow> bool" where
  "put_back c s0 s \<longleftrightarrow> sy_lists s = old_lists c s0 \<and> sy_current s = sy_current s0 \<and> sy_gens s = without_staged c s0"

text \<open>The plan failed: nothing was written but for the deletion of the staged generation, which can fail too.\<close>

definition not_begun :: "change \<Rightarrow> system \<Rightarrow> system \<Rightarrow> bool" where
  "not_begun c s0 s \<longleftrightarrow> sy_lists s = sy_lists s0 \<and> sy_current s = sy_current s0 \<and> sy_gens s \<in> {sy_gens s0, without_staged c s0}"

definition records :: "change \<Rightarrow> system \<Rightarrow> pending \<Rightarrow> bool" where
  "records c s0 p \<longleftrightarrow> pd_project p = ch_project c \<and> pd_from p = sy_current s0 \<and> pd_to p = ch_to c \<and> pd_staged p = ch_staged c
     \<and> pd_before p = old_lists c s0 \<and> pd_started p = sy_lists s0"

definition lists_known :: "change \<Rightarrow> system \<Rightarrow> system \<Rightarrow> bool" where
  "lists_known c s0 s \<longleftrightarrow> fst (sy_lists s) \<in> {fst (sy_lists s0), fst (old_lists c s0)}
     \<and> snd (sy_lists s) \<in> {snd (sy_lists s0), snd (old_lists c s0)}"

definition half_way :: "change \<Rightarrow> system \<Rightarrow> pending \<Rightarrow> system \<Rightarrow> bool" where
  "half_way c s0 p s \<longleftrightarrow> sy_pending s = Some p \<and> records c s0 p
     \<and> (if pd_done p then changed c s0 s
        else sy_gens s \<in> {sy_gens s0, without_staged c s0} \<and> (pd_committing p \<or> lists_known c s0 s))"

definition point_ok :: "change \<Rightarrow> system \<Rightarrow> system \<Rightarrow> bool" where
  "point_ok c s0 s \<longleftrightarrow>
     (case sy_pending s of
        None \<Rightarrow> changed c s0 s \<or> put_back c s0 s \<or> not_begun c s0 s
      | Some p \<Rightarrow> half_way c s0 p s)"

definition good :: "machine \<Rightarrow> string set \<Rightarrow> change \<Rightarrow> system \<Rightarrow> system \<Rightarrow> bool" where
  "good u units c s0 s \<longleftrightarrow> safe_disk u units (sy_machine s) \<and> point_ok c s0 s"

definition midway :: "machine \<Rightarrow> string set \<Rightarrow> change \<Rightarrow> system \<Rightarrow> pending \<Rightarrow> system \<Rightarrow> bool" where
  "midway u units c s0 p s \<longleftrightarrow> safe_disk u units (sy_machine s) \<and> half_way c s0 p s \<and> \<not> pd_done p"

lemma midway_good: "midway u units c s0 p s \<Longrightarrow> good u units c s0 s"
  by (auto simp: midway_def good_def point_ok_def half_way_def)

lemma lists_known_spend [simp]: "lists_known c s0 (spend s) = lists_known c s0 s"
  by (simp add: lists_known_def)

lemma midway_spend [simp]: "midway u units c s0 p (spend s) = midway u units c s0 p s"
  by (simp add: midway_def half_way_def lists_known_def changed_def)

lemma good_spend [simp]: "good u units c s0 (spend s) = good u units c s0 s"
  by (simp add: good_def point_ok_def half_way_def lists_known_def changed_def put_back_def not_begun_def split: option.split)

lemma midway_same: "midway u units c s0 p s \<Longrightarrow> same_lists u units s s' \<Longrightarrow> midway u units c s0 p s'"
  by (auto simp: midway_def half_way_def lists_known_def changed_def same_lists_def)

text \<open>\<open>q\<close> is what \<open>pending.toml\<close> holds, and \<open>p\<close> what the process has in memory, which may know of a commit that the file does not.\<close>

definition in_memory :: "change \<Rightarrow> system \<Rightarrow> pending \<Rightarrow> bool" where
  "in_memory c s0 p \<longleftrightarrow> records c s0 p \<and> \<not> pd_done p"

lemma restore_list_first:
  assumes "midway u units c s0 q s" "in_memory c s0 p" "\<not> pd_committing p \<longrightarrow> lists_known c s0 s"
  shows "ensures (restore_list sr p ListWrite fst (\<lambda>t (_, lock). (t, lock)) s) (good u units c s0)
    (\<lambda>_ s'. midway u units c s0 q s' \<and> fst (sy_lists s') = fst (old_lists c s0) \<and> snd (sy_lists s') = snd (sy_lists s))"
proof (cases "\<not> pd_committing p \<and> fst (sy_lists s) \<noteq> fst (pd_started p)")
  case True
  then have "fst (sy_lists s) = fst (old_lists c s0)" using assms(2,3) by (auto simp: lists_known_def in_memory_def records_def)
  with True assms(1) midway_good show ?thesis by (simp add: restore_list_def)
next
  case False
  let ?f = "sy_lists_update ((\<lambda>t (_, lock). (t, lock)) (fst (pd_before p)))"
  have mid: "midway u units c s0 q (?f (spend s))"
    using assms(1,2) by (auto simp: midway_def half_way_def lists_known_def records_def in_memory_def split_beta)
  have "ensures (sys_effect sr ListWrite ?f s) (good u units c s0)
    (\<lambda>_ s'. midway u units c s0 q s' \<and> fst (sy_lists s') = fst (old_lists c s0) \<and> snd (sy_lists s') = snd (sy_lists s))"
    using mid midway_good[OF mid] midway_good[OF assms(1)] assms(2)
    by (intro ensures_sys_effect) (auto simp: in_memory_def records_def split_beta)
  with False show ?thesis unfolding restore_list_def by (auto intro!: ensures_andthen midway_good)
qed

lemma restore_list_second:
  assumes "midway u units c s0 q s" "in_memory c s0 p" "\<not> pd_committing p \<longrightarrow> lists_known c s0 s"
  shows "ensures (restore_list sr p LockWrite snd (\<lambda>t (txt, _). (txt, t)) s) (good u units c s0)
    (\<lambda>_ s'. midway u units c s0 q s' \<and> snd (sy_lists s') = snd (old_lists c s0) \<and> fst (sy_lists s') = fst (sy_lists s))"
proof (cases "\<not> pd_committing p \<and> snd (sy_lists s) \<noteq> snd (pd_started p)")
  case True
  then have "snd (sy_lists s) = snd (old_lists c s0)" using assms(2,3) by (auto simp: lists_known_def in_memory_def records_def)
  with True assms(1) midway_good show ?thesis by (simp add: restore_list_def)
next
  case False
  let ?f = "sy_lists_update ((\<lambda>t (txt, _). (txt, t)) (snd (pd_before p)))"
  have mid: "midway u units c s0 q (?f (spend s))"
    using assms(1,2) by (auto simp: midway_def half_way_def lists_known_def records_def in_memory_def split_beta)
  have "ensures (sys_effect sr LockWrite ?f s) (good u units c s0)
    (\<lambda>_ s'. midway u units c s0 q s' \<and> snd (sy_lists s') = snd (old_lists c s0) \<and> fst (sy_lists s') = fst (sy_lists s))"
    using mid midway_good[OF mid] midway_good[OF assms(1)] assms(2)
    by (intro ensures_sys_effect) (auto simp: in_memory_def records_def split_beta)
  with False show ?thesis unfolding restore_list_def by (auto intro!: ensures_andthen midway_good)
qed

lemma restore_lists_back:
  assumes "midway u units c s0 q s" "in_memory c s0 p" "\<not> pd_committing p \<longrightarrow> lists_known c s0 s"
  shows "ensures (restore_lists sr p s) (good u units c s0) (\<lambda>_ s'. midway u units c s0 q s' \<and> sy_lists s' = old_lists c s0)"
  unfolding restore_lists_def
proof (rule ensures_andthen[OF restore_list_first[OF assms]])
  fix kept s1
  assume s1: "midway u units c s0 q s1 \<and> fst (sy_lists s1) = fst (old_lists c s0) \<and> snd (sy_lists s1) = snd (sy_lists s)"
  then have known: "\<not> pd_committing p \<longrightarrow> lists_known c s0 s1" using assms(3) by (auto simp: lists_known_def)
  show "ensures (andthen (restore_list sr p LockWrite snd (\<lambda>t (txt, _). (txt, t)) s1) (\<lambda>kept' s. (Value (kept @ kept'), s)))
    (good u units c s0) (\<lambda>_ s'. midway u units c s0 q s' \<and> sy_lists s' = old_lists c s0)"
    by (rule ensures_andthen[OF restore_list_second[OF conjunct1[OF s1] assms(2) known]])
      (use s1 in \<open>auto simp: prod_eq_iff\<close>)
qed

text \<open>What the two generations want must be something that oku may place.\<close>

definition wants_ok :: "machine \<Rightarrow> string set \<Rightarrow> change \<Rightarrow> system \<Rightarrow> surroundings \<Rightarrow> bool" where
  "wants_ok u units c s0 sr \<longleftrightarrow> wanted_ok u units (sr_wanted sr (sy_current s0)) \<and> wanted_ok u units (sr_wanted sr (ch_to c))"

lemma restore_exposed_midway:
  assumes "midway u units c s0 q s" "in_memory c s0 p" "wants_ok u units c s0 sr"
  shows "ensures (restore_exposed sr p s) (good u units c s0)
    (\<lambda>_ s'. midway u units c s0 q s' \<and> sy_lists s' = sy_lists s \<and> sy_current s' = sy_current s)"
proof -
  have safe: "safe_disk u units (sy_machine s)" using assms(1) by (simp add: midway_def)
  have w: "wanted_ok u units (sr_wanted sr (pd_from p))"
    using assms(2,3) by (simp add: wants_ok_def in_memory_def records_def)
  have "ensures (sync_items sr (pd_from p) wanted s) (good u units c s0)
      (\<lambda>_ s'. midway u units c s0 q s' \<and> sy_lists s' = sy_lists s \<and> sy_current s' = sy_current s)"
    if "wanted_ok u units wanted" for wanted
    using sync_items_same[OF safe that, of sr "pd_from p"] midway_same[OF assms(1)] midway_good
    by (fastforce simp: ensures_def same_lists_def)
  with w keep_system_ok[OF safe w] assms(1) midway_good show ?thesis
    by (auto simp: restore_exposed_def Let_def)
qed

lemma revert_back:
  assumes "midway u units c s0 q s" "in_memory c s0 p" "\<not> pd_committing p \<longrightarrow> lists_known c s0 s" "wants_ok u units c s0 sr"
  shows "ensures (revert sr p s) (good u units c s0)
    (\<lambda>_ s'. safe_disk u units (sy_machine s') \<and> sy_pending s' = None \<and> put_back c s0 s')"
  unfolding revert_def
proof (rule ensures_andthen[OF restore_lists_back[OF assms(1-3)]])
  let ?G = "good u units c s0"
  let ?E = "\<lambda>_ s'. safe_disk u units (sy_machine s') \<and> sy_pending s' = None \<and> put_back c s0 s'"
  fix kept s1 assume s1: "midway u units c s0 q s1 \<and> sy_lists s1 = old_lists c s0"
  show "ensures (andthen (activate_gen sr (pd_from p) s1) (\<lambda>_ s.
     andthen (restore_exposed sr p s) (\<lambda>_ s.
     andthen (if pd_staged p then discard_gen sr (pd_to p) s else (Value (), s)) (\<lambda>_ s.
     andthen (remove_pending sr s) (\<lambda>_ s. (Value kept, s)))))) ?G ?E"
  proof (rule ensures_andthen[where Q = "\<lambda>_ s'. midway u units c s0 q s' \<and> sy_lists s' = old_lists c s0 \<and> sy_current s' = sy_current s0"])
    have "midway u units c s0 q (sy_current_update (\<lambda>_. pd_from p) (spend s1))"
      using s1 by (auto simp: midway_def half_way_def lists_known_def)
    then show "ensures (activate_gen sr (pd_from p) s1) ?G
      (\<lambda>_ s'. midway u units c s0 q s' \<and> sy_lists s' = old_lists c s0 \<and> sy_current s' = sy_current s0)"
      unfolding activate_gen_def using s1 assms(2) midway_good
      by (intro ensures_sys_effect) (auto simp: in_memory_def records_def)
  next
    fix a s2 assume s2: "midway u units c s0 q s2 \<and> sy_lists s2 = old_lists c s0 \<and> sy_current s2 = sy_current s0"
    show "ensures (andthen (restore_exposed sr p s2) (\<lambda>_ s.
       andthen (if pd_staged p then discard_gen sr (pd_to p) s else (Value (), s)) (\<lambda>_ s.
       andthen (remove_pending sr s) (\<lambda>_ s. (Value kept, s))))) ?G ?E"
    proof (rule ensures_andthen[OF restore_exposed_midway[OF conjunct1[OF s2] assms(2,4)]])
      fix b s3 assume "midway u units c s0 q s3 \<and> sy_lists s3 = sy_lists s2 \<and> sy_current s3 = sy_current s2"
      with s2 have s3: "midway u units c s0 q s3" "sy_lists s3 = old_lists c s0" "sy_current s3 = sy_current s0" by simp_all
      show "ensures (andthen (if pd_staged p then discard_gen sr (pd_to p) s3 else (Value (), s3)) (\<lambda>_ s.
         andthen (remove_pending sr s) (\<lambda>_ s. (Value kept, s)))) ?G ?E"
      proof (rule ensures_andthen[where Q = "\<lambda>_ s'. midway u units c s0 q s' \<and> put_back c s0 s'"])
        have "midway u units c s0 q (sy_gens_update (removeAll (pd_to p)) (spend s3))
          \<and> put_back c s0 (sy_gens_update (removeAll (pd_to p)) (spend s3))" if "pd_staged p"
          using s3 assms(2) that
          by (auto simp: midway_def half_way_def lists_known_def put_back_def without_staged_def in_memory_def records_def)
        moreover have "put_back c s0 s3" if "\<not> pd_staged p"
          using s3 assms(2) that by (auto simp: midway_def half_way_def put_back_def without_staged_def in_memory_def records_def)
        ultimately show "ensures (if pd_staged p then discard_gen sr (pd_to p) s3 else (Value (), s3)) ?G
          (\<lambda>_ s'. midway u units c s0 q s' \<and> put_back c s0 s')"
          using s3 midway_good by (auto simp: discard_gen_def intro!: ensures_sys_effect)
      next
        fix d s4 assume s4: "midway u units c s0 q s4 \<and> put_back c s0 s4"
        have "good u units c s0 (sy_pending_update (\<lambda>_. None) (spend s4)) \<and> put_back c s0 (sy_pending_update (\<lambda>_. None) (spend s4))
          \<and> safe_disk u units (sy_machine (sy_pending_update (\<lambda>_. None) (spend s4)))"
          using s4 by (auto simp: midway_def good_def point_ok_def put_back_def)
        then have "ensures (remove_pending sr s4) ?G ?E"
          unfolding remove_pending_def using s4 midway_good by (intro ensures_sys_effect) auto
        then show "ensures (andthen (remove_pending sr s4) (\<lambda>_ s. (Value kept, s))) ?G ?E"
          by (rule ensures_andthen) simp
      qed
    qed
  qed
qed

subsection \<open>Applying\<close>

definition unchanged :: "machine \<Rightarrow> string set \<Rightarrow> system \<Rightarrow> system \<Rightarrow> bool" where
  "unchanged u units s0 s \<longleftrightarrow> same_lists u units s0 s \<and> sy_pending s0 = None"

lemma unchanged_good: "unchanged u units s0 s \<Longrightarrow> good u units c s0 s"
  by (simp add: unchanged_def same_lists_def good_def point_ok_def not_begun_def)

definition planned :: "machine \<Rightarrow> string set \<Rightarrow> change \<Rightarrow> system \<Rightarrow> pending \<Rightarrow> system \<Rightarrow> bool" where
  "planned u units c s0 p s \<longleftrightarrow> midway u units c s0 p s \<and> in_memory c s0 p \<and> \<not> pd_committing p
     \<and> sy_lists s = sy_lists s0 \<and> sy_gens s = sy_gens s0"

lemma plan_exposed_ok:
  assumes "safe_disk u units m" "wanted_ok u units wanted" "plan_exposed agreed (mc_ledger m) wanted = (wanted', elevated)"
  shows "wanted_ok u units wanted'"
  using assms keep_system_ok[OF assms(1,2)] by (auto simp: plan_exposed_def split: if_splits)

lemma plan_cases:
  assumes "sy_pending s0 = None" "safe_disk u units (sy_machine s0)" "wants_ok u units c s0 sr" "plan sr c s0 = (r, s1)"
  shows "case r of Value (p, wanted) \<Rightarrow> planned u units c s0 p s1 \<and> wanted_ok u units wanted | _ \<Rightarrow> unchanged u units s0 s1"
proof -
  obtain wanted elevated where w: "(if ch_project c then ([], False)
      else plan_exposed (ch_system c \<and> sr_agreed sr) (mc_ledger (sy_machine s0)) (sr_wanted sr (ch_to c))) = (wanted, elevated)"
    by fastforce
  have wok: "wanted_ok u units wanted"
  proof (cases "ch_project c")
    case True
    with w show ?thesis by (simp add: wanted_ok_def)
  next
    case False
    with w have "plan_exposed (ch_system c \<and> sr_agreed sr) (mc_ledger (sy_machine s0)) (sr_wanted sr (ch_to c)) = (wanted, elevated)"
      by simp
    with plan_exposed_ok[OF assms(2)] assms(3) show ?thesis unfolding wants_ok_def by blast
  qed
  let ?p = "new_pending c elevated s0"
  have p: "in_memory c s0 ?p" "\<not> pd_committing ?p"
    by (auto simp: in_memory_def records_def new_pending_def old_lists_def)
  have same: "unchanged u units s0 s0" "unchanged u units s0 (spend s0)"
    using assms(1,2) by (simp_all add: unchanged_def same_lists_def)
  have "planned u units c s0 ?p (sy_pending_update (\<lambda>_. Some ?p) (spend s0))"
    using assms(2) p by (auto simp: planned_def midway_def half_way_def lists_known_def in_memory_def)
  then have w2: "ensures (write_pending sr ?p s0) (\<lambda>_. True) (\<lambda>_ s. planned u units c s0 ?p s)"
      "case write_pending sr ?p s0 of (Value _, s) \<Rightarrow> True | (_, s) \<Rightarrow> unchanged u units s0 s"
    using same by (auto simp: write_pending_def sys_effect_def)
  have "plan sr c s0 =
      (if sr_fails sr PlanStep (sy_budget s0) then (Failed (StepFailed PlanStep), s0)
       else (case ledger_check (mc_ledger (sy_machine s0)) (mc_paths (sy_machine s0)) wanted of
               Some target \<Rightarrow> (Failed (ExposeFailed (Occupied target)), s0)
             | None \<Rightarrow> andthen (write_pending sr ?p s0) (\<lambda>_ s. (Value (?p, wanted), s))))"
    by (simp only: plan_def Let_def w prod.case)
  then consider "r = Failed (StepFailed PlanStep)" "s1 = s0" | t where "r = Failed (ExposeFailed (Occupied t))" "s1 = s0"
    | "andthen (write_pending sr ?p s0) (\<lambda>_ s. (Value (?p, wanted), s)) = (r, s1)"
    using assms(4) by (auto split: if_splits option.splits)
  then show ?thesis
  proof cases
    case 3
    obtain r1 s2 where "write_pending sr ?p s0 = (r1, s2)" by fastforce
    with 3 w2 wok show ?thesis by (cases r1) (auto simp: ensures_def)
  qed (use same in auto)
qed

lemma prepare_midway:
  assumes "planned u units c s0 p s" "wanted_ok u units wanted"
  shows "ensures (prepare sr c wanted s) (midway u units c s0 p) (\<lambda>_ s'. planned u units c s0 p s' \<and> sy_current s' = ch_to c)"
  unfolding prepare_def
proof (rule ensures_andthen[where Q = "\<lambda>_ s'. planned u units c s0 p s' \<and> sy_current s' = ch_to c"])
  show "ensures (activate_gen sr (ch_to c) s) (midway u units c s0 p) (\<lambda>_ s'. planned u units c s0 p s' \<and> sy_current s' = ch_to c)"
    unfolding activate_gen_def using assms(1)
    by (intro ensures_sys_effect) (auto simp: planned_def midway_def half_way_def lists_known_def)
next
  fix a s1 assume s1: "midway u units c s0 p s1" "planned u units c s0 p s1 \<and> sy_current s1 = ch_to c"
  have safe: "safe_disk u units (sy_machine s1)" using s1(1) by (simp add: midway_def)
  have "ensures (sync_items sr (ch_to c) wanted s1) (midway u units c s0 p) (\<lambda>_ s'. planned u units c s0 p s' \<and> sy_current s' = ch_to c)"
    using sync_items_same[OF safe assms(2), of sr "ch_to c"] midway_same[OF s1(1)] s1(2)
    by (auto simp: ensures_def same_lists_def planned_def)
  with s1 show "ensures (place_exposed sr (ch_project c) (ch_to c) wanted s1) (midway u units c s0 p)
    (\<lambda>_ s'. planned u units c s0 p s' \<and> sy_current s' = ch_to c)" by (simp add: place_exposed_def)
qed

lemma run_commit_midway:
  assumes "midway u units c s0 p s" "pd_committing p" "sy_gens s = sy_gens s0"
  shows "ensures (run_commit sr es s) (midway u units c s0 p)
    (\<lambda>_ s'. sy_lists s' = fold edit_lists es (sy_lists s) \<and> sy_current s' = sy_current s \<and> sy_gens s' = sy_gens s0)"
  using assms
proof (induction es arbitrary: s)
  case (Cons e es)
  let ?f = "sy_lists_update (edit_lists e)"
  have mid: "midway u units c s0 p (?f (spend s))" using Cons.prems by (auto simp: midway_def half_way_def)
  have "ensures (sys_effect sr (edit_step e) ?f s) (midway u units c s0 p)
    (\<lambda>_ s'. sy_lists s' = edit_lists e (sy_lists s) \<and> sy_current s' = sy_current s \<and> sy_gens s' = sy_gens s0)"
    using mid Cons.prems by (intro ensures_sys_effect) auto
  then have "ensures (andthen (sys_effect sr (edit_step e) ?f s) (\<lambda>_. run_commit sr es)) (midway u units c s0 p)
    (\<lambda>_ s'. sy_lists s' = fold edit_lists (e # es) (sy_lists s) \<and> sy_current s' = sy_current s \<and> sy_gens s' = sy_gens s0)"
    by (rule ensures_andthen) (use Cons.prems in \<open>auto intro!: ensures_mono[OF Cons.IH]\<close>)
  then show ?case by simp
qed simp

lemma commit_lists_midway:
  assumes "planned u units c s0 p s" "sy_current s = ch_to c" "p' = p\<lparr>pd_committing := True\<rparr>"
  shows "ensures (commit_lists sr c p' s) (\<lambda>s'. midway u units c s0 p s' \<or> midway u units c s0 p' s')
    (\<lambda>_ s'. midway u units c s0 p' s' \<and> changed c s0 s')"
proof -
  have w: "ensures (write_pending sr p' s) (\<lambda>s'. midway u units c s0 p s' \<or> midway u units c s0 p' s')
    (\<lambda>_ s'. midway u units c s0 p' s' \<and> sy_lists s' = sy_lists s0 \<and> sy_current s' = ch_to c \<and> sy_gens s' = sy_gens s0)"
    unfolding write_pending_def using assms
    by (intro ensures_sys_effect) (auto simp: planned_def midway_def half_way_def records_def)
  show ?thesis unfolding commit_lists_def
  proof (rule ensures_andthen[OF w])
    fix a s1
    assume s1: "midway u units c s0 p' s1 \<and> sy_lists s1 = sy_lists s0 \<and> sy_current s1 = ch_to c \<and> sy_gens s1 = sy_gens s0"
    have "ensures (run_commit sr (ch_commit c) s1) (midway u units c s0 p')
      (\<lambda>_ s'. sy_lists s' = new_lists c s0 \<and> sy_current s' = ch_to c \<and> sy_gens s' = sy_gens s0)"
      using run_commit_midway[of u units c s0 p' s1 sr "ch_commit c"] s1 assms(3) by (simp add: new_lists_def)
    then show "ensures (run_commit sr (ch_commit c) s1) (\<lambda>s'. midway u units c s0 p s' \<or> midway u units c s0 p' s')
      (\<lambda>_ s'. midway u units c s0 p' s' \<and> changed c s0 s')" by (auto simp: ensures_def changed_def)
  qed
qed

lemma finish_good:
  assumes "midway u units c s0 p s" "changed c s0 s" "finish sr p s = (r, s')"
  shows "good u units c s0 s' \<and> (r = Value () \<longrightarrow> sy_pending s' = None \<and> changed c s0 s')"
  using assms midway_good[OF assms(1)]
  by (auto simp: finish_def remove_pending_def write_pending_def sys_effect_def good_def point_ok_def midway_def half_way_def
      records_def changed_def split: if_splits)

lemma undo_good:
  assumes "midway u units c s0 q s" "in_memory c s0 p" "\<not> pd_committing p \<longrightarrow> lists_known c s0 s" "wants_ok u units c s0 sr"
    "undo sr e p s = (r, s')"
  shows "good u units c s0 s' \<and> r \<noteq> Value ()"
proof -
  obtain r1 s1 where r1: "revert sr p s = (r1, s1)" by fastforce
  with revert_back[OF assms(1-4)] have "good u units c s0 s1" by (simp add: ensures_def)
  with assms(5) r1 show ?thesis by (auto simp: undo_def split: outcome.splits)
qed

lemma apply_change_good:
  assumes "sy_pending s0 = None" "safe_disk u units (sy_machine s0)" "wants_ok u units c s0 sr" "apply_change sr c s0 = (r, s')"
  shows "good u units c s0 s' \<and> (r = Value () \<longrightarrow> sy_pending s' = None \<and> changed c s0 s')"
proof -
  obtain r1 s1 where plan: "plan sr c s0 = (r1, s1)" by fastforce
  note pc = plan_cases[OF assms(1-3) plan]
  show ?thesis
  proof (cases r1)
    case Crashed
    with pc plan assms(4) unchanged_good show ?thesis by (auto simp: apply_change_def)
  next
    case (Failed e)
    then have un: "unchanged u units s0 s1" using pc by simp
    then have "good u units c s0 (sy_gens_update (removeAll (ch_to c)) (spend s1))" if "ch_staged c"
      using that by (auto simp: unchanged_def same_lists_def good_def point_ok_def not_begun_def without_staged_def)
    moreover have "unchanged u units s0 (spend s1)" using un by (simp add: unchanged_def same_lists_def)
    ultimately show ?thesis using Failed plan assms(4) unchanged_good[OF un] unchanged_good[of u units s0 "spend s1"]
      by (auto simp: apply_change_def discard_gen_def sys_effect_def split: if_splits)
  next
    case (Value pw)
    obtain p wanted where pw: "pw = (p, wanted)" by fastforce
    with pc Value have pl: "planned u units c s0 p s1" "wanted_ok u units wanted" by simp_all
    obtain r2 s2 where prep: "prepare sr c wanted s1 = (r2, s2)" by fastforce
    with prepare_midway[OF pl, of sr] have s2: "midway u units c s0 p s2"
      "r2 = Value () \<longrightarrow> planned u units c s0 p s2 \<and> sy_current s2 = ch_to c" by (auto simp: ensures_def)
    have mem: "in_memory c s0 p" "\<not> pd_committing p" using pl(1) by (simp_all add: planned_def)
    then have known: "lists_known c s0 s2" using s2(1) by (auto simp: midway_def half_way_def)
    let ?p = "p\<lparr>pd_committing := True\<rparr>"
    have mem': "in_memory c s0 ?p" using mem by (simp add: in_memory_def records_def)
    show ?thesis
    proof (cases r2)
      case Crashed
      with plan Value pw prep assms(4) midway_good[OF s2(1)] show ?thesis by (auto simp: apply_change_def)
    next
      case (Failed e)
      with plan Value pw prep assms(4) undo_good[OF s2(1) mem(1) _ assms(3), of e r s'] known show ?thesis
        by (auto simp: apply_change_def)
    next
      case prepared: (Value w)
      then have pl2: "planned u units c s0 p s2" "sy_current s2 = ch_to c" using s2(2) by simp_all
      obtain r3 s3 where com: "commit_lists sr c ?p s2 = (r3, s3)" by fastforce
      with commit_lists_midway[OF pl2 refl, of sr] have s3: "midway u units c s0 p s3 \<or> midway u units c s0 ?p s3"
        "r3 = Value () \<longrightarrow> midway u units c s0 ?p s3 \<and> changed c s0 s3" by (auto simp: ensures_def)
      have all: "apply_change sr c s0 = (case r3 of Crashed \<Rightarrow> (Crashed, s3) | Failed e \<Rightarrow> undo sr e ?p s3 | Value _ \<Rightarrow> finish sr ?p s3)"
        using plan Value pw prep prepared com by (simp add: apply_change_def Let_def split: outcome.split)
      have g: "good u units c s0 s3" using s3(1) midway_good by blast
      have "good u units c s0 s' \<and> r \<noteq> Value ()" if "undo sr e ?p s3 = (r, s')" for e
        using s3(1) undo_good[OF _ mem' _ assms(3) that] by auto
      with all assms(4) s3(2) g finish_good[of u units c s0 ?p s3 sr r s'] show ?thesis by (cases r3) simp_all
    qed
  qed
qed

subsection \<open>Recovering\<close>

definition with_budget :: "nat \<Rightarrow> system \<Rightarrow> system" where
  "with_budget n s = s\<lparr>sy_machine := (sy_machine s)\<lparr>mc_budget := n\<rparr>\<rparr>"

definition recoveries :: "(surroundings \<times> nat) list \<Rightarrow> system \<Rightarrow> system" where
  "recoveries rs s = fold (\<lambda>(sr, n) s. snd (recover_pending sr (with_budget n s))) rs s"

lemma with_budget_good [simp]: "good u units c s0 (with_budget n s) = good u units c s0 s"
  by (simp add: with_budget_def good_def point_ok_def half_way_def lists_known_def changed_def put_back_def not_begun_def split: option.split)

lemma with_budget_same [simp]: "sy_pending (with_budget n s) = sy_pending s" "changed c s0 (with_budget n s) = changed c s0 s"
  by (simp_all add: with_budget_def changed_def)

lemma recover_good:
  assumes "good u units c s0 s" "wants_ok u units c s0 sr"
  shows "ensures (recover_pending sr s) (good u units c s0) (\<lambda>_ s'. sy_pending s' = None)"
proof (cases "sy_pending s")
  case None
  with assms(1) show ?thesis by (simp add: recover_pending_def)
next
  case (Some p)
  with assms(1) have p: "safe_disk u units (sy_machine s)" "half_way c s0 p s" by (simp_all add: good_def point_ok_def)
  show ?thesis
  proof (cases "pd_done p")
    case True
    then have "good u units c s0 (sy_pending_update (\<lambda>_. None) (spend s))"
      using p by (auto simp: good_def point_ok_def half_way_def changed_def)
    then have "ensures (remove_pending sr s) (good u units c s0) (\<lambda>_ s'. sy_pending s' = None)"
      unfolding remove_pending_def using assms(1) by (intro ensures_sys_effect) auto
    then have "ensures (andthen (remove_pending sr s) (\<lambda>_ s. (Value [], s))) (good u units c s0) (\<lambda>_ s'. sy_pending s' = None)"
      by (rule ensures_andthen) simp
    with Some True show ?thesis by (simp add: recover_pending_def)
  next
    case False
    then have "midway u units c s0 p s" "in_memory c s0 p" "\<not> pd_committing p \<longrightarrow> lists_known c s0 s"
      using p by (auto simp: midway_def half_way_def in_memory_def)
    from revert_back[OF this assms(2)] Some False show ?thesis by (auto simp: recover_pending_def ensures_def)
  qed
qed

lemma recoveries_good:
  assumes "good u units c s0 s" "\<forall>sr\<in>fst ` set rs. wants_ok u units c s0 sr"
  shows "good u units c s0 (recoveries rs s)"
  using assms
proof (induction rs arbitrary: s)
  case (Cons x rs)
  obtain sr n where x: "x = (sr, n)" by fastforce
  with Cons.prems have "good u units c s0 (snd (recover_pending sr (with_budget n s)))"
    using recover_good[of u units c s0 "with_budget n s" sr] by (simp add: ensures_def)
  with Cons x show ?case by (simp add: recoveries_def)
qed (simp add: recoveries_def)

lemma recoveries_nothing: "sy_pending s = None \<Longrightarrow> changed c s0 s \<Longrightarrow> sy_pending (recoveries rs s) = None \<and> changed c s0 (recoveries rs s)"
  by (induction rs arbitrary: s) (auto simp: recoveries_def recover_pending_def)


text \<open>What the user edits after a crash that came before the commit stays.\<close>

lemma user_edits_kept:
  assumes "\<not> pd_committing p" "fst (sy_lists s) \<noteq> fst (pd_started p)" "restore_lists sr p s = (Value kept, s')"
  shows "fst (sy_lists s') = fst (sy_lists s) \<and> ListWrite \<in> set kept"
  using assms
  by (auto simp: restore_lists_def restore_list_def andthen_def sys_effect_def spend_def split_beta split: outcome.splits if_splits prod.splits)

subsection \<open>Examples\<close>

text \<open>Generation 1 wants a font, and a change to the staged generation 2 drops it and edits both lists.\<close>

definition some_surroundings :: surroundings where
  "some_surroundings = \<lparr>sr_fails = (\<lambda>_ _. False), sr_faults = (\<lambda>_. no_faults),
     sr_wanted = (\<lambda>n. if n = 1 then [plain_item ''font'' ''/oku/store/f'' ''/home/fonts/f''] else []),
     sr_contents = (\<lambda>_. Map.empty), sr_agreed = False\<rparr>"

definition some_change :: change where
  "some_change = \<lparr>ch_to = 2, ch_staged = True, ch_system = False, ch_project = False, ch_before = None,
     ch_commit = [EditList (\<lambda>_. Some ''list 2''), EditLock (\<lambda>_. Some ''lock 2'')]\<rparr>"

definition some_system :: "nat \<Rightarrow> system" where
  "some_system n =
     \<lparr>sy_machine = (snd (sync no_faults Map.empty (sr_wanted some_surroundings 1) (some_machine\<lparr>mc_budget := 9\<rparr>)))\<lparr>mc_budget := n\<rparr>,
      sy_lists = (Some ''list 1'', None), sy_current = 1, sy_gens = [1, 2], sy_pending = None\<rparr>"

lemmas some_change_defs = some_surroundings_def some_change_def some_system_def

lemma some_system_safe: "safe_disk some_machine {} (sy_machine (some_system n))"
proof -
  have "safe_disk some_machine {} (some_machine\<lparr>mc_budget := 9\<rparr>)" 
    using safe_start[of some_machine "{}"] by (simp add: some_machine_def[THEN arg_cong, of mc_ledger])
  moreover have "wanted_ok some_machine {} (sr_wanted some_surroundings 1)" by code_simp
  ultimately show ?thesis
    using sync_safe[of some_machine "{}" "some_machine\<lparr>mc_budget := 9\<rparr>" "sr_wanted some_surroundings 1" no_faults Map.empty]
    by (simp add: ensures_def some_system_def)
qed

text \<open>The change ends after the first edit of its commit, the first recovery ends after one effect, and the second succeeds.\<close>

definition crashed_run :: system where
  "crashed_run = recoveries [(some_surroundings, 1)] (snd (apply_change some_surroundings some_change (some_system 6)))"

lemma crashed_run_recovers:
  "fst (recover_pending some_surroundings (with_budget 20 crashed_run)) = Value []"
  "sy_lists crashed_run = (Some ''list 1'', None)"
  "sy_lists (snd (apply_change some_surroundings some_change (some_system 6))) = (Some ''list 2'', None)"
  by code_simp+


text \<open>
  The exposed items are not put back like that. The change removes the font and ends in its commit, the first recovery
  ends between the ledger and the font, and the second succeeds: generation 1 is active, nothing is pending, and its font
  is not there.
\<close>
lemma recovered_without_font:
  "let s = recoveries [(some_surroundings, 4)] (snd (apply_change some_surroundings some_change (some_system 6)));
       s' = snd (recover_pending some_surroundings (with_budget 20 s))
   in mc_paths (sy_machine (some_system 6)) ''/home/fonts/f'' = Some (Copied ''/oku/store/f'')
      \<and> sy_pending s' = None \<and> sy_current s' = 1 \<and> map it_target (mc_ledger (sy_machine s')) = [''/home/fonts/f'']
      \<and> mc_paths (sy_machine s') ''/home/fonts/f'' = None"
  by code_simp

end
