(* ===== verification/Expose_System.thy ===== *)
theory Expose_System
  imports Expose Manifest_Parts
begin

text \<open>
  The change that oku hands to itself as root: \<open>applySystem\<close> of \<open>internal/cli/expose.go\<close>. What it asks the system to do
  is a value, and the place of a service's unit file, \<open>Manager.File\<close>, is an argument.
\<close>

datatype system_error = BadServiceName string | WrongServiceFile string | OutsideSystem string | UnknownAction string

datatype system_effect =
    InstallService string bool
  | RemoveService string
  | StartService string
  | StopService string
  | ServiceLogs string
  | PlaceAsRoot item
  | RemoveAsRoot item
  | RemoveEmptyDir string

definition apply_service :: "string \<Rightarrow> item \<Rightarrow> system_error + system_effect list" where
  "apply_service action i =
     (if action = ''place'' then Inr [InstallService (it_name i) (it_enabled i)]
      else if action = ''remove'' then Inr [RemoveService (it_name i)]
      else if action = ''start'' then Inr [StartService (it_name i)]
      else if action = ''stop'' then Inr [StopService (it_name i)]
      else if action = ''logs'' then Inr [ServiceLogs (it_name i)]
      else Inl (UnknownAction action))"

definition apply_system ::
  "(string \<Rightarrow> string) \<Rightarrow> string \<Rightarrow> string \<Rightarrow> string \<Rightarrow> item \<Rightarrow> system_error + system_effect list" where
  "apply_system service_file apps fonts action i =
     (if it_kind i = ''service''
      then (if \<not> rx_match name_re (it_name i) then Inl (BadServiceName (it_name i))
            else if service_file (it_name i) \<noteq> it_target i then Inl (WrongServiceFile (it_target i))
            else apply_service action i)
      else if path_clean (it_target i) \<noteq> it_target i
              \<or> path_dir (it_target i) \<noteq> apps \<and> path_dir (it_target i) \<noteq> fonts
      then Inl (OutsideSystem (it_target i))
      else if action = ''place'' then Inr [PlaceAsRoot i]
      else if action = ''remove''
      then Inr (RemoveAsRoot i # (if path_base fonts = ''oku'' then [RemoveEmptyDir fonts] else []))
      else Inl (UnknownAction action))"

subsection \<open>Where a change as root can write\<close>

lemma path_dir_child:
  assumes "path_clean t = t" "path_dir t = d" "is_abs d" "path_clean d = d" "d \<noteq> ''/''"
  shows "\<exists>b. t = d @ ''/'' @ b \<and> plain_names [b]"
proof -
  define pre where "pre = rev (dropWhile (\<lambda>c. c \<noteq> CHR ''/'') (rev t))"
  have pd: "path_clean pre = d" using assms(2) by (simp add: path_dir_def pre_def)
  have "\<exists>ys. t = pre @ ys"
    unfolding pre_def by (metis append_Nil2 rev_append rev_rev_ident takeWhile_dropWhile_id)
  moreover have "is_abs pre"
    using pd assms(3) is_abs_render[OF clean_elems_stack[of pre]]
    by (auto simp: path_clean_def is_abs_def has_prefix_iff split: if_splits)
  ultimately have abs: "is_abs t" by (auto simp: is_abs_def has_prefix_iff)
  obtain es where es: "t = render_path True es" "plain_names es" using clean_path_render[OF assms(1) abs] by blast
  show ?thesis
  proof (cases es rule: rev_cases)
    case Nil
    then have "pre = ''/''" using es by (simp add: pre_def render_path_def)
    with pd assms(5) show ?thesis using path_clean_render[of True "[]"] by (simp add: render_path_def)
  next
    case (snoc ds b)
    define d0 where "d0 = (if ds = [] then [] else render_path True ds)"
    have names: "plain_names ds" "plain_names [b]" using es(2) snoc by (auto simp: plain_names_def)
    have t: "t = d0 @ ''/'' @ b" using es(1) snoc by (cases "ds = []") (simp_all add: d0_def render_path_def join_snoc)
    have "CHR ''/'' \<notin> set b" using names(2) by (simp add: plain_names_def)
    then have "dropWhile (\<lambda>c. c \<noteq> CHR ''/'') (rev b @ CHR ''/'' # rev d0) = CHR ''/'' # rev d0"
      by (subst dropWhile_append2) auto
    then have "pre = d0 @ ''/''" by (simp add: pre_def t)
    moreover have "ds \<noteq> []"
    proof
      assume "ds = []"
      then have "pre = ''/''" using calculation by (simp add: d0_def)
      with pd assms(5) show False using path_clean_render[of True "[]"] by (simp add: render_path_def)
    qed
    moreover have "path_clean (render_path True ds @ ''/'') = render_path True ds" if "ds \<noteq> []"
      using clean_slash[OF names(1) that] .
    ultimately have "d0 = d" using pd by (simp add: d0_def)
    with t names(2) show ?thesis by blast
  qed
qed


text \<open>A target that leaves the directory is refused.\<close>

definition linux_font :: "string \<Rightarrow> item" where
  "linux_font target = \<lparr>it_kind = ''font'', it_package = ''p'', it_source = ''/s'', it_target = target, it_name = [],
     it_enabled = False, it_system = True, it_user = [], it_hash = [], it_domain = [], it_key = [], it_prior = [],
     it_had_prior = False, it_dir = 0\<rparr>"

lemma traversal_refused:
  "apply_system (\<lambda>n. n) ''/a/apps'' ''/a/fonts/oku'' ''remove'' (linux_font ''/a/apps/../x'') = Inl (OutsideSystem ''/a/apps/../x'')"
  by code_simp


end
