(* ===== verification/Gc.thy ===== *)
theory Gc
  imports Profile Expose Go_Path
begin

text \<open>
  What \<open>oku gc\<close> deletes from the store and why: \<open>runGC\<close> of \<open>internal/cli/gc.go\<close> with \<open>gc_projects.go\<close>, \<open>roots.go\<close>,
  \<open>storeHolders\<close> of \<open>du.go\<close>, and \<open>Unreferenced\<close>, \<open>Holding\<close> and \<open>Remove\<close> of \<open>internal/store/store.go\<close>. The sharing of identical
  files, the temporary directories and the caches of downloads and answers are left out, and so are sizes. What \<open>os.Stat\<close>
  finds outside oku's directories and which processes run are arguments.
\<close>

subsection \<open>State\<close>

datatype stat_result = Present | Missing | Forbidden | Unknown

record named_profile =
  np_name :: string
  np_project :: string
  np_profile :: profile

text \<open>A store is its directory and the entries in it, each with whether it is a directory.\<close>

record store =
  so_dir :: string
  so_entries :: "(string \<times> bool) list"

record gc_world =
  gw_profiles :: "named_profile list"
  gw_stores :: "store list"
  gw_ledger :: "item list"
  gw_sessions :: "(string \<times> string) list"
  gw_allowed :: "string list"
  gw_pending :: bool

datatype gc_error =
    ChangePending
  | BadProfile profile_error
  | NotStorePath string

record gc_env =
  ge_stat :: "string \<Rightarrow> stat_result"
  ge_running :: "int \<Rightarrow> bool"
  ge_project_name :: "string \<Rightarrow> string"

record gc_report =
  gr_projects :: "string list"
  gr_generations :: "(string \<times> int) list"
  gr_paths :: "string list"

subsection \<open>Sessions, and what the ledger leads into\<close>

text \<open>\<open>holdSession\<close> and \<open>sessionRoots\<close>, which deletes the record of a process that ended.\<close>

definition session_record :: "string list \<Rightarrow> string" where
  "session_record paths = join [CHR 0x0A] paths @ [CHR 0x0A]"

definition session_runs :: "gc_env \<Rightarrow> string \<times> string \<Rightarrow> bool" where
  "session_runs env s = (case atoi (fst s) of None \<Rightarrow> False | Some pid \<Rightarrow> ge_running env pid)"

definition session_roots :: "gc_env \<Rightarrow> gc_world \<Rightarrow> string list \<times> gc_world" where
  "session_roots env w =
     (let live = filter (session_runs env) (gw_sessions w)
      in (concat (map (\<lambda>s. Host.fields (snd s)) live), w\<lparr>gw_sessions := live\<rparr>))"

text \<open>\<open>Holding\<close>: the store path that a file is in.\<close>

definition holding :: "string \<Rightarrow> string \<Rightarrow> string option" where
  "holding dir file =
     (case path_rel dir file of
        None \<Rightarrow> None
      | Some rel \<Rightarrow>
          if \<not> is_local_path rel then None
          else Some (path_join [dir, case cut_char (CHR ''/'') rel of None \<Rightarrow> rel | Some (first, _) \<Rightarrow> first]))"

definition all_generations :: "named_profile list \<Rightarrow> (gc_error, generation list) res" where
  "all_generations ps =
     (case map_res (\<lambda>p. generations (np_profile p)) ps of Inl e \<Rightarrow> Inl (BadProfile e) | Inr gs \<Rightarrow> Inr (concat gs))"

text \<open>A later package of the same store path replaces the closure of an earlier one, as in the Go map.\<close>

definition closures :: "generation list \<Rightarrow> string \<rightharpoonup> string list" where
  "closures gens = map_of (rev (map (\<lambda>p. (g_store p, g_closure p)) (concat (map n_packages gens))))"

definition exposed_roots :: "gc_world \<Rightarrow> (gc_error, string list) res" where
  "exposed_roots w =
     and_then (all_generations (gw_profiles w)) (\<lambda>gens.
       Inr (concat (map (\<lambda>i. concat (map (\<lambda>st.
              case holding (so_dir st) (it_source i) of
                None \<Rightarrow> []
              | Some at \<Rightarrow> at # (case closures gens at of None \<Rightarrow> [] | Some ps \<Rightarrow> ps)) (gw_stores w))) (gw_ledger w))))"

definition live_roots :: "gc_env \<Rightarrow> gc_world \<Rightarrow> (gc_error, string list) res \<times> gc_world" where
  "live_roots env w =
     (case exposed_roots w of
        Inl e \<Rightarrow> (Inl e, w)
      | Inr exposed \<Rightarrow> (let (sessions, w') = session_roots env w in (Inr (exposed @ sessions), w')))"

subsection \<open>Projects that are gone\<close>

fun nearest_present :: "(string \<Rightarrow> stat_result) \<Rightarrow> nat \<Rightarrow> string \<Rightarrow> string" where
  "nearest_present stat 0 at = at"
| "nearest_present stat (Suc n) at =
     (if stat at = Present \<or> path_dir at = at then at else nearest_present stat n (path_dir at))"

definition unmounted :: "(string \<Rightarrow> stat_result) \<Rightarrow> string \<Rightarrow> bool" where
  "unmounted stat dir =
     (let at = nearest_present stat (length (path_clean dir)) (path_clean dir);
          parent = path_dir at
      in at \<in> set [''/Volumes'', ''/media'', ''/run/media'', ''/mnt'']
         \<or> (parent = ''/media'' \<or> parent = ''/run/media'') \<and> dir \<noteq> at)"

definition list_name :: string where
  "list_name = ''oku.toml''"

datatype project_state = Kept | Gone | Away | Unread | NoFolder

definition project_dir :: "gc_env \<Rightarrow> string list \<Rightarrow> named_profile \<Rightarrow> string" where
  "project_dir env allowed p =
     (if np_project p \<noteq> [] then np_project p
      else (case find (\<lambda>d. ge_project_name env d = np_name p) (rev allowed) of None \<Rightarrow> [] | Some d \<Rightarrow> d))"

definition project_state :: "gc_env \<Rightarrow> string \<Rightarrow> project_state" where
  "project_state env dir =
     (let stat = ge_stat env
      in if dir = [] then NoFolder
         else if unmounted stat dir then Away
         else if stat dir = Missing then Gone
         else if stat (path_join [dir, list_name]) = Missing then Gone
         else if stat (path_join [dir, list_name]) = Forbidden then Unread
         else Kept)"

definition is_gone :: "gc_env \<Rightarrow> string list \<Rightarrow> named_profile \<Rightarrow> bool" where
  "is_gone env allowed p \<longleftrightarrow>
     has_prefix (np_name p) ''project-'' \<and> project_state env (project_dir env allowed p) = Gone"

definition remove_gone_projects :: "gc_env \<Rightarrow> bool \<Rightarrow> gc_world \<Rightarrow> (gc_error, named_profile list) res \<times> gc_world" where
  "remove_gone_projects env dry w =
     (let gone = filter (is_gone env (gw_allowed w)) (gw_profiles w);
          dirs = map (project_dir env (gw_allowed w)) gone
      in case all_generations gone of
           Inl e \<Rightarrow> (Inl e, w)
         | Inr _ \<Rightarrow>
             (Inr gone,
              if dry then w
              else w\<lparr>gw_profiles := filter (\<lambda>p. \<not> is_gone env (gw_allowed w) p) (gw_profiles w),
                     gw_allowed := filter (\<lambda>d. d \<notin> set dirs) (gw_allowed w)\<rparr>))"

subsection \<open>What is used\<close>

text \<open>\<open>storeHolders\<close>, of which gc uses the paths only.\<close>

definition gen_paths :: "store list \<Rightarrow> generation \<Rightarrow> string list" where
  "gen_paths stores g =
     concat (map (\<lambda>p. g_store p # g_closure p) (n_packages g))
     @ concat (map (\<lambda>f. concat (map (\<lambda>st. case holding (so_dir st) (f_link f) of None \<Rightarrow> [] | Some at \<Rightarrow> [at]) stores)) (n_files g))"

definition profile_paths :: "store list \<Rightarrow> named_profile \<times> int list \<Rightarrow> (profile_error, string list) res" where
  "profile_paths stores pd =
     and_then (generations (np_profile (fst pd))) (\<lambda>gens.
       Inr (concat (map (gen_paths stores) (filter (\<lambda>g. n_number g \<notin> set (snd pd)) gens))))"

definition store_holders :: "store list \<Rightarrow> (named_profile \<times> int list) list \<Rightarrow> string list \<Rightarrow> (gc_error, string list) res" where
  "store_holders stores pruned roots =
     (case map_res (profile_paths stores) pruned of Inl e \<Rightarrow> Inl (BadProfile e) | Inr ps \<Rightarrow> Inr (roots @ concat ps))"

text \<open>\<open>Unreferenced\<close> and \<open>Remove\<close>.\<close>

definition links_dir :: string where
  "links_dir = ''.links''"

definition path_in :: "store \<Rightarrow> string \<Rightarrow> string" where
  "path_in st name = path_join [so_dir st, name]"

definition is_unused :: "string list \<Rightarrow> store \<Rightarrow> string \<times> bool \<Rightarrow> bool" where
  "is_unused used st e \<longleftrightarrow>
     snd e \<and> fst e \<noteq> links_dir \<and> path_in st (fst e) \<notin> set used \<and> trim_suffix (path_in st (fst e)) ''.old'' \<notin> set used"

definition unreferenced :: "string list \<Rightarrow> store \<Rightarrow> string list" where
  "unreferenced used st = map (\<lambda>e. path_in st (fst e)) (filter (is_unused used st) (so_entries st))"

definition remove_path :: "string \<Rightarrow> store \<Rightarrow> (gc_error, store) res" where
  "remove_path path st =
     (if path_dir path \<noteq> so_dir st then Inl (NotStorePath path)
      else Inr (st\<lparr>so_entries := filter (\<lambda>e. path_in st (fst e) \<noteq> path) (so_entries st)\<rparr>))"

fun remove_paths :: "string list \<Rightarrow> store \<Rightarrow> gc_error option \<times> store" where
  "remove_paths [] st = (None, st)"
| "remove_paths (p # ps) st = (case remove_path p st of Inl e \<Rightarrow> (Some e, st) | Inr st' \<Rightarrow> remove_paths ps st')"

fun sweep :: "bool \<Rightarrow> string list \<Rightarrow> store list \<Rightarrow> (gc_error, string list) res \<times> store list" where
  "sweep dry used [] = (Inr [], [])"
| "sweep dry used (st # rest) =
     (let found = unreferenced used st;
          (err, st') = (if dry then (None, st) else remove_paths found st)
      in case err of
           Some e \<Rightarrow> (Inl e, st' # rest)
         | None \<Rightarrow>
             (let (r, rest') = sweep dry used rest
              in (and_then r (\<lambda>paths. Inr (found @ paths)), st' # rest')))"

subsection \<open>gc\<close>

definition no_retention :: "retention \<Rightarrow> bool" where
  "no_retention r \<longleftrightarrow> \<not> (r_keep r > 0 \<or> r_since r \<noteq> zero_time)"

text \<open>The loop over the profiles ends at the first that cannot be read.\<close>

fun prune_profiles :: "retention \<Rightarrow> bool \<Rightarrow> named_profile list \<Rightarrow> (gc_error, (named_profile \<times> int list) list) res \<times> named_profile list" where
  "prune_profiles r dry [] = (Inr [], [])"
| "prune_profiles r dry (p # ps) =
     (if no_retention r then (Inr (map (\<lambda>q. (q, [])) (p # ps)), p # ps)
      else case prune r dry (np_profile p) of
             (Inl e, _) \<Rightarrow> (Inl (BadProfile e), p # ps)
           | (Inr ns, q) \<Rightarrow>
               (let p' = p\<lparr>np_profile := q\<rparr>; (rest, ps') = prune_profiles r dry ps
                in (and_then rest (\<lambda>l. Inr ((p', ns) # l)), p' # ps')))"

definition run_gc :: "gc_env \<Rightarrow> retention \<Rightarrow> bool \<Rightarrow> gc_world \<Rightarrow> (gc_error, gc_report) res \<times> gc_world" where
  "run_gc env r dry w =
     (if gw_pending w then (Inl ChangePending, w)
      else case live_roots env w of
        (Inl e, w1) \<Rightarrow> (Inl e, w1)
      | (Inr roots, w1) \<Rightarrow>
      (case remove_gone_projects env dry w1 of
        (Inl e, w2) \<Rightarrow> (Inl e, w2)
      | (Inr gone, w2) \<Rightarrow>
      (let rest = filter (\<lambda>p. \<not> is_gone env (gw_allowed w1) p) (gw_profiles w1);
           clean = (if dry then rest else map (np_profile_update drop_unfinished) rest);
           (pruned, left) = prune_profiles r dry clean;
           w3 = (if dry then w2 else w2\<lparr>gw_profiles := left\<rparr>)
       in case pruned of
            Inl e \<Rightarrow> (Inl e, w3)
          | Inr pruned \<Rightarrow>
       (case store_holders (gw_stores w3) pruned roots of
          Inl e \<Rightarrow> (Inl e, w3)
        | Inr used \<Rightarrow>
       (case sweep dry used (gw_stores w3) of
          (Inl e, stores) \<Rightarrow> (Inl e, w3\<lparr>gw_stores := stores\<rparr>)
        | (Inr paths, stores) \<Rightarrow>
            (Inr \<lparr>gr_projects = map (project_dir env (gw_allowed w1)) gone,
                  gr_generations = concat (map (\<lambda>(p, ns). map (\<lambda>n. (np_name p, n)) ns) pruned), gr_paths = paths\<rparr>,
             w3\<lparr>gw_stores := stores\<rparr>))))))"

end
