(* ===== verification/Gc_Props.thy ===== *)
theory Gc_Props
  imports Gc Profile_Props
begin

text \<open>
  gc deletes exactly what nothing uses: what the generations that stay, the ledger with its closures and the running sessions
  name is kept, everything else in the store goes, and a dry run reports what a real run does.
\<close>

subsection \<open>Sessions\<close>

definition white :: "char \<Rightarrow> bool" where
  "white c \<longleftrightarrow> byte c \<in> {9, 10, 11, 12, 13, 32}"

lemma fields_between:
  assumes "p \<noteq> []" "\<forall>c\<in>set p. \<not> white c" "white c" "a = [] \<or> white (last a)"
  shows "p \<in> set (Host.fields (a @ p @ c # b))"
proof -
  let ?f = "\<lambda>c. if byte c \<in> {9, 10, 11, 12, 13, 32} then CHR '' '' else c"
  have sp: "byte (CHR '' '') = 32" by code_simp
  have p: "map ?f p = p" using assms(2) by (intro map_idI) (auto simp: white_def)
  have no: "CHR '' '' \<notin> set p" using assms(2) sp by (auto simp: white_def)
  have single: "split_char (CHR '' '') p = [p]" using split_char_join[of "[p]" "CHR '' ''"] no by simp
  have c: "map ?f (p @ c # b) = p @ CHR '' '' # map ?f b" using assms(3) p by (simp add: white_def)
  have tail: "p \<in> set (split_char (CHR '' '') (map ?f (p @ c # b)))"
    unfolding c split_char_sep single by simp
  have "p \<in> set (split_char (CHR '' '') (map ?f (a @ p @ c # b)))"
  proof (cases a rule: rev_cases)
    case Nil
    with tail show ?thesis by simp
  next
    case (snoc a' x)
    then have e: "map ?f (a @ p @ c # b) = map ?f a' @ CHR '' '' # map ?f (p @ c # b)" using assms(4) by (simp add: white_def)
    show ?thesis unfolding e split_char_sep set_append using tail by (rule UnI2)
  qed
  with assms(1) show ?thesis by (simp add: Host.fields_def)
qed

lemma join_member:
  "p \<in> set ps \<Longrightarrow> \<exists>a b. join [c] ps @ [c] = a @ p @ c # b \<and> (a = [] \<or> last a = c)"
proof (induction ps)
  case (Cons q ps)
  show ?case
  proof (cases "p = q")
    case True
    have "join [c] (q # ps) @ [c] = [] @ p @ c # (if ps = [] then [] else join [c] ps @ [c])" using True by (cases ps) auto
    then show ?thesis by blast
  next
    case False
    with Cons obtain a b where ab: "join [c] ps @ [c] = a @ p @ c # b" "a = [] \<or> last a = c" by auto
    from False Cons.prems have "ps \<noteq> []" by auto
    then have "join [c] (q # ps) @ [c] = (q @ c # a) @ p @ c # b" using ab by (cases ps) auto
    with ab(2) show ?thesis by (metis append_is_Nil_conv last.simps last_appendR list.distinct(1))
  qed
qed simp

text \<open>A path without white space is read back from the record that names it.\<close>

lemma session_path_read:
  assumes "path \<in> set paths" "path \<noteq> []" "\<forall>c\<in>set path. \<not> white c"
  shows "path \<in> set (Host.fields (session_record paths))"
proof -
  have nl: "white (CHR 0x0A)" by code_simp
  obtain a b where "session_record paths = a @ path @ CHR 0x0A # b" "a = [] \<or> last a = CHR 0x0A"
    using join_member[OF assms(1)] unfolding session_record_def by blast
  with fields_between[OF assms(2,3) nl, of a b] nl show ?thesis by auto
qed

subsection \<open>Generations that stay\<close>

definition gens_list :: "profile \<Rightarrow> generation list" where
  "gens_list p = (case generations p of Inl _ \<Rightarrow> [] | Inr gs \<Rightarrow> gs)"

lemma gens_list_ok: "profile_ok p \<Longrightarrow> generations p = Inr (gens_list p)"
  by (simp add: gens_list_def generations_ok)

lemma generations_drop_unfinished:
  assumes "profile_ok p"
  shows "generations (drop_unfinished p) = generations p"
proof -
  have "filter (\<lambda>nd. is_gen (fst nd)) (pr_dirs (drop_unfinished p)) = filter (\<lambda>nd. is_gen (fst nd)) (pr_dirs p)"
  proof -
    have "\<not> unfinished nd" if "nd \<in> set (pr_dirs p)" "is_gen (fst nd)" for nd
      using gen_okD[OF assms that] that(2) by (auto simp: gen_ok_def unfinished_def)
    then show ?thesis by (auto simp: drop_unfinished_def intro!: filter_cong)
  qed
  moreover have "gen_of (drop_unfinished p) = gen_of p" by (simp add: fun_eq_iff gen_of_def drop_unfinished_def)
  ultimately show ?thesis using generations_ok[OF assms] generations_ok[OF profile_ok_drop_unfinished[OF assms]] by simp
qed

lemma all_generations_ok:
  "\<forall>p\<in>set ps. profile_ok (np_profile p) \<Longrightarrow> all_generations ps = Inr (concat (map (\<lambda>p. gens_list (np_profile p)) ps))"
proof -
  assume ok: "\<forall>p\<in>set ps. profile_ok (np_profile p)"
  have "map_res (\<lambda>p. generations (np_profile p)) ps = Inr (map (\<lambda>p. gens_list (np_profile p)) ps)"
    unfolding map_res_Inr using ok gens_list_ok by (auto simp: list_all2_map2 list.rel_refl_strong intro!: list.rel_refl_strong)
  then show ?thesis by (simp add: all_generations_def)
qed

definition gone_numbers :: "retention \<Rightarrow> profile \<Rightarrow> int list" where
  "gone_numbers r p = (if no_retention r then [] else prune_numbers r (gens_list p))"

definition pruned_to :: "retention \<Rightarrow> bool \<Rightarrow> named_profile \<Rightarrow> named_profile \<Rightarrow> bool" where
  "pruned_to r dry p p' \<longleftrightarrow> np_name p' = np_name p \<and> profile_ok (np_profile p') \<and> (dry \<longrightarrow> p' = p)
     \<and> {g \<in> set (gens_list (np_profile p')). n_number g \<notin> set (gone_numbers r (np_profile p))}
        = {g \<in> set (gens_list (np_profile p)). n_number g \<notin> set (gone_numbers r (np_profile p))}
     \<and> (\<not> dry \<longrightarrow> (\<forall>g\<in>set (gens_list (np_profile p')). n_number g \<notin> set (gone_numbers r (np_profile p))))"

lemma prune_profiles_spec:
  assumes "\<forall>p\<in>set ps. profile_ok (np_profile p)"
  shows "\<exists>ps'. prune_profiles r dry ps = (Inr (zip ps' (map (\<lambda>p. gone_numbers r (np_profile p)) ps)), ps')
    \<and> list_all2 (pruned_to r dry) ps ps'"
  using assms
proof (induction ps)
  case (Cons p ps)
  show ?case
  proof (cases "no_retention r")
    case True
    have zip: "map (\<lambda>q. (q, [])) qs = zip qs (map (\<lambda>_. []) qs)" for qs :: "named_profile list"
      by (induction qs) simp_all
    show ?thesis
      using True Cons.prems zip[of ps]
      by (intro exI[of _ "p # ps"]) (auto simp: pruned_to_def gone_numbers_def intro!: list.rel_refl_strong)
  next
    case False
    have ok: "profile_ok (np_profile p)" using Cons.prems by simp
    obtain ps' where ps': "prune_profiles r dry ps = (Inr (zip ps' (map (\<lambda>p. gone_numbers r (np_profile p)) ps)), ps')"
      and rel: "list_all2 (pruned_to r dry) ps ps'"
      using Cons by auto
    obtain res q where q: "prune r dry (np_profile p) = (res, q)" by fastforce
    from prune_result[OF ok gens_list_ok[OF ok] q] obtain gs'
      where res: "res = Inr (gone_numbers r (np_profile p))" and gs': "generations q = Inr gs'"
        "set gs' = (if dry then set (gens_list (np_profile p))
          else {g \<in> set (gens_list (np_profile p)). n_number g \<notin> set (gone_numbers r (np_profile p))})"
        and same: "dry \<longrightarrow> q = np_profile p"
      using False by (auto simp: gone_numbers_def)
    have gl: "gens_list q = gs'" using gs'(1) by (simp add: gens_list_def)
    have qok: "profile_ok q" using profile_ok_prune[OF ok q] .
    have "prune_profiles r dry (p # ps) =
      (Inr ((p\<lparr>np_profile := q\<rparr>, gone_numbers r (np_profile p)) # zip ps' (map (\<lambda>p. gone_numbers r (np_profile p)) ps)), p\<lparr>np_profile := q\<rparr> # ps')"
      using False q res ps' by (simp add: Let_def)
    moreover have "pruned_to r dry p (p\<lparr>np_profile := q\<rparr>)"
      using gl gs'(2) same qok by (auto simp: pruned_to_def split: if_splits)
    ultimately show ?thesis using rel by (intro exI[of _ "p\<lparr>np_profile := q\<rparr> # ps'"]) simp
  qed
qed simp

subsection \<open>What is used\<close>

definition gen_uses :: "store list \<Rightarrow> generation \<Rightarrow> string \<Rightarrow> bool" where
  "gen_uses stores g path \<longleftrightarrow>
     (\<exists>p\<in>set (n_packages g). path = g_store p \<or> path \<in> set (g_closure p))
     \<or> (\<exists>f\<in>set (n_files g). \<exists>st\<in>set stores. holding (so_dir st) (f_link f) = Some path)"

lemma gen_paths_uses: "path \<in> set (gen_paths stores g) \<longleftrightarrow> gen_uses stores g path"
proof -
  have "path \<in> set (case x of None \<Rightarrow> [] | Some at \<Rightarrow> [at]) \<longleftrightarrow> x = Some path" for x by (cases x) auto
  then show ?thesis by (auto simp: gen_paths_def gen_uses_def)
qed

text \<open>A generation that stays: its project is there and the retention keeps it.\<close>

definition surviving :: "gc_env \<Rightarrow> retention \<Rightarrow> gc_world \<Rightarrow> generation \<Rightarrow> bool" where
  "surviving env r w g \<longleftrightarrow>
     (\<exists>p\<in>set (gw_profiles w). \<not> is_gone env (gw_allowed w) p \<and> g \<in> set (gens_list (np_profile p))
        \<and> n_number g \<notin> set (gone_numbers r (np_profile p)))"

text \<open>What the ledger leads into, with the closure that a generation records for it.\<close>

definition ledger_uses :: "gc_world \<Rightarrow> string \<Rightarrow> bool" where
  "ledger_uses w path \<longleftrightarrow>
     (\<exists>i\<in>set (gw_ledger w). \<exists>st\<in>set (gw_stores w). \<exists>at. holding (so_dir st) (it_source i) = Some at
        \<and> (path = at \<or> (\<exists>ps. closures (concat (map (\<lambda>p. gens_list (np_profile p)) (gw_profiles w))) at = Some ps \<and> path \<in> set ps)))"

definition session_uses :: "gc_env \<Rightarrow> gc_world \<Rightarrow> string \<Rightarrow> bool" where
  "session_uses env w path \<longleftrightarrow> (\<exists>s\<in>set (gw_sessions w). session_runs env s \<and> path \<in> set (Host.fields (snd s)))"

definition in_use :: "gc_env \<Rightarrow> retention \<Rightarrow> gc_world \<Rightarrow> string \<Rightarrow> bool" where
  "in_use env r w path \<longleftrightarrow> (\<exists>g. surviving env r w g \<and> gen_uses (gw_stores w) g path) \<or> ledger_uses w path \<or> session_uses env w path"

definition profiles_ok :: "gc_world \<Rightarrow> bool" where
  "profiles_ok w \<longleftrightarrow> (\<forall>p\<in>set (gw_profiles w). profile_ok (np_profile p))"

definition with_live_sessions :: "gc_env \<Rightarrow> gc_world \<Rightarrow> gc_world" where
  "with_live_sessions env w = w\<lparr>gw_sessions := filter (session_runs env) (gw_sessions w)\<rparr>"

lemma live_roots_spec:
  assumes "profiles_ok w"
  shows "\<exists>roots. live_roots env w = (Inr roots, with_live_sessions env w)
    \<and> set roots = {path. ledger_uses w path \<or> session_uses env w path}"
proof -
  have g: "all_generations (gw_profiles w) = Inr (concat (map (\<lambda>p. gens_list (np_profile p)) (gw_profiles w)))"
    using all_generations_ok assms by (simp add: profiles_ok_def)
  let ?c = "closures (concat (map (\<lambda>p. gens_list (np_profile p)) (gw_profiles w)))"
  have one: "path \<in> set (case x of None \<Rightarrow> [] | Some at \<Rightarrow> at # (case ?c at of None \<Rightarrow> [] | Some ps \<Rightarrow> ps)) \<longleftrightarrow>
      (\<exists>at. x = Some at \<and> (path = at \<or> (\<exists>ps. ?c at = Some ps \<and> path \<in> set ps)))" for x path
    by (cases x) (auto split: option.split)
  define exposed where "exposed = concat (map (\<lambda>i. concat (map (\<lambda>st.
      case holding (so_dir st) (it_source i) of
        None \<Rightarrow> [] | Some at \<Rightarrow> at # (case ?c at of None \<Rightarrow> [] | Some ps \<Rightarrow> ps)) (gw_stores w))) (gw_ledger w))"
  have "path \<in> set exposed \<longleftrightarrow> ledger_uses w path" for path
    unfolding exposed_def ledger_uses_def set_concat set_map using one by simp
  moreover have "exposed_roots w = Inr exposed" by (simp add: exposed_roots_def g exposed_def)
  ultimately show ?thesis
    by (auto simp: live_roots_def session_roots_def with_live_sessions_def session_uses_def Let_def)
qed

lemma store_holders_spec:
  assumes ok: "\<forall>pd\<in>set pds. profile_ok (np_profile (fst pd))"
  shows "\<exists>used. store_holders stores pds roots = Inr used
    \<and> set used = set roots \<union> {path. \<exists>pd\<in>set pds. \<exists>g\<in>set (gens_list (np_profile (fst pd))). n_number g \<notin> set (snd pd) \<and> gen_uses stores g path}"
proof -
  let ?f = "\<lambda>pd. concat (map (gen_paths stores) (filter (\<lambda>g. n_number g \<notin> set (snd pd)) (gens_list (np_profile (fst pd)))))"
  have "map_res (profile_paths stores) pds = Inr (map ?f pds)"
    unfolding map_res_Inr using ok gens_list_ok
    by (auto simp: list_all2_map2 profile_paths_def intro!: list.rel_refl_strong)
  then have "store_holders stores pds roots = Inr (roots @ concat (map ?f pds))" by (simp add: store_holders_def)
  moreover have "set (concat (map ?f pds))
      = {path. \<exists>pd\<in>set pds. \<exists>g\<in>set (gens_list (np_profile (fst pd))). n_number g \<notin> set (snd pd) \<and> gen_uses stores g path}"
    unfolding gen_paths_uses[symmetric] by (auto simp del: split_paired_Ex split_paired_All)
  ultimately show ?thesis by (metis set_append)
qed

subsection \<open>The sweep\<close>

definition store_ok :: "store \<Rightarrow> bool" where
  "store_ok st \<longleftrightarrow> is_abs (so_dir st) \<and> path_clean (so_dir st) = so_dir st \<and> so_dir st \<noteq> ''/''
     \<and> distinct (map fst (so_entries st)) \<and> plain_names (map fst (so_entries st))"

lemma path_in_plain:
  assumes "store_ok st" "plain_names [name]"
  shows "path_in st name = so_dir st @ ''/'' @ name" "path_dir (path_in st name) = so_dir st"
proof -
  define es where "es = clean_elems (so_dir st)"
  have d: "is_abs (so_dir st)" "path_clean (so_dir st) = so_dir st" "so_dir st \<noteq> ''/''" using assms(1) by (simp_all add: store_ok_def)
  have dir: "so_dir st = render_path True es" "plain_names es" using clean_path_render[OF d(2,1)] by (simp_all add: es_def)
  have "es \<noteq> []" using d(3) dir(1) by (auto simp: render_path_def)
  have no: "CHR ''/'' \<notin> set name" using assms(2) by (simp add: plain_names_def)
  have "split_char (CHR ''/'') name = [name]" using split_char_join[of "[name]" "CHR ''/''"] no by simp
  then have "path_in st name = render_path True (es @ [name])"
    using join_below[OF d(1,2), of name] fold_clean_names[OF assms(2), of True es] by (simp add: path_in_def es_def)
  also have "\<dots> = so_dir st @ ''/'' @ name"
    using join_snoc[OF \<open>es \<noteq> []\<close>] by (simp add: dir(1) render_path_def)
  finally show p: "path_in st name = so_dir st @ ''/'' @ name" .
  have "dropWhile (\<lambda>c. c \<noteq> CHR ''/'') (rev name @ CHR ''/'' # rev (so_dir st)) = CHR ''/'' # rev (so_dir st)"
    using no by (subst dropWhile_append2) auto
  then have "path_dir (path_in st name) = path_clean (so_dir st @ ''/'')" by (simp add: p path_dir_def)
  also have "\<dots> = so_dir st" using clean_slash[OF dir(2)] \<open>es \<noteq> []\<close> by (simp add: dir(1))
  finally show "path_dir (path_in st name) = so_dir st" .
qed

lemma remove_paths_spec:
  assumes "so_dir st = d" "\<forall>p\<in>set ps. path_dir p = d"
  shows "remove_paths ps st = (None, st\<lparr>so_entries := filter (\<lambda>e. path_in st (fst e) \<notin> set ps) (so_entries st)\<rparr>)"
  using assms
proof (induction ps arbitrary: st)
  case (Cons p ps)
  let ?st = "st\<lparr>so_entries := filter (\<lambda>e. path_in st (fst e) \<noteq> p) (so_entries st)\<rparr>"
  have same: "path_in ?st = path_in st" by (simp add: fun_eq_iff path_in_def)
  have "remove_paths ps ?st = (None, ?st\<lparr>so_entries := filter (\<lambda>e. path_in ?st (fst e) \<notin> set ps) (so_entries ?st)\<rparr>)"
    by (rule Cons.IH) (use Cons.prems in auto)
  with Cons.prems same show ?case by (simp add: remove_path_def conj_commute cong: filter_cong)
qed simp

lemma sweep_store:
  assumes "store_ok st"
  shows "remove_paths (unreferenced used st) st = (None, st\<lparr>so_entries := filter (\<lambda>e. \<not> is_unused used st e) (so_entries st)\<rparr>)"
proof -
  have names: "plain_names [fst e]" if "e \<in> set (so_entries st)" for e
    using assms that by (auto simp: store_ok_def plain_names_def)
  have inj: "e = e'" if "e \<in> set (so_entries st)" "e' \<in> set (so_entries st)" "path_in st (fst e) = path_in st (fst e')" for e e'
    using that path_in_plain(1)[OF assms names] assms unfolding store_ok_def
    by (metis append_same_eq distinct_map inj_onD list.inject same_append_eq)
  have "filter (\<lambda>e. path_in st (fst e) \<notin> set (unreferenced used st)) (so_entries st)
      = filter (\<lambda>e. \<not> is_unused used st e) (so_entries st)"
    using inj by (intro filter_cong) (auto simp: unreferenced_def)
  moreover have "\<forall>p\<in>set (unreferenced used st). path_dir p = so_dir st"
    using path_in_plain(2)[OF assms names] by (auto simp: unreferenced_def)
  ultimately show ?thesis using remove_paths_spec[OF refl] by metis
qed

lemma sweep_spec:
  assumes "\<forall>st\<in>set stores. store_ok st"
  shows "sweep dry used stores = (Inr (concat (map (unreferenced used) stores)),
    if dry then stores else map (\<lambda>st. st\<lparr>so_entries := filter (\<lambda>e. \<not> is_unused used st e) (so_entries st)\<rparr>) stores)"
  using assms by (cases dry) (induction stores; simp add: sweep_store Let_def)+

subsection \<open>gc\<close>

definition keeps_entry :: "gc_env \<Rightarrow> retention \<Rightarrow> gc_world \<Rightarrow> store \<Rightarrow> string \<times> bool \<Rightarrow> bool" where
  "keeps_entry env r w st e \<longleftrightarrow> \<not> snd e \<or> fst e = links_dir \<or> in_use env r w (path_in st (fst e))
     \<or> in_use env r w (trim_suffix (path_in st (fst e)) ''.old'')"

definition deleted_paths :: "gc_env \<Rightarrow> retention \<Rightarrow> gc_world \<Rightarrow> string list" where
  "deleted_paths env r w =
     concat (map (\<lambda>st. map (\<lambda>e. path_in st (fst e)) (filter (\<lambda>e. \<not> keeps_entry env r w st e) (so_entries st))) (gw_stores w))"

definition gone_projects :: "gc_env \<Rightarrow> gc_world \<Rightarrow> named_profile list" where
  "gone_projects env w = filter (is_gone env (gw_allowed w)) (gw_profiles w)"

definition full_report :: "gc_env \<Rightarrow> retention \<Rightarrow> gc_world \<Rightarrow> gc_report" where
  "full_report env r w =
     \<lparr>gr_projects = map (project_dir env (gw_allowed w)) (gone_projects env w),
      gr_generations = concat (map (\<lambda>p. map (\<lambda>n. (np_name p, n)) (gone_numbers r (np_profile p)))
        (filter (\<lambda>p. \<not> is_gone env (gw_allowed w) p) (gw_profiles w))),
      gr_paths = deleted_paths env r w\<rparr>"

lemma gens_list_drop: "profile_ok p \<Longrightarrow> gens_list (drop_unfinished p) = gens_list p"
  by (simp add: gens_list_def generations_drop_unfinished)

lemma prune_stage:
  assumes "profiles_ok w" "clean = (if dry then rest else map (np_profile_update drop_unfinished) rest)"
    "rest = filter (\<lambda>p. \<not> is_gone env (gw_allowed w) p) (gw_profiles w)"
  shows "\<exists>pds left. prune_profiles r dry clean = (Inr pds, left) \<and> left = map fst pds \<and> (dry \<longrightarrow> left = rest)
    \<and> (\<forall>p\<in>set left. profile_ok (np_profile p))
    \<and> concat (map (\<lambda>(p, ns). map (\<lambda>n. (np_name p, n)) ns) pds)
        = concat (map (\<lambda>p. map (\<lambda>n. (np_name p, n)) (gone_numbers r (np_profile p))) rest)
    \<and> (\<forall>g. (\<exists>pd\<in>set pds. g \<in> set (gens_list (np_profile (fst pd))) \<and> n_number g \<notin> set (snd pd)) \<longleftrightarrow> surviving env r w g)
    \<and> (\<not> dry \<longrightarrow> (\<forall>pd\<in>set pds. \<forall>g\<in>set (gens_list (np_profile (fst pd))). n_number g \<notin> set (snd pd)))"
proof -
  have rest_ok: "\<forall>p\<in>set rest. profile_ok (np_profile p)" using assms(1,3) by (auto simp: profiles_ok_def)
  then have clean_ok: "\<forall>p\<in>set clean. profile_ok (np_profile p)"
    using assms(2) profile_ok_drop_unfinished by auto
  have names: "map np_name clean = map np_name rest" using assms(2) by simp
  have gl: "map (\<lambda>p. gens_list (np_profile p)) clean = map (\<lambda>p. gens_list (np_profile p)) rest"
    using assms(2) rest_ok gens_list_drop by simp
  have gn: "map (\<lambda>p. gone_numbers r (np_profile p)) clean = map (\<lambda>p. gone_numbers r (np_profile p)) rest"
    using assms(2) rest_ok gens_list_drop by (simp add: gone_numbers_def)
  obtain left where left: "prune_profiles r dry clean = (Inr (zip left (map (\<lambda>p. gone_numbers r (np_profile p)) clean)), left)"
    and rel: "list_all2 (pruned_to r dry) clean left"
    using prune_profiles_spec[OF clean_ok] by blast
  let ?pds = "zip left (map (\<lambda>p. gone_numbers r (np_profile p)) clean)"
  have len: "length left = length clean" using list_all2_lengthD[OF rel] by simp
  have nth: "pruned_to r dry (clean ! k) (left ! k)" if "k < length clean" for k using list_all2_nthD[OF rel that] .
  have fst: "map fst ?pds = left" using len by simp
  have same: "left = clean" if dry using nth that len by (intro nth_equalityI) (auto simp: pruned_to_def)
  have ok: "\<forall>p\<in>set left. profile_ok (np_profile p)" using nth len by (auto simp: in_set_conv_nth pruned_to_def)
  have names': "map np_name left = map np_name rest"
    using names nth len by (auto simp: pruned_to_def intro!: nth_equalityI dest!: arg_cong[where f = "\<lambda>l. l ! _"] simp flip: names)
  have report: "concat (map (\<lambda>(p, ns). map (\<lambda>n. (np_name p, n)) ns) ?pds)
      = concat (map (\<lambda>p. map (\<lambda>n. (np_name p, n)) (gone_numbers r (np_profile p))) rest)"
  proof -
    have "map (\<lambda>(p, ns). map (\<lambda>n. (np_name p, n)) ns) ?pds = map (\<lambda>(a, ns). map (Pair a) ns) (zip (map np_name left) (map (\<lambda>p. gone_numbers r (np_profile p)) rest))"
      using gn by (simp add: zip_map1 split_beta)
    also have "\<dots> = map (\<lambda>p. map (\<lambda>n. (np_name p, n)) (gone_numbers r (np_profile p))) rest"
      unfolding names' by (induction rest) simp_all
    finally show ?thesis by simp
  qed
  have surv: "(\<exists>pd\<in>set ?pds. g \<in> set (gens_list (np_profile (fst pd))) \<and> n_number g \<notin> set (snd pd)) \<longleftrightarrow> surviving env r w g" for g
  proof -
    have "(\<exists>pd\<in>set ?pds. g \<in> set (gens_list (np_profile (fst pd))) \<and> n_number g \<notin> set (snd pd))
        \<longleftrightarrow> (\<exists>k<length clean. g \<in> set (gens_list (np_profile (left ! k))) \<and> n_number g \<notin> set (gone_numbers r (np_profile (clean ! k))))"
    proof -
      have "length ?pds = length clean" "\<And>k. k < length clean \<Longrightarrow> ?pds ! k = (left ! k, gone_numbers r (np_profile (clean ! k)))"
        using len by simp_all
      then show ?thesis by (metis (no_types, lifting) fst_conv in_set_conv_nth snd_conv)
    qed
    also have "\<dots> \<longleftrightarrow> (\<exists>k<length clean. g \<in> set (gens_list (np_profile (clean ! k))) \<and> n_number g \<notin> set (gone_numbers r (np_profile (clean ! k))))"
      using nth by (auto simp: pruned_to_def set_eq_iff)
    also have "\<dots> \<longleftrightarrow> (\<exists>k<length rest. g \<in> set (gens_list (np_profile (rest ! k))) \<and> n_number g \<notin> set (gone_numbers r (np_profile (rest ! k))))"
      using gl gn names by (metis (mono_tags, lifting) length_map nth_map)
    also have "\<dots> \<longleftrightarrow> surviving env r w g"
    proof -
      have "surviving env r w g \<longleftrightarrow>
          (\<exists>p\<in>set rest. g \<in> set (gens_list (np_profile p)) \<and> n_number g \<notin> set (gone_numbers r (np_profile p)))"
        by (auto simp: surviving_def assms(3))
      then show ?thesis by (metis (no_types, lifting) in_set_conv_nth)
    qed
    finally show ?thesis .
  qed
  have none: "\<forall>pd\<in>set ?pds. \<forall>g\<in>set (gens_list (np_profile (fst pd))). n_number g \<notin> set (snd pd)" if "\<not> dry"
    using nth len that by (auto simp: set_zip pruned_to_def)
  show ?thesis using left fst same ok report surv none assms(2) by (intro exI[of _ ?pds] exI[of _ left]) auto
qed

lemma gone_spec:
  assumes "profiles_ok w"
  shows "remove_gone_projects env dry w = (Inr (gone_projects env w),
    if dry then w
    else w\<lparr>gw_profiles := filter (\<lambda>p. \<not> is_gone env (gw_allowed w) p) (gw_profiles w),
           gw_allowed := filter (\<lambda>d. d \<notin> set (map (project_dir env (gw_allowed w)) (gone_projects env w))) (gw_allowed w)\<rparr>)"
proof -
  have "\<forall>p\<in>set (gone_projects env w). profile_ok (np_profile p)" using assms by (auto simp: gone_projects_def profiles_ok_def)
  from all_generations_ok[OF this] show ?thesis by (simp add: remove_gone_projects_def gone_projects_def Let_def)
qed

lemma run_gc_spec:
  assumes "profiles_ok w" "\<forall>st\<in>set (gw_stores w). store_ok st" "\<not> gw_pending w"
  shows "\<exists>w'. run_gc env r dry w = (Inr (full_report env r w), w')
    \<and> gw_ledger w' = gw_ledger w \<and> gw_sessions w' = filter (session_runs env) (gw_sessions w)
    \<and> (if dry then w' = with_live_sessions env w
       else gw_stores w' = map (\<lambda>st. st\<lparr>so_entries := filter (keeps_entry env r w st) (so_entries st)\<rparr>) (gw_stores w)
         \<and> (\<forall>p\<in>set (gw_profiles w'). profile_ok (np_profile p))
         \<and> (\<forall>g. (\<exists>p\<in>set (gw_profiles w'). g \<in> set (gens_list (np_profile p))) \<longleftrightarrow> surviving env r w g))"
proof -
  let ?w1 = "with_live_sessions env w"
  let ?rest = "filter (\<lambda>p. \<not> is_gone env (gw_allowed w) p) (gw_profiles w)"
  let ?clean = "if dry then ?rest else map (np_profile_update drop_unfinished) ?rest"
  have w1: "gw_profiles ?w1 = gw_profiles w" "gw_stores ?w1 = gw_stores w" "gw_allowed ?w1 = gw_allowed w"
    "gw_ledger ?w1 = gw_ledger w" "gw_sessions ?w1 = filter (session_runs env) (gw_sessions w)"
    by (simp_all add: with_live_sessions_def)
  obtain roots where roots: "live_roots env w = (Inr roots, ?w1)" "set roots = {path. ledger_uses w path \<or> session_uses env w path}"
    using live_roots_spec[OF assms(1)] by blast
  have ok1: "profiles_ok ?w1" using assms(1) by (simp add: profiles_ok_def w1)
  have gone1: "gone_projects env ?w1 = gone_projects env w" by (simp add: gone_projects_def w1)
  obtain pds left where p: "prune_profiles r dry ?clean = (Inr pds, left)" "left = map fst pds" "dry \<longrightarrow> left = ?rest"
    "\<forall>p\<in>set left. profile_ok (np_profile p)"
    and report: "concat (map (\<lambda>(p, ns). map (\<lambda>n. (np_name p, n)) ns) pds)
        = concat (map (\<lambda>p. map (\<lambda>n. (np_name p, n)) (gone_numbers r (np_profile p))) ?rest)"
    and surv: "\<And>g. (\<exists>pd\<in>set pds. g \<in> set (gens_list (np_profile (fst pd))) \<and> n_number g \<notin> set (snd pd)) \<longleftrightarrow> surviving env r w g"
    and none: "\<not> dry \<longrightarrow> (\<forall>pd\<in>set pds. \<forall>g\<in>set (gens_list (np_profile (fst pd))). n_number g \<notin> set (snd pd))"
    using prune_stage[OF assms(1) refl refl, of r dry env] by blast
  have "\<forall>pd\<in>set pds. profile_ok (np_profile (fst pd))" using p(2,4) by simp
  from store_holders_spec[OF this, of "gw_stores w" roots] obtain used
    where used: "store_holders (gw_stores w) pds roots = Inr used"
      "set used = set roots \<union> {path. \<exists>pd\<in>set pds. \<exists>g\<in>set (gens_list (np_profile (fst pd))). n_number g \<notin> set (snd pd) \<and> gen_uses (gw_stores w) g path}"
    by blast
  have "path \<in> set used \<longleftrightarrow> in_use env r w path" for path
    unfolding used(2) roots(2) in_use_def surv[symmetric] by blast
  then have unused: "is_unused used st = (\<lambda>e. \<not> keeps_entry env r w st e)" for st
    by (simp add: fun_eq_iff is_unused_def keeps_entry_def)
  have paths: "concat (map (unreferenced used) (gw_stores w)) = deleted_paths env r w"
    unfolding deleted_paths_def by (rule arg_cong[where f = concat]) (simp add: unreferenced_def unused)
  define w3 where "w3 = (if dry then ?w1 else ?w1\<lparr>gw_profiles := left,
      gw_allowed := filter (\<lambda>d. d \<notin> set (map (project_dir env (gw_allowed w)) (gone_projects env w))) (gw_allowed w)\<rparr>)"
  have stores3: "gw_stores w3 = gw_stores w" by (simp add: w3_def w1)
  have "run_gc env r dry w = (Inr (full_report env r w),
      w3\<lparr>gw_stores := if dry then gw_stores w
        else map (\<lambda>st. st\<lparr>so_entries := filter (keeps_entry env r w st) (so_entries st)\<rparr>) (gw_stores w)\<rparr>)"
    using assms(3) roots(1) gone_spec[OF ok1, of env dry] p(1) used(1) sweep_spec[OF assms(2), of dry used]
    by (cases dry) (simp_all add: run_gc_def w1 gone1 Let_def w3_def full_report_def paths report unused)
  moreover have "(\<exists>p\<in>set left. g \<in> set (gens_list (np_profile p))) \<longleftrightarrow> surviving env r w g" if "\<not> dry" for g
    using surv[of g] none that by (auto simp: p(2))
  ultimately show ?thesis using p(4) by (cases dry) (auto simp: w3_def w1 with_live_sessions_def)
qed

text \<open>
  C6. On profiles that oku's operations made, and with no change pending, gc succeeds. It deletes from each store exactly the
  directories that nothing uses, where a generation that stays uses its packages, their closures and the store paths that its
  links lead into, the ledger uses what its items lead into with its closure, and a running session uses the paths of its record;
  the generations of the profiles are afterwards exactly those that the retention keeps of the projects that are there. A
  dry run gives the same report and changes nothing but the records of sessions that ended. A path of a running session's record without
  white space is in use.
\<close>
theorem gc_exact:
  assumes "\<forall>p\<in>set (gw_profiles w). reachable tree_key (np_profile p)" "\<forall>st\<in>set (gw_stores w). store_ok st" "\<not> gw_pending w"
  shows "\<exists>w'. run_gc env r False w = (Inr (full_report env r w), w')
    \<and> run_gc env r True w = (Inr (full_report env r w), with_live_sessions env w)
    \<and> gw_stores w' = map (\<lambda>st. st\<lparr>so_entries := filter (keeps_entry env r w st) (so_entries st)\<rparr>) (gw_stores w)
    \<and> (\<forall>g. (\<exists>p\<in>set (gw_profiles w'). \<exists>gs. generations (np_profile p) = Inr gs \<and> g \<in> set gs) \<longleftrightarrow> surviving env r w g)
    \<and> (\<forall>pid paths path. (pid, session_record paths) \<in> set (gw_sessions w) \<and> session_runs env (pid, session_record paths)
        \<and> path \<in> set paths \<and> path \<noteq> [] \<and> (\<forall>c\<in>set path. \<not> white c) \<longrightarrow> in_use env r w path)"
proof -
  have ok: "profiles_ok w" using assms(1) reachable_ok by (auto simp: profiles_ok_def)
  obtain w' where real: "run_gc env r False w = (Inr (full_report env r w), w')"
    "gw_stores w' = map (\<lambda>st. st\<lparr>so_entries := filter (keeps_entry env r w st) (so_entries st)\<rparr>) (gw_stores w)"
    "\<forall>p\<in>set (gw_profiles w'). profile_ok (np_profile p)"
    "\<forall>g. (\<exists>p\<in>set (gw_profiles w'). g \<in> set (gens_list (np_profile p))) \<longleftrightarrow> surviving env r w g"
    using run_gc_spec[OF ok assms(2,3), of env r False] by auto
  have gens: "(\<exists>p\<in>set (gw_profiles w'). \<exists>gs. generations (np_profile p) = Inr gs \<and> g \<in> set gs)
      \<longleftrightarrow> (\<exists>p\<in>set (gw_profiles w'). g \<in> set (gens_list (np_profile p)))" for g
    using real(3) gens_list_ok by fastforce
  have dry: "run_gc env r True w = (Inr (full_report env r w), with_live_sessions env w)"
    using run_gc_spec[OF ok assms(2,3), of env r True] by auto
  have session: "in_use env r w path" if "(pid, session_record paths) \<in> set (gw_sessions w)" "session_runs env (pid, session_record paths)"
    "path \<in> set paths" "path \<noteq> []" "\<forall>c\<in>set path. \<not> white c" for pid paths path
    using that(1,2) session_path_read[OF that(3-5)] by (auto simp: in_use_def session_uses_def intro!: bexI)
  show ?thesis
  proof (intro exI[of _ w'] conjI allI impI real(1,2) dry)
    fix g
    show "(\<exists>p\<in>set (gw_profiles w'). \<exists>gs. generations (np_profile p) = Inr gs \<and> g \<in> set gs) \<longleftrightarrow> surviving env r w g"
      using gens real(4) by metis
  next
    fix pid paths path
    assume "(pid, session_record paths) \<in> set (gw_sessions w) \<and> session_runs env (pid, session_record paths)
        \<and> path \<in> set paths \<and> path \<noteq> [] \<and> (\<forall>c\<in>set path. \<not> white c)"
    then show "in_use env r w path" by (elim conjE) (rule session)
  qed
qed

text \<open>The active generation always stays, when its project is there.\<close>

lemma active_survives:
  assumes "p \<in> set (gw_profiles w)" "profile_ok (np_profile p)" "\<not> is_gone env (gw_allowed w) p"
    and "g \<in> set (gens_list (np_profile p))" "n_current g"
  shows "surviving env r w g"
proof -
  obtain nd where nd: "nd \<in> gens (np_profile p)" "g = gen_of (np_profile p) nd"
    using generations_set[OF assms(2) gens_list_ok[OF assms(2)]] assms(4) by auto
  have "fst nd = gen_name (n_number g)" using assms(2) nd gen_of_number by (auto simp: profile_ok_def)
  moreover have "pr_current (np_profile p) = Some (fst nd)" using nd(2) assms(5) by (simp add: gen_of_def Let_def)
  ultimately have "n_number g \<notin> set (prune_numbers r (gens_list (np_profile p)))"
    using pruned_not_current[OF assms(2) gens_list_ok[OF assms(2)]] by auto
  with assms show ?thesis by (auto simp: surviving_def gone_numbers_def)
qed

subsection \<open>Examples\<close>

text \<open>A store of three directories: a package, the old build of it, and one whose name has a space. Only the first session runs.\<close>

definition gc_sample :: "string list \<Rightarrow> gc_world" where
  "gc_sample session =
     \<lparr>gw_profiles = [\<lparr>np_name = ''default'', np_project = [], np_profile = two_gens\<rparr>], gw_stores = [\<lparr>so_dir = ''/o/store'', so_entries = [(''a'', True), (''a.old'', True), (''b c'', True), (''.links'', True), (''lock'', False)]\<rparr>],
      gw_ledger = [], gw_sessions = [(''7'', session_record session), (''8'', session_record [''/o/store/a.old''])],
      gw_allowed = [], gw_pending = False\<rparr>"

definition gc_sample_env :: gc_env where
  "gc_sample_env = \<lparr>ge_stat = (\<lambda>_. Present), ge_running = (\<lambda>n. n = 7), ge_project_name = (\<lambda>d. d)\<rparr>"

definition no_prune :: retention where
  "no_prune = \<lparr>r_keep = 0, r_since = zero_time\<rparr>"

lemma gc_sample_stores: "\<forall>st\<in>set (gw_stores (gc_sample session)). store_ok st"
  by (simp add: gc_sample_def store_ok_def plain_names_def) code_simp

theorem gc_exact_witness:
  "\<exists>w'. run_gc gc_sample_env no_prune False (gc_sample [''/o/store/a'']) = (Inr (full_report gc_sample_env no_prune (gc_sample [''/o/store/a''])), w')
    \<and> in_use gc_sample_env no_prune (gc_sample [''/o/store/a'']) ''/o/store/a''"
proof -
  have "\<forall>p\<in>set (gw_profiles (gc_sample [''/o/store/a''])). reachable (\<lambda>_. ''k'') (np_profile p)" "\<not> gw_pending (gc_sample [''/o/store/a''])"
    using reachable_two by (simp_all add: gc_sample_def)
  from gc_exact[OF this(1) gc_sample_stores this(2), of gc_sample_env no_prune]
  obtain w' where w': "run_gc gc_sample_env no_prune False (gc_sample [''/o/store/a'']) = (Inr (full_report gc_sample_env no_prune (gc_sample [''/o/store/a''])), w')"
    and s: "\<forall>pid paths path. (pid, session_record paths) \<in> set (gw_sessions (gc_sample [''/o/store/a'']))
        \<and> session_runs gc_sample_env (pid, session_record paths) \<and> path \<in> set paths \<and> path \<noteq> [] \<and> (\<forall>c\<in>set path. \<not> white c)
        \<longrightarrow> in_use gc_sample_env no_prune (gc_sample [''/o/store/a'']) path" by blast
  have "session_runs gc_sample_env (''7'', session_record [''/o/store/a''])" "\<forall>c\<in>set ''/o/store/a''. \<not> white c" by code_simp+
  then have "in_use gc_sample_env no_prune (gc_sample [''/o/store/a'']) ''/o/store/a''"
    using s[rule_format, of "''7''" "[''/o/store/a'']" "''/o/store/a''"] by (simp add: gc_sample_def)
  with w' show ?thesis by blast
qed

text \<open>A running session whose path has a space loses it: the record is split at white space and not at the ends of its lines.\<close>
lemma session_space_lost:
  "case run_gc gc_sample_env no_prune False (gc_sample [''/o/store/b c'']) of
     (Inr rep, w') \<Rightarrow> ''/o/store/b c'' \<in> set (gr_paths rep) \<and> map fst (so_entries (hd (gw_stores w'))) = [''.links'', ''lock''] | _ \<Rightarrow> False"
  by code_simp

end
