(* ===== verification/Hook.thy ===== *)
theory Hook
  imports Env Dotenv "HOL-Library.AList"
begin

text \<open>
  The environment of a directory and the shell hook that applies and undoes it: \<open>internal/cli/envset.go\<close> and \<open>hook.go\<close>, on
  Unix. Go's maps are association lists, one entry per key. The state that the hook keeps in variables as JSON is kept as
  values, which is what \<open>encoding/json\<close> gives back for valid UTF-8. The files, the profiles and the decryption of a
  file are arguments.
\<close>

subsection \<open>What a directory wants\<close>

record shell_env =
  w_set :: "(string \<times> string) list"
  w_unset :: "string list"
  w_prepend :: "(string \<times> string list) list"
  w_missing :: "(string \<times> string) list"

type_synonym lookup = "string \<Rightarrow> string option"

definition no_env :: shell_env where
  "no_env = \<lparr>w_set = [], w_unset = [], w_prepend = [], w_missing = []\<rparr>"

definition set_var :: "string \<Rightarrow> string \<Rightarrow> shell_env \<Rightarrow> shell_env" where
  "set_var name v w = w\<lparr>w_set := AList.update name v (w_set w), w_unset := removeAll name (w_unset w)\<rparr>"

definition unset_var :: "string \<Rightarrow> shell_env \<Rightarrow> shell_env" where
  "unset_var name w = w\<lparr>w_set := AList.delete name (w_set w), w_unset := name # removeAll name (w_unset w)\<rparr>"

definition prepend_var :: "string \<Rightarrow> string list \<Rightarrow> shell_env \<Rightarrow> shell_env" where
  "prepend_var name entries w =
     w\<lparr>w_prepend := AList.update name (entries @ (case map_of (w_prepend w) name of None \<Rightarrow> [] | Some es \<Rightarrow> es)) (w_prepend w)\<rparr>"

definition want_packages :: "(string \<times> string) list list \<Rightarrow> shell_env \<Rightarrow> shell_env" where
  "want_packages pkgs w = fold (\<lambda>env. fold (\<lambda>(name, v). set_var name v) env) pkgs w"

definition want_lookup :: "shell_env \<Rightarrow> lookup \<Rightarrow> lookup" where
  "want_lookup w base name =
     (if name \<in> set (w_unset w) then None
      else case map_of (w_set w) name of Some v \<Rightarrow> Some v | None \<Rightarrow> base name)"

text \<open>A file of \<open>[[env.file]]\<close>, as it is found.\<close>

datatype file_found = NoFile | FileError | FileData string

datatype env_problem =
    MissingFile string
  | UnreadableFile string
  | NotDecrypted string
  | BadDotenv string dotenv_error
  | BadName string env_error
  | BadEnv string env_error
  | BadList string
  | NoEnvironment string
  | NoOverlay string string
  | NotSet string string
  | ProjectOff string

record surroundings_env =
  sv_read :: "string \<Rightarrow> file_found"
  sv_decrypt :: "string \<Rightarrow> string \<Rightarrow> string option"
  sv_list :: "string \<Rightarrow> (env_table \<times> env_file list) option option"
  sv_exists :: "string \<Rightarrow> bool"

text \<open>\<open>file\<close>: a file sets all its variables or none.\<close>

definition want_file :: "surroundings_env \<Rightarrow> bool \<Rightarrow> string \<Rightarrow> env_file \<Rightarrow> lookup \<Rightarrow> shell_env \<Rightarrow> env_problem option \<times> shell_env" where
  "want_file sv exec path f lookup w =
     (if skipped f lookup \<or> ef_exec_only f \<and> \<not> exec then (None, w)
      else case sv_read sv path of
        NoFile \<Rightarrow> (if ef_optional f then None else Some (MissingFile path), w)
      | FileError \<Rightarrow> (Some (UnreadableFile path), w)
      | FileData raw \<Rightarrow>
      (case (if ef_secret f then sv_decrypt sv path raw else Some raw) of
         None \<Rightarrow> (Some (NotDecrypted path), w)
       | Some data \<Rightarrow>
       (case parse_dotenv data lookup of
          Inl e \<Rightarrow> (Some (BadDotenv path e), w)
        | Inr vars \<Rightarrow>
        (case List.find (\<lambda>v. check_env_name (v_name v) False \<noteq> None) vars of
           Some v \<Rightarrow> (Some (BadName path (the (check_env_name (v_name v) False))), w)
         | None \<Rightarrow> (None, fold (\<lambda>v. set_var (v_name v) (v_value v)) vars w)))))"

fun want_files :: "surroundings_env \<Rightarrow> bool \<Rightarrow> string \<Rightarrow> env_file list \<Rightarrow> lookup \<Rightarrow> shell_env \<Rightarrow> env_problem list \<times> shell_env" where
  "want_files sv exec dir [] base w = ([], w)"
| "want_files sv exec dir (f # fs) base w =
     (let (problem, w') = want_file sv exec (env_file_abs f dir) f (want_lookup w base) w;
          (problems, w'') = want_files sv exec dir fs base w'
      in ((case problem of None \<Rightarrow> [] | Some p \<Rightarrow> [p]) @ problems, w''))"

definition want_change :: "env_change \<Rightarrow> shell_env \<Rightarrow> shell_env" where
  "want_change c w =
     (let w1 = fold (\<lambda>(name, v). set_var name v) (c_set c) w;
          w2 = fold unset_var (c_unset c) w1;
          w3 = fold (\<lambda>(name, es). prepend_var name es) (c_prepend c) w2
      in w3\<lparr>w_missing := fold (\<lambda>(name, why). AList.update name why) (c_missing c) (w_missing w3)\<rparr>)"

text \<open>\<open>list\<close>, where no list at a path is \<open>None\<close> and one that does not parse \<open>Some None\<close>.\<close>

definition want_list :: "surroundings_env \<Rightarrow> bool \<Rightarrow> string \<Rightarrow> lookup \<Rightarrow> shell_env \<Rightarrow> env_problem list \<times> shell_env" where
  "want_list sv exec path base w =
     (case sv_list sv path of
        None \<Rightarrow> ([], w)
      | Some None \<Rightarrow> ([BadList path], w)
      | Some (Some (env, files)) \<Rightarrow>
          (let (problems, w') = want_files sv exec (path_dir path) files base w
           in case resolve_env env (path_dir path) (want_lookup w' base) of
                Inl e \<Rightarrow> ([BadEnv path e], w')
              | Inr change \<Rightarrow> (problems, want_change change w')))"

fun want_lists :: "surroundings_env \<Rightarrow> bool \<Rightarrow> string list \<Rightarrow> lookup \<Rightarrow> shell_env \<Rightarrow> env_problem list \<times> shell_env" where
  "want_lists sv exec [] base w = ([], w)"
| "want_lists sv exec (path # paths) base w =
     (let (problems, w') = want_list sv exec path base w; (rest, w'') = want_lists sv exec paths base w'
      in (problems @ rest, w''))"

definition env_name_ok :: "string \<Rightarrow> bool" where
  "env_name_ok s \<longleftrightarrow> s \<noteq> [] \<and> (is_letter (hd s) \<or> is_digit (hd s)) \<and> list_all (\<lambda>c. is_letter c \<or> is_digit c \<or> c = CHR ''_'' \<or> c = CHR ''-'') s"

definition overlays_of :: "surroundings_env \<Rightarrow> string \<Rightarrow> lookup \<Rightarrow> (env_problem, string list) res" where
  "overlays_of sv project lookup =
     (let name = (case lookup ''OKU_ENV'' of None \<Rightarrow> [] | Some v \<Rightarrow> v);
          path = path_join [project, ''oku.'' @ name @ ''.toml''];
          rest = path_join [project, ''oku.local.toml''];
          tail = (if sv_exists sv rest then [rest] else [])
      in if name = [] then Inr tail
         else if \<not> env_name_ok name \<or> name = ''local'' \<or> name = ''pkg'' then Inl (NoEnvironment name)
         else if \<not> sv_exists sv path then Inl (NoOverlay name path)
         else Inr (path # tail))"

text \<open>The project of the directory: its programs, the environments of its packages and its list.\<close>

record env_project =
  ep_dir :: string
  ep_bin :: string
  ep_packages :: "(string \<times> string) list list"
  ep_list :: string

definition wanted_env ::
  "surroundings_env \<Rightarrow> (string \<times> string) list list \<Rightarrow> string \<Rightarrow> env_project option \<Rightarrow> bool \<Rightarrow> lookup \<Rightarrow> shell_env \<times> env_problem list" where
  "wanted_env sv pkgs global_list project exec base =
     (let w0 = want_packages pkgs no_env;
          (p1, w1) = want_list sv exec global_list base w0;
          (p2, w2) = (case project of
              None \<Rightarrow> ([], w1)
            | Some p \<Rightarrow>
                (let (q1, v1) = want_list sv exec (ep_list p) base (want_packages (ep_packages p) (prepend_var ''PATH'' [ep_bin p] w1));
                     (q2, paths) = (case overlays_of sv (ep_dir p) base of Inl e \<Rightarrow> ([e], []) | Inr ps \<Rightarrow> ([], ps));
                     (q3, v2) = want_lists sv exec paths base v1
                 in (q1 @ q2 @ q3, v2)));
          unmet = filter (\<lambda>m. map_of (w_set w2) (fst m) = None) (sort_func (\<lambda>a b. str_cmp (fst a) (fst b)) (w_missing w2))
      in (w2, p1 @ p2 @ map (\<lambda>(name, why). NotSet name why) unmet))"

subsection \<open>The values that a directory ends up with\<close>

definition list_sep :: string where
  "list_sep = '':''"

definition split_list :: "string \<Rightarrow> string list" where
  "split_list s = (if s = [] then [] else split_char (CHR '':'') s)"

definition joined :: "string list \<Rightarrow> string option \<Rightarrow> string" where
  "joined entries rest =
     join list_sep entries @ (case rest of None \<Rightarrow> [] | Some r \<Rightarrow> if r = [] then [] else list_sep @ r)"

definition is_prepended :: "shell_env \<Rightarrow> string \<Rightarrow> bool" where
  "is_prepended w name \<longleftrightarrow>
     map_of (w_prepend w) name \<noteq> None \<and> map_of (w_set w) name = None \<and> name \<notin> set (w_unset w)"

definition final_value :: "shell_env \<Rightarrow> lookup \<Rightarrow> string \<Rightarrow> string option" where
  "final_value w base name =
     (case map_of (w_prepend w) name of
        None \<Rightarrow> map_of (w_set w) name
      | Some entries \<Rightarrow>
          Some (joined entries
            (case map_of (w_set w) name of Some v \<Rightarrow> Some v
             | None \<Rightarrow> if name \<in> set (w_unset w) then None else base name)))"

definition final_names :: "shell_env \<Rightarrow> string list" where
  "final_names w = remdups (map fst (w_set w) @ w_unset w @ map fst (w_prepend w))"

definition final_values :: "shell_env \<Rightarrow> lookup \<Rightarrow> (string \<times> string option) list \<times> (string \<times> string list) list" where
  "final_values w base =
     (map (\<lambda>n. (n, final_value w base n)) (final_names w), filter (\<lambda>p. is_prepended w (fst p)) (w_prepend w))"

subsection \<open>The hook\<close>

text \<open>
  A shell is its variables, apart from those of the hook, and what the hook keeps: the saved values, exported by an older
  hook and else in a variable of the shell, the names among them, the entries it added, the project and the last hint. \<open>sh_marker\<close> tells
  a hook of today, which keeps the saved values to itself.
\<close>

record shell =
  sh_env :: "string \<Rightarrow> string option"
  sh_marker :: bool
  sh_exported :: "(string \<times> string option) list"
  sh_local :: "(string \<times> string option) list"
  sh_changed :: "string list"
  sh_added :: "(string \<times> string list) list"
  sh_old_path :: string
  sh_old_keys :: "string list"
  sh_project :: string
  sh_hint :: "env_problem list"

record hook_state =
  hs_saved :: "(string \<times> string option) list"
  hs_added :: "(string \<times> string list) list"

definition add_unset :: "string \<Rightarrow> (string \<times> string option) list \<Rightarrow> (string \<times> string option) list" where
  "add_unset name saved = (if map_of saved name = None then saved @ [(name, None)] else saved)"

definition read_hook_state :: "shell \<Rightarrow> hook_state" where
  "read_hook_state s =
     (let saved = (if sh_marker s \<and> sh_local s \<noteq> [] then sh_local s else sh_exported s);
          saved = fold add_unset (sh_old_keys s) (fold add_unset (sh_changed s) saved)
      in \<lparr>hs_saved = saved,
          hs_added = (if sh_old_path s \<noteq> [] \<and> map_of (sh_added s) ''PATH'' = None
                      then sh_added s @ [(''PATH'', [sh_old_path s])] else sh_added s)\<rparr>)"

definition without_entries :: "string list \<Rightarrow> string \<Rightarrow> string" where
  "without_entries entries v = join list_sep (fold remove1 entries (split_list v))"

definition base_value :: "hook_state \<Rightarrow> lookup \<Rightarrow> lookup" where
  "base_value st env name =
     (case map_of (hs_saved st) name of
        Some old \<Rightarrow> old
      | None \<Rightarrow>
          (case env name of
             None \<Rightarrow> None
           | Some v \<Rightarrow> (case map_of (hs_added st) name of None \<Rightarrow> Some v | Some es \<Rightarrow> Some (without_entries es v))))"

definition session_first :: "lookup \<Rightarrow> string \<Rightarrow> string" where
  "session_first env path =
     (let first = split_list (case env ''OKU_SHELL_PATH'' of None \<Rightarrow> [] | Some v \<Rightarrow> v)
      in if first = [] then path else join list_sep (first @ filter (\<lambda>d. d \<notin> set first) (split_list path)))"

definition final_path :: "lookup \<Rightarrow> string \<times> string option \<Rightarrow> string \<times> string option" where
  "final_path env nv = (if fst nv = ''PATH'' then (fst nv, map_option (session_first env) (snd nv)) else nv)"

text \<open>\<open>apply\<close>: what changes in the shell for a variable that is to have a value. The value of \<open>PATH\<close> stays when it would be empty.\<close>

definition var_change :: "lookup \<Rightarrow> string \<times> string option \<Rightarrow> (string \<times> string option) list" where
  "var_change env nv =
     (case snd nv of
        None \<Rightarrow> if env (fst nv) = None then [] else [nv]
      | Some v \<Rightarrow> if env (fst nv) = Some v \<or> fst nv = ''PATH'' \<and> v = [] then [] else [nv])"

text \<open>What is saved of a variable that the hook gives a value: the value before, or for a list that was not set that it was not.\<close>

definition to_save :: "hook_state \<Rightarrow> lookup \<Rightarrow> (string \<times> string list) list \<Rightarrow> string \<Rightarrow> (string \<times> string option) list" where
  "to_save st env prepended name =
     (if map_of prepended name = None then [(name, base_value st env name)]
      else if (case map_of (hs_saved st) name of
                 Some old \<Rightarrow> old = None
               | None \<Rightarrow> map_of (hs_added st) name = None \<and> env name = None)
      then [(name, None)] else [])"

record env_outcome =
  eo_vars :: "(string \<times> string option) list"
  eo_saved :: "(string \<times> string option) list"
  eo_added :: "(string \<times> string list) list"

definition hook_changes :: "hook_state \<Rightarrow> lookup \<Rightarrow> shell_env \<Rightarrow> env_outcome" where
  "hook_changes st env w =
     (let base = base_value st env;
          prepended = snd (final_values w base);
          final = map (final_path env) (fst (final_values w base));
          before = map (\<lambda>n. (n, base n)) (filter (\<lambda>n. n \<notin> set (map fst final)) (remdups (map fst (hs_saved st))));
          lists = map (\<lambda>n. (n, Some (case base n of None \<Rightarrow> [] | Some v \<Rightarrow> v)))
            (filter (\<lambda>n. n \<notin> set (map fst final) \<and> n \<notin> set (map fst (hs_saved st))) (remdups (map fst (hs_added st))))
      in \<lparr>eo_vars = concat (map (var_change env) (final @ before @ lists)),
          eo_saved = concat (map (to_save st env prepended) (map fst final)),
          eo_added = prepended\<rparr>)"

definition run_vars :: "(string \<times> string option) list \<Rightarrow> lookup \<Rightarrow> lookup" where
  "run_vars vars env = fold (\<lambda>(n, v) e. e(n := v)) vars env"

text \<open>One prompt: \<open>hookChange\<close> and the shell that evaluates what it printed.\<close>

definition prompt :: "(lookup \<Rightarrow> shell_env \<times> env_problem list) \<Rightarrow> string \<Rightarrow> shell \<Rightarrow> shell" where
  "prompt wanted project s =
     (let st = read_hook_state s;
          (w, problems) = wanted (base_value st (sh_env s));
          out = hook_changes st (sh_env s) w
      in s\<lparr>sh_env := run_vars (eo_vars out) (sh_env s),
           sh_exported := (if sh_marker s then [] else eo_saved out),
           sh_local := (if sh_marker s then eo_saved out else sh_local s),
           sh_changed := (if sh_marker s then sort_func str_cmp (map fst (eo_saved out)) else sh_changed s),
           sh_added := eo_added out, sh_old_path := [], sh_old_keys := [],
           sh_project := project, sh_hint := problems\<rparr>)"

end
