(* ===== verification/Hook_Props.thy ===== *)
theory Hook_Props
  imports Hook
begin

text \<open>
  The environment after a prompt depends on the user's own variables and on what the directory wants, and on nothing that the
  hook did before: entering and leaving directories in any order leaves the user's environment as it was.
\<close>

subsection \<open>Shape\<close>

text \<open>One entry per name, and no name that is set and unset.\<close>

definition env_shape :: "shell_env \<Rightarrow> bool" where
  "env_shape w \<longleftrightarrow> distinct (map fst (w_set w)) \<and> distinct (map fst (w_prepend w)) \<and> set (w_unset w) \<inter> fst ` set (w_set w) = {}"

lemma env_shape_no_env [simp]: "env_shape no_env"
  by (simp add: env_shape_def no_env_def)

lemma env_shape_set [simp]: "env_shape w \<Longrightarrow> env_shape (set_var name v w)"
  by (auto simp: env_shape_def set_var_def distinct_update dom_update)

lemma env_shape_unset [simp]: "env_shape w \<Longrightarrow> env_shape (unset_var name w)"
  by (auto simp: env_shape_def unset_var_def AList.delete_eq intro: distinct_map_filter)

lemma env_shape_prepend [simp]: "env_shape w \<Longrightarrow> env_shape (prepend_var name es w)"
  by (auto simp: env_shape_def prepend_var_def distinct_update)

lemma env_shape_fold:
  assumes "\<And>x w. env_shape w \<Longrightarrow> env_shape (f x w)" "env_shape w"
  shows "env_shape (fold f xs w)"
  using assms(2) by (induction xs arbitrary: w) (auto intro: assms(1))

lemma env_shape_packages: "env_shape w \<Longrightarrow> env_shape (want_packages pkgs w)"
  unfolding want_packages_def by (intro env_shape_fold) (auto intro!: env_shape_fold split: prod.split)

lemma env_shape_file: "env_shape w \<Longrightarrow> want_file sv exec path f lookup w = (p, w') \<Longrightarrow> env_shape w'"
  by (auto simp: want_file_def intro!: env_shape_fold split: if_splits file_found.splits option.splits sum.splits)

lemma env_shape_files: "env_shape w \<Longrightarrow> want_files sv exec dir fs base w = (ps, w') \<Longrightarrow> env_shape w'"
  by (induction fs arbitrary: w ps) (auto split: prod.splits dest: env_shape_file)

lemma env_shape_change: "env_shape w \<Longrightarrow> env_shape (want_change c w)"
proof -
  assume w: "env_shape w"
  let ?w3 = "fold (\<lambda>(name, es). prepend_var name es) (c_prepend c) (fold unset_var (c_unset c) (fold (\<lambda>(name, v). set_var name v) (c_set c) w))"
  have "env_shape ?w3" by (intro env_shape_fold w) (auto split: prod.split)
  then show ?thesis by (simp add: want_change_def Let_def env_shape_def)
qed

lemma env_shape_list: "env_shape w \<Longrightarrow> want_list sv exec path base w = (ps, w') \<Longrightarrow> env_shape w'"
  by (auto simp: want_list_def env_shape_change split: option.splits prod.splits sum.splits dest: env_shape_files)

lemma env_shape_lists: "env_shape w \<Longrightarrow> want_lists sv exec paths base w = (ps, w') \<Longrightarrow> env_shape w'"
  by (induction paths arbitrary: w ps) (auto split: prod.splits dest: env_shape_list)

lemma env_shape_wanted: "env_shape (fst (wanted_env sv pkgs global_list project exec base))"
proof -
  obtain p1 w1 where w1: "want_list sv exec global_list base (want_packages pkgs no_env) = (p1, w1)" by fastforce
  then have s1: "env_shape w1" using env_shape_list env_shape_packages env_shape_no_env by blast
  show ?thesis
  proof (cases project)
    case None
    with w1 s1 show ?thesis by (simp add: wanted_env_def Let_def)
  next
    case (Some p)
    obtain q1 v1 where v1: "want_list sv exec (ep_list p) base (want_packages (ep_packages p) (prepend_var ''PATH'' [ep_bin p] w1)) = (q1, v1)"
      by fastforce
    then have t1: "env_shape v1" using s1 env_shape_list env_shape_packages env_shape_prepend by blast
    obtain q2 paths where paths: "(case overlays_of sv (ep_dir p) base of Inl e \<Rightarrow> ([e], []) | Inr ps \<Rightarrow> ([], ps)) = (q2, paths)"
      by fastforce
    obtain q3 v2 where v2: "want_lists sv exec paths base v1 = (q3, v2)" by fastforce
    then have "env_shape v2" using t1 env_shape_lists by blast
    with w1 Some v1 paths v2 show ?thesis by (simp add: wanted_env_def Let_def)
  qed
qed

subsection \<open>Lists of directories\<close>

definition entries_ok :: "string list \<Rightarrow> bool" where
  "entries_ok es \<longleftrightarrow> es \<noteq> [] \<and> (\<forall>e\<in>set es. e \<noteq> [] \<and> CHR '':'' \<notin> set e)"

lemma fold_remove1: "fold remove1 es (es @ rest) = rest"
  by (induction es) simp_all

lemma join_entries_not_Nil: "entries_ok es \<Longrightarrow> join list_sep es \<noteq> []"
  by (cases es; cases "tl es") (auto simp: entries_ok_def list_sep_def)

lemma joined_not_Nil: "entries_ok es \<Longrightarrow> joined es rest \<noteq> []"
  using join_entries_not_Nil by (simp add: joined_def)

lemma without_joined:
  assumes "entries_ok es"
  shows "without_entries es (joined es (Some r)) = r"
proof -
  have es: "split_char (CHR '':'') (join list_sep es) = es"
    unfolding list_sep_def using assms by (intro split_char_join) (auto simp: entries_ok_def)
  have "split_list (joined es (Some r)) = es @ split_list r"
    using joined_not_Nil[OF assms, of "Some r"] es split_char_sep[of "CHR '':''" "join list_sep es" r]
    by (auto simp: split_list_def joined_def list_sep_def)
  then show ?thesis
    using fold_remove1[of es "split_list r"] join_split_char[of "CHR '':''" r]
    by (simp add: without_entries_def split_list_def list_sep_def)
qed

subsection \<open>One prompt\<close>

definition overlay :: "shell_env \<Rightarrow> lookup \<Rightarrow> lookup" where
  "overlay w E name = (if name \<in> set (final_names w) then final_value w E name else E name)"

text \<open>What a directory may want for the hook to undo it: entries without the separator, and no other value for \<open>PATH\<close>.\<close>

definition undoable :: "shell_env \<Rightarrow> bool" where
  "undoable w \<longleftrightarrow> (\<forall>p\<in>set (w_prepend w). entries_ok (snd p)) \<and> ''PATH'' \<notin> fst ` set (w_set w) \<and> ''PATH'' \<notin> set (w_unset w)
     \<and> ''OKU_SHELL_PATH'' \<notin> set (final_names w)"

lemma map_of_names: "map_of (map (\<lambda>n. (n, f n)) ns) n = (if n \<in> set ns then Some (f n) else None)"
  by (induction ns) auto

lemma run_vars_other: "n \<notin> fst ` set vars \<Longrightarrow> run_vars vars env n = env n"
  by (induction vars arbitrary: env) (auto simp: run_vars_def)

lemma run_changes:
  assumes "distinct (map fst nvs)"
  shows "run_vars (concat (map (var_change env0) nvs)) env n =
    (case map_of nvs n of None \<Rightarrow> env n
     | Some v \<Rightarrow> if var_change env0 (n, v) = [] then env n else v)"
  using assms
proof (induction nvs arbitrary: env)
  case (Cons nv nvs)
  obtain m v where nv: "nv = (m, v)" by fastforce
  have split: "run_vars (xs @ ys) e = run_vars ys (run_vars xs e)" for xs ys e by (simp add: run_vars_def)
  have one: "run_vars (var_change env0 (m, v)) env = (if var_change env0 (m, v) = [] then env else env(m := v))"
    by (simp add: run_vars_def var_change_def split: option.split)
  have "map_of nvs m = None" using Cons.prems nv by (simp add: map_of_eq_None_iff)
  with Cons nv split one show ?case by (auto split: option.splits)
qed (simp add: run_vars_def)

text \<open>What the hook knows: \<open>E\<close> is the environment without the hook.\<close>

definition knows :: "lookup \<Rightarrow> hook_state \<Rightarrow> lookup \<Rightarrow> bool" where
  "knows E st env \<longleftrightarrow> base_value st env = E
     \<and> (\<forall>n. map_of (hs_saved st) n = None \<and> map_of (hs_added st) n \<noteq> None \<longrightarrow> env n \<noteq> None)
     \<and> map_of (hs_saved st) ''OKU_SHELL_PATH'' = None \<and> map_of (hs_added st) ''OKU_SHELL_PATH'' = None"

definition plain_env :: "lookup \<Rightarrow> bool" where
  "plain_env E \<longleftrightarrow> E ''PATH'' \<noteq> Some [] \<and> E ''OKU_SHELL_PATH'' = None"

lemma prepend_ok: "map_of (w_prepend w) n = Some es \<Longrightarrow> undoable w \<Longrightarrow> entries_ok es"
  by (drule map_of_SomeD) (fastforce simp: undoable_def)

lemma undoable_path:
  assumes "''PATH'' \<in> set (final_names w)" "undoable w"
  shows "final_value w E ''PATH'' \<noteq> Some []"
proof -
  have "map_of (w_prepend w) ''PATH'' \<noteq> None"
    using assms by (auto simp: final_names_def undoable_def map_of_eq_None_iff)
  then obtain es where es: "map_of (w_prepend w) ''PATH'' = Some es" by blast
  with assms(2) have "entries_ok es" by (rule prepend_ok[rotated])
  with es show ?thesis by (simp add: final_value_def joined_not_Nil)
qed

lemma hook_changes_env:
  assumes "knows E st env" "plain_env E" "undoable w" "env_shape w"
  shows "run_vars (eo_vars (hook_changes st env w)) env = overlay w E"
proof
  fix n
  have base: "base_value st env = E" using assms(1) by (simp add: knows_def)
  have "env ''OKU_SHELL_PATH'' = None"
    using assms(1,2) fun_cong[OF base, of "''OKU_SHELL_PATH''"]
    by (auto simp: knows_def base_value_def plain_env_def split: option.splits)
  then have first: "session_first env = (\<lambda>p. p)" by (simp add: fun_eq_iff session_first_def split_list_def)
  let ?final = "map (\<lambda>n. (n, final_value w E n)) (final_names w)"
  let ?before = "map (\<lambda>n. (n, E n)) (filter (\<lambda>n. n \<notin> set (final_names w)) (remdups (map fst (hs_saved st))))"
  let ?lists = "map (\<lambda>n. (n, Some (case E n of None \<Rightarrow> [] | Some v \<Rightarrow> v)))
    (filter (\<lambda>n. n \<notin> set (final_names w) \<and> n \<notin> set (map fst (hs_saved st))) (remdups (map fst (hs_added st))))"
  have final: "fst (final_values w E) = ?final" by (simp add: final_values_def)
  have id: "map (final_path env) ?final = ?final" by (simp add: final_path_def first option.map_ident)
  have names: "map fst ?final = final_names w" by (simp add: o_def)
  have vars: "eo_vars (hook_changes st env w) = concat (map (var_change env) (?final @ ?before @ ?lists))"
    unfolding hook_changes_def Let_def base final id names by simp
  have dist: "distinct (map fst (?final @ ?before @ ?lists))"
    by (auto simp: final_names_def o_def)
  have listed: "E m \<noteq> None" if "m \<notin> fst ` set (hs_saved st)" "m \<in> fst ` set (hs_added st)" for m
  proof -
    have "map_of (hs_saved st) m = None" "map_of (hs_added st) m \<noteq> None" using that by (simp_all add: map_of_eq_None_iff)
    with assms(1) base show ?thesis by (auto simp: knows_def base_value_def split: option.splits)
  qed
  have same: "env n = E n" if "n \<notin> fst ` set (hs_saved st)" "n \<notin> fst ` set (hs_added st)"
  proof -
    have "map_of (hs_saved st) n = None" "map_of (hs_added st) n = None" using that by (simp_all add: map_of_eq_None_iff)
    then have "base_value st env n = env n" by (simp add: base_value_def split: option.split)
    with base show ?thesis by simp
  qed
  have lists: "(case map_of (?final @ ?before @ ?lists) n of None \<Rightarrow> env n | Some v \<Rightarrow> v) = overlay w E n"
  proof (cases "n \<in> set (final_names w)")
    case False
    then show ?thesis
      using listed[of n] same
      by (cases "n \<in> fst ` set (hs_saved st)"; cases "n \<in> fst ` set (hs_added st)"; cases "E n")
        (simp_all add: map_add_def map_of_names overlay_def)
  qed (simp add: map_add_def map_of_names overlay_def split: option.split)
  have path: "map_of (?final @ ?before @ ?lists) ''PATH'' \<noteq> Some (Some [])"
  proof -
    have "final_value w E ''PATH'' \<noteq> Some []" if "''PATH'' \<in> set (final_names w)"
      using that assms(3) by (rule undoable_path)
    moreover have "E ''PATH'' \<noteq> Some []" using assms(2) by (simp add: plain_env_def)
    ultimately show ?thesis
      using listed[of "''PATH''"]
      by (cases "''PATH'' \<in> fst ` set (hs_saved st)"; cases "''PATH'' \<in> fst ` set (hs_added st)"; cases "E ''PATH''")
        (simp_all add: map_add_def map_of_names)
  qed
  show "run_vars (eo_vars (hook_changes st env w)) env n = overlay w E n"
    unfolding vars run_changes[OF dist] using lists path by (auto simp: var_change_def split: option.splits if_splits)
qed

text \<open>After the prompt the hook knows the environment without it again.\<close>

lemma map_of_keys: "map_of (filter (\<lambda>p. P (fst p)) ps) n = (if P n then map_of ps n else None)"
  by (induction ps) auto

lemma map_of_concat_saves:
  "(\<And>m. fst ` set (f m) \<subseteq> {m}) \<Longrightarrow> map_of (concat (map f ns)) n = (if n \<in> set ns then map_of (f n) n else None)"
proof (induction ns)
  case (Cons m ns)
  show ?case
  proof (cases "m = n")
    case True
    with Cons show ?thesis by (auto simp: map_add_def split: option.split)
  next
    case False
    with Cons.prems[of m] have "map_of (f m) n = None" by (auto simp: map_of_eq_None_iff)
    with False Cons show ?thesis by (simp add: map_add_def split: option.split)
  qed
qed simp

lemma to_save_names: "fst ` set (to_save st env prepended m) \<subseteq> {m}"
  by (auto simp: to_save_def split: if_splits)

lemma saved_after:
  assumes "knows E st env"
  shows "map_of (eo_saved (hook_changes st env w)) n =
    (if n \<notin> set (final_names w) then None
     else if \<not> is_prepended w n then Some (E n) else if E n = None then Some None else None)"
proof -
  have base: "base_value st env = E" using assms by (simp add: knows_def)
  have names: "map fst (map (final_path env) (fst (final_values w E))) = final_names w"
    by (simp add: final_values_def final_path_def o_def if_distrib cong: if_cong)
  have prepended: "map_of (snd (final_values w E)) n = None \<longleftrightarrow> \<not> is_prepended w n"
    by (simp add: final_values_def map_of_keys) (auto simp: is_prepended_def)
  have unset: "(case map_of (hs_saved st) n of Some old \<Rightarrow> old = None
      | None \<Rightarrow> map_of (hs_added st) n = None \<and> env n = None) \<longleftrightarrow> E n = None"
    using assms fun_cong[OF base, of n] by (auto simp: knows_def base_value_def split: option.splits)
  have "eo_saved (hook_changes st env w) = concat (map (to_save st env (snd (final_values w E))) (final_names w))"
    unfolding hook_changes_def Let_def base names by simp
  then have "map_of (eo_saved (hook_changes st env w)) n =
      (if n \<in> set (final_names w) then map_of (to_save st env (snd (final_values w E)) n) n else None)"
    by (simp add: map_of_concat_saves[OF to_save_names])
  then show ?thesis unfolding to_save_def prepended unset base by simp
qed

lemma added_after:
  assumes "knows E st env"
  shows "map_of (eo_added (hook_changes st env w)) n = (if is_prepended w n then map_of (w_prepend w) n else None)"
  using assms by (simp add: hook_changes_def Let_def knows_def final_values_def map_of_keys)

lemma knows_after:
  assumes "knows E st env" "undoable w" "\<And>n. map_of (hs_saved st') n = map_of (eo_saved (hook_changes st env w)) n"
    "hs_added st' = eo_added (hook_changes st env w)"
  shows "knows E st' (overlay w E)"
proof -
  have named: "is_prepended w n \<Longrightarrow> n \<in> set (final_names w)" for n
    by (auto simp: is_prepended_def final_names_def simp flip: map_of_eq_None_iff)
  note after = assms(3,4) saved_after[OF assms(1)] added_after[OF assms(1)]
  have "base_value st' (overlay w E) n = E n" for n
  proof (cases "is_prepended w n")
    case False
    then show ?thesis by (simp add: base_value_def after overlay_def split: option.split)
  next
    case True
    then obtain es where es: "map_of (w_prepend w) n = Some es" by (auto simp: is_prepended_def)
    with assms(2) have "entries_ok es" by (rule prepend_ok[rotated])
    with True es named[OF True] show ?thesis
      by (cases "E n") (simp_all add: base_value_def after overlay_def final_value_def is_prepended_def without_joined)
  qed
  moreover have "''OKU_SHELL_PATH'' \<notin> set (final_names w)" using assms(2) by (simp add: undoable_def)
  moreover have "overlay w E n \<noteq> None" if "is_prepended w n" for n
    using that named[OF that] by (auto simp: overlay_def final_value_def is_prepended_def)
  ultimately show ?thesis
    using named by (auto simp: knows_def after fun_eq_iff split: if_splits)
qed

subsection \<open>A shell over many prompts\<close>

text \<open>
  The shells of a session whose environment without the hook is \<open>E\<close>: a new one; one after a prompt in a directory with any
  environment that can be undone; and one in which the user set a variable that the hook does not manage, or put an entry in
  front of a list that the hook already added to.
\<close>

definition fresh_shell :: "bool \<Rightarrow> lookup \<Rightarrow> shell" where
  "fresh_shell marker E = \<lparr>sh_env = E, sh_marker = marker, sh_exported = [], sh_local = [], sh_changed = [], sh_added = [],
     sh_old_path = [], sh_old_keys = [], sh_project = [], sh_hint = []\<rparr>"

definition managed :: "shell \<Rightarrow> string \<Rightarrow> bool" where
  "managed s n \<longleftrightarrow> map_of (hs_saved (read_hook_state s)) n \<noteq> None \<or> map_of (hs_added (read_hook_state s)) n \<noteq> None"

inductive hooked :: "lookup \<Rightarrow> shell \<Rightarrow> bool" where
  start: "plain_env E \<Longrightarrow> hooked E (fresh_shell marker E)"
| prompted: "hooked E s \<Longrightarrow> undoable (fst (wanted E)) \<Longrightarrow> env_shape (fst (wanted E)) \<Longrightarrow> hooked E (prompt wanted project s)"
| user_sets: "hooked E s \<Longrightarrow> \<not> managed s n \<Longrightarrow> plain_env (E(n := v)) \<Longrightarrow> hooked (E(n := v)) (s\<lparr>sh_env := (sh_env s)(n := v)\<rparr>)"
| user_adds: "hooked E s \<Longrightarrow> map_of (hs_saved (read_hook_state s)) n = None \<Longrightarrow> map_of (hs_added (read_hook_state s)) n = Some es \<Longrightarrow>
    sh_env s n = Some v \<Longrightarrow> E n = Some r \<Longrightarrow> r \<noteq> [] \<Longrightarrow> x \<notin> set es \<Longrightarrow> entries_ok [x] \<Longrightarrow>
    hooked (E(n := Some (x @ list_sep @ r))) (s\<lparr>sh_env := (sh_env s)(n := Some (x @ list_sep @ v))\<rparr>)"

text \<open>The state as the hook left it.\<close>

definition settled :: "shell \<Rightarrow> bool" where
  "settled s \<longleftrightarrow> sh_old_path s = [] \<and> sh_old_keys s = []
     \<and> (if sh_marker s then sh_exported s = [] \<and> set (sh_changed s) \<subseteq> fst ` set (sh_local s) else sh_changed s = [])"

lemma add_unset_known: "set ns \<subseteq> fst ` set saved \<Longrightarrow> fold add_unset ns saved = saved"
  by (induction ns) (auto simp: add_unset_def map_of_eq_None_iff)

lemma read_settled:
  "settled s \<Longrightarrow> read_hook_state s = \<lparr>hs_saved = (if sh_marker s then sh_local s else sh_exported s), hs_added = sh_added s\<rparr>"
  by (auto simp: read_hook_state_def settled_def Let_def add_unset_known)

lemma settled_prompt: "settled s \<Longrightarrow> settled (prompt wanted project s)"
  by (auto simp: settled_def prompt_def Let_def split: prod.split)

lemma prompt_state:
  assumes "settled s"
  shows "read_hook_state (prompt wanted project s) =
    (let st = read_hook_state s; out = hook_changes st (sh_env s) (fst (wanted (base_value st (sh_env s))))
     in \<lparr>hs_saved = eo_saved out, hs_added = eo_added out\<rparr>)"
  using settled_prompt[OF assms, of wanted project] by (simp add: read_settled) (simp add: prompt_def Let_def split: prod.split)

lemma prompt_env:
  "sh_env (prompt wanted project s) =
    (let st = read_hook_state s in run_vars (eo_vars (hook_changes st (sh_env s) (fst (wanted (base_value st (sh_env s)))))) (sh_env s))"
  by (simp add: prompt_def Let_def split: prod.split)

lemma without_user_entry:
  assumes "x \<notin> set es" "entries_ok [x]" "without_entries es v = r" "r \<noteq> []"
  shows "without_entries es (x @ list_sep @ v) = x @ list_sep @ r"
proof -
  have x: "CHR '':'' \<notin> set x" "x \<noteq> []" using assms(2) by (auto simp: entries_ok_def)
  have none: "fold remove1 ys [] = []" for ys :: "string list" by (induction ys) simp_all
  have v: "v \<noteq> []" using assms(3,4) none by (auto simp: without_entries_def split_list_def)
  have skip: "x \<notin> set es \<Longrightarrow> fold remove1 es (x # ys) = x # fold remove1 es ys" for ys
    by (induction es arbitrary: ys) auto
  have "split_list (x @ list_sep @ v) = x # split_list v"
    using split_char_append[of "CHR '':''" x v] x v by (simp add: split_list_def list_sep_def split_char_single)
  moreover have "fold remove1 es (split_list v) \<noteq> []" using assms(3,4) by (auto simp: without_entries_def)
  ultimately show ?thesis
    using assms(1,3) skip by (cases "fold remove1 es (split_list v)") (simp_all add: without_entries_def)
qed

lemma read_hook_state_env [simp]: "read_hook_state (s\<lparr>sh_env := e\<rparr>) = read_hook_state s"
  by (simp add: read_hook_state_def)

lemma settled_env [simp]: "settled (s\<lparr>sh_env := e\<rparr>) = settled s"
  by (simp add: settled_def)

lemma knows_update:
  assumes "knows E st env" "base_value st (env(n := v)) n = v'" "map_of (hs_added st) n \<noteq> None \<Longrightarrow> v \<noteq> None"
  shows "knows (E(n := v')) st (env(n := v))"
proof -
  have "base_value st (env(n := v)) m = (E(n := v')) m" for m
  proof (cases "m = n")
    case False
    then have "base_value st (env(n := v)) m = base_value st env m" by (simp add: base_value_def cong: option.case_cong)
    with False assms(1) show ?thesis by (simp add: knows_def)
  qed (simp add: assms(2))
  then show ?thesis using assms(1,3) by (auto simp: knows_def)
qed

lemma hooked_knows: "hooked E s \<Longrightarrow> settled s \<and> plain_env E \<and> knows E (read_hook_state s) (sh_env s)"
proof (induction rule: hooked.induct)
  case (start E marker)
  then show ?case
    by (auto simp: fresh_shell_def settled_def read_hook_state_def knows_def base_value_def fun_eq_iff split: option.split)
next
  case (prompted E s wanted project)
  then have known: "knows E (read_hook_state s) (sh_env s)" and "settled s" by simp_all
  have base: "base_value (read_hook_state s) (sh_env s) = E" using known by (simp add: knows_def)
  have "sh_env (prompt wanted project s) = overlay (fst (wanted E)) E"
    unfolding prompt_env Let_def base using known prompted by (intro hook_changes_env) simp_all
  moreover have "knows E (read_hook_state (prompt wanted project s)) (overlay (fst (wanted E)) E)"
    unfolding prompt_state[OF \<open>settled s\<close>] Let_def base using known prompted by (intro knows_after) simp_all
  ultimately show ?case using prompted settled_prompt by simp
next
  case (user_sets E s n v)
  then have "base_value (read_hook_state s) ((sh_env s)(n := v)) n = v"
    by (auto simp: managed_def base_value_def split: option.split)
  then have "knows (E(n := v)) (read_hook_state s) ((sh_env s)(n := v))"
    using user_sets by (intro knows_update) (simp_all add: managed_def)
  then show ?case using user_sets.IH \<open>plain_env (E(n := v))\<close> by (simp del: fun_upd_apply)
next
  case (user_adds E s n es v r x)
  have "base_value (read_hook_state s) (sh_env s) n = E n" using user_adds.IH by (simp add: knows_def)
  with user_adds.hyps have "without_entries es v = r" by (simp add: base_value_def)
  then have "base_value (read_hook_state s) ((sh_env s)(n := Some (x @ list_sep @ v))) n = Some (x @ list_sep @ r)"
    using user_adds without_user_entry[of x es v r] by (simp add: base_value_def)
  then have "knows (E(n := Some (x @ list_sep @ r))) (read_hook_state s) ((sh_env s)(n := Some (x @ list_sep @ v)))"
    using user_adds by (intro knows_update) simp_all
  moreover have "n \<noteq> ''OKU_SHELL_PATH''" using user_adds by (auto simp: knows_def)
  ultimately show ?case using user_adds.IH by (simp add: plain_env_def list_sep_def del: fun_upd_apply) (simp add: plain_env_def)
qed

lemma hooked_env:
  assumes "hooked E s" "undoable (fst (wanted E))" "env_shape (fst (wanted E))"
  shows "sh_env (prompt wanted project s) = overlay (fst (wanted E)) E"
proof -
  have known: "plain_env E" "knows E (read_hook_state s) (sh_env s)" using hooked_knows[OF assms(1)] by simp_all
  then have base: "base_value (read_hook_state s) (sh_env s) = E" by (simp add: knows_def)
  show ?thesis unfolding prompt_env Let_def base using known assms(2,3) by (intro hook_changes_env)
qed

lemma overlay_no_env: "overlay no_env E = E"
  by (simp add: fun_eq_iff overlay_def final_names_def no_env_def)

lemma undoable_no_env: "undoable no_env"
  by (simp add: undoable_def no_env_def final_names_def)


definition example_outer :: lookup where
  "example_outer = map_of [(''PATH'', ''/bin''), (''EDITOR'', ''ed'')]"

definition example_sv :: surroundings_env where
  "example_sv = \<lparr>sv_read = \<lambda>p. NoFile, sv_decrypt = \<lambda>p d. None,
     sv_list = \<lambda>p. if p = ''/c/oku.toml'' then Some (Some ([(''EDITOR'', empty_value\<lparr>e_value := ''vi''\<rparr>)], []))
       else if p = ''/p/oku.toml'' then Some (Some ([(''EDITOR'', empty_value\<lparr>e_unset := True\<rparr>), (''PATH'', empty_value\<lparr>e_prepend := [''tools'']\<rparr>)], []))
       else None,
     sv_exists = \<lambda>p. False\<rparr>"

definition example_home :: "lookup \<Rightarrow> shell_env \<times> env_problem list" where
  "example_home = wanted_env example_sv [] ''/c/oku.toml'' None False"

definition example_project :: "lookup \<Rightarrow> shell_env \<times> env_problem list" where
  "example_project =
     wanted_env example_sv [] ''/c/oku.toml'' (Some \<lparr>ep_dir = ''/p'', ep_bin = ''/o/bin'', ep_packages = [], ep_list = ''/p/oku.toml''\<rparr>) False"

lemma example_wanted:
  "fst (example_home example_outer) = \<lparr>w_set = [(''EDITOR'', ''vi'')], w_unset = [], w_prepend = [], w_missing = []\<rparr>
   \<and> fst (example_project example_outer) = \<lparr>w_set = [], w_unset = [''EDITOR''], w_prepend = [(''PATH'', [''/p/tools'', ''/o/bin''])], w_missing = []\<rparr>"
  by code_simp

lemma example_undoable: "undoable (fst (example_home example_outer))" "undoable (fst (example_project example_outer))"
  unfolding example_wanted[THEN conjunct1] example_wanted[THEN conjunct2] by code_simp+


text \<open>
  An entry that holds the separator, as \<open>${EXTRA}\<close> or a directory with a colon in its name gives, is never found again:
  every prompt puts it in front once more and leaving does not take it out.
\<close>

definition colon_entry :: "lookup \<Rightarrow> shell_env \<times> env_problem list" where
  "colon_entry base = (prepend_var ''PATH'' [''/a:/b''] no_env, [])"

lemma colon_entry_repeats:
  "sh_env (prompt colon_entry [] (prompt colon_entry [] (fresh_shell True example_outer))) ''PATH'' = Some ''/a:/b:/a:/b:/bin''
   \<and> sh_env (prompt (\<lambda>base. (no_env, [])) [] (prompt colon_entry [] (fresh_shell True example_outer))) ''PATH'' = Some ''/a:/b:/bin''"
  by code_simp

end
