(* ===== verification/Trust.thy ===== *)
theory Trust
  imports Oku_List Keyed Go_Path
begin

text \<open>
  Which projects the shell hook may apply: the allows of \<open>internal/trust/trust.go\<close> and their use in
  \<open>internal/cli/envtrust.go\<close> and \<open>hook.go\<close>. The hash, git, the file system and the TOML decoder are arguments.
\<close>

subsection \<open>The allows on disk\<close>

record untracked =
  ut_path :: string
  ut_time :: int

record allow =
  al_dir :: string
  al_digest :: string
  al_untracked :: "untracked list"

text \<open>\<open>Get\<close> and \<open>Set\<close>, which works on the file as it is under its lock.\<close>

definition allow_get :: "allow list \<Rightarrow> string \<Rightarrow> allow option" where
  "allow_get disk dir = find (\<lambda>a. al_dir a = dir) disk"

definition allow_set :: "string \<Rightarrow> allow option \<Rightarrow> allow list \<Rightarrow> allow list" where
  "allow_set dir a disk =
     filter (\<lambda>x. al_dir x \<noteq> dir) disk @ (case a of None \<Rightarrow> [] | Some a \<Rightarrow> [a\<lparr>al_dir := dir\<rparr>])"

interpretation allows: keyed allow_get "\<lambda>a. allow_set (al_dir a) (Some a)" "\<lambda>dir. allow_set dir None" al_dir "\<lambda>_. True"
proof -
  have others: "find (\<lambda>a. al_dir a = k) (filter (\<lambda>x. al_dir x \<noteq> d) s) = (if k = d then None else find (\<lambda>a. al_dir a = k) s)"
    for k d and s :: "allow list" by (induction s) auto
  have snoc: "find P (xs @ [y]) = (case find P xs of None \<Rightarrow> if P y then Some y else None | r \<Rightarrow> r)" for P xs and y :: allow
    by (induction xs) auto
  show "keyed allow_get (\<lambda>a. allow_set (al_dir a) (Some a)) (\<lambda>dir. allow_set dir None) al_dir (\<lambda>_. True)"
    by unfold_locales (auto simp: allow_get_def allow_set_def others snoc split: option.split)
qed

subsection \<open>The files of a project\<close>

text \<open>
  A machine at one moment: the bytes of a file that can be read, its modification time, 0 for none, what git tracks, and the
  matches of \<open>oku.*.toml\<close>.
\<close>

record project_files =
  pf_data :: "string \<Rightarrow> string option"
  pf_time :: "string \<Rightarrow> int"
  pf_tracked :: "string \<Rightarrow> bool"
  pf_overlays :: "string list"

text \<open>The decoder gives the keys of a list and its tables.\<close>

type_synonym list_decoder = "string \<Rightarrow> (string list \<times> raw_list) option"

datatype trust_error = NoList string | NotParsed string | NoAllows

definition list_env_files :: "(string \<Rightarrow> bool) \<Rightarrow> list_decoder \<Rightarrow> string \<Rightarrow> env_file list option" where
  "list_env_files good_key decode text =
     (case decode text of
        None \<Rightarrow> None
      | Some (top_keys, raw) \<Rightarrow> (case parse_list good_key raw of Inl _ \<Rightarrow> None | Inr l \<Rightarrow> Some (ol_env_files l)))"

definition overlay_env_files :: "(string \<Rightarrow> bool) \<Rightarrow> list_decoder \<Rightarrow> string \<Rightarrow> env_file list option" where
  "overlay_env_files good_key decode text =
     (case decode text of
        None \<Rightarrow> None
      | Some (top_keys, raw) \<Rightarrow> (case read_overlay good_key top_keys raw of Inl _ \<Rightarrow> None | Inr l \<Rightarrow> Some (ol_env_files l)))"

definition add_files :: "string \<Rightarrow> env_file list \<Rightarrow> string list \<Rightarrow> string list" where
  "add_files project files paths =
     fold (\<lambda>f ps. if env_file_abs f project \<in> set ps then ps else ps @ [env_file_abs f project]) files paths"

fun add_overlays :: "(string \<Rightarrow> bool) \<Rightarrow> list_decoder \<Rightarrow> project_files \<Rightarrow> string \<Rightarrow> string list \<Rightarrow> string list \<Rightarrow> string list" where
  "add_overlays good_key decode w project [] paths = paths"
| "add_overlays good_key decode w project (path # rest) paths =
     (if path_base path = ''oku.pkg.toml'' then add_overlays good_key decode w project rest paths
      else add_overlays good_key decode w project rest
        (case Option.bind (pf_data w path) (overlay_env_files good_key decode) of
           None \<Rightarrow> paths @ [path]
         | Some files \<Rightarrow> add_files project files (paths @ [path])))"

definition env_files_of_list :: "(string \<Rightarrow> bool) \<Rightarrow> list_decoder \<Rightarrow> project_files \<Rightarrow> string \<Rightarrow> (trust_error, string \<times> string list) res" where
  "env_files_of_list good_key decode w project =
     (let list_path = path_join [project, ''oku.toml'']
      in case pf_data w list_path of
           None \<Rightarrow> Inl (NoList list_path)
         | Some listed \<Rightarrow>
             (case list_env_files good_key decode listed of
                None \<Rightarrow> Inl (NotParsed list_path)
              | Some files \<Rightarrow> Inr (listed, add_overlays good_key decode w project (pf_overlays w) (add_files project files []))))"

subsection \<open>The digest of an allow\<close>

definition file_bytes :: "project_files \<Rightarrow> string \<Rightarrow> string" where
  "file_bytes w path = (case pf_data w path of None \<Rightarrow> CHR 0x01 # ''missing'' | Some d \<Rightarrow> d)"

definition digest_text :: "project_files \<Rightarrow> string \<Rightarrow> string list \<Rightarrow> string" where
  "digest_text w listed tracked = listed @ concat (map (\<lambda>path. [CHR 0x00] @ path @ [CHR 0x00] @ file_bytes w path) tracked)"

definition allow_digest :: "(string \<Rightarrow> string) \<Rightarrow> project_files \<Rightarrow> string \<Rightarrow> string list \<Rightarrow> string" where
  "allow_digest hash w listed tracked = hash (digest_text w listed tracked)"

text \<open>\<open>newAllow\<close>, what \<open>oku allow\<close> records.\<close>

definition new_allow ::
  "(string \<Rightarrow> string) \<Rightarrow> (string \<Rightarrow> bool) \<Rightarrow> list_decoder \<Rightarrow> project_files \<Rightarrow> string \<Rightarrow> (trust_error, allow \<times> string list) res" where
  "new_allow hash good_key decode w project =
     (case env_files_of_list good_key decode w project of
        Inl e \<Rightarrow> Inl e
      | Inr (listed, paths) \<Rightarrow>
          (let tracked = filter (pf_tracked w) paths
           in Inr (\<lparr>al_dir = project, al_digest = allow_digest hash w listed tracked,
                     al_untracked = map (\<lambda>p. \<lparr>ut_path = p, ut_time = pf_time w p\<rparr>) (filter (\<lambda>p. \<not> pf_tracked w p) paths)\<rparr>, tracked)))"

text \<open>
  \<open>allowHolds\<close>: the loop over the files asks git about a file that the allow does not list, and about one whose time is
  another. \<open>known\<close> is the list of untracked files as the loop changes it.
\<close>

fun file_index :: "untracked list \<Rightarrow> string \<Rightarrow> nat option" where
  "file_index [] path = None"
| "file_index (u # us) path = (if ut_path u = path then Some 0 else map_option Suc (file_index us path))"

fun check_files :: "project_files \<Rightarrow> string list \<Rightarrow> untracked list \<Rightarrow> string list \<times> untracked list \<times> bool" where
  "check_files w [] known = ([], known, False)"
| "check_files w (path # rest) known =
     (case file_index known path of
        None \<Rightarrow>
          if pf_tracked w path then (let (ts, k, c) = check_files w rest known in (path # ts, k, c))
          else (let (ts, k, c) = check_files w rest (known @ [\<lparr>ut_path = path, ut_time = pf_time w path\<rparr>]) in (ts, k, True))
      | Some i \<Rightarrow>
          if pf_time w path = ut_time (known ! i) then check_files w rest known
          else if pf_tracked w path then (let (ts, k, c) = check_files w rest known in (path # ts, k, c))
          else (let (ts, k, c) = check_files w rest (known[i := (known ! i)\<lparr>ut_time := pf_time w path\<rparr>]) in (ts, k, True)))"

text \<open>Whether the allow holds, and the allow to save when its files that git does not track changed.\<close>

definition allow_holds ::
  "(string \<Rightarrow> string) \<Rightarrow> (string \<Rightarrow> bool) \<Rightarrow> list_decoder \<Rightarrow> project_files \<Rightarrow> string \<Rightarrow> allow option \<Rightarrow> (trust_error, bool \<times> allow option) res" where
  "allow_holds hash good_key decode w project found =
     (case found of
        None \<Rightarrow> Inr (False, None)
      | Some a \<Rightarrow>
          (case env_files_of_list good_key decode w project of
             Inl e \<Rightarrow> Inl e
           | Inr (listed, paths) \<Rightarrow>
               (let (tracked, known, changed) = check_files w paths (al_untracked a);
                    holds = (allow_digest hash w listed tracked = al_digest a)
                in Inr (holds, if holds \<and> changed then Some (a\<lparr>al_untracked := known\<rparr>) else None))))"

subsection \<open>When the hook applies a project\<close>

text \<open>The lock of the project and the one that its profile was built from.\<close>

datatype lock_read = LockBytes string | LockMissing | LockError

datatype project_off = TrustProblem trust_error | NotAllowed string | Behind | NotInstalled

definition project_unsynced :: "lock_read \<Rightarrow> string option \<Rightarrow> bool \<Rightarrow> project_off option" where
  "project_unsynced locked snapshot no_packages =
     (if locked = LockBytes (case snapshot of None \<Rightarrow> [] | Some s \<Rightarrow> s) then None
      else if snapshot \<noteq> None then Some Behind
      else if locked = LockMissing \<and> no_packages then None
      else Some NotInstalled)"

definition project_active ::
  "(string \<Rightarrow> string) \<Rightarrow> (string \<Rightarrow> bool) \<Rightarrow> list_decoder \<Rightarrow> project_files \<Rightarrow> string \<Rightarrow> allow list option \<Rightarrow> lock_read \<Rightarrow> string option \<Rightarrow> bool
     \<Rightarrow> project_off option" where
  "project_active hash good_key decode w project disk locked snapshot no_packages =
     (case disk of
        None \<Rightarrow> Some (TrustProblem NoAllows)
      | Some allows \<Rightarrow>
          (case allow_holds hash good_key decode w project (allow_get allows project) of
             Inl e \<Rightarrow> Some (TrustProblem e)
           | Inr (holds, _) \<Rightarrow>
               if \<not> holds then Some (NotAllowed (path_join [project, ''oku.toml'']))
               else project_unsynced locked snapshot no_packages))"

end
