(* ===== verification/Trust_Props.thy ===== *)
theory Trust_Props
  imports Trust
begin

text \<open>
  What an allow guards: the list and the files that git tracks are, byte for byte, as they were when the user allowed the
  project, and a file that git does not track is the user's to change.
\<close>

subsection \<open>The text that is hashed\<close>

text \<open>Files without the byte 0, and not the text that stands for a missing one.\<close>

definition plain_files :: "project_files \<Rightarrow> string \<Rightarrow> string list \<Rightarrow> bool" where
  "plain_files w listed paths \<longleftrightarrow> CHR 0x00 \<notin> set listed
     \<and> (\<forall>p\<in>set paths. CHR 0x00 \<notin> set p \<and> CHR 0x00 \<notin> set (file_bytes w p) \<and> pf_data w p \<noteq> Some (CHR 0x01 # ''missing''))"

definition digest_parts :: "project_files \<Rightarrow> string \<Rightarrow> string list \<Rightarrow> string list" where
  "digest_parts w listed tracked = listed # concat (map (\<lambda>p. [p, file_bytes w p]) tracked)"

lemma join_Cons: "join sep (x # xs) = x @ concat (map (\<lambda>y. sep @ y) xs)"
  by (induction xs arbitrary: x) simp_all

lemma digest_text_join: "digest_text w listed tracked = join [CHR 0x00] (digest_parts w listed tracked)"
  unfolding digest_parts_def join_Cons digest_text_def by (induction tracked) simp_all

lemma digest_text_split:
  assumes "plain_files w listed paths" "set tracked \<subseteq> set paths"
  shows "split_char (CHR 0x00) (digest_text w listed tracked) = digest_parts w listed tracked"
  unfolding digest_text_join using assms by (intro split_char_join) (auto simp: digest_parts_def plain_files_def)

lemma parts_inj:
  assumes "digest_parts w listed ts = digest_parts w0 listed0 ts0"
    and "\<forall>p\<in>set ts. pf_data w p \<noteq> Some (CHR 0x01 # ''missing'')" "\<forall>p\<in>set ts0. pf_data w0 p \<noteq> Some (CHR 0x01 # ''missing'')"
  shows "listed = listed0 \<and> ts = ts0 \<and> (\<forall>p\<in>set ts. pf_data w p = pf_data w0 p)"
proof -
  have files: "ts = ts0 \<and> (\<forall>p\<in>set ts. pf_data w p = pf_data w0 p)"
    if "concat (map (\<lambda>p. [p, file_bytes w p]) ts) = concat (map (\<lambda>p. [p, file_bytes w0 p]) ts0)"
    using that assms(2,3)
  proof (induction ts arbitrary: ts0)
    case Nil
    then show ?case by (cases ts0) simp_all
  next
    case (Cons p ts)
    then obtain rest where rest: "ts0 = p # rest" by (cases ts0) auto
    with Cons.prems have "file_bytes w p = file_bytes w0 p" by simp
    with Cons.prems rest have "pf_data w p = pf_data w0 p" by (auto simp: file_bytes_def split: option.splits)
    with Cons.IH[of rest] Cons.prems rest show ?case by simp
  qed
  with assms(1) show ?thesis by (simp add: digest_parts_def)
qed

lemma digest_inj:
  assumes "inj hash" "allow_digest hash w listed ts = allow_digest hash w0 listed0 ts0"
    and "plain_files w listed paths" "set ts \<subseteq> set paths" "plain_files w0 listed0 paths0" "set ts0 \<subseteq> set paths0"
  shows "listed = listed0 \<and> ts = ts0 \<and> (\<forall>p\<in>set ts. pf_data w p = pf_data w0 p)"
proof (rule parts_inj)
  have "digest_text w listed ts = digest_text w0 listed0 ts0" using assms(1,2) by (simp add: allow_digest_def inj_eq)
  then show "digest_parts w listed ts = digest_parts w0 listed0 ts0"
    using digest_text_split[OF assms(3,4)] digest_text_split[OF assms(5,6)] by simp
qed (use assms in \<open>auto simp: plain_files_def\<close>)

subsection \<open>The files that git is asked about\<close>

definition entry_of :: "untracked list \<Rightarrow> string \<Rightarrow> untracked option" where
  "entry_of known path = find (\<lambda>u. ut_path u = path) known"

definition unasked :: "untracked list \<Rightarrow> project_files \<Rightarrow> string \<Rightarrow> bool" where
  "unasked known w path \<longleftrightarrow> (case entry_of known path of None \<Rightarrow> False | Some u \<Rightarrow> ut_time u = pf_time w path)"

lemma file_index_None: "file_index known path = None \<longleftrightarrow> entry_of known path = None"
  by (induction known) (auto simp: entry_of_def)

lemma file_index_Some:
  "file_index known path = Some i \<Longrightarrow> i < length known \<and> ut_path (known ! i) = path \<and> entry_of known path = Some (known ! i)"
  by (induction known arbitrary: i) (auto simp: entry_of_def split: if_splits)

lemma entry_append: "ut_path u \<noteq> p \<Longrightarrow> entry_of (known @ [u]) p = entry_of known p"
  unfolding entry_of_def by (induction known) auto

lemma entry_append_new: "entry_of known (ut_path u) = None \<Longrightarrow> entry_of (known @ [u]) (ut_path u) = Some u"
  unfolding entry_of_def by (induction known) (auto split: if_splits)

lemma entry_update:
  "ut_path (known ! i) \<noteq> p \<Longrightarrow> ut_path u \<noteq> p \<Longrightarrow> entry_of (known[i := u]) p = entry_of known p"
  unfolding entry_of_def by (induction known arbitrary: i) (auto split: nat.split)

lemma entry_update_same: "file_index known p = Some i \<Longrightarrow> ut_path u = p \<Longrightarrow> entry_of (known[i := u]) p = Some u"
  by (induction known arbitrary: i) (auto simp: entry_of_def split: if_splits)

text \<open>One step of the loop: what it does to the entries of all files.\<close>

definition known_after :: "project_files \<Rightarrow> string \<Rightarrow> untracked list \<Rightarrow> untracked list" where
  "known_after w path known =
     (if unasked known w path \<or> pf_tracked w path then known
      else case file_index known path of
        None \<Rightarrow> known @ [\<lparr>ut_path = path, ut_time = pf_time w path\<rparr>]
      | Some i \<Rightarrow> known[i := (known ! i)\<lparr>ut_time := pf_time w path\<rparr>])"

lemma unasked_index: "file_index known path = Some i \<Longrightarrow> unasked known w path \<longleftrightarrow> pf_time w path = ut_time (known ! i)"
  by (auto simp: unasked_def dest: file_index_Some)

lemma check_files_Cons:
  "check_files w (path # rest) known =
     (let (ts, k, c) = check_files w rest (known_after w path known)
      in (if pf_tracked w path \<and> \<not> unasked known w path then path # ts else ts, k,
          c \<or> \<not> pf_tracked w path \<and> \<not> unasked known w path))"
proof (cases "file_index known path")
  case None
  then have "\<not> unasked known w path" by (simp add: file_index_None unasked_def)
  with None show ?thesis by (simp add: known_after_def split: prod.split)
next
  case (Some i)
  with unasked_index[OF Some] show ?thesis by (auto simp: known_after_def split: prod.split)
qed

declare check_files.simps(2) [simp del]

lemma entry_after:
  "unasked (known_after w path known) w p \<longleftrightarrow> unasked known w p \<or> p = path \<and> \<not> pf_tracked w path"
  "pf_tracked w p \<Longrightarrow> entry_of (known_after w path known) p = entry_of known p"
proof -
  have other: "entry_of (known_after w path known) p = entry_of known p" if "p \<noteq> path \<or> pf_tracked w path \<or> unasked known w path"
    using that entry_append[of "\<lparr>ut_path = path, ut_time = pf_time w path\<rparr>" p known] entry_update[of known _ p]
    by (auto simp: known_after_def split: option.split dest: file_index_Some)
  have here: "unasked (known_after w path known) w path" if "\<not> pf_tracked w path" "\<not> unasked known w path"
  proof (cases "file_index known path")
    case None
    have "entry_of known path = None" using None by (simp add: file_index_None)
    with that None entry_append_new[of known "\<lparr>ut_path = path, ut_time = pf_time w path\<rparr>"] show ?thesis
      by (simp add: known_after_def) (simp add: unasked_def)
  next
    case (Some i)
    with that entry_update_same[OF Some, of "(known ! i)\<lparr>ut_time := pf_time w path\<rparr>"] file_index_Some[OF Some] show ?thesis
      by (simp add: known_after_def) (simp add: unasked_def)
  qed
  show "unasked (known_after w path known) w p \<longleftrightarrow> unasked known w p \<or> p = path \<and> \<not> pf_tracked w path"
  proof (cases "p \<noteq> path \<or> pf_tracked w path \<or> unasked known w path")
    case True
    with other[OF True] show ?thesis by (auto simp: unasked_def)
  qed (use here in auto)
  show "pf_tracked w p \<Longrightarrow> entry_of (known_after w path known) p = entry_of known p" using other by blast
qed

lemma check_files_tracked:
  "check_files w paths known = (ts, k, c) \<Longrightarrow> ts = filter (\<lambda>p. pf_tracked w p \<and> \<not> unasked known w p) paths"
proof (induction paths arbitrary: known ts k c)
  case (Cons path rest)
  obtain ts' k' c' where rec: "check_files w rest (known_after w path known) = (ts', k', c')" by (metis prod_cases3)
  have "ts' = filter (\<lambda>p. pf_tracked w p \<and> \<not> unasked known w p) rest"
    unfolding Cons.IH[OF rec] by (intro filter_cong) (auto simp: entry_after)
  with rec Cons.prems show ?case by (auto simp: check_files_Cons split: if_splits)
qed simp

lemma check_files_known:
  "check_files w paths known = (ts, k, c) \<Longrightarrow>
     (\<forall>p. unasked known w p \<longrightarrow> unasked k w p) \<and> (\<forall>p\<in>set paths. \<not> pf_tracked w p \<longrightarrow> unasked k w p)
     \<and> (\<forall>p. pf_tracked w p \<longrightarrow> entry_of k p = entry_of known p) \<and> (\<not> c \<longrightarrow> k = known)"
proof (induction paths arbitrary: known ts k c)
  case (Cons path rest)
  obtain ts' k' c' where rec: "check_files w rest (known_after w path known) = (ts', k', c')" by (metis prod_cases3)
  with Cons.prems have k: "k = k'" "c \<longleftrightarrow> c' \<or> \<not> pf_tracked w path \<and> \<not> unasked known w path" by (auto simp: check_files_Cons split: if_splits)
  have "known_after w path known = known" if "pf_tracked w path \<or> unasked known w path" using that by (auto simp: known_after_def)
  with Cons.IH[OF rec] k show ?case by (auto simp: entry_after)
qed simp

lemma check_files_quiet:
  "\<forall>p\<in>set paths. \<not> pf_tracked w p \<longrightarrow> unasked k w p \<Longrightarrow>
   check_files w paths k = (filter (\<lambda>p. pf_tracked w p \<and> \<not> unasked k w p) paths, k, False)"
proof (induction paths)
  case (Cons path rest)
  then have "known_after w path k = k" by (auto simp: known_after_def)
  with Cons show ?case by (auto simp: check_files_Cons)
qed simp

lemma check_files_again:
  assumes "check_files w paths known = (ts, k, c)"
  shows "check_files w paths k = (ts, k, False)"
proof -
  note after = check_files_known[OF assms]
  have "filter (\<lambda>p. pf_tracked w p \<and> \<not> unasked k w p) paths = ts"
    unfolding check_files_tracked[OF assms] using after by (intro filter_cong) (auto simp: unasked_def)
  with after show ?thesis by (simp add: check_files_quiet)
qed

subsection \<open>What an allow guards\<close>

text \<open>The allow of a project: one that \<open>oku allow\<close> made, as the hook changed it since.\<close>

inductive allow_from ::
  "(string \<Rightarrow> string) \<Rightarrow> (string \<Rightarrow> bool) \<Rightarrow> list_decoder \<Rightarrow> string \<Rightarrow> project_files \<Rightarrow> allow \<Rightarrow> bool"
  for hash good_key decode project w0 where
  allowed: "new_allow hash good_key decode w0 project = Inr (a, tracked) \<Longrightarrow> allow_from hash good_key decode project w0 a"
| hook_saves: "allow_from hash good_key decode project w0 a \<Longrightarrow>
    allow_holds hash good_key decode w project (Some a) = Inr (True, Some a') \<Longrightarrow> allow_from hash good_key decode project w0 a'"

lemma holds_digest:
  assumes "allow_holds hash good_key decode w project (Some a) = Inr (True, s)" "env_files_of_list good_key decode w project = Inr (listed, paths)"
  shows "al_digest a = allow_digest hash w listed (filter (\<lambda>p. pf_tracked w p \<and> \<not> unasked (al_untracked a) w p) paths)"
proof -
  obtain ts k c where rec: "check_files w paths (al_untracked a) = (ts, k, c)" by (metis prod_cases3)
  with assms check_files_tracked[OF rec] show ?thesis by (auto simp: allow_holds_def Let_def)
qed

lemma allow_from_digest:
  assumes "allow_from hash good_key decode project w0 a" "env_files_of_list good_key decode w0 project = Inr (listed0, paths0)"
  shows "al_digest a = allow_digest hash w0 listed0 (filter (pf_tracked w0) paths0)"
  using assms(1)
proof induction
  case (allowed a tracked)
  with assms(2) show ?case by (simp add: new_allow_def Let_def) (metis allow.select_convs(2))
next
  case (hook_saves a w a')
  then show ?case by (auto simp: allow_holds_def Let_def split: sum.splits prod.splits if_splits)
qed

text \<open>
  C9. When the hook finds that an allow still holds, \<open>oku.toml\<close> has the bytes that it had when the user allowed the project,
  however often the hook updated the allow since. So has every file of the environment that git tracks, and git tracked it
  then, but for a file that git did not track then and whose modification time is still the recorded one, since git is not
  asked about it. The hash is taken to be free of collisions, and no file holds the byte 0.
\<close>

theorem allow_guards_files:
  assumes "inj hash" "allow_from hash good_key decode project w0 a"
    and "env_files_of_list good_key decode w0 project = Inr (listed0, paths0)" "plain_files w0 listed0 paths0"
    and "allow_holds hash good_key decode w project (Some a) = Inr (True, s)"
    and "env_files_of_list good_key decode w project = Inr (listed, paths)" "plain_files w listed paths"
  shows "listed = listed0
    \<and> (\<forall>p\<in>set paths. pf_tracked w p \<and> \<not> unasked (al_untracked a) w p \<longrightarrow>
         p \<in> set paths0 \<and> pf_tracked w0 p \<and> pf_data w p = pf_data w0 p)"
proof -
  let ?ts = "filter (\<lambda>p. pf_tracked w p \<and> \<not> unasked (al_untracked a) w p) paths"
  have "allow_digest hash w listed ?ts = allow_digest hash w0 listed0 (filter (pf_tracked w0) paths0)"
    using holds_digest[OF assms(5,6)] allow_from_digest[OF assms(2,3)] by simp
  from digest_inj[OF assms(1) this assms(7) _ assms(4)]
  have same: "listed = listed0 \<and> ?ts = filter (pf_tracked w0) paths0 \<and> (\<forall>p\<in>set ?ts. pf_data w p = pf_data w0 p)"
    by (auto simp del: set_filter simp: filter_is_subset)
  have sets: "set ?ts = set (filter (pf_tracked w0) paths0)" by (rule arg_cong[OF conjunct1[OF conjunct2[OF same]]])
  have "\<forall>p\<in>set ?ts. p \<in> set paths0 \<and> pf_tracked w0 p" unfolding sets by simp
  with same show ?thesis unfolding set_filter by blast
qed

text \<open>
  An allow holds after changes to files that git does not track, and the hook then saves an allow about which it never
  asks git again.
\<close>

lemma user_files_stay_yours:
  assumes "new_allow hash good_key decode w0 project = Inr (a, tracked)" "env_files_of_list good_key decode w0 project = Inr (listed, paths)"
    and "env_files_of_list good_key decode w project = Inr (listed, paths)" "pf_tracked w = pf_tracked w0"
    and "\<forall>p\<in>set paths. pf_tracked w0 p \<longrightarrow> pf_data w p = pf_data w0 p"
  shows "\<exists>s. allow_holds hash good_key decode w project (Some a) = Inr (True, s)
    \<and> allow_holds hash good_key decode w project (Some (case s of None \<Rightarrow> a | Some a' \<Rightarrow> a')) = Inr (True, None)"
proof -
  have a: "al_digest a = allow_digest hash w0 listed (filter (pf_tracked w0) paths)"
    "al_untracked a = map (\<lambda>p. \<lparr>ut_path = p, ut_time = pf_time w0 p\<rparr>) (filter (\<lambda>p. \<not> pf_tracked w0 p) paths)"
    using assms(1,2) by (auto simp: new_allow_def Let_def)
  have "entry_of (al_untracked a) p = None" if "pf_tracked w p" for p
    using that assms(4) by (auto simp: a entry_of_def find_None_iff)
  then have asked: "\<not> unasked (al_untracked a) w p" if "pf_tracked w p" for p using that by (simp add: unasked_def)
  obtain ts k c where rec: "check_files w paths (al_untracked a) = (ts, k, c)" by (metis prod_cases3)
  have "ts = filter (pf_tracked w0) paths"
    unfolding check_files_tracked[OF rec] using asked assms(4) by (intro filter_cong) auto
  moreover have "digest_text w listed (filter (pf_tracked w0) paths) = digest_text w0 listed (filter (pf_tracked w0) paths)"
    using assms(5) by (auto simp: digest_text_def file_bytes_def intro!: arg_cong[where f = concat])
  ultimately have "allow_digest hash w listed ts = al_digest a" by (simp add: a allow_digest_def)
  with rec check_files_again[OF rec] check_files_known[OF rec] assms(3) show ?thesis
    by (auto simp: allow_holds_def Let_def)
qed

text \<open>Without an allow nothing is applied, and after a denial there is none until the project is allowed again.\<close>

lemma denied_until_allowed:
  assumes "\<forall>p\<in>set later. case p of PutOp a \<Rightarrow> al_dir a \<noteq> project | DelOp _ \<Rightarrow> True"
  shows "project_active hash good_key decode w project (Some (fold allows.run_op (before_ops @ DelOp project # later) disk)) locked snapshot no_packages
    = Some (NotAllowed (path_join [project, ''oku.toml'']))"
proof -
  have none: "allows.history later m project = None" if "m project = None" for m :: "string \<Rightarrow> allow option"
    using assms that
  proof (induction later arbitrary: m)
    case (Cons x xs)
    then show ?case by (cases x) auto
  qed simp
  have split: "allows.history (xs @ ys) m = allows.history ys (allows.history xs m)" for xs ys and m :: "string \<Rightarrow> allow option"
  proof (induction xs arbitrary: m)
    case (Cons x xs)
    then show ?case by (cases x) (auto simp del: fun_upd_apply)
  qed simp
  have "allow_get (fold allows.run_op (before_ops @ DelOp project # later) disk) project = None"
    using allows.run_history[of "before_ops @ DelOp project # later" disk] by (simp add: split none)
  then show ?thesis by (simp add: project_active_def allow_holds_def)
qed

subsection \<open>Examples\<close>

definition empty_raw :: raw_list where
  "empty_raw = \<lparr>raw_include = [], raw_packages = [], raw_files = [], raw_vars = [], raw_secrets = [], raw_defaults = [], raw_this_mac = [],
     raw_registry = [], raw_dconf = [], raw_lock = [], raw_runtimes = [], raw_env = [], raw_host = []\<rparr>"

definition env_file_raw :: raw_list where
  "env_file_raw = empty_raw\<lparr>raw_env := [(''file'', TArr [TTab [(''path'', TStr ''.env'')], TTab [(''path'', TStr ''my.env'')]])]\<rparr>"

definition example_decode :: list_decoder where
  "example_decode text = (if text = ''L'' then Some ([''env''], env_file_raw) else if text = ''O'' then Some ([''env''], empty_raw) else None)"

definition example_files :: project_files where
  "example_files = \<lparr>pf_data = map_of [(''/p/oku.toml'', ''L''), (''/p/.env'', ''A=1''), (''/p/my.env'', ''B=1''), (''/p/oku.x.toml'', ''O'')],
     pf_time = \<lambda>p. 7, pf_tracked = \<lambda>p. p \<noteq> ''/p/my.env'', pf_overlays = [''/p/oku.x.toml'']\<rparr>"

text \<open>The same project after the user changed the file that git does not track.\<close>

definition example_edited :: project_files where
  "example_edited = example_files\<lparr>pf_data := (pf_data example_files)(''/p/my.env'' := Some ''B=2''), pf_time := (\<lambda>p. if p = ''/p/my.env'' then 8 else 7)\<rparr>"

definition example_allow :: allow where
  "example_allow = \<lparr>al_dir = ''/p'', al_digest = digest_text example_files ''L'' [''/p/.env'', ''/p/oku.x.toml''],
     al_untracked = [\<lparr>ut_path = ''/p/my.env'', ut_time = 7\<rparr>]\<rparr>"

lemma example_env_files:
  "env_files_of_list (\<lambda>k. True) example_decode example_files ''/p'' = Inr (''L'', [''/p/.env'', ''/p/my.env'', ''/p/oku.x.toml''])
   \<and> env_files_of_list (\<lambda>k. True) example_decode example_edited ''/p'' = Inr (''L'', [''/p/.env'', ''/p/my.env'', ''/p/oku.x.toml''])"
  by code_simp

lemma example_new_allow:
  "new_allow (\<lambda>text. text) (\<lambda>k. True) example_decode example_files ''/p'' = Inr (example_allow, [''/p/.env'', ''/p/oku.x.toml''])"
  by code_simp

theorem allow_guards_files_witness:
  "pf_data example_edited ''/p/.env'' = pf_data example_files ''/p/.env''
   \<and> allow_holds (\<lambda>text. text) (\<lambda>k. True) example_decode example_edited ''/p'' (Some example_allow)
      = Inr (True, Some (example_allow\<lparr>al_untracked := [\<lparr>ut_path = ''/p/my.env'', ut_time = 8\<rparr>]\<rparr>))"
proof -
  have holds: "allow_holds (\<lambda>text. text) (\<lambda>k. True) example_decode example_edited ''/p'' (Some example_allow)
      = Inr (True, Some (example_allow\<lparr>al_untracked := [\<lparr>ut_path = ''/p/my.env'', ut_time = 8\<rparr>]\<rparr>))" by code_simp
  have plain: "plain_files example_files ''L'' [''/p/.env'', ''/p/my.env'', ''/p/oku.x.toml'']"
    "plain_files example_edited ''L'' [''/p/.env'', ''/p/my.env'', ''/p/oku.x.toml'']" by code_simp+
  have "pf_tracked example_edited ''/p/.env'' \<and> \<not> unasked (al_untracked example_allow) example_edited ''/p/.env''" by code_simp
  then show ?thesis
    using holds allow_guards_files[OF inj_on_id2 allow_from.allowed[OF example_new_allow] conjunct1[OF example_env_files] plain(1)
        holds conjunct2[OF example_env_files] plain(2)] by simp
qed

text \<open>
  The hashed text has no mark of where a file ends: a tracked file that takes in the path and the bytes of the next one, which
  then goes away, has the same digest, and the allow holds for a changed file.
\<close>

definition moved_files :: project_files where
  "moved_files = example_files\<lparr>pf_data := (pf_data example_files)(''/p/.env'' := Some (''A=1'' @ [CHR 0x00] @ ''/p/oku.x.toml'' @ [CHR 0x00] @ ''O''),
     ''/p/oku.x.toml'' := None), pf_overlays := []\<rparr>"

lemma digest_hides_change:
  "allow_holds (\<lambda>text. text) (\<lambda>k. True) example_decode moved_files ''/p'' (Some example_allow) = Inr (True, None)
   \<and> pf_data moved_files ''/p/.env'' \<noteq> pf_data example_files ''/p/.env''"
  by code_simp

text \<open>
  The hook decides with the allows that it read and saves an allow later, under the lock but without a look at whether the
  project is still allowed: a denial in between is undone.
\<close>

lemma denial_undone:
  "project_active (\<lambda>text. text) (\<lambda>k. True) example_decode example_edited ''/p''
     (Some (case allow_holds (\<lambda>text. text) (\<lambda>k. True) example_decode example_edited ''/p'' (allow_get [example_allow] ''/p'') of
        Inr (True, Some a) \<Rightarrow> allow_set ''/p'' (Some a) (allow_set ''/p'' None [example_allow]) | _ \<Rightarrow> [])) (LockBytes []) None False = None
   \<and> project_active (\<lambda>text. text) (\<lambda>k. True) example_decode example_edited ''/p'' (Some (allow_set ''/p'' None [example_allow])) (LockBytes []) None False
      = Some (NotAllowed ''/p/oku.toml'')"
  by code_simp

end
