(* ===== verification/Local_URLs.thy ===== *)
theory Local_URLs
  imports Manifest_Check Ref Netpolicy
begin

text \<open>
  Which manifests may name files and services of this machine: \<open>localURLs\<close> and its helpers in \<open>internal/cli/install.go\<close>, and
  \<open>LocalPath\<close> of \<open>internal/store/filetransport.go\<close>, on Unix. The URL parser and \<open>EvalSymlinks\<close> are arguments.
\<close>

definition local_path :: "url \<Rightarrow> string option" where
  "local_path u = (if u_host u \<noteq> [] \<and> \<not> equal_fold (u_host u) ''localhost'' then None else Some (u_path u))"

definition real_path :: "(string \<Rightarrow> string option) \<Rightarrow> string \<Rightarrow> string" where
  "real_path real p =
     (case real p of
        Some r \<Rightarrow> r
      | None \<Rightarrow> (case real (path_dir p) of Some r \<Rightarrow> path_join [r, path_base p] | None \<Rightarrow> path_clean p))"

definition within :: "(string \<Rightarrow> string option) \<Rightarrow> string \<Rightarrow> string \<Rightarrow> bool" where
  "within real dir path =
     (case path_rel (real_path real dir) (real_path real path) of None \<Rightarrow> False | Some rel \<Rightarrow> rel = ''.'' \<or> is_local_path rel)"

definition git_path :: "(string \<Rightarrow> url option) \<Rightarrow> string \<Rightarrow> string \<Rightarrow> string" where
  "git_path parse git0 manifest_path =
     (let git = trim_space git0;
          named = (case parse git of Some u \<Rightarrow> if equal_fold (u_scheme u) ''file'' then local_path u else None | None \<Rightarrow> None)
      in case named of
           Some path \<Rightarrow> path
         | None \<Rightarrow> if is_abs git \<or> has_prefix git ''~'' then git else path_join [path_dir manifest_path, git])"

definition local_git :: "string \<Rightarrow> bool" where
  "local_git raw =
     (let url = trim_space raw
      in if url = [] then False
         else if has_prefix (to_lower url) ''file:'' \<or> has_prefix url ''/'' \<or> has_prefix url ''.'' \<or> has_prefix url ''~'' \<or> has_prefix url [CHR 0x5C]
         then True
         else if length url > 2 \<and> url ! 1 = CHR '':'' \<and> (url ! 2 = CHR 0x5C \<or> url ! 2 = CHR ''/'') then True
         else CHR '':'' \<notin> set url)"

datatype local_fault = ClonesLocal string | ReadsFile string | BadFileURL string | OutsideProject string | NamesMachine string

definition manifest_urls :: "manifest \<Rightarrow> string list" where
  "manifest_urls m =
     (if v_from (m_version m) \<in> {''page'', ''redirect'', ''sparkle''} then [v_repo (m_version m)] else [])
     @ concat (map (\<lambda>a. [ar_url a, ar_sha256_url a, ar_sigstore_bundle a, ar_sha256_url_bundle a, ar_sigstore_signature a,
         ar_sigstore_certificate a, ar_sha256_url_signature a, ar_sha256_url_certificate a, ar_provenance a]) (m_artifacts m))
     @ (case m_build m of
          None \<Rightarrow> []
        | Some b \<Rightarrow> [bs_url (br_source b), bs_sha256_url (br_source b)]
            @ concat (map (\<lambda>s. case st_fetch s of None \<Rightarrow> [] | Some f \<Rightarrow> [fe_url f, fe_sha256_url f]) (br_steps b)))"

definition url_fault ::
  "(string \<Rightarrow> url option) \<Rightarrow> (string \<Rightarrow> string option) \<Rightarrow> string \<Rightarrow> bool \<Rightarrow> bool \<Rightarrow> string \<Rightarrow> local_fault option" where
  "url_fault parse real project in_project served u =
     (if has_prefix (to_lower (trim_space u)) ''file:''
      then if \<not> in_project then Some (ReadsFile u)
           else (case parse (trim_space u) of
                   None \<Rightarrow> Some (BadFileURL u)
                 | Some p \<Rightarrow>
                     (case local_path p of
                        None \<Rightarrow> Some (OutsideProject u)
                      | Some path \<Rightarrow> if within real project path then None else Some (OutsideProject u)))
      else (case parse (trim_space u) of
              None \<Rightarrow> None
            | Some p \<Rightarrow> if \<not> served \<and> is_local (u_hostname p) then Some (NamesMachine u) else None))"

fun first_url_fault :: "(string \<Rightarrow> local_fault option) \<Rightarrow> string list \<Rightarrow> local_fault option" where
  "first_url_fault fault [] = None"
| "first_url_fault fault (u # us) = (case fault u of None \<Rightarrow> first_url_fault fault us | Some f \<Rightarrow> Some f)"

definition ref_in_project :: "(string \<Rightarrow> string option) \<Rightarrow> string \<Rightarrow> ref \<Rightarrow> bool" where
  "ref_in_project real project r \<longleftrightarrow> r_kind r = File \<and> project \<noteq> [] \<and> within real project (r_location r)"

text \<open>Whether the manifest itself comes from this machine, so that it may name URLs of it.\<close>

definition ref_served :: "(string \<Rightarrow> url option) \<Rightarrow> (string \<Rightarrow> string option) \<Rightarrow> string \<Rightarrow> ref \<Rightarrow> bool" where
  "ref_served parse real project r =
     (case parse (r_location r) of
        Some u \<Rightarrow> if r_kind r = HTTP then is_local (u_hostname u) else ref_in_project real project r
      | None \<Rightarrow> ref_in_project real project r)"

definition local_urls ::
  "(string \<Rightarrow> url option) \<Rightarrow> (string \<Rightarrow> string option) \<Rightarrow> string \<Rightarrow> ref \<Rightarrow> manifest \<Rightarrow> local_fault option" where
  "local_urls parse real project r m =
     (let in_project = ref_in_project real project r;
          git = (case m_build m of None \<Rightarrow> [] | Some b \<Rightarrow> bs_git (br_source b))
      in if \<not> in_project \<and> (r_kind r = File \<or> r_kind r = Git \<and> has_prefix (r_location r) ''file://'') then None
         else if local_git git \<and> (\<not> in_project \<or> \<not> within real project (git_path parse git (r_location r))) then Some (ClonesLocal git)
         else first_url_fault (url_fault parse real project in_project (ref_served parse real project r)) (manifest_urls m))"

subsection \<open>What passes\<close>

lemma first_url_fault_None: "first_url_fault fault us = None \<longleftrightarrow> (\<forall>u\<in>set us. fault u = None)"
  by (induction us) (auto split: option.split)

text \<open>Whether oku may take the manifest for one of this machine, which may name anything.\<close>

definition trusted_ref :: "(string \<Rightarrow> string option) \<Rightarrow> string \<Rightarrow> ref \<Rightarrow> bool" where
  "trusted_ref real project r \<longleftrightarrow>
     \<not> ref_in_project real project r \<and> (r_kind r = File \<or> r_kind r = Git \<and> has_prefix (r_location r) ''file://'')"

text \<open>
  A manifest from elsewhere that passes names no file of this machine and no host of it in any URL, as it is written, and clones
  no local repo. One in a project names files and repos of that project only.
\<close>

lemma local_urls_pass:
  assumes "local_urls parse real project r m = None" "\<not> trusted_ref real project r" "u \<in> set (manifest_urls m)"
  shows "has_prefix (to_lower (trim_space u)) ''file:'' \<Longrightarrow> ref_in_project real project r
      \<and> (\<exists>p path. parse (trim_space u) = Some p \<and> local_path p = Some path \<and> within real project path)"
    and "\<not> has_prefix (to_lower (trim_space u)) ''file:'' \<Longrightarrow> parse (trim_space u) = Some p \<Longrightarrow> \<not> ref_in_project real project r
      \<Longrightarrow> r_kind r \<noteq> HTTP \<Longrightarrow> \<not> is_local (u_hostname p)"
proof -
  have "\<forall>u\<in>set (manifest_urls m). url_fault parse real project (ref_in_project real project r) (ref_served parse real project r) u = None"
    using assms(1,2) unfolding first_url_fault_None[symmetric] local_urls_def Let_def trusted_ref_def by (simp only: split: if_splits) simp
  with assms(3) have u: "url_fault parse real project (ref_in_project real project r) (ref_served parse real project r) u = None" by blast
  show "has_prefix (to_lower (trim_space u)) ''file:'' \<Longrightarrow> ref_in_project real project r
      \<and> (\<exists>p path. parse (trim_space u) = Some p \<and> local_path p = Some path \<and> within real project path)"
    using u by (simp add: url_fault_def split: if_splits option.splits)
  show "\<not> has_prefix (to_lower (trim_space u)) ''file:'' \<Longrightarrow> parse (trim_space u) = Some p \<Longrightarrow> \<not> ref_in_project real project r
      \<Longrightarrow> r_kind r \<noteq> HTTP \<Longrightarrow> \<not> is_local (u_hostname p)"
    using u by (simp add: url_fault_def ref_served_def split: if_splits option.splits)
qed

end
