(* ===== verification/Download.thy ===== *)
theory Download
  imports Manifest_Check
begin

text \<open>
  Downloads and their checks: \<open>internal/store/download.go\<close>, \<open>signature.go\<close>, \<open>sigstore.go\<close> and the path of a download
  in \<open>store.go\<close>, on Unix. The network, the hashes, minisign, the sigstore library and the unpacking are arguments. A
  download that runs twice at once is one download.
\<close>

subsection \<open>The world of a download\<close>

text \<open>Whom a sigstore certificate must name: \<open>id_builder\<close> is a trusted builder of SLSA provenance in place of a workflow.\<close>

record identity =
  id_workflow :: string
  id_repo :: string
  id_ref :: string
  id_builder :: bool

text \<open>
  \<open>rm_get\<close> is the body that a URL serves, \<open>rm_url_path\<close> the path in a URL that parses. \<open>rm_signed\<close> is \<open>verifyFile\<close> on a key,
  the file and its signature, \<open>rm_comment\<close> the signed comment. \<open>rm_json\<close> gives the names and digests of a JSON document of
  checksums. \<open>rm_attested\<close> gives the attestations of a digest, at first those that were kept.
\<close>

record remote =
  rm_get :: "string \<Rightarrow> string option"
  rm_sha256 :: "string \<Rightarrow> string"
  rm_short :: "string \<Rightarrow> string"
  rm_integrity :: "string \<Rightarrow> string"
  rm_url_path :: "string \<Rightarrow> string option"
  rm_json :: "string \<Rightarrow> (string \<times> string) list option"
  rm_key :: "string \<Rightarrow> bool"
  rm_signed :: "string \<Rightarrow> string \<Rightarrow> string \<Rightarrow> bool"
  rm_comment :: "string \<Rightarrow> string option"
  rm_with_key :: "string \<Rightarrow> string \<Rightarrow> string \<Rightarrow> bool"
  rm_with_identity :: "string \<Rightarrow> string \<Rightarrow> identity \<Rightarrow> bool"
  rm_with_certificate :: "string \<Rightarrow> string \<Rightarrow> string \<Rightarrow> identity \<Rightarrow> bool"
  rm_statement :: "string \<Rightarrow> string \<Rightarrow> identity \<Rightarrow> bool"
  rm_attested :: "bool \<Rightarrow> string \<Rightarrow> string \<Rightarrow> string list option"
  rm_unpack :: "string \<Rightarrow> artifact \<Rightarrow> bool"

datatype download_error =
    NotServed string
  | TooLarge string
  | Mismatch string string string
  | NoDigest string string
  | BadSigningKey string
  | SignatureMissing string
  | NotSigned string string
  | WrongComment string string string
  | OlderSignature string
  | IntegrityMismatch string string
  | SigstoreFailed string
  | PinConflict string string
  | NotUnpacked string

text \<open>
  What oku keeps on disk: the complete paths of the store, with the bytes of the download that each was unpacked from, the
  files of the download cache by name, and the digest that a URL gave less than a day ago.
\<close>

record depot =
  dp_store :: "string \<rightharpoonup> string"
  dp_files :: "string \<rightharpoonup> string"
  dp_recent :: "string \<rightharpoonup> string"

subsection \<open>Fetching\<close>

text \<open>\<open>downloadOnce\<close> with \<open>reuseRecent\<close>: the digest of the file, which is in the cache then.\<close>

definition cached_digest :: "depot \<Rightarrow> string \<Rightarrow> string \<Rightarrow> string" where
  "cached_digest d url want =
     (if want \<noteq> [] then want else case dp_recent d url of None \<Rightarrow> [] | Some s \<Rightarrow> trim_space s)"

definition fetch_file :: "remote \<Rightarrow> depot \<Rightarrow> string \<Rightarrow> string \<Rightarrow> (download_error, string) res \<times> depot" where
  "fetch_file rm d url want =
     (let cached = cached_digest d url want
      in if cached \<noteq> [] \<and> map_option (rm_sha256 rm) (dp_files d cached) = Some cached then (Inr cached, d)
         else (case rm_get rm url of
                 None \<Rightarrow> (Inl (NotServed url), d)
               | Some body \<Rightarrow>
                   (let got = rm_sha256 rm body
                    in if want \<noteq> [] \<and> got \<noteq> want then (Inl (Mismatch url want got), d)
                       else (Inr got,
                         d\<lparr>dp_files := (if map_option (rm_sha256 rm) (dp_files d got) = Some got then dp_files d
                                        else (dp_files d)(got \<mapsto> body)),
                           dp_recent := (dp_recent d)(url \<mapsto> got @ [CHR 0x0A])\<rparr>))))"

subsection \<open>Checksum files\<close>

text \<open>The words of a text, which the \<open>\b\<close> of the expression of a digest delimits.\<close>

definition is_word_byte :: "char \<Rightarrow> bool" where
  "is_word_byte c \<longleftrightarrow> is_letter c \<or> is_digit c \<or> c = CHR ''_''"

fun words_of :: "string \<Rightarrow> string list" where
  "words_of [] = [[]]"
| "words_of (c # cs) =
     (if is_word_byte c then (case words_of cs of [] \<Rightarrow> [[c]] | w # ws \<Rightarrow> (c # w) # ws) else [] # words_of cs)"

definition hex_digests :: "string \<Rightarrow> string list" where
  "hex_digests s = filter (\<lambda>w. length w = 64 \<and> list_all is_hex (to_lower w)) (words_of s)"

definition first_digest :: "string \<Rightarrow> string" where
  "first_digest s = (case hex_digests s of [] \<Rightarrow> [] | d # _ \<Rightarrow> d)"

definition json_sha256 :: "remote \<Rightarrow> string \<Rightarrow> string \<Rightarrow> string" where
  "json_sha256 rm data name =
     (let trimmed = trim_space data
      in if has_prefix trimmed ''{'' \<or> has_prefix trimmed ''[''
         then (case rm_json rm data of
                 None \<Rightarrow> []
               | Some entries \<Rightarrow>
                   to_lower (first_digest (fold (\<lambda>(n, sum) d. if path_base n = name then sum else d) entries [])))
         else [])"

definition names_file :: "string \<Rightarrow> string \<Rightarrow> bool" where
  "names_file line name =
     list_ex (\<lambda>f. path_base (trim_right_of (trim_left_of f ''*('') ''):'') = name) (Host.fields line)"

definition digest_in :: "remote \<Rightarrow> string \<Rightarrow> string \<Rightarrow> string \<Rightarrow> (download_error, string) res" where
  "digest_in rm data url name =
     (if json_sha256 rm data name \<noteq> [] then Inr (json_sha256 rm data name)
      else (case find (\<lambda>line. names_file line name \<and> hex_digests line \<noteq> []) (split_char (CHR 0x0A) data) of
              Some line \<Rightarrow> Inr (to_lower (first_digest line))
            | None \<Rightarrow>
                (case hex_digests data of [d] \<Rightarrow> Inr (to_lower d) | _ \<Rightarrow> Inl (NoDigest url name))))"

text \<open>A small file, up to a limit.\<close>

definition read_limited :: "remote \<Rightarrow> string \<Rightarrow> nat \<Rightarrow> (download_error, string) res" where
  "read_limited rm url limit =
     (case rm_get rm url of
        None \<Rightarrow> Inl (NotServed url)
      | Some body \<Rightarrow> if length body > limit then Inl (TooLarge url) else Inr body)"

subsection \<open>Minisign signatures\<close>

definition version_byte :: "char option \<Rightarrow> bool" where
  "version_byte c = (case c of None \<Rightarrow> False | Some b \<Rightarrow> b = CHR ''.'' \<or> is_digit b)"

text \<open>\<open>namesVersion\<close>, which visits every occurrence; the last argument is the byte before.\<close>

fun names_at :: "string \<Rightarrow> string \<Rightarrow> char option \<Rightarrow> bool" where
  "names_at [] version before_c = False"
| "names_at (c # cs) version before_c =
     (has_prefix (c # cs) version \<and> \<not> version_byte before_c
        \<and> \<not> version_byte (case drop (length version) (c # cs) of [] \<Rightarrow> None | d # _ \<Rightarrow> Some d)
      \<or> names_at cs version (Some c))"

definition names_version :: "string \<Rightarrow> string \<Rightarrow> bool" where
  "names_version comment version \<longleftrightarrow> version \<noteq> [] \<and> names_at comment version None"

text \<open>\<open>signatureTime\<close>: the digits behind \<open>timestamp:\<close> at the start or behind a space; a number over 64 bits is the largest.\<close>

fun time_at :: "string \<Rightarrow> bool \<Rightarrow> string option" where
  "time_at [] start_ok = None"
| "time_at (c # cs) start_ok =
     (let digits = takeWhile is_digit (drop 10 (c # cs))
      in if start_ok \<and> has_prefix (c # cs) ''timestamp:'' \<and> digits \<noteq> [] then Some digits
         else time_at cs (is_re_space c))"

definition signature_time :: "string \<Rightarrow> int" where
  "signature_time comment =
     (case time_at comment True of None \<Rightarrow> 0 | Some ds \<Rightarrow> min (int (digits_val ds)) (2 ^ 63 - 1))"

definition signed_name :: "remote \<Rightarrow> string \<Rightarrow> string" where
  "signed_name rm url = path_base (case rm_url_path rm url of None \<Rightarrow> url | Some p \<Rightarrow> p)"

definition verify_signature :: "remote \<Rightarrow> int \<Rightarrow> string \<Rightarrow> string \<Rightarrow> string \<Rightarrow> string \<Rightarrow> (download_error, int) res" where
  "verify_signature rm signed_after key url version body =
     (if \<not> rm_key rm key then Inl (BadSigningKey key)
      else case read_limited rm (url @ ''.minisig'') (2 ^ 16) of
        Inl (TooLarge u) \<Rightarrow> Inl (TooLarge u)
      | Inl e \<Rightarrow> Inl (SignatureMissing url)
      | Inr signature \<Rightarrow>
          if \<not> rm_signed rm key body signature then Inl (NotSigned url key)
          else (case rm_comment rm signature of
                  None \<Rightarrow> Inl (NotSigned url key)
                | Some comment \<Rightarrow>
                    (let name = signed_name rm url; at = signature_time comment
                     in if \<not> contains comment (''file:'' @ name) \<and> \<not> names_version comment version
                        then Inl (WrongComment comment name version)
                        else if \<not> names_version comment version \<and> \<not> names_version name version
                             \<and> signed_after > 0 \<and> at > 0 \<and> at < signed_after
                        then Inl (OlderSignature name) else Inr at)))"

subsection \<open>Sigstore\<close>

definition source_repo :: "manifest \<Rightarrow> string" where
  "source_repo m =
     (if v_from (m_version m) = ''github-releases'' \<and> length (filter (\<lambda>c. c = CHR ''/'') (v_repo (m_version m))) = 1
      then v_repo (m_version m)
      else (case split_char (CHR ''/'') (pk_signer_workflow (m_package m)) of
              owner # repo # _ \<Rightarrow> owner @ ''/'' @ repo | _ \<Rightarrow> []))"

definition signer :: "manifest \<Rightarrow> identity" where
  "signer m = \<lparr>id_workflow = pk_signer_workflow (m_package m), id_repo = source_repo m,
     id_ref = (if m_tag m \<noteq> [] then ''refs/tags/'' @ m_tag m else []), id_builder = False\<rparr>"

definition verify_signed :: "remote \<Rightarrow> outside \<Rightarrow> manifest \<Rightarrow> string \<Rightarrow> string \<Rightarrow> string \<Rightarrow> bool" where
  "verify_signed rm out m url cert_url digest =
     (case read_limited rm url (2 ^ 20) of
        Inl _ \<Rightarrow> False
      | Inr data \<Rightarrow>
          if cosign_key out (pk_signing_key (m_package m)) then rm_with_key rm data digest (pk_signing_key (m_package m))
          else if cert_url = [] then rm_with_identity rm data digest (signer m)
          else (case read_limited rm cert_url (2 ^ 20) of
                  Inl _ \<Rightarrow> False | Inr cert \<Rightarrow> rm_with_certificate rm data cert digest (signer m)))"

definition verify_provenance :: "remote \<Rightarrow> manifest \<Rightarrow> artifact \<Rightarrow> string \<Rightarrow> bool" where
  "verify_provenance rm m a digest =
     (case read_limited rm (ar_provenance a) (16 * 2 ^ 20) of
        Inl _ \<Rightarrow> False
      | Inr data \<Rightarrow>
          list_ex (\<lambda>line. trim_space line \<noteq> [] \<and>
              rm_statement rm line digest \<lparr>id_workflow = [], id_repo = source_repo m, id_ref = ''refs/tags/'' @ m_tag m, id_builder = True\<rparr>)
            (split_char (CHR 0x0A) data))"

text \<open>\<open>verifyAttestations\<close> asks a second time, for fresh attestations, when none of those that were kept will do.\<close>

definition attested_by :: "remote \<Rightarrow> manifest \<Rightarrow> string \<Rightarrow> bool \<Rightarrow> bool option" where
  "attested_by rm m digest fresh =
     map_option (list_ex (\<lambda>data. rm_with_identity rm data digest
         \<lparr>id_workflow = pk_signer_workflow (m_package m), id_repo = source_repo m, id_ref = [], id_builder = False\<rparr>))
       (rm_attested rm fresh (source_repo m) digest)"

definition verify_attestations :: "remote \<Rightarrow> manifest \<Rightarrow> string \<Rightarrow> bool" where
  "verify_attestations rm m digest =
     (case attested_by rm m digest False of
        None \<Rightarrow> False
      | Some True \<Rightarrow> True
      | Some False \<Rightarrow> attested_by rm m digest True = Some True)"

definition verify_sigstore :: "remote \<Rightarrow> outside \<Rightarrow> manifest \<Rightarrow> artifact \<Rightarrow> string \<Rightarrow> bool" where
  "verify_sigstore rm out m a digest \<longleftrightarrow>
     (ar_sigstore_bundle a \<noteq> [] \<longrightarrow> verify_signed rm out m (ar_sigstore_bundle a) [] digest)
     \<and> (ar_sigstore_signature a \<noteq> [] \<longrightarrow> verify_signed rm out m (ar_sigstore_signature a) (ar_sigstore_certificate a) digest)
     \<and> (ar_provenance a \<noteq> [] \<longrightarrow> verify_provenance rm m a digest)
     \<and> (pk_attestations (m_package m) \<longrightarrow> verify_attestations rm m digest)"

definition signed_sha256 :: "remote \<Rightarrow> outside \<Rightarrow> manifest \<Rightarrow> artifact \<Rightarrow> (download_error, string) res" where
  "signed_sha256 rm out m a =
     (case read_limited rm (ar_sha256_url a) (2 ^ 20) of
        Inl e \<Rightarrow> Inl e
      | Inr data \<Rightarrow>
          if ar_sha256_url_bundle a \<noteq> [] \<and> \<not> verify_signed rm out m (ar_sha256_url_bundle a) [] (rm_sha256 rm data)
             \<or> ar_sha256_url_signature a \<noteq> []
                \<and> \<not> verify_signed rm out m (ar_sha256_url_signature a) (ar_sha256_url_certificate a) (rm_sha256 rm data)
          then Inl (SigstoreFailed (ar_sha256_url a))
          else digest_in rm data (ar_sha256_url a) (path_base (ar_url a)))"

subsection \<open>Vouching for a download\<close>

definition minisigned :: "outside \<Rightarrow> manifest \<Rightarrow> bool" where
  "minisigned out m \<longleftrightarrow> pk_signing_key (m_package m) \<noteq> [] \<and> \<not> cosign_key out (pk_signing_key (m_package m))"

definition names_sigstore :: "manifest \<Rightarrow> artifact \<Rightarrow> bool" where
  "names_sigstore m a \<longleftrightarrow> ar_sigstore_bundle a \<noteq> [] \<or> ar_sigstore_signature a \<noteq> [] \<or> ar_provenance a \<noteq> [] \<or> pk_attestations (m_package m)"

text \<open>\<open>vouched\<close>, with whether it removes the download: it is deleted when its integrity or a sigstore signature fails.\<close>

definition vouched_for ::
  "remote \<Rightarrow> outside \<Rightarrow> int \<Rightarrow> manifest \<Rightarrow> artifact \<Rightarrow> string \<Rightarrow> string \<Rightarrow> (download_error, bool \<times> int) res \<times> bool" where
  "vouched_for rm out signed_after m a body digest =
     (if ar_integrity a \<noteq> [] \<and> rm_integrity rm body \<noteq> ar_integrity a
      then (Inl (IntegrityMismatch (ar_integrity a) (rm_integrity rm body)), True)
      else (case (if minisigned out m
                  then verify_signature rm signed_after (pk_signing_key (m_package m)) (ar_url a) (v_value (m_version m)) body
                  else Inr 0) of
              Inl e \<Rightarrow> (Inl e, False)
            | Inr at \<Rightarrow>
                if names_sigstore m a \<and> \<not> verify_sigstore rm out m a digest then (Inl (SigstoreFailed (ar_url a)), True)
                else (Inr (ar_integrity a \<noteq> [] \<or> minisigned out m \<or> names_sigstore m a, at), False)))"

subsection \<open>Store paths\<close>

text \<open>\<open>bundleCommands\<close>: the names that it gives commands, each with the bundle and the program in it.\<close>

definition bundle_commands :: "app_entry list \<Rightarrow> string list \<Rightarrow> wrapper list \<Rightarrow> string \<Rightarrow> (string \<times> string \<times> string) list" where
  "bundle_commands apps bins wraps os =
     (if os \<noteq> ''darwin'' then []
      else concat (map (\<lambda>(name, file). concat (map (\<lambda>app.
              let bundle = trim_suffix (ap_path app) ''/''
              in case cut_prefix file (bundle @ ''/'') of
                   Some rest \<Rightarrow> if is_bundle app then [(name, bundle, rest)] else [] | None \<Rightarrow> []) apps))
            (map (\<lambda>b. (path_base b, b)) bins @ map (\<lambda>w. (wr_name w, wr_path w)) (filter (\<lambda>w. wr_path w \<noteq> []) wraps))))"

definition path_fields :: "manifest \<Rightarrow> platform \<Rightarrow> string list \<Rightarrow> string list" where
  "path_fields m p rest = [m_sha256 m, v_value (m_version m), platform_string p, ''artifact''] @ rest"

definition path_for :: "remote \<Rightarrow> string \<Rightarrow> manifest \<Rightarrow> platform \<Rightarrow> string list \<Rightarrow> string" where
  "path_for rm dir m p rest =
     path_join [dir, pk_name (m_package m) @ ''-'' @ v_value (m_version m) @ ''-'' @ rm_short rm (join [CHR 0x0A] (path_fields m p rest))]"

definition artifact_extra :: "string \<Rightarrow> artifact \<Rightarrow> platform \<Rightarrow> string list \<Rightarrow> string list" where
  "artifact_extra dir a p deps =
     (if bundle_commands (ar_app a) (ar_bin a) (ar_wrap a) (p_os p) \<noteq> [] then [''app'', dir] else [])
     @ (if ar_wrap a \<noteq> [] then [''wrap'', dir] @ map path_base deps @ (if deps \<noteq> [] then [''path''] else [])
        else if p_os p = ''windows'' \<and> deps \<noteq> [] then ''dlls'' # map path_base deps else [])"

definition artifact_path :: "remote \<Rightarrow> string \<Rightarrow> manifest \<Rightarrow> artifact \<Rightarrow> platform \<Rightarrow> string \<Rightarrow> string list \<Rightarrow> string" where
  "artifact_path rm dir m a p sha256 deps = path_for rm dir m p (sha256 # artifact_extra dir a p deps)"

definition store_has :: "remote \<Rightarrow> string \<Rightarrow> depot \<Rightarrow> manifest \<Rightarrow> artifact \<Rightarrow> platform \<Rightarrow> string \<Rightarrow> string list \<Rightarrow> bool" where
  "store_has rm dir d m a p sha256 deps \<longleftrightarrow> sha256 \<noteq> [] \<and> dp_store d (artifact_path rm dir m a p sha256 deps) \<noteq> None"

subsection \<open>Realizing a download\<close>

record realized =
  rz_path :: string
  rz_sha256 :: string
  rz_first_use :: bool
  rz_signed_at :: int

text \<open>What \<open>Realize\<close> does once it has the file: a complete path is taken as it is.\<close>

definition place_download ::
  "remote \<Rightarrow> outside \<Rightarrow> int \<Rightarrow> string \<Rightarrow> depot \<Rightarrow> manifest \<Rightarrow> artifact \<Rightarrow> platform \<Rightarrow> string \<Rightarrow> string \<Rightarrow> string list
     \<Rightarrow> (download_error, realized) res \<times> depot" where
  "place_download rm out signed_after dir d m a p want got deps =
     (let final = artifact_path rm dir m a p got deps;
          r = \<lparr>rz_path = final, rz_sha256 = got, rz_first_use = (want = []), rz_signed_at = 0\<rparr>;
          body = (case dp_files d got of None \<Rightarrow> [] | Some b \<Rightarrow> b)
      in if dp_store d final \<noteq> None then (Inr r, d)
         else (case vouched_for rm out signed_after m a body got of
                 (Inl e, gone) \<Rightarrow> (Inl e, if gone then d\<lparr>dp_files := (dp_files d)(got := None)\<rparr> else d)
               | (Inr (vouched, at), _) \<Rightarrow>
                   if \<not> rm_unpack rm body a then (Inl (NotUnpacked (ar_url a)), d)
                   else (Inr (r\<lparr>rz_first_use := want = [] \<and> \<not> vouched, rz_signed_at := at\<rparr>),
                         d\<lparr>dp_store := (dp_store d)(final \<mapsto> body)\<rparr>)))"

definition stated_digest :: "remote \<Rightarrow> outside \<Rightarrow> manifest \<Rightarrow> artifact \<Rightarrow> (download_error, string) res" where
  "stated_digest rm out m a =
     (if ar_sha256 a \<noteq> [] then Inr (ar_sha256 a)
      else if ar_sha256_url a \<noteq> [] then signed_sha256 rm out m a else Inr [])"

definition realize ::
  "remote \<Rightarrow> outside \<Rightarrow> int \<Rightarrow> string \<Rightarrow> depot \<Rightarrow> manifest \<Rightarrow> artifact \<Rightarrow> platform \<Rightarrow> string \<Rightarrow> string list
     \<Rightarrow> (download_error, realized) res \<times> depot" where
  "realize rm out signed_after dir d m a p pinned deps =
     (if pinned \<noteq> [] \<and> (ar_sha256 a = [] \<or> ar_sha256 a = pinned) \<and> dp_store d (artifact_path rm dir m a p pinned deps) \<noteq> None
      then (Inr \<lparr>rz_path = artifact_path rm dir m a p pinned deps, rz_sha256 = pinned, rz_first_use = False, rz_signed_at = 0\<rparr>, d)
      else (case stated_digest rm out m a of
              Inl e \<Rightarrow> (Inl e, d)
            | Inr stated \<Rightarrow>
                if stated \<noteq> [] \<and> pinned \<noteq> [] \<and> stated \<noteq> pinned then (Inl (PinConflict stated pinned), d)
                else (let want = (if stated = [] then pinned else stated)
                      in if want \<noteq> [] \<and> dp_store d (artifact_path rm dir m a p want deps) \<noteq> None
                         then (Inr \<lparr>rz_path = artifact_path rm dir m a p want deps, rz_sha256 = want, rz_first_use = False, rz_signed_at = 0\<rparr>, d)
                         else (case fetch_file rm d (ar_url a) want of
                                 (Inl e, d') \<Rightarrow> (Inl e, d')
                               | (Inr got, d') \<Rightarrow> place_download rm out signed_after dir d' m a p want got deps))))"

text \<open>\<open>Pin\<close> for the lock entry of another platform.\<close>

definition pin_artifact ::
  "remote \<Rightarrow> outside \<Rightarrow> int \<Rightarrow> depot \<Rightarrow> manifest \<Rightarrow> artifact \<Rightarrow> (download_error, realized) res \<times> depot" where
  "pin_artifact rm out signed_after d m a =
     (let r = \<lparr>rz_path = [], rz_sha256 = [], rz_first_use = False, rz_signed_at = 0\<rparr>
      in if ar_sha256 a \<noteq> [] then (Inr (r\<lparr>rz_sha256 := ar_sha256 a\<rparr>), d)
         else if ar_sha256_url a \<noteq> []
         then (case signed_sha256 rm out m a of Inl e \<Rightarrow> (Inl e, d) | Inr s \<Rightarrow> (Inr (r\<lparr>rz_sha256 := s\<rparr>), d))
         else (case fetch_file rm d (ar_url a) [] of
                 (Inl e, d') \<Rightarrow> (Inl e, d')
               | (Inr got, d') \<Rightarrow>
                   (case vouched_for rm out signed_after m a (case dp_files d' got of None \<Rightarrow> [] | Some b \<Rightarrow> b) got of
                      (Inl e, gone) \<Rightarrow> (Inl e, if gone then d'\<lparr>dp_files := (dp_files d')(got := None)\<rparr> else d')
                    | (Inr (vouched, at), _) \<Rightarrow> (Inr (r\<lparr>rz_sha256 := got, rz_first_use := \<not> vouched, rz_signed_at := at\<rparr>), d'))))"

end
