(* ===== verification/Verified.thy ===== *)
theory Verified
  imports Lock Download Ref
begin

text \<open>
  What oku checks a download against, and how it compares that with what the lock recorded: \<open>internal/cli/verified.go\<close>.
\<close>

subsection \<open>The request of one package\<close>

datatype age_answer = TakeAndNote | TakeQuietly | NotTaken | AgeFailed

text \<open>
  \<open>request\<close>, as far as it decides what is installed. The questions to the user are functions: whether a version of unknown
  age is taken, a first download trusted, a manifest's commands approved. \<open>in_previous\<close> is the entry of the lock, or the empty one.
\<close>

record request =
  in_ref :: "ref"
  in_previous :: package
  in_want_manifest :: string
  in_accept_digest :: bool
  in_accept_key :: bool
  in_accept_weaker :: bool
  in_signing_key :: string
  in_signer_workflow :: string
  in_keep_version :: bool
  in_from_source :: bool
  in_platforms :: "platform list"
  in_strict :: bool
  in_age :: int
  in_rebuild :: bool
  in_lock_only :: bool
  in_asset :: string
  in_bins :: "string list"
  in_constraint :: string
  in_check_age :: "(string \<Rightarrow> string \<Rightarrow> string \<Rightarrow> age_answer) option"
  in_trust :: "string \<Rightarrow> string \<Rightarrow> platform \<Rightarrow> bool"
  in_approve :: "manifest \<Rightarrow> platform \<Rightarrow> bool"

definition no_lock_platform :: lock_platform where
  "no_lock_platform = \<lparr>l_strategy = [], l_url = [], l_sha256 = [], l_verified = [], l_impure = False, l_commands = False,
     l_vendor_sha256 = [], l_version = [], l_tag = [], l_signed_at = 0\<rparr>"

text \<open>The entry of a platform in the map of a package, which is the zero entry when there is none.\<close>

definition entry_at :: "package \<Rightarrow> platform \<Rightarrow> lock_platform" where
  "entry_at k p = (case platform_at k (platform_string p) of None \<Rightarrow> no_lock_platform | Some e \<Rightarrow> e)"

subsection \<open>The check of a download\<close>

definition digest_of :: "(string \<rightharpoonup> string) \<Rightarrow> string \<Rightarrow> string" where
  "digest_of m url = (case m url of None \<Rightarrow> [] | Some d \<Rightarrow> d)"

definition verified_by :: "string \<Rightarrow> string \<Rightarrow> string \<Rightarrow> string \<Rightarrow> string" where
  "verified_by signature stated sha256_url published =
     (if signature \<noteq> [] then signature
      else if stated \<noteq> [] then ''manifest''
      else if sha256_url \<noteq> [] then ''checksum-file''
      else if published \<noteq> [] then ''published'' else [])"

definition pin_verified :: "string \<Rightarrow> bool \<Rightarrow> lock_platform \<Rightarrow> string" where
  "pin_verified stated pinned at = (if pinned then l_verified at else if stated \<noteq> [] then stated else ''first-use'')"

definition signature_check :: "outside \<Rightarrow> manifest \<Rightarrow> artifact \<Rightarrow> string" where
  "signature_check out m a =
     (let keyed = cosign_key out (pk_signing_key (m_package m))
      in if keyed \<and> sigstore a then ''cosign''
         else if pk_attestations (m_package m) \<or> sigstore a \<or> ar_provenance a \<noteq> [] then ''sigstore''
         else if pk_signing_key (m_package m) \<noteq> [] \<and> \<not> keyed then ''minisign'' else [])"

definition artifact_verified :: "outside \<Rightarrow> manifest \<Rightarrow> artifact \<Rightarrow> release \<Rightarrow> string" where
  "artifact_verified out m a rel =
     verified_by (signature_check out m a) (own_text (ar_sha256 a) (ar_integrity a)) (ar_sha256_url a)
       (own_text (digest_of (rel_digests rel) (ar_url a)) (digest_of (rel_integrity rel) (ar_url a)))"

definition source_verified :: "manifest \<Rightarrow> release \<Rightarrow> platform \<Rightarrow> bool \<Rightarrow> lock_platform \<Rightarrow> string" where
  "source_verified m rel p pinned at =
     (case m_build m of
        None \<Rightarrow> []
      | Some b \<Rightarrow>
          (let src = br_source b;
               url = (case expand_template (bs_url src) (template_vars (v_value (m_version m)) (m_tag m) p) of Inl _ \<Rightarrow> [] | Inr u \<Rightarrow> u)
           in if bs_url src = [] then []
              else pin_verified (verified_by [] (bs_sha256 src) (bs_sha256_url src) (digest_of (rel_digests rel) url)) pinned at))"

subsection \<open>Compared with the lock\<close>

definition locked_check :: "request \<Rightarrow> platform \<Rightarrow> string" where
  "locked_check req p =
     (let at = entry_at (in_previous req) p
      in if l_sha256 at = [] then l_verified at
         else fold (\<lambda>(_, other) was. if l_url other = l_url at \<and> l_sha256 other = l_sha256 at \<and> weaker (l_verified other) was
                then l_verified other else was) (k_platforms (in_previous req)) (l_verified at))"

definition same_ref :: "request \<Rightarrow> bool" where
  "same_ref req \<longleftrightarrow> k_ref (in_previous req) = ref_string (in_ref req)"

text \<open>\<open>checkVerified\<close>: false is the error.\<close>

definition check_verified :: "request \<Rightarrow> platform \<Rightarrow> string \<Rightarrow> bool" where
  "check_verified req p now_check \<longleftrightarrow> in_accept_weaker req \<or> \<not> same_ref req \<or> \<not> weaker now_check (locked_check req p)"

definition signed_after :: "request \<Rightarrow> platform \<Rightarrow> string \<Rightarrow> int" where
  "signed_after req p version =
     (let was = entry_at (in_previous req) p
      in if in_accept_weaker req \<or> \<not> same_ref req \<or> compare version (own_text (l_version was) (k_version (in_previous req))) \<le> 0
         then 0 else l_signed_at was)"

subsection \<open>Signers that the list pins\<close>

datatype signer_fault = OtherKey string string | NoWorkflow string | OtherWorkflow string string | UnsignedArtifact nat

definition pin_signer :: "outside \<Rightarrow> request \<Rightarrow> manifest \<Rightarrow> (signer_fault, manifest) res" where
  "pin_signer out req m =
     (let key = in_signing_key req; w = in_signer_workflow req;
          m' = (if key = [] then m else m\<lparr>m_package := (m_package m)\<lparr>pk_signing_key := key\<rparr>\<rparr>)
      in if key \<noteq> [] \<and> pk_signing_key (m_package m) \<noteq> [] \<and> pk_signing_key (m_package m) \<noteq> key
         then Inl (OtherKey key (pk_signing_key (m_package m)))
         else if w \<noteq> [] \<and> pk_signer_workflow (m_package m) = [] then Inl (NoWorkflow w)
         else if w \<noteq> [] \<and> pk_signer_workflow (m_package m) \<noteq> w then Inl (OtherWorkflow w (pk_signer_workflow (m_package m)))
         else if w = [] \<and> \<not> cosign_key out key then Inr m'
         else (case find (\<lambda>(i, a). \<not> sigstore a \<and> (w = [] \<or> \<not> pk_attestations (m_package m))) (enumerate 0 (m_artifacts m)) of
                 Some (i, a) \<Rightarrow> Inl (UnsignedArtifact i) | None \<Rightarrow> Inr m'))"

end
