(* ===== verification/Install.thy ===== *)
theory Install
  imports Local_URLs Verified "HOL-Library.AList"
begin

text \<open>
  The install of one package: \<open>installFrom\<close> and what it calls in \<open>internal/cli/install.go\<close>. The manifest is the one that was
  read at the commit of the request. A build, the deps and OSV's answer are arguments, and so are the answers of the user.
\<close>

subsection \<open>The world of an install\<close>

datatype install_error =
    ManifestChanged
  | SignerPinned signer_fault
  | KeyChanged string string
  | WorkflowChanged string string
  | LocalURL local_fault
  | EachFindsItsOwn
  | BadWant Version.version_error
  | NoRelease resolve_error
  | BadVersion Lock.version_error
  | VersionNotTaken string
  | Malicious string "string list"
  | SelectFailed select_error
  | NoArtifactFor platform
  | NotBuildable platform
  | RebuildsDownload
  | DepsFailed string
  | BuildFailed string
  | WeakerCheck platform string string
  | NotTrusted string
  | NotApproved string
  | TagMoved string string
  | DownloadFailed download_error
  | BadEnvValue string template_error

text \<open>
  \<open>iw_osv\<close> is what OSV lists for a registry package, or \<open>None\<close> when it cannot be asked. \<open>iw_build\<close> is a build on this machine or
  from a cache with its store path and lock entry, \<open>iw_pin_build\<close> what the store pins of the source of a build for another
  platform with the URL and the digest that the lock holds, \<open>iw_vendor\<close> the digest of the packages that such a build vendors with
  the digest of this machine, \<open>iw_deps\<close> the prefixes and the lock entries of the deps.
\<close>

record build_pin =
  bp_url :: string
  bp_sha256 :: string
  bp_impure :: bool
  bp_first_use :: bool

record install_world =
  iw_remote :: remote
  iw_out :: outside
  iw_sources :: sources
  iw_now :: int
  iw_dir :: string
  iw_host :: platform
  iw_project :: string
  iw_file_downloads :: bool
  iw_parse :: "string \<Rightarrow> url option"
  iw_real :: "string \<Rightarrow> string option"
  iw_osv :: "string \<Rightarrow> string \<Rightarrow> string \<Rightarrow> string list option"
  iw_build :: "manifest \<Rightarrow> string \<Rightarrow> string \<Rightarrow> (string, string \<times> lock_platform) res"
  iw_pin_build :: "manifest \<Rightarrow> release \<Rightarrow> platform \<Rightarrow> string \<Rightarrow> string \<Rightarrow> (string, build_pin) res"
  iw_vendor :: "manifest \<Rightarrow> platform \<Rightarrow> string \<Rightarrow> (string, string) res"
  iw_deps :: "manifest \<Rightarrow> (string, string list \<times> package list) res"

subsection \<open>The release that is installed\<close>

definition age_knowable :: "version_spec \<Rightarrow> bool" where
  "age_knowable v \<longleftrightarrow> v_from v \<noteq> [] \<and> v_tag v = [] \<and> v_from v \<noteq> ''git-branch''"

definition locked_release :: "package \<Rightarrow> release" where
  "locked_release k = zero_release\<lparr>rel_version := k_version k, rel_tag := k_tag k, rel_commit := k_tag_commit k\<rparr>"

definition target_platform :: "install_world \<Rightarrow> request \<Rightarrow> platform" where
  "target_platform iw req = (if in_lock_only req then hd (in_platforms req) else iw_host iw)"

text \<open>One platform of \<open>artifactVersions\<close>: its release, whether it was listed now, and whether its age was not checked.\<close>

definition platform_release ::
  "install_world \<Rightarrow> request \<Rightarrow> bool \<Rightarrow> version_spec \<Rightarrow> (version_spec \<times> release) list \<Rightarrow> platform
     \<Rightarrow> (install_error, release \<times> bool) res" where
  "platform_release iw req keep source found p =
     (let at = entry_at (in_previous req) p;
          locked = (if keep then zero_release\<lparr>rel_version := l_version at, rel_tag := l_tag at\<rparr> else zero_release);
          known = (case map_of found source of Some rel \<Rightarrow> rel | None \<Rightarrow> zero_release)
      in if rel_version locked \<noteq> [] then Inr (locked, False)
         else if rel_version known \<noteq> [] then Inr (known, False)
         else (case pick_version (iw_sources iw) \<lparr>min_age = in_age req, now = iw_now iw\<rparr> source [] of
                 Inl e \<Rightarrow> Inl (NoRelease e) | Inr rel \<Rightarrow> Inr (rel, True)))"

text \<open>Whether a version that was picked now and has no release time may be taken, and is noted.\<close>

definition asked_age :: "request \<Rightarrow> manifest \<Rightarrow> version_spec \<Rightarrow> platform \<Rightarrow> release \<Rightarrow> string \<Rightarrow> (install_error, string list) res" where
  "asked_age req m source p rel shown =
     (if in_check_age req \<noteq> None \<and> in_age req > 0 \<and> rel_published rel = zero_time \<and> age_knowable source
         \<and> rel_version rel \<noteq> l_version (entry_at (in_previous req) p)
      then (case the (in_check_age req) (pk_name (m_package m)) shown [] of
              TakeAndNote \<Rightarrow> Inr [shown] | TakeQuietly \<Rightarrow> Inr [] | _ \<Rightarrow> Inl (VersionNotTaken shown))
      else Inr [])"

fun artifact_versions_loop ::
  "install_world \<Rightarrow> request \<Rightarrow> bool \<Rightarrow> platform list \<Rightarrow> manifest \<Rightarrow> (version_spec \<times> release) list \<Rightarrow> (string \<rightharpoonup> string) \<Rightarrow> string list
     \<Rightarrow> (install_error, manifest \<times> (string \<rightharpoonup> string) \<times> string list) res" where
  "artifact_versions_loop iw req keep [] m found digests unchecked = Inr (m, digests, unchecked)"
| "artifact_versions_loop iw req keep (p # ps) m found digests unchecked =
     (case find (\<lambda>a. sel_matches (ar_match a) p) (m_artifacts m) of
        None \<Rightarrow> artifact_versions_loop iw req keep ps m found digests unchecked
      | Some a \<Rightarrow>
          (let source = the (ar_version a)
           in (case platform_release iw req keep source found p of
                 Inl e \<Rightarrow>
                   if p \<noteq> target_platform iw req \<and> \<not> in_strict req
                   then artifact_versions_loop iw req keep ps m found digests unchecked else Inl e
               | Inr (rel, picked) \<Rightarrow>
                   (case (if picked
                          then asked_age req m source p rel
                            (rel_version rel @ (if p \<noteq> target_platform iw req then '' for '' @ platform_string p else []))
                          else Inr []) of
                      Inl e \<Rightarrow> Inl e
                    | Inr notes \<Rightarrow>
                        (case check_version (rel_version rel) of
                           Some e \<Rightarrow> Inl (BadVersion e)
                         | None \<Rightarrow>
                             artifact_versions_loop iw req keep ps
                               (m\<lparr>m_versions := AList.update (platform_string p) (rel_version rel) (m_versions m),
                                  m_tags := (if rel_tag rel \<noteq> [] \<and> rel_tag rel \<noteq> rel_version rel
                                             then AList.update (platform_string p) (rel_tag rel) (m_tags m) else m_tags m)\<rparr>)
                               (if picked then (source, rel) # found else found)
                               (digests ++ rel_digests rel) (unchecked @ notes))))))"

definition artifact_versions ::
  "install_world \<Rightarrow> request \<Rightarrow> manifest \<Rightarrow> bool \<Rightarrow> (install_error, manifest \<times> release \<times> string list) res" where
  "artifact_versions iw req m keep =
     (let targets = target_platform iw req # (if \<not> in_keep_version req \<or> in_strict req \<or> in_lock_only req then in_platforms req else [])
      in case artifact_versions_loop iw req keep targets (m\<lparr>m_versions := [], m_tags := []\<rparr>) [] Map.empty [] of
           Inl e \<Rightarrow> Inl e
         | Inr (m', digests, unchecked) \<Rightarrow>
             (let key = platform_string (target_platform iw req); version = text_at (m_versions m') key
              in Inr (m', zero_release\<lparr>rel_version := version, rel_tag := own_text (text_at (m_tags m') key) version, rel_digests := digests\<rparr>,
                      unchecked)))"

text \<open>
  \<open>pickRelease\<close> on the manifest that was parsed. It comes back with its version and its signer set.
  \<open>kept\<close> says that the release is the one of the lock.
\<close>

definition signer_kept :: "request \<Rightarrow> manifest \<Rightarrow> install_error option" where
  "signer_kept req m =
     (let k = in_previous req; p = m_package m
      in if k_signing_key k \<noteq> [] \<and> k_signing_key k \<noteq> pk_signing_key p \<and> \<not> in_accept_key req \<and> in_signing_key req = []
         then Some (KeyChanged (k_signing_key k) (pk_signing_key p))
         else if k_signer_workflow k \<noteq> [] \<and> k_signer_workflow k \<noteq> pk_signer_workflow p \<and> \<not> in_accept_key req \<and> in_signer_workflow req = []
         then Some (WorkflowChanged (k_signer_workflow k) (pk_signer_workflow p)) else None)"

text \<open>The release that is listed now: an age never takes a package back from a version that the lock holds.\<close>

definition listed_release :: "install_world \<Rightarrow> request \<Rightarrow> manifest \<Rightarrow> bool \<Rightarrow> (install_error, release) res" where
  "listed_release iw req m permitted =
     (let want = (if r_version (in_ref req) = [] \<and> in_constraint req \<noteq> [] then in_constraint req else r_version (in_ref req))
      in case pick_waiting (iw_sources iw) \<lparr>min_age = in_age req, now = iw_now iw\<rparr> (m_version m) want of
           (rel, waiting, err) \<Rightarrow>
             if rel_version waiting \<noteq> [] \<and> permitted \<and> k_version (in_previous req) \<noteq> []
                \<and> ((case err of Some (TooNew v r) \<Rightarrow> True | _ \<Rightarrow> False) \<or> err = None \<and> compare (k_version (in_previous req)) (rel_version rel) > 0)
             then Inr (locked_release (in_previous req))
             else (case err of Some e \<Rightarrow> Inl (NoRelease e) | None \<Rightarrow> Inr rel))"

definition release_for ::
  "install_world \<Rightarrow> request \<Rightarrow> manifest \<Rightarrow> bool \<Rightarrow> bool \<Rightarrow> (install_error, manifest \<times> release \<times> string list) res" where
  "release_for iw req m permitted keep =
     (if per_artifact m then artifact_versions iw req m keep
      else if keep then Inr (m, locked_release (in_previous req), [])
      else (case listed_release iw req m permitted of Inl e \<Rightarrow> Inl e | Inr rel \<Rightarrow> Inr (m, rel, [])))"

definition with_release :: "manifest \<Rightarrow> release \<Rightarrow> manifest" where
  "with_release m rel =
     m\<lparr>m_version := (m_version m)\<lparr>v_value := rel_version rel\<rparr>, m_tag := rel_tag rel, m_tag_commit := rel_commit rel\<rparr>"

definition local_check :: "install_world \<Rightarrow> request \<Rightarrow> manifest \<Rightarrow> local_fault option" where
  "local_check iw req m =
     (if iw_file_downloads iw then None else local_urls (iw_parse iw) (iw_real iw) (iw_project iw) (in_ref req) m)"

definition pick_release ::
  "install_world \<Rightarrow> request \<Rightarrow> manifest \<Rightarrow> (install_error, manifest \<times> release \<times> bool \<times> string list) res" where
  "pick_release iw req m0 =
     (case local_check iw req m0 of
        Some f \<Rightarrow> Inl (LocalURL f)
      | None \<Rightarrow>
      if in_want_manifest req \<noteq> [] \<and> in_want_manifest req \<noteq> m_sha256 m0 then Inl ManifestChanged
      else case pin_signer (iw_out iw) req m0 of
        Inl e \<Rightarrow> Inl (SignerPinned e)
      | Inr m \<Rightarrow>
          (case signer_kept req m of
             Some e \<Rightarrow> Inl e
           | None \<Rightarrow>
               if per_artifact m \<and> (r_version (in_ref req) \<noteq> [] \<or> in_constraint req \<noteq> []) then Inl EachFindsItsOwn
               else (case version_matches (k_version (in_previous req)) (r_version (in_ref req)) of
                       Inl e \<Rightarrow> Inl (BadWant e)
                     | Inr permitted \<Rightarrow>
                         (let keep = (in_keep_version req \<and> k_version (in_previous req) \<noteq> [] \<and> permitted)
                          in case release_for iw req m permitted keep of
                               Inl e \<Rightarrow> Inl e
                             | Inr (m1, rel0, unchecked) \<Rightarrow>
                                 (let rel = (if rel_tag rel0 = [] then rel0\<lparr>rel_tag := rel_version rel0\<rparr> else rel0)
                                  in case check_version (rel_version rel) of
                                       Some e \<Rightarrow> Inl (BadVersion e)
                                     | None \<Rightarrow> Inr (with_release m1 rel, rel, keep, unchecked))))))"

text \<open>\<open>gateAge\<close>: the manifest, the release, the version that was not taken, and the versions of unknown age.\<close>

definition gate_age ::
  "request \<Rightarrow> manifest \<Rightarrow> release \<Rightarrow> bool \<Rightarrow> string list \<Rightarrow> (install_error, manifest \<times> release \<times> string \<times> string list) res" where
  "gate_age req m rel keep unchecked =
     (let k = in_previous req; want = r_version (in_ref req);
          exact = (want \<noteq> [] \<and> rel_version rel = want);
          due = (\<not> keep \<and> \<not> exact \<and> in_age req > 0 \<and> rel_published rel = zero_time \<and> age_knowable (m_version m)
                  \<and> rel_version rel \<noteq> k_version k);
          locked = (if version_matches (k_version k) want = Inr True \<and> \<not> per_artifact m then k_version k else []);
          answer = (case in_check_age req of None \<Rightarrow> TakeAndNote | Some ask \<Rightarrow> ask (pk_name (m_package m)) (rel_version rel) locked)
      in if \<not> due then Inr (m, rel, [], unchecked)
         else if answer = NotTaken \<and> locked \<noteq> []
         then (let back = zero_release\<lparr>rel_version := k_version k, rel_tag := own_text (k_tag k) (k_version k), rel_commit := k_tag_commit k\<rparr>
               in Inr (with_release m back, back, rel_version rel, unchecked))
         else if answer = NotTaken \<or> answer = AgeFailed then Inl (VersionNotTaken (rel_version rel))
         else Inr (m, rel, [], unchecked @ (if answer = TakeAndNote then [rel_version rel] else [])))"

definition osv_ecosystem :: "kind \<Rightarrow> string" where
  "osv_ecosystem k = (case k of NPM \<Rightarrow> ''npm'' | PyPI \<Rightarrow> ''PyPI'' | Cargo \<Rightarrow> ''crates.io'' | Go \<Rightarrow> ''Go'' | _ \<Rightarrow> [])"

text \<open>\<open>checkMalware\<close>: the version that OSV could not be asked about, or the refusal.\<close>

definition check_malware :: "install_world \<Rightarrow> request \<Rightarrow> release \<Rightarrow> bool \<Rightarrow> (install_error, string) res" where
  "check_malware iw req rel keep =
     (let eco = osv_ecosystem (r_kind (in_ref req))
      in if eco = [] \<or> keep \<or> rel_version rel = k_version (in_previous req) then Inr []
         else (case iw_osv iw eco (r_location (in_ref req)) (rel_version rel) of
                 None \<Rightarrow> Inr (rel_version rel)
               | Some [] \<Rightarrow> Inr []
               | Some ids \<Rightarrow> Inl (Malicious (rel_version rel) ids)))"

subsection \<open>The ways of installing a release\<close>

definition host_strategy :: "install_world \<Rightarrow> request \<Rightarrow> manifest \<Rightarrow> (install_error, artifact option \<times> bool) res" where
  "host_strategy iw req m =
     (let host = iw_host iw; at = entry_at (in_previous req) host;
          build = (in_from_source req
                    \<or> l_strategy at = ''build'' \<and> version_on (in_previous req) (platform_string host) = v_value (m_version m))
      in case select_artifact m host of
           Inl e \<Rightarrow> Inl (SelectFailed e)
         | Inr found \<Rightarrow>
             if (build \<or> found = None) \<and> builds_on m host then Inr (found, True)
             else if build then Inl (NotBuildable host)
             else (case found of None \<Rightarrow> Inl (NoArtifactFor host) | Some a \<Rightarrow> Inr (Some a, False)))"

definition kept_platforms :: "package \<Rightarrow> manifest \<Rightarrow> ref \<Rightarrow> (string \<times> lock_platform) list" where
  "kept_platforms k m r =
     (if k_manifest_sha256 k \<noteq> m_sha256 m \<or> k_ref k \<noteq> ref_string r then []
      else if \<not> per_artifact m then (if k_version k = v_value (m_version m) then k_platforms k else [])
      else filter (\<lambda>(key, at). text_at (m_versions m) key = [] \<or> text_at (m_versions m) key = l_version at) (k_platforms k))"

subsection \<open>A download on this machine\<close>

definition pinned_digest :: "request \<Rightarrow> manifest \<Rightarrow> artifact \<Rightarrow> platform \<Rightarrow> string" where
  "pinned_digest req m a p =
     (if version_on (in_previous req) (platform_string p) = v_value (m_version m) \<and> l_url (entry_at (in_previous req) p) = ar_url a
      then l_sha256 (entry_at (in_previous req) p) else [])"

text \<open>The digests of a locked moving tag, which has to be where the lock saw it once its build is gone.\<close>

definition moving_digests ::
  "install_world \<Rightarrow> request \<Rightarrow> manifest \<Rightarrow> artifact \<Rightarrow> release \<Rightarrow> bool \<Rightarrow> bool \<Rightarrow> (install_error, release) res" where
  "moving_digests iw req m a rel keep there =
     (if keep \<and> v_tag (m_version m) \<noteq> [] \<and> \<not> there
      then (case pick_version (iw_sources iw) \<lparr>min_age = 0, now = iw_now iw\<rparr> (m_version m) [] of
              Inl e \<Rightarrow> Inl (NoRelease e)
            | Inr found \<Rightarrow>
                if rel_commit found \<noteq> k_tag_commit (in_previous req)
                then Inl (TagMoved (v_tag (m_version m)) (rel_version found))
                else Inr (rel\<lparr>rel_digests := rel_digests found\<rparr>))
      else Inr rel)"

definition with_published :: "artifact \<Rightarrow> release \<Rightarrow> artifact" where
  "with_published a rel =
     (let a1 = (if ar_sha256 a = [] \<and> ar_sha256_url a = [] then a\<lparr>ar_sha256 := digest_of (rel_digests rel) (ar_url a)\<rparr> else a)
      in if ar_sha256 a1 = [] \<and> ar_sha256_url a1 = [] \<and> ar_integrity a1 = []
         then a1\<lparr>ar_integrity := digest_of (rel_integrity rel) (ar_url a)\<rparr> else a1)"

definition artifact_entry :: "artifact \<Rightarrow> string \<Rightarrow> string \<Rightarrow> int \<Rightarrow> lock_platform" where
  "artifact_entry a sha256 verified at =
     no_lock_platform\<lparr>l_strategy := ''artifact'', l_url := ar_url a, l_sha256 := sha256, l_verified := verified,
       l_commands := (cm_generate (ar_completions a) \<noteq> []), l_signed_at := at\<rparr>"

text \<open>\<open>download\<close>, with the release whose digests the pins of the other platforms use.\<close>

definition download_here ::
  "install_world \<Rightarrow> request \<Rightarrow> manifest \<Rightarrow> artifact \<Rightarrow> release \<Rightarrow> bool \<Rightarrow> string list \<Rightarrow> depot
     \<Rightarrow> (install_error, realized \<times> lock_platform \<times> release) res \<times> depot" where
  "download_here iw req m a0 rel0 keep deps d =
     (let host = iw_host iw; was = entry_at (in_previous req) host; pinned0 = pinned_digest req m a0 host
      in case moving_digests iw req m a0 rel0 keep (store_has (iw_remote iw) (iw_dir iw) d m a0 host pinned0 deps) of
           Inl e \<Rightarrow> (Inl e, d)
         | Inr rel \<Rightarrow>
             (let a = with_published a0 rel;
                  pinned = (if in_accept_digest req \<and> (ar_sha256 a \<noteq> [] \<or> ar_sha256_url a \<noteq> []) then [] else pinned0);
                  verified = pin_verified (artifact_verified (iw_out iw) m a0 rel) (pinned \<noteq> []) was
              in if \<not> check_verified req host verified
                 then (Inl (WeakerCheck host (locked_check req host) verified), d)
                 else if verified = ''first-use'' \<and> pinned = [] \<and> \<not> in_trust req (pk_name (m_package m)) (v_value (m_version m)) host
                 then (Inl (NotTrusted (v_value (m_version m))), d)
                 else if (cm_generate (ar_completions a) \<noteq> [] \<or> m_env m \<noteq> []) \<and> \<not> in_approve req m host
                 then (Inl (NotApproved (v_value (m_version m))), d)
                 else (case realize (iw_remote iw) (iw_out iw) (signed_after req host (v_value (m_version m))) (iw_dir iw) d m a host pinned deps of
                         (Inl e, d') \<Rightarrow> (Inl (DownloadFailed e), d')
                       | (Inr r, d') \<Rightarrow>
                           (Inr (r, artifact_entry a (rz_sha256 r) verified
                                      (if rz_signed_at r = 0 \<and> l_sha256 was = rz_sha256 r then l_signed_at was else rz_signed_at r), rel), d'))))"

subsection \<open>The other platforms of the lock\<close>

definition builds_from_source :: "manifest \<Rightarrow> platform \<Rightarrow> lock_platform \<Rightarrow> bool \<Rightarrow> bool" where
  "builds_from_source m p at from_source \<longleftrightarrow>
     (from_source \<or> l_strategy at = ''build'' \<or> (case select_artifact m p of Inr (Some a) \<Rightarrow> False | _ \<Rightarrow> True)) \<and> builds_on m p"

text \<open>The pin of a build for another platform. \<open>host\<close> is the entry of this machine, whose vendored packages may be those of \<open>p\<close>.\<close>

definition pin_build ::
  "install_world \<Rightarrow> manifest \<Rightarrow> release \<Rightarrow> platform \<Rightarrow> lock_platform \<Rightarrow> lock_platform \<Rightarrow> bool
     \<Rightarrow> (install_error, lock_platform \<times> bool) res" where
  "pin_build iw m rel p host at relabel =
     (case iw_pin_build iw m rel p (l_url at) (l_sha256 at) of
        Inl e \<Rightarrow> Inl (BuildFailed e)
      | Inr pin \<Rightarrow>
          (let pinned = l_sha256 at \<noteq> [] \<and> l_url at = bp_url pin \<and> \<not> relabel;
               entry = no_lock_platform\<lparr>l_strategy := ''build'', l_impure := bp_impure pin, l_url := bp_url pin, l_sha256 := bp_sha256 pin,
                 l_verified := source_verified m rel p pinned at, l_vendor_sha256 := l_vendor_sha256 at\<rparr>;
               trusted = bp_first_use pin \<and> bp_url pin \<noteq> l_url host
           in if l_strategy host \<noteq> ''build'' \<or> l_vendor_sha256 at \<noteq> [] then Inr (entry, trusted)
              else (case iw_vendor iw m p (l_vendor_sha256 host) of
                      Inl e \<Rightarrow> Inl (BuildFailed e) | Inr digest \<Rightarrow> Inr (entry\<lparr>l_vendor_sha256 := digest\<rparr>, trusted))))"

definition pin_for ::
  "install_world \<Rightarrow> int \<Rightarrow> manifest \<Rightarrow> release \<Rightarrow> platform \<Rightarrow> lock_platform \<Rightarrow> lock_platform \<Rightarrow> bool \<Rightarrow> bool \<Rightarrow> depot
     \<Rightarrow> (install_error, lock_platform \<times> bool) res \<times> depot" where
  "pin_for iw after m rel p host at from_source relabel d =
     (case select_artifact m p of
        Inl e \<Rightarrow> (Inl (SelectFailed e), d)
      | Inr found \<Rightarrow>
          if from_source \<and> \<not> builds_on m p then (Inl (NotBuildable p), d)
          else if builds_from_source m p at from_source then (pin_build iw m rel p host at relabel, d)
          else (case found of
                  None \<Rightarrow> (Inl (NoArtifactFor p), d)
                | Some a0 \<Rightarrow>
                    (let a = (if ar_sha256 a0 = [] \<and> ar_sha256_url a0 = []
                              then a0\<lparr>ar_sha256 := digest_of (rel_digests rel) (ar_url a0),
                                      ar_integrity := own_text (ar_integrity a0) (digest_of (rel_integrity rel) (ar_url a0))\<rparr> else a0);
                         verified = pin_verified (artifact_verified (iw_out iw) m a0 rel) False at
                     in case pin_artifact (iw_remote iw) (iw_out iw) after d m a of
                          (Inl e, d') \<Rightarrow> (Inl (DownloadFailed e), d')
                        | (Inr r, d') \<Rightarrow>
                            (Inr ((artifact_entry a (rz_sha256 r) verified (rz_signed_at r))
                                    \<lparr>l_version := text_at (m_versions m) (platform_string p), l_tag := text_at (m_tags m) (platform_string p)\<rparr>,
                                  rz_first_use r), d'))))"

definition states_digest :: "install_world \<Rightarrow> manifest \<Rightarrow> release \<Rightarrow> platform \<Rightarrow> bool" where
  "states_digest iw m rel p =
     (case select_artifact m p of Inr (Some a) \<Rightarrow> artifact_verified (iw_out iw) m a rel \<noteq> [] | _ \<Rightarrow> False)"

definition entry_in :: "(string \<times> lock_platform) list \<Rightarrow> platform \<Rightarrow> lock_platform" where
  "entry_in ps p = (case map_of ps (platform_string p) of None \<Rightarrow> no_lock_platform | Some e \<Rightarrow> e)"

fun lock_others_loop ::
  "install_world \<Rightarrow> request \<Rightarrow> manifest \<Rightarrow> release \<Rightarrow> lock_platform \<Rightarrow> platform list \<Rightarrow> (string \<times> lock_platform) list \<Rightarrow> depot
     \<Rightarrow> (install_error, (string \<times> lock_platform) list) res \<times> depot" where
  "lock_others_loop iw req m rel host [] platforms d = (Inr platforms, d)"
| "lock_others_loop iw req m rel host (p # ps) platforms d =
     (let kept = (map_of platforms (platform_string p) \<noteq> None); at0 = entry_in platforms p;
          relabel = (kept \<and> in_accept_digest req \<and> p \<noteq> iw_host iw);
          version = own_text (text_at (m_versions m) (platform_string p)) (v_value (m_version m));
          download = (kept \<and> l_strategy at0 \<noteq> ''build'');
          at = (if download \<and> in_from_source req then no_lock_platform else at0)
      in if download \<and> \<not> in_from_source req \<and> (\<not> relabel \<or> \<not> states_digest iw m rel p)
         then lock_others_loop iw req m rel host ps platforms d
         else (case pin_for iw (signed_after req p version) m rel p host at (in_from_source req) relabel d of
                 (Inl e, d') \<Rightarrow>
                   if in_strict req \<or> in_from_source req then (Inl e, d') else lock_others_loop iw req m rel host ps platforms d'
               | (Inr (entry, trusted), d') \<Rightarrow>
                   if \<not> check_verified req p (l_verified entry) \<and> \<not> relabel
                   then (Inl (WeakerCheck p (locked_check req p) (l_verified entry)), d')
                   else if trusted \<and> \<not> in_trust req (pk_name (m_package m)) version p then (Inl (NotTrusted version), d')
                   else lock_others_loop iw req m rel host ps (AList.update (platform_string p) entry platforms) d'))"

definition lock_others ::
  "install_world \<Rightarrow> request \<Rightarrow> manifest \<Rightarrow> release \<Rightarrow> lock_platform \<Rightarrow> (string \<times> lock_platform) list \<Rightarrow> depot
     \<Rightarrow> (install_error, (string \<times> lock_platform) list) res \<times> depot" where
  "lock_others iw req m rel host platforms d =
     (let downloads = in_from_source req \<and> list_ex (\<lambda>p. l_strategy (entry_in platforms p) \<noteq> ''build'') (in_platforms req)
      in if in_keep_version req \<and> \<not> in_strict req \<and> \<not> in_lock_only req \<and> \<not> downloads then (Inr platforms, d)
         else lock_others_loop iw req m rel host (in_platforms req) platforms d)"

subsection \<open>The lock entry\<close>

definition summary_platform :: "manifest \<Rightarrow> (string \<times> lock_platform) list \<Rightarrow> lock_platform option" where
  "summary_platform m platforms =
     (if \<not> per_artifact m then None
      else map_option snd (find (\<lambda>(_, at). l_version at \<noteq> []) (sort_func (\<lambda>a b. str_cmp (fst a) (fst b)) platforms)))"

definition locked_version :: "manifest \<Rightarrow> (string \<times> lock_platform) list \<Rightarrow> string" where
  "locked_version m platforms = (case summary_platform m platforms of Some at \<Rightarrow> l_version at | None \<Rightarrow> v_value (m_version m))"

definition tag_for :: "manifest \<Rightarrow> (string \<times> lock_platform) list \<Rightarrow> string" where
  "tag_for m platforms =
     (case summary_platform m platforms of
        Some at \<Rightarrow> l_tag at | None \<Rightarrow> if m_tag m = v_value (m_version m) then [] else m_tag m)"

definition stays_inferred :: "request \<Rightarrow> string \<Rightarrow> bool" where
  "stays_inferred req inferred \<longleftrightarrow> inferred \<noteq> [] \<or> k_inferred (in_previous req) \<and> in_keep_version req"

definition lock_entry :: "request \<Rightarrow> manifest \<Rightarrow> string \<Rightarrow> string \<Rightarrow> (string \<times> lock_platform) list \<Rightarrow> package list \<Rightarrow> package" where
  "lock_entry req m commit inferred platforms deps =
     (let k = in_previous req; ours = stays_inferred req inferred
      in Package (pk_name (m_package m)) (ref_string (in_ref req)) commit (m_sha256 m) (locked_version m platforms)
           (pk_signing_key (m_package m)) (pk_signer_workflow (m_package m)) (tag_for m platforms) (m_tag_commit m)
           ours (if inferred = [] \<and> ours then k_manifest k else inferred)
           (if ours then own_text (in_asset req) (k_asset k) else []) (if ours then (if in_bins req \<noteq> [] then in_bins req else k_bins k) else [])
           platforms deps)"

subsection \<open>An install\<close>

record install_result =
  ir_path :: string
  ir_lock :: package
  ir_first_use :: bool
  ir_not_taken :: string
  ir_age_unknown :: "string list"
  ir_unchecked :: string

text \<open>The values of the environment of a package: the first that cannot be expanded is the error.\<close>

fun first_fault :: "(string \<times> string) list \<Rightarrow> (string \<times> string) list \<Rightarrow> install_error option" where
  "first_fault [] vars = None"
| "first_fault ((name, v) # env) vars =
     (case expand_template v vars of Inl e \<Rightarrow> Some (BadEnvValue name e) | Inr _ \<Rightarrow> first_fault env vars)"

definition env_fault :: "manifest \<Rightarrow> string \<Rightarrow> string \<Rightarrow> install_error option" where
  "env_fault m path pkg_dir =
     first_fault (m_env m) [(''prefix'', path), (''pkg'', pkg_dir), (''version'', v_value (m_version m)), (''tag'', m_tag m)]"

text \<open>The build of \<open>installHere\<close>, whose source is checked before.\<close>

definition build_install ::
  "install_world \<Rightarrow> request \<Rightarrow> manifest \<Rightarrow> release \<Rightarrow> (install_error, string \<times> lock_platform) res" where
  "build_install iw req m rel =
     (let host = iw_host iw; k = in_previous req; at = entry_at k host;
          vendor = (if in_keep_version req \<and> k_manifest_sha256 k = m_sha256 m then l_vendor_sha256 at else []);
          source = (if version_on k (platform_string host) = v_value (m_version m) \<and> l_strategy at = ''build'' \<and> \<not> in_accept_digest req
                    then l_sha256 at else []);
          how = source_verified m rel host (source \<noteq> []) at
      in if \<not> check_verified req host how then Inl (WeakerCheck host (locked_check req host) how)
         else if how = ''first-use'' \<and> source = [] \<and> \<not> in_trust req (pk_name (m_package m)) (v_value (m_version m)) host
         then Inl (NotTrusted (v_value (m_version m)))
         else (case iw_build iw m vendor source of Inl e \<Rightarrow> Inl (BuildFailed e) | Inr built \<Rightarrow> Inr built))"

definition realize_here ::
  "install_world \<Rightarrow> request \<Rightarrow> manifest \<Rightarrow> release \<Rightarrow> bool \<Rightarrow> artifact option \<Rightarrow> bool \<Rightarrow> string list \<Rightarrow> depot
     \<Rightarrow> (install_error, string \<times> bool \<times> lock_platform \<times> release) res \<times> depot" where
  "realize_here iw req m rel keep found build deps d =
     (if build then (case build_install iw req m rel of Inl e \<Rightarrow> (Inl e, d) | Inr (path, entry) \<Rightarrow> (Inr (path, False, entry, rel), d))
      else (case download_here iw req m (the found) rel keep deps d of
              (Inl e, d') \<Rightarrow> (Inl e, d')
            | (Inr (r, entry, rel'), d') \<Rightarrow> (Inr (rz_path r, rz_first_use r, entry, rel'), d')))"

definition own_version :: "install_world \<Rightarrow> manifest \<Rightarrow> lock_platform \<Rightarrow> lock_platform" where
  "own_version iw m entry =
     (if per_artifact m then entry\<lparr>l_version := v_value (m_version m), l_tag := text_at (m_tags m) (platform_string (iw_host iw))\<rparr> else entry)"

definition install_here ::
  "install_world \<Rightarrow> request \<Rightarrow> manifest \<Rightarrow> release \<Rightarrow> bool \<Rightarrow> string \<Rightarrow> string \<Rightarrow> depot \<Rightarrow> (install_error, string \<times> bool \<times> package) res \<times> depot" where
  "install_here iw req m rel keep commit inferred d =
     (case host_strategy iw req m of
        Inl e \<Rightarrow> (Inl e, d)
      | Inr (found, build) \<Rightarrow>
          (case iw_deps iw m of
             Inl e \<Rightarrow> (Inl (DepsFailed e), d)
           | Inr (prefixes, dep_locks) \<Rightarrow>
               if in_rebuild req \<and> \<not> build then (Inl RebuildsDownload, d)
               else (case realize_here iw req m rel keep found build prefixes d of
                       (Inl e, d') \<Rightarrow> (Inl e, d')
                     | (Inr (path, first_use, entry, rel'), d') \<Rightarrow>
                         (case env_fault m path (if build then path else path_join [path, ''pkg'']) of
                            Some e \<Rightarrow> (Inl e, d')
                          | None \<Rightarrow>
                              (case lock_others iw req m rel' (own_version iw m entry)
                                      (AList.update (platform_string (iw_host iw)) (own_version iw m entry) (kept_platforms (in_previous req) m (in_ref req))) d' of
                                 (Inl e, d'') \<Rightarrow> (Inl e, d'')
                               | (Inr platforms, d'') \<Rightarrow>
                                   (Inr (path, first_use, lock_entry req m commit inferred platforms dep_locks), d''))))))"

text \<open>\<open>resolveOnly\<close>: the entry of a package for other machines.\<close>

definition resolve_only ::
  "install_world \<Rightarrow> request \<Rightarrow> manifest \<Rightarrow> release \<Rightarrow> string \<Rightarrow> string \<Rightarrow> depot \<Rightarrow> (install_error, string \<times> bool \<times> package) res \<times> depot" where
  "resolve_only iw req m rel commit inferred d =
     (case lock_others iw req m rel no_lock_platform (kept_platforms (in_previous req) m (in_ref req)) d of
        (Inl e, d') \<Rightarrow> (Inl e, d')
      | (Inr platforms, d') \<Rightarrow>
          (case iw_deps iw m of
             Inl e \<Rightarrow> (Inl (DepsFailed e), d')
           | Inr (prefixes, dep_locks) \<Rightarrow> (Inr ([], False, lock_entry req m commit inferred platforms dep_locks), d')))"

definition install_from ::
  "install_world \<Rightarrow> request \<Rightarrow> manifest \<Rightarrow> string \<Rightarrow> string \<Rightarrow> depot \<Rightarrow> (install_error, install_result) res \<times> depot" where
  "install_from iw req m0 commit inferred d =
     (case pick_release iw req m0 of
        Inl e \<Rightarrow> (Inl e, d)
      | Inr (m1, rel1, keep, unchecked1) \<Rightarrow>
          (case gate_age req m1 rel1 keep unchecked1 of
             Inl e \<Rightarrow> (Inl e, d)
           | Inr (m, rel, not_taken, unchecked) \<Rightarrow>
               (case check_malware iw req rel keep of
                  Inl e \<Rightarrow> (Inl e, d)
                | Inr unasked \<Rightarrow>
                    (case (if in_lock_only req then resolve_only iw req m rel commit inferred d
                           else install_here iw req m rel keep commit inferred d) of
                       (Inl e, d') \<Rightarrow> (Inl e, d')
                     | (Inr (path, first_use, entry), d') \<Rightarrow>
                         (Inr \<lparr>ir_path = path, ir_lock = entry, ir_first_use = first_use, ir_not_taken = not_taken,
                               ir_age_unknown = unchecked, ir_unchecked = unasked\<rparr>, d')))))"

end
