(* ===== verification/Download_Props.thy ===== *)
theory Download_Props
  imports Download
begin

text \<open>
  What the store promises of a download: the bytes at a store path have the digest that the path was made for, and a download
  enters the store only after every check that the manifest names.
\<close>

subsection \<open>Names in signed comments\<close>

lemma names_at_iff:
  "names_at s v prev \<longleftrightarrow>
     (\<exists>a b. s = a @ v @ b \<and> (v \<noteq> [] \<or> b \<noteq> []) \<and> \<not> version_byte (case rev a of [] \<Rightarrow> prev | c # _ \<Rightarrow> Some c)
        \<and> \<not> version_byte (case b of [] \<Rightarrow> None | c # _ \<Rightarrow> Some c))"
proof (induction s arbitrary: prev)
  case (Cons c cs)
  show ?case
  proof
    assume "names_at (c # cs) v prev"
    then consider (here) "has_prefix (c # cs) v" "\<not> version_byte prev"
        "\<not> version_byte (case drop (length v) (c # cs) of [] \<Rightarrow> None | d # _ \<Rightarrow> Some d)"
      | (later) "names_at cs v (Some c)" by (auto simp del: has_prefix_def)
    then show "\<exists>a b. c # cs = a @ v @ b \<and> (v \<noteq> [] \<or> b \<noteq> []) \<and> \<not> version_byte (case rev a of [] \<Rightarrow> prev | c # _ \<Rightarrow> Some c)
        \<and> \<not> version_byte (case b of [] \<Rightarrow> None | c # _ \<Rightarrow> Some c)"
    proof cases
      case here
      then obtain b where "c # cs = v @ b" by (auto simp: has_prefix_iff)
      with here show ?thesis by (intro exI[of _ "[]"] exI[of _ b]) auto
    next
      case later
      then obtain a b where "cs = a @ v @ b" "v \<noteq> [] \<or> b \<noteq> []" "\<not> version_byte (case rev a of [] \<Rightarrow> Some c | d # _ \<Rightarrow> Some d)"
        "\<not> version_byte (case b of [] \<Rightarrow> None | d # _ \<Rightarrow> Some d)" using Cons.IH by blast
      then show ?thesis by (intro exI[of _ "c # a"] exI[of _ b]) (auto split: list.splits)
    qed
  next
    assume "\<exists>a b. c # cs = a @ v @ b \<and> (v \<noteq> [] \<or> b \<noteq> []) \<and> \<not> version_byte (case rev a of [] \<Rightarrow> prev | c # _ \<Rightarrow> Some c)
        \<and> \<not> version_byte (case b of [] \<Rightarrow> None | c # _ \<Rightarrow> Some c)"
    then obtain a b where ab: "c # cs = a @ v @ b" "v \<noteq> [] \<or> b \<noteq> []" "\<not> version_byte (case rev a of [] \<Rightarrow> prev | c # _ \<Rightarrow> Some c)"
        "\<not> version_byte (case b of [] \<Rightarrow> None | c # _ \<Rightarrow> Some c)" by blast
    show "names_at (c # cs) v prev"
    proof (cases a)
      case Nil
      with ab have "has_prefix (c # cs) v" "drop (length v) (c # cs) = b" by (simp_all add: has_prefix_iff)
      with ab(3,4) Nil show ?thesis by simp
    next
      case (Cons x a')
      with ab have "names_at cs v (Some c)" unfolding Cons.IH by (intro exI[of _ a'] exI[of _ b]) (auto split: list.splits)
      then show ?thesis by simp
    qed
  qed
qed auto

lemma names_version_iff:
  "names_version comment v \<longleftrightarrow> v \<noteq> [] \<and> (\<exists>a b. comment = a @ v @ b \<and> (a = [] \<or> \<not> version_byte (Some (last a)))
     \<and> (b = [] \<or> \<not> version_byte (Some (hd b))))"
proof -
  have b: "\<not> version_byte (case b of [] \<Rightarrow> None | c # _ \<Rightarrow> Some c) \<longleftrightarrow> b = [] \<or> \<not> version_byte (Some (hd b))" for b
    by (cases b) (auto simp: version_byte_def)
  show ?thesis unfolding names_version_def names_at_iff b by (cases "v = []") (simp_all add: hd_rev)
qed

subsection \<open>Store paths\<close>

text \<open>
  The names that the store gives are told apart when the short hash is free of collisions and writes hexadecimal digits, no
  field of a request holds a line break, and a name or a version no slash.
\<close>

definition hex_names :: "remote \<Rightarrow> bool" where
  "hex_names rm \<longleftrightarrow> inj (rm_short rm) \<and> (\<forall>t. rm_short rm t \<noteq> [] \<and> CHR ''-'' \<notin> set (rm_short rm t) \<and> CHR ''/'' \<notin> set (rm_short rm t))"

definition plain_request :: "manifest \<Rightarrow> platform \<Rightarrow> string \<Rightarrow> bool" where
  "plain_request m p s \<longleftrightarrow>
     (\<forall>t\<in>set [m_sha256 m, v_value (m_version m), platform_string p, s]. CHR 0x0A \<notin> set t)
     \<and> CHR ''/'' \<notin> set (pk_name (m_package m)) \<and> CHR ''/'' \<notin> set (v_value (m_version m))"

definition store_dir_ok :: "string \<Rightarrow> bool" where
  "store_dir_ok dir \<longleftrightarrow> is_abs dir \<and> path_clean dir = dir"

lemma path_join_name:
  assumes "store_dir_ok dir" "CHR ''/'' \<notin> set x" "x \<notin> {[], ''.'', ''..''}"
  shows "path_join [dir, x] = render_path True (clean_elems dir @ [x])" "plain_names (clean_elems dir @ [x])"
proof -
  have dir: "is_abs dir" "path_clean dir = dir" using assms(1) by (simp_all add: store_dir_ok_def)
  show "plain_names (clean_elems dir @ [x])" using clean_path_render[OF dir(2,1)] assms(2,3) by (simp add: plain_names_def)
  show "path_join [dir, x] = render_path True (clean_elems dir @ [x])"
    unfolding join_below[OF dir] split_char_single[OF assms(2)] using assms(3) by (simp add: clean_elem_def)
qed

lemma after_last_dash:
  assumes "a @ ''-'' @ h = a' @ ''-'' @ h'" "CHR ''-'' \<notin> set h" "CHR ''-'' \<notin> set h'"
  shows "h = h'"
proof -
  have "takeWhile (\<lambda>c. c \<noteq> CHR ''-'') (rev (x @ ''-'' @ y)) = rev y" if "CHR ''-'' \<notin> set y" for x y
    using that takeWhile_append2[of "rev y" "\<lambda>c. c \<noteq> CHR ''-''" "CHR ''-'' # rev x"] by auto
  from this[OF assms(2), of a] this[OF assms(3), of a'] assms(1) have "rev h = rev h'" by metis
  then show ?thesis by simp
qed

lemma fields_nth:
  assumes "\<forall>t\<in>set (take n xs). c \<notin> set t" "n < length xs" "c \<notin> set (xs ! n)"
  shows "take (Suc n) (split_char c (join [c] xs)) = take (Suc n) xs"
  using assms
proof (induction xs arbitrary: n)
  case (Cons x xs)
  show ?case
  proof (cases n)
    case 0
    with Cons.prems show ?thesis by (cases xs) (simp_all add: split_char_single split_char_append)
  next
    case (Suc k)
    with Cons.prems obtain y ys where xs: "xs = y # ys" by (cases xs) auto
    have "take (Suc k) (split_char c (join [c] xs)) = take (Suc k) xs" using Cons.IH[of k] Cons.prems Suc by simp
    with Suc Cons.prems xs show ?thesis by (simp add: split_char_append)
  qed
qed simp

lemma digest_field:
  assumes "plain_request m p s"
  shows "split_char (CHR 0x0A) (join [CHR 0x0A] (path_fields m p (s # rest))) ! 4 = s"
proof -
  have "take 5 (split_char (CHR 0x0A) (join [CHR 0x0A] (path_fields m p (s # rest)))) = take 5 (path_fields m p (s # rest))"
    using fields_nth[of 4 "path_fields m p (s # rest)" "CHR 0x0A"] assms by (simp add: path_fields_def plain_request_def)
  then have "take 5 (split_char (CHR 0x0A) (join [CHR 0x0A] (path_fields m p (s # rest)))) ! 4 = s" by (simp add: path_fields_def)
  then show ?thesis by simp
qed

lemma paths_tell:
  assumes "hex_names rm" "store_dir_ok dir" "plain_request m p s" "plain_request m' p' s'"
    and "artifact_path rm dir m a p s deps = artifact_path rm dir m' a' p' s' deps'"
  shows "s = s'"
proof -
  let ?t = "join [CHR 0x0A] (path_fields m p (s # artifact_extra dir a p deps))"
  let ?t' = "join [CHR 0x0A] (path_fields m' p' (s' # artifact_extra dir a' p' deps'))"
  let ?x = "pk_name (m_package m) @ ''-'' @ v_value (m_version m) @ ''-'' @ rm_short rm ?t"
  let ?x' = "pk_name (m_package m') @ ''-'' @ v_value (m_version m') @ ''-'' @ rm_short rm ?t'"
  have x: "CHR ''/'' \<notin> set ?x" "?x \<notin> {[], ''.'', ''..''}" "CHR ''/'' \<notin> set ?x'" "?x' \<notin> {[], ''.'', ''..''}"
    using assms(1,3,4) by (auto simp: hex_names_def plain_request_def append_eq_Cons_conv)
  have "render_path True (clean_elems dir @ [?x]) = render_path True (clean_elems dir @ [?x'])"
    using assms(5) path_join_name(1)[OF assms(2) x(1,2)] path_join_name(1)[OF assms(2) x(3,4)]
    by (simp add: artifact_path_def path_for_def)
  then have "clean_elems dir @ [?x] = clean_elems dir @ [?x']"
    using path_join_name(2)[OF assms(2) x(1,2)] path_join_name(2)[OF assms(2) x(3,4)] clean_elems_render clean_stack_rooted by metis
  then have "rm_short rm ?t = rm_short rm ?t'"
    using assms(1) after_last_dash[of "pk_name (m_package m) @ ''-'' @ v_value (m_version m)" "rm_short rm ?t"] by (simp add: hex_names_def)
  then have "?t = ?t'" using assms(1) by (simp add: hex_names_def inj_eq)
  then show ?thesis using digest_field[OF assms(3)] digest_field[OF assms(4)] by metis
qed

subsection \<open>The depot\<close>

text \<open>A request that finds its path in the store finds bytes of its digest, and these were checked when they entered it.\<close>

definition depot_ok :: "remote \<Rightarrow> string \<Rightarrow> depot \<Rightarrow> bool" where
  "depot_ok rm dir d \<longleftrightarrow>
     (\<forall>m a p s deps body. plain_request m p s \<longrightarrow> dp_store d (artifact_path rm dir m a p s deps) = Some body \<longrightarrow> rm_sha256 rm body = s)"

lemma fetch_digest:
  assumes "fetch_file rm d url want = (Inr got, d')"
  shows "\<exists>body. dp_files d' got = Some body \<and> rm_sha256 rm body = got" "want \<noteq> [] \<Longrightarrow> got = want" "dp_store d' = dp_store d"
  using assms by (auto simp: fetch_file_def Let_def cached_digest_def split: if_splits option.splits)

definition checks_passed :: "remote \<Rightarrow> outside \<Rightarrow> int \<Rightarrow> manifest \<Rightarrow> artifact \<Rightarrow> string \<Rightarrow> bool" where
  "checks_passed rm out signed_after m a body \<longleftrightarrow>
     (ar_integrity a \<noteq> [] \<longrightarrow> rm_integrity rm body = ar_integrity a)
     \<and> (minisigned out m \<longrightarrow>
          (\<exists>at. verify_signature rm signed_after (pk_signing_key (m_package m)) (ar_url a) (v_value (m_version m)) body = Inr at))
     \<and> (names_sigstore m a \<longrightarrow> verify_sigstore rm out m a (rm_sha256 rm body))"

lemma vouched_passed:
  "vouched_for rm out signed_after m a body (rm_sha256 rm body) = (Inr (v, at), g) \<Longrightarrow> checks_passed rm out signed_after m a body
     \<and> (v \<longleftrightarrow> ar_integrity a \<noteq> [] \<or> minisigned out m \<or> names_sigstore m a)"
  by (auto simp: vouched_for_def checks_passed_def split: if_splits sum.splits)

text \<open>What is in the store after placing a file that the cache holds.\<close>

lemma place_download_ok:
  assumes "hex_names rm" "store_dir_ok dir" "plain_request m p got" "depot_ok rm dir d"
    and "dp_files d got = Some body" "rm_sha256 rm body = got" "place_download rm out signed_after dir d m a p want got deps = (res, d')"
  shows "depot_ok rm dir d' \<and> dp_store d \<subseteq>\<^sub>m dp_store d'
    \<and> (case res of Inl e \<Rightarrow> dp_store d' = dp_store d
       | Inr r \<Rightarrow> rz_path r = artifact_path rm dir m a p got deps \<and> rz_sha256 r = got
           \<and> map_option (rm_sha256 rm) (dp_store d' (rz_path r)) = Some got
           \<and> (rz_path r \<notin> dom (dp_store d) \<longrightarrow> checks_passed rm out signed_after m a body \<and> dp_store d' (rz_path r) = Some body))"
proof (cases "dp_store d (artifact_path rm dir m a p got deps)")
  case (Some there)
  then have "rm_sha256 rm there = got" using assms(3,4) by (auto simp: depot_ok_def)
  with Some assms(4,7) show ?thesis by (auto simp: place_download_def Let_def)
next
  case None
  let ?final = "artifact_path rm dir m a p got deps"
  have new: "depot_ok rm dir (d\<lparr>dp_store := (dp_store d)(?final \<mapsto> body)\<rparr>)"
    unfolding depot_ok_def
  proof (intro allI impI)
    fix m' a' p' s' deps' b
    assume s': "plain_request m' p' s'" "dp_store (d\<lparr>dp_store := (dp_store d)(?final \<mapsto> body)\<rparr>) (artifact_path rm dir m' a' p' s' deps') = Some b"
    show "rm_sha256 rm b = s'"
    proof (cases "artifact_path rm dir m' a' p' s' deps' = ?final")
      case True
      with paths_tell[OF assms(1,2) s'(1) assms(3)] have "s' = got" by blast
      with True s'(2) assms(6) show ?thesis by simp
    next
      case False
      with s' assms(4) show ?thesis by (auto simp: depot_ok_def)
    qed
  qed
  obtain r0 g where v: "vouched_for rm out signed_after m a body got = (r0, g)" by fastforce
  show ?thesis
  proof (cases r0)
    case (Inl e)
    with None v assms(4,5,7) show ?thesis by (cases g) (auto simp: place_download_def Let_def depot_ok_def)
  next
    case (Inr va)
    obtain w at where va: "va = (w, at)" by fastforce
    with Inr v assms(6) have "checks_passed rm out signed_after m a body" using vouched_passed by metis
    with None Inr va v new assms(4,5,6,7) show ?thesis
      by (auto simp: place_download_def Let_def map_le_def dom_def split: if_splits)
  qed
qed

lemma no_newline: "list_all is_hex s \<Longrightarrow> CHR 0x0A \<notin> set s"
proof -
  have "\<not> is_hex (CHR 0x0A)" by code_simp
  then show "list_all is_hex s \<Longrightarrow> CHR 0x0A \<notin> set s" unfolding list_all_iff by blast
qed

lemma first_digest_hex: "CHR 0x0A \<notin> set (to_lower (first_digest s))"
proof (cases "hex_digests s")
  case (Cons d ds)
  then have "d \<in> set (hex_digests s)" by simp
  then have "list_all is_hex (to_lower d)" by (simp add: hex_digests_def)
  with Cons show ?thesis by (simp add: first_digest_def no_newline)
qed (simp add: first_digest_def to_lower_def)

lemma digest_in_hex: "digest_in rm data url name = Inr s \<Longrightarrow> CHR 0x0A \<notin> set s"
proof -
  assume s: "digest_in rm data url name = Inr s"
  have json: "json_sha256 rm data name = [] \<or> (\<exists>t. json_sha256 rm data name = to_lower (first_digest t))"
    unfolding json_sha256_def Let_def by (cases "rm_json rm data") auto
  show "CHR 0x0A \<notin> set s"
  proof (cases "json_sha256 rm data name = []")
    case True
    let ?named = "find (\<lambda>line. names_file line name \<and> hex_digests line \<noteq> []) (split_char (CHR 0x0A) data)"
    consider line where "?named = Some line" "s = to_lower (first_digest line)" | "s = to_lower (first_digest data)"
      using s True by (cases ?named; cases "hex_digests data"; cases "tl (hex_digests data)") (simp_all add: digest_in_def first_digest_def)
    then show ?thesis by cases (simp_all only: first_digest_hex not_False_eq_True)
  next
    case False
    with s json obtain t where "s = to_lower (first_digest t)" unfolding digest_in_def by auto
    then show ?thesis by (simp only: first_digest_hex not_False_eq_True)
  qed
qed

text \<open>The digests that a request may meet: those of the lock, of the manifest and of any file.\<close>

definition plain_digests :: "remote \<Rightarrow> manifest \<Rightarrow> artifact \<Rightarrow> platform \<Rightarrow> string \<Rightarrow> bool" where
  "plain_digests rm m a p pinned \<longleftrightarrow>
     plain_request m p pinned \<and> CHR 0x0A \<notin> set (ar_sha256 a) \<and> (\<forall>b. CHR 0x0A \<notin> set (rm_sha256 rm b))"

lemma stated_plain:
  assumes "plain_digests rm m a p pinned" "stated_digest rm out m a = Inr s"
  shows "plain_request m p s"
proof -
  have "CHR 0x0A \<notin> set s"
    using assms digest_in_hex
    by (auto simp: plain_digests_def stated_digest_def signed_sha256_def split: if_splits sum.splits)
  with assms(1) show ?thesis by (simp add: plain_digests_def plain_request_def)
qed

text \<open>The three ways in which \<open>Realize\<close> ends: with a path that is there, with an error, or by placing what it fetched.\<close>

lemma realize_form:
  assumes ran: "realize rm out signed_after dir d m a p pinned deps = (res, d')"
  obtains
    (found) sha body where "res = Inr \<lparr>rz_path = artifact_path rm dir m a p sha deps, rz_sha256 = sha, rz_first_use = False, rz_signed_at = 0\<rparr>"
      "d' = d" "dp_store d (artifact_path rm dir m a p sha deps) = Some body" "sha \<noteq> []" "sha = pinned \<or> stated_digest rm out m a = Inr sha"
      "pinned \<noteq> [] \<longrightarrow> sha = pinned" "ar_sha256 a \<noteq> [] \<longrightarrow> sha = ar_sha256 a"
  | (failed) e where "res = Inl e" "dp_store d' = dp_store d"
  | (fetched) want got d1 where "fetch_file rm d (ar_url a) want = (Inr got, d1)"
      "place_download rm out signed_after dir d1 m a p want got deps = (res, d')"
      "pinned \<noteq> [] \<longrightarrow> want = pinned" "ar_sha256 a \<noteq> [] \<longrightarrow> want = ar_sha256 a"
proof (cases "pinned \<noteq> [] \<and> (ar_sha256 a = [] \<or> ar_sha256 a = pinned) \<and> dp_store d (artifact_path rm dir m a p pinned deps) \<noteq> None")
  case True
  then show thesis using ran found[of pinned] by (auto simp: realize_def)
next
  case new: False
  note step = ran[unfolded realize_def if_not_P[OF new]]
  show thesis
  proof (cases "stated_digest rm out m a")
    case (Inl e)
    then show thesis using step by (auto intro: failed)
  next
    case (Inr stated)
    have own: "ar_sha256 a \<noteq> [] \<Longrightarrow> stated = ar_sha256 a" using Inr by (simp add: stated_digest_def)
    let ?want = "if stated = [] then pinned else stated"
    show thesis
    proof (cases "stated \<noteq> [] \<and> pinned \<noteq> [] \<and> stated \<noteq> pinned")
      case True
      then show thesis using step Inr by (auto intro: failed)
    next
      case agree: False
      then have wanted: "pinned \<noteq> [] \<longrightarrow> ?want = pinned" "ar_sha256 a \<noteq> [] \<longrightarrow> ?want = ar_sha256 a" using own by auto
      have from_where: "?want = pinned \<or> stated_digest rm out m a = Inr ?want" using Inr by simp
      note step' = step[unfolded Inr sum.case if_not_P[OF agree] Let_def]
      show thesis
      proof (cases "?want \<noteq> [] \<and> dp_store d (artifact_path rm dir m a p ?want deps) \<noteq> None")
        case True
        then obtain body where "dp_store d (artifact_path rm dir m a p ?want deps) = Some body" by blast
        with True show thesis using step'[unfolded if_P[OF True]] found[OF _ _ _ _ from_where wanted] by blast
      next
        case absent: False
        note step'' = step'[unfolded if_not_P[OF absent]]
        obtain fr d1 where f: "fetch_file rm d (ar_url a) ?want = (fr, d1)" by fastforce
        show thesis
        proof (cases fr)
          case (Inl e)
          moreover have "dp_store d1 = dp_store d" using f Inl by (auto simp: fetch_file_def Let_def split: if_splits option.splits)
          ultimately show thesis using step''[unfolded f] by (auto intro: failed)
        next
          case (Inr got)
          then show thesis using step''[unfolded f] fetched[OF _ _ wanted] f by simp
        qed
      qed
    qed
  qed
qed

text \<open>
  C4. \<open>Realize\<close> returns a store path whose bytes have the digest that it reports, which is the one that the lock pins and the
  one that the manifest states, where there is one, for any state of the network, the cache and the store that earlier runs
  left. It never changes what is in the store, leaves the store as it is when it fails, and what it adds has passed the
  integrity, the minisign and the sigstore checks that the manifest asks for. The short hash in a store path is taken to be
  free of collisions.
\<close>

theorem realize_exact:
  assumes "hex_names rm" "store_dir_ok dir" "plain_digests rm m a p pinned" "depot_ok rm dir d"
    and "realize rm out signed_after dir d m a p pinned deps = (res, d')"
  shows "depot_ok rm dir d' \<and> dp_store d \<subseteq>\<^sub>m dp_store d'
    \<and> (case res of Inl e \<Rightarrow> dp_store d' = dp_store d
       | Inr r \<Rightarrow> rz_path r = artifact_path rm dir m a p (rz_sha256 r) deps
           \<and> map_option (rm_sha256 rm) (dp_store d' (rz_path r)) = Some (rz_sha256 r)
           \<and> (pinned \<noteq> [] \<longrightarrow> rz_sha256 r = pinned) \<and> (ar_sha256 a \<noteq> [] \<longrightarrow> rz_sha256 r = ar_sha256 a)
           \<and> (rz_path r \<notin> dom (dp_store d) \<longrightarrow>
                (\<exists>body. dp_store d' (rz_path r) = Some body \<and> checks_passed rm out signed_after m a body)))"
  using assms(5)
proof (cases rule: realize_form)
  case (found sha body)
  have "plain_request m p sha" using found(5) stated_plain[OF assms(3)] assms(3) by (auto simp: plain_digests_def)
  then have "rm_sha256 rm body = sha" using found(3) assms(4) by (auto simp: depot_ok_def)
  with found assms(4) show ?thesis by auto
next
  case (failed e)
  with assms(4) show ?thesis by (simp add: depot_ok_def)
next
  case (fetched want got d1)
  obtain body where body: "dp_files d1 got = Some body" "rm_sha256 rm body = got" using fetch_digest(1)[OF fetched(1)] by blast
  have store: "dp_store d1 = dp_store d" by (rule fetch_digest(3)[OF fetched(1)])
  have got_plain: "plain_request m p got" using assms(3) body(2) by (auto simp: plain_digests_def plain_request_def)
  have "depot_ok rm dir d1" using assms(4) store by (simp add: depot_ok_def)
  note placed = place_download_ok[OF assms(1,2) got_plain this body fetched(2)]
  have "(pinned \<noteq> [] \<longrightarrow> got = pinned) \<and> (ar_sha256 a \<noteq> [] \<longrightarrow> got = ar_sha256 a)"
    using fetched(3,4) fetch_digest(2)[OF fetched(1)] by auto
  with placed store show ?thesis by (cases res) auto
qed

end
