(* ===== verification/Install_Props.thy ===== *)
theory Install_Props
  imports Install Download_Props
begin

text \<open>
  What an install keeps of the lock: checks never become weaker and signers never change unasked, and an install from the lock
  gives the bytes that were locked or fails, whatever the network serves by then.
\<close>

subsection \<open>The manifest and its release\<close>

lemma with_release_simps [simp]:
  "m_package (with_release m rel) = m_package m" "m_artifacts (with_release m rel) = m_artifacts m"
  "m_build (with_release m rel) = m_build m" "m_sha256 (with_release m rel) = m_sha256 m" "m_env (with_release m rel) = m_env m"
  "m_versions (with_release m rel) = m_versions m" "m_tags (with_release m rel) = m_tags m" "m_tag (with_release m rel) = rel_tag rel"
  "v_value (m_version (with_release m rel)) = rel_version rel" "per_artifact (with_release m rel) = per_artifact m"
  "with_release (with_release m rel') rel = with_release m rel" "builds_on (with_release m rel) p = builds_on m p"
  by (simp_all add: with_release_def per_artifact_def builds_on_def has_build_def)

lemma artifact_version_with_release:
  "artifact_version (with_release m rel) a p =
     (if ar_version a = None then (rel_version rel, rel_tag rel) else artifact_version m a p)"
  by (simp add: artifact_version_def)

lemma select_with_release:
  assumes "rel_version rel = rel_version rel'" "rel_tag rel = rel_tag rel'"
  shows "select_artifact (with_release m rel) p = select_artifact (with_release m rel') p"
  unfolding select_artifact_def artifact_version_with_release assms with_release_simps ..

lemma no_build: "m_build m = None \<Longrightarrow> \<not> builds_on m p"
  by (simp add: builds_on_def has_build_def)

definition signed_manifest :: "request \<Rightarrow> manifest \<Rightarrow> manifest" where
  "signed_manifest req m =
     (if in_signing_key req = [] then m else m\<lparr>m_package := (m_package m)\<lparr>pk_signing_key := in_signing_key req\<rparr>\<rparr>)"

lemma pin_signer_form:
  "pin_signer out req m = Inr ms \<Longrightarrow> ms = signed_manifest req m
     \<and> (in_signer_workflow req \<noteq> [] \<longrightarrow> pk_signer_workflow (m_package m) = in_signer_workflow req)"
  by (auto simp: pin_signer_def signed_manifest_def Let_def split: if_splits option.splits prod.splits)

lemma signed_manifest_simps [simp]:
  "m_artifacts (signed_manifest req m) = m_artifacts m" "m_build (signed_manifest req m) = m_build m"
  "m_sha256 (signed_manifest req m) = m_sha256 m" "m_versions (signed_manifest req m) = m_versions m"
  "per_artifact (signed_manifest req m) = per_artifact m"
  "pk_signer_workflow (m_package (signed_manifest req m)) = pk_signer_workflow (m_package m)"
  "pk_name (m_package (signed_manifest req m)) = pk_name (m_package m)"
  "m_version (signed_manifest req m) = m_version m"
  by (simp_all add: signed_manifest_def per_artifact_def)

lemma artifact_versions_loop_keeps:
  "artifact_versions_loop iw req keep ps m found ds us = Inr (m', ds', us') \<Longrightarrow>
     m_package m' = m_package m \<and> m_sha256 m' = m_sha256 m \<and> m_build m' = m_build m \<and> m_artifacts m' = m_artifacts m"
proof (induction ps arbitrary: m found ds us)
  case (Cons p ps)
  from Cons.prems show ?case
    by (auto simp: Let_def dest!: Cons.IH split: option.splits sum.splits if_splits prod.splits)
qed simp

lemma release_for_keeps:
  assumes "release_for iw req m permitted keep = Inr (m', rel, us)"
  shows "m_package m' = m_package m \<and> m_sha256 m' = m_sha256 m \<and> m_build m' = m_build m \<and> m_artifacts m' = m_artifacts m"
    and "\<not> per_artifact m \<Longrightarrow> m' = m" and "\<not> per_artifact m \<Longrightarrow> keep \<Longrightarrow> rel = locked_release (in_previous req)"
proof -
  show "m_package m' = m_package m \<and> m_sha256 m' = m_sha256 m \<and> m_build m' = m_build m \<and> m_artifacts m' = m_artifacts m"
  proof (cases "per_artifact m")
    case True
    with assms show ?thesis
      by (auto simp: release_for_def artifact_versions_def Let_def simp del: artifact_versions_loop.simps dest!: artifact_versions_loop_keeps split: sum.splits)
  qed (use assms in \<open>auto simp: release_for_def split: if_splits sum.splits\<close>)
  show "\<not> per_artifact m \<Longrightarrow> m' = m" "\<not> per_artifact m \<Longrightarrow> keep \<Longrightarrow> rel = locked_release (in_previous req)"
    using assms by (auto simp: release_for_def split: if_splits sum.splits)
qed

text \<open>What \<open>pickRelease\<close> and \<open>gateAge\<close> leave of a manifest.\<close>

lemma pick_release_form:
  assumes "pick_release iw req m0 = Inr (m, rel, keep, us)"
  shows "signer_kept req (signed_manifest req m0) = None"
    and "in_want_manifest req \<noteq> [] \<Longrightarrow> m_sha256 m0 = in_want_manifest req"
    and "m_package m = m_package (signed_manifest req m0) \<and> m_sha256 m = m_sha256 m0 \<and> m_build m = m_build m0 \<and> m_artifacts m = m_artifacts m0"
    and "rel_tag rel = [] \<Longrightarrow> rel_version rel = []"
    and "keep \<longleftrightarrow> in_keep_version req \<and> k_version (in_previous req) \<noteq> [] \<and> version_matches (k_version (in_previous req)) (r_version (in_ref req)) = Inr True"
    and "\<not> per_artifact m0 \<Longrightarrow> m = with_release (signed_manifest req m0) rel"
    and "\<not> per_artifact m0 \<Longrightarrow> keep \<Longrightarrow> rel_version rel = k_version (in_previous req) \<and> rel_tag rel = own_text (k_tag (in_previous req)) (k_version (in_previous req))"
proof -
  from assms obtain ms where ms: "pin_signer (iw_out iw) req m0 = Inr ms" and want: "in_want_manifest req \<noteq> [] \<longrightarrow> m_sha256 m0 = in_want_manifest req"
    by (auto simp: pick_release_def split: if_splits sum.splits option.splits)
  have ms': "ms = signed_manifest req m0" using pin_signer_form[OF ms] by simp
  let ?k = "in_previous req"
  from assms ms obtain permitted where
    kept: "signer_kept req ms = None" and permitted: "version_matches (k_version ?k) (r_version (in_ref req)) = Inr permitted"
    by (simp add: pick_release_def Let_def split: if_splits sum.splits option.splits)
  define K where "K \<longleftrightarrow> in_keep_version req \<and> k_version ?k \<noteq> [] \<and> permitted"
  have "\<exists>r. release_for iw req ms permitted K = Inr r"
    using assms ms kept permitted K_def[symmetric] by (auto simp: pick_release_def split: if_splits sum.splits option.splits)
  then obtain m1 rel0 us0 where rel0: "release_for iw req ms permitted K = Inr (m1, rel0, us0)" by (metis prod_cases3)
  define R where "R = (if rel_tag rel0 = [] then rel0\<lparr>rel_tag := rel_version rel0\<rparr> else rel0)"
  have "m = with_release m1 R \<and> rel = R \<and> keep = K"
    using assms ms kept permitted rel0 K_def[symmetric] R_def[symmetric]
    by (auto simp: pick_release_def Let_def split: if_splits option.splits)
  then have m: "m = with_release m1 R" and rel: "rel = (if rel_tag rel0 = [] then rel0\<lparr>rel_tag := rel_version rel0\<rparr> else rel0)"
    and keep: "keep \<longleftrightarrow> in_keep_version req \<and> k_version ?k \<noteq> [] \<and> permitted" by (simp_all only: R_def K_def)
  have R: "R = rel" using rel R_def by simp
  note m = m[unfolded R]
  note kr = release_for_keeps[OF rel0]
  show "signer_kept req (signed_manifest req m0) = None" using kept ms' by simp
  show "in_want_manifest req \<noteq> [] \<Longrightarrow> m_sha256 m0 = in_want_manifest req" using want by blast
  show "m_package m = m_package (signed_manifest req m0) \<and> m_sha256 m = m_sha256 m0 \<and> m_build m = m_build m0 \<and> m_artifacts m = m_artifacts m0"
    using kr(1) m ms' by simp
  show "rel_tag rel = [] \<Longrightarrow> rel_version rel = []" using rel by (simp split: if_splits)
  show "keep \<longleftrightarrow> in_keep_version req \<and> k_version (in_previous req) \<noteq> [] \<and> version_matches (k_version (in_previous req)) (r_version (in_ref req)) = Inr True"
    using keep permitted by auto
  show "\<not> per_artifact m0 \<Longrightarrow> m = with_release (signed_manifest req m0) rel" using kr(2) m ms' by simp
  show "\<not> per_artifact m0 \<Longrightarrow> keep \<Longrightarrow> rel_version rel = k_version (in_previous req) \<and> rel_tag rel = own_text (k_tag (in_previous req)) (k_version (in_previous req))"
    using kr(3) keep K_def rel ms' by (auto simp: locked_release_def own_text_def)
qed

lemma gate_age_form:
  assumes "gate_age req m rel keep us = Inr (m', rel', nt, us')"
  shows "keep \<Longrightarrow> m' = m \<and> rel' = rel"
    and "m' = m \<and> rel' = rel \<or> m' = with_release m rel' \<and> (rel_tag rel' = [] \<longrightarrow> rel_version rel' = []) \<and> \<not> per_artifact m"
  using assms by (auto simp: gate_age_def Let_def own_text_def split: if_splits)

subsection \<open>The entry of this machine\<close>

lemma placed_digest:
  "place_download rm out after dir d m a p want got deps = (Inr r, d') \<Longrightarrow> rz_sha256 r = got \<and> rz_path r = artifact_path rm dir m a p got deps"
  by (auto simp: place_download_def Let_def split: if_splits sum.splits prod.splits)

lemma placed_body:
  assumes "place_download rm out after dir d m a p want got deps = (Inr r, d')" "dp_store d (artifact_path rm dir m a p got deps) = None"
  shows "dp_store d' (rz_path r) = Some (case dp_files d got of None \<Rightarrow> [] | Some b \<Rightarrow> b)"
  using assms by (auto simp: place_download_def Let_def split: if_splits sum.splits prod.splits)

lemma realize_pinned:
  assumes "realize rm out after dir d m a p pinned deps = (Inr r, d')" "pinned \<noteq> []"
  shows "rz_sha256 r = pinned"
    and "depot_ok rm dir d \<Longrightarrow> plain_request m p pinned \<Longrightarrow> map_option (rm_sha256 rm) (dp_store d' (rz_path r)) = Some pinned"
proof -
  have "rz_sha256 r = pinned \<and>
    (depot_ok rm dir d \<and> plain_request m p pinned \<longrightarrow> map_option (rm_sha256 rm) (dp_store d' (rz_path r)) = Some pinned)"
    using assms(1)
  proof (cases rule: realize_form)
    case (found sha body)
    with assms(2) show ?thesis by (auto simp: depot_ok_def)
  next
    case (fetched want got d1)
    have got: "got = pinned" "rz_sha256 r = got" "rz_path r = artifact_path rm dir m a p got deps"
      using fetched(3) assms(2) fetch_digest(2)[OF fetched(1)] placed_digest[OF fetched(2)] by auto
    obtain body where body: "dp_files d1 got = Some body" "rm_sha256 rm body = got" using fetch_digest(1)[OF fetched(1)] by blast
    have store: "dp_store d1 = dp_store d" by (rule fetch_digest(3)[OF fetched(1)])
    show ?thesis
    proof (cases "dp_store d1 (artifact_path rm dir m a p got deps)")
      case None
      then show ?thesis using placed_body[OF fetched(2)] got body by simp
    next
      case (Some there)
      then have "d' = d1" using fetched(2) by (simp add: place_download_def Let_def)
      with Some show ?thesis using got store by (auto simp: depot_ok_def)
    qed
  qed simp
  then show "rz_sha256 r = pinned"
    and "depot_ok rm dir d \<Longrightarrow> plain_request m p pinned \<Longrightarrow> map_option (rm_sha256 rm) (dp_store d' (rz_path r)) = Some pinned" by blast+
qed

lemma realize_some_digest:
  assumes "realize rm out after dir d m a p pinned deps = (Inr r, d')" "\<forall>b. rm_sha256 rm b \<noteq> []"
  shows "rz_sha256 r \<noteq> []"
proof (cases "pinned = []")
  case True
  from assms(1) show ?thesis
  proof (cases rule: realize_form)
    case (found sha body)
    then show ?thesis by simp
  next
    case (fetched want got d1)
    then show ?thesis using fetch_digest(1)[OF fetched(1)] placed_digest[OF fetched(2)] assms(2) by auto
  qed simp
qed (use realize_pinned(1)[OF assms(1)] in simp)

lemma published_url [simp]: "ar_url (with_published a rel) = ar_url a"
  by (simp add: with_published_def Let_def)

definition pin_used :: "request \<Rightarrow> manifest \<Rightarrow> artifact \<Rightarrow> release \<Rightarrow> platform \<Rightarrow> string" where
  "pin_used req m a rel p =
     (if in_accept_digest req \<and> (ar_sha256 (with_published a rel) \<noteq> [] \<or> ar_sha256_url (with_published a rel) \<noteq> []) then []
      else pinned_digest req m a p)"

lemma download_here_form:
  assumes "download_here iw req m a0 rel0 keep deps d = (Inr (r, entry, rel), d')"
  shows "check_verified req (iw_host iw) (l_verified entry)"
    and "l_strategy entry = ''artifact'' \<and> l_url entry = ar_url a0 \<and> l_sha256 entry = rz_sha256 r \<and> l_version entry = []"
    and "realize (iw_remote iw) (iw_out iw) (signed_after req (iw_host iw) (v_value (m_version m))) (iw_dir iw) d m
           (with_published a0 rel) (iw_host iw) (pin_used req m a0 rel (iw_host iw)) deps = (Inr r, d')"
  using assms unfolding download_here_def Let_def pin_used_def
  by (auto simp: artifact_entry_def no_lock_platform_def split: if_splits sum.splits prod.splits)

lemma fetch_store: "dp_store (snd (fetch_file rm d url want)) = dp_store d"
  by (simp add: fetch_file_def Let_def split: option.split)

lemma pin_for_store: "dp_store (snd (pin_for iw after m rel p host at fs relabel d)) = dp_store d"
proof -
  have "dp_store (snd (pin_artifact rm out after d m a)) = dp_store d" for rm out a
    using fetch_store[of rm d "ar_url a" "[]"]
    by (auto simp: pin_artifact_def Let_def split: sum.split prod.split)
  then show ?thesis
    by (auto simp: pin_for_def Let_def split: sum.split option.split prod.split) (metis snd_conv)+
qed

definition strings_tell :: "request \<Rightarrow> platform \<Rightarrow> bool" where
  "strings_tell req host \<longleftrightarrow> (\<forall>p\<in>set (in_platforms req). platform_string p = platform_string host \<longrightarrow> p = host)"

lemma lock_others_loop_host:
  assumes "lock_others_loop iw req m rel host ps pls d = (Inr pls', d')" "\<not> in_from_source req"
    and "\<forall>p\<in>set ps. platform_string p = platform_string (iw_host iw) \<longrightarrow> p = iw_host iw"
    and "map_of pls (platform_string (iw_host iw)) = Some e" "l_strategy e = ''artifact''"
  shows "map_of pls' (platform_string (iw_host iw)) = Some e \<and> dp_store d' = dp_store d"
  using assms
proof (induction ps arbitrary: pls d)
  case (Cons p ps)
  show ?case
  proof (cases "p = iw_host iw")
    case True
    with Cons.prems have "lock_others_loop iw req m rel host ps pls d = (Inr pls', d')" by (simp add: entry_in_def Let_def)
    with Cons show ?thesis by simp
  next
    case False
    then have other: "platform_string p \<noteq> platform_string (iw_host iw)" using Cons.prems(3) by auto
    consider "lock_others_loop iw req m rel host ps pls d = (Inr pls', d')"
      | entry d1 where "dp_store d1 = dp_store d"
          "lock_others_loop iw req m rel host ps (AList.update (platform_string p) entry pls) d1 = (Inr pls', d')"
      | d1 where "dp_store d1 = dp_store d" "lock_others_loop iw req m rel host ps pls d1 = (Inr pls', d')"
    proof -
      let ?at = "entry_in pls p" and ?v = "own_text (text_at (m_versions m) (platform_string p)) (v_value (m_version m))"
      let ?relabel = "map_of pls (platform_string p) \<noteq> None \<and> in_accept_digest req \<and> p \<noteq> iw_host iw"
      obtain res d1 where pin: "pin_for iw (signed_after req p ?v) m rel p host ?at False ?relabel d = (res, d1)" by fastforce
      then have "dp_store d1 = dp_store d"
        using pin_for_store[of iw "signed_after req p ?v" m rel p host ?at False ?relabel d] by simp
      then show ?thesis
        using that Cons.prems(1,2) pin by (cases res) (auto simp: Let_def split: if_splits)
    qed
    then show ?thesis
    proof cases
      case 1
      with Cons show ?thesis by simp
    next
      case 2
      then show ?thesis using Cons.IH[OF 2(2)] Cons.prems other by (simp add: update_conv')
    next
      case 3
      then show ?thesis using Cons.IH[OF 3(2)] Cons.prems by simp
    qed
  qed
qed simp

lemma host_strategy_download:
  assumes "host_strategy iw req m = Inr (found, build)" "m_build m = None"
  shows "\<not> build \<and> \<not> in_from_source req \<and> (\<exists>a. found = Some a \<and> select_artifact m (iw_host iw) = Inr (Some a))"
  using assms no_build[OF assms(2)] by (auto simp: host_strategy_def Let_def split: if_splits sum.splits option.splits)

lemma install_here_form:
  assumes ran: "install_here iw req m rel keep commit inferred d = (Inr (path, fu, L), d')" and build: "m_build m = None"
    and tell: "strings_tell req (iw_host iw)"
  obtains a deps r entry rel' d1 platforms dep_locks where
    "select_artifact m (iw_host iw) = Inr (Some a)"
    "download_here iw req m a rel keep deps d = (Inr (r, entry, rel'), d1)"
    "path = rz_path r" "L = lock_entry req m commit inferred platforms dep_locks"
    "map_of platforms (platform_string (iw_host iw)) = Some (own_version iw m entry)" "dp_store d' = dp_store d1"
proof -
  from ran obtain found b where host: "host_strategy iw req m = Inr (found, b)"
    by (auto simp: install_here_def split: sum.splits)
  note h = host_strategy_download[OF host build]
  then obtain a where a: "found = Some a" "select_artifact m (iw_host iw) = Inr (Some a)" by blast
  from ran host h a obtain deps dep_locks r entry rel' d1 platforms where
    dl: "download_here iw req m a rel keep deps d = (Inr (r, entry, rel'), d1)" and path: "path = rz_path r" and
    L: "L = lock_entry req m commit inferred platforms dep_locks" and
    others: "lock_others iw req m rel' (own_version iw m entry) (AList.update (platform_string (iw_host iw)) (own_version iw m entry)
        (kept_platforms (in_previous req) m (in_ref req))) d1 = (Inr platforms, d')"
    by (auto simp: install_here_def realize_here_def split: sum.splits prod.splits option.splits if_splits)
  have "l_strategy (own_version iw m entry) = ''artifact''"
    using download_here_form(2)[OF dl] by (simp add: own_version_def)
  then have "map_of platforms (platform_string (iw_host iw)) = Some (own_version iw m entry) \<and> dp_store d' = dp_store d1"
    using others h tell lock_others_loop_host[of iw req m rel' "own_version iw m entry" "in_platforms req"]
    by (auto simp: lock_others_def strings_tell_def Let_def update_conv' split: if_splits)
  with that a(2) dl path L show thesis by blast
qed

text \<open>The whole of an install that downloads.\<close>

lemma install_from_form:
  assumes ran: "install_from iw req m0 commit inferred d = (Inr res, d')" and build: "m_build m0 = None"
    and tell: "strings_tell req (iw_host iw)" and here: "\<not> in_lock_only req"
  obtains m rel keep a deps r entry rel' d1 platforms dep_locks where
    "signer_kept req (signed_manifest req m0) = None" "in_want_manifest req = [] \<or> m_sha256 m0 = in_want_manifest req"
    "in_signer_workflow req = [] \<or> pk_signer_workflow (m_package m0) = in_signer_workflow req"
    "keep \<longleftrightarrow> in_keep_version req \<and> k_version (in_previous req) \<noteq> []
       \<and> version_matches (k_version (in_previous req)) (r_version (in_ref req)) = Inr True"
    "m_package m = m_package (signed_manifest req m0) \<and> m_sha256 m = m_sha256 m0 \<and> per_artifact m = per_artifact m0"
    "select_artifact m (iw_host iw) = Inr (Some a)"
    "download_here iw req m a rel keep deps d = (Inr (r, entry, rel'), d1)"
    "ir_path res = rz_path r" "ir_lock res = lock_entry req m commit inferred platforms dep_locks"
    "map_of platforms (platform_string (iw_host iw)) = Some (own_version iw m entry)" "dp_store d' = dp_store d1"
    "\<not> per_artifact m0 \<Longrightarrow> m = with_release (signed_manifest req m0) rel \<and> (rel_tag rel = [] \<longrightarrow> rel_version rel = [])"
    "\<not> per_artifact m0 \<Longrightarrow> keep \<Longrightarrow> rel_version rel = k_version (in_previous req)
       \<and> rel_tag rel = own_text (k_tag (in_previous req)) (k_version (in_previous req))"
proof -
  from ran here obtain m1 rel1 keep us1 m rel nt us path fu where
    p: "pick_release iw req m0 = Inr (m1, rel1, keep, us1)" and g: "gate_age req m1 rel1 keep us1 = Inr (m, rel, nt, us)" and
    i: "install_here iw req m rel keep commit inferred d = (Inr (path, fu, ir_lock res), d')" and path: "ir_path res = path"
    by (auto simp: install_from_def split: sum.splits prod.splits)
  note pf = pick_release_form[OF p] and gf = gate_age_form[OF g]
  have per1: "per_artifact m1 = per_artifact m0" using pf(3) by (simp add: per_artifact_def)
  have kept: "m_package m = m_package m1 \<and> m_sha256 m = m_sha256 m1 \<and> m_build m = m_build m1 \<and> per_artifact m = per_artifact m1"
    using gf(2) by auto
  obtain a deps r entry rel' d1 platforms dep_locks where
    f: "select_artifact m (iw_host iw) = Inr (Some a)" "download_here iw req m a rel keep deps d = (Inr (r, entry, rel'), d1)"
       "path = rz_path r" "ir_lock res = lock_entry req m commit inferred platforms dep_locks"
       "map_of platforms (platform_string (iw_host iw)) = Some (own_version iw m entry)" "dp_store d' = dp_store d1"
    using install_here_form[OF i _ tell] kept pf(3) build by metis
  have rel: "\<not> per_artifact m0 \<Longrightarrow> m = with_release (signed_manifest req m0) rel \<and> (rel_tag rel = [] \<longrightarrow> rel_version rel = [])"
    using gf(2) pf(4,6) by auto
  have old: "\<not> per_artifact m0 \<Longrightarrow> keep \<Longrightarrow> rel_version rel = k_version (in_previous req)
       \<and> rel_tag rel = own_text (k_tag (in_previous req)) (k_version (in_previous req))"
    using gf(1) pf(7) by simp
  obtain ms where ms: "pin_signer (iw_out iw) req m0 = Inr ms" using p by (auto simp: pick_release_def split: if_splits sum.splits option.splits)
  have m: "m_package m = m_package (signed_manifest req m0) \<and> m_sha256 m = m_sha256 m0 \<and> per_artifact m = per_artifact m0"
    using kept pf(3) per1 by simp
  have want: "in_want_manifest req = [] \<or> m_sha256 m0 = in_want_manifest req"
    "in_signer_workflow req = [] \<or> pk_signer_workflow (m_package m0) = in_signer_workflow req"
    using pf(2) pin_signer_form[OF ms] by auto
  show thesis by (rule that[OF pf(1) want pf(5) m f(1,2) _ f(4,5,6) rel old]) (use path f(3) in simp_all)
qed

lemma select_signed:
  "select_artifact (with_release (signed_manifest req m) rel) p = select_artifact (with_release m rel) p"
proof -
  have "m_tags (signed_manifest req m) = m_tags m" by (simp add: signed_manifest_def)
  then have a: "artifact_version (with_release (signed_manifest req m) rel) a p = artifact_version (with_release m rel) a p" for a
    unfolding artifact_version_with_release by (simp add: artifact_version_def)
  show ?thesis unfolding select_artifact_def with_release_simps signed_manifest_simps a ..
qed

lemma install_wants_manifest:
  "install_from iw req m0 commit inferred d = (Inr res, d') \<Longrightarrow> in_want_manifest req \<noteq> [] \<Longrightarrow> m_sha256 m0 = in_want_manifest req"
  by (auto simp: install_from_def pick_release_def split: sum.splits if_splits option.splits)

text \<open>
  C3. An install that is asked for nothing else never weakens what the lock promises for this machine: the check of the download is
  at least as strong as the one that was recorded for the same file on any platform, the signing key and the signing workflow
  stay unless the list itself pins them, the manifest has the locked digest where one is demanded, and the same version from
  the same URL has the locked bytes. So a publisher or a network that changes any of these can only make an install fail.
\<close>

theorem install_never_weakens:
  assumes "install_from iw req m0 commit inferred d = (Inr res, d')" "m_build m0 = None" "strings_tell req (iw_host iw)"
    and "\<not> in_lock_only req" "same_ref req" "\<not> in_accept_weaker req" "\<not> in_accept_key req"
  shows "\<exists>entry. platform_at (ir_lock res) (platform_string (iw_host iw)) = Some entry
    \<and> \<not> weaker (l_verified entry) (locked_check req (iw_host iw))
    \<and> (k_signing_key (in_previous req) \<noteq> [] \<and> in_signing_key req = [] \<longrightarrow> k_signing_key (ir_lock res) = k_signing_key (in_previous req))
    \<and> (in_signing_key req \<noteq> [] \<longrightarrow> k_signing_key (ir_lock res) = in_signing_key req)
    \<and> (k_signer_workflow (in_previous req) \<noteq> [] \<and> in_signer_workflow req = [] \<longrightarrow>
         k_signer_workflow (ir_lock res) = k_signer_workflow (in_previous req))
    \<and> (in_signer_workflow req \<noteq> [] \<longrightarrow> k_signer_workflow (ir_lock res) = in_signer_workflow req)
    \<and> (in_want_manifest req \<noteq> [] \<longrightarrow> k_manifest_sha256 (ir_lock res) = in_want_manifest req)
    \<and> (\<not> in_accept_digest req \<and> l_url entry = l_url (entry_at (in_previous req) (iw_host iw))
         \<and> l_sha256 (entry_at (in_previous req) (iw_host iw)) \<noteq> []
         \<and> (if per_artifact m0 then l_version entry else k_version (ir_lock res))
            = version_on (in_previous req) (platform_string (iw_host iw)) \<longrightarrow>
         l_sha256 entry = l_sha256 (entry_at (in_previous req) (iw_host iw)))"
proof -
  let ?host = "iw_host iw" and ?k = "in_previous req"
  obtain m rel keep a deps r e rel' d1 platforms dep_locks where
    signer: "signer_kept req (signed_manifest req m0) = None" and want: "in_want_manifest req = [] \<or> m_sha256 m0 = in_want_manifest req"
      "in_signer_workflow req = [] \<or> pk_signer_workflow (m_package m0) = in_signer_workflow req" and
    f: "m_package m = m_package (signed_manifest req m0) \<and> m_sha256 m = m_sha256 m0 \<and> per_artifact m = per_artifact m0"
       "download_here iw req m a rel keep deps d = (Inr (r, e, rel'), d1)" "ir_lock res = lock_entry req m commit inferred platforms dep_locks"
       "map_of platforms (platform_string ?host) = Some (own_version iw m e)"
    by (rule install_from_form[OF assms(1-4)])
  note df = download_here_form[OF f(2)]
  let ?e = "own_version iw m e"
  have own: "l_verified ?e = l_verified e" "l_url ?e = ar_url a" "l_sha256 ?e = rz_sha256 r"
    "(if per_artifact m0 then l_version ?e else k_version (ir_lock res)) = v_value (m_version m)"
    using df(2) f(1,3) by (simp_all add: own_version_def lock_entry_def Let_def locked_version_def summary_platform_def)
  have check: "\<not> weaker (l_verified ?e) (locked_check req ?host)"
    using df(1) assms(5,6) own(1) by (simp add: check_verified_def)
  have digest: "l_sha256 ?e = l_sha256 (entry_at ?k ?host)"
    if same: "\<not> in_accept_digest req" "l_url ?e = l_url (entry_at ?k ?host)" "l_sha256 (entry_at ?k ?host) \<noteq> []"
      "v_value (m_version m) = version_on ?k (platform_string ?host)"
  proof -
    have "pin_used req m a rel' ?host = l_sha256 (entry_at ?k ?host)"
      using same own(2) by (simp add: pin_used_def pinned_digest_def)
    then show ?thesis using realize_pinned(1)[OF df(3)] same(3) own(3) by simp
  qed
  have key: "in_signing_key req \<noteq> [] \<Longrightarrow> pk_signing_key (m_package m) = in_signing_key req"
    using f(1) by (simp add: signed_manifest_def)
  have at: "platform_at (ir_lock res) (platform_string ?host) = Some ?e" using f(3,4) by (simp add: platform_at_def lock_entry_def Let_def)
  show ?thesis
    by (rule exI[of _ ?e]) (use at check digest own(4) key signer f(1,3) want assms(7) in
      \<open>auto simp: signer_kept_def lock_entry_def Let_def split: if_splits\<close>)
qed

text \<open>
  C2. An install from the lock is reproducible: after any install that downloads, a later one on any machine of the platform, at any
  time and whatever the network serves by then, that has the entry of the lock as its previous entry and succeeds, installs
  the same version of the same manifest from the same URL, records the same digest, and its store path holds bytes of that
  digest. A digest is taken to identify a manifest.
\<close>

theorem locked_sync_reproduces:
  assumes first: "install_from iw1 req1 m1 c1 i1 d1 = (Inr r1, d1')" "\<not> in_lock_only req1" "strings_tell req1 (iw_host iw1)"
    and second: "install_from iw2 req2 m2 c2 i2 d2 = (Inr r2, d2')" "\<not> in_lock_only req2" "strings_tell req2 (iw_host iw2)"
    and "m_build m1 = None" "\<not> per_artifact m1" "m_sha256 m2 = m_sha256 m1 \<longrightarrow> m2 = m1" "iw_host iw2 = iw_host iw1"
    and "in_previous req2 = ir_lock r1" "in_want_manifest req2 = k_manifest_sha256 (ir_lock r1)" "k_manifest_sha256 (ir_lock r1) \<noteq> []"
    and "in_keep_version req2" "k_version (ir_lock r1) \<noteq> []"
    and "version_matches (k_version (ir_lock r1)) (r_version (in_ref req2)) = Inr True" "\<not> in_accept_digest req2"
    and "\<forall>b. rm_sha256 (iw_remote iw1) b \<noteq> []" "depot_ok (iw_remote iw2) (iw_dir iw2) d2"
    and "plain_request (with_release m1 (locked_release (ir_lock r1))) (iw_host iw1) (l_sha256 (entry_at (ir_lock r1) (iw_host iw1)))"
  shows "k_version (ir_lock r2) = k_version (ir_lock r1) \<and> k_manifest_sha256 (ir_lock r2) = k_manifest_sha256 (ir_lock r1)
    \<and> l_url (entry_at (ir_lock r2) (iw_host iw1)) = l_url (entry_at (ir_lock r1) (iw_host iw1))
    \<and> l_sha256 (entry_at (ir_lock r2) (iw_host iw1)) = l_sha256 (entry_at (ir_lock r1) (iw_host iw1))
    \<and> map_option (rm_sha256 (iw_remote iw2)) (dp_store d2' (ir_path r2)) = Some (l_sha256 (entry_at (ir_lock r1) (iw_host iw1)))"
proof -
  let ?host = "iw_host iw1" and ?L = "ir_lock r1"
  obtain m rel a deps r e rel' platforms dep_locks where
    f: "select_artifact m ?host = Inr (Some a)" "ir_lock r1 = lock_entry req1 m c1 i1 platforms dep_locks"
       "map_of platforms (platform_string ?host) = Some (own_version iw1 m e)"
    and dl: "\<exists>keep d. download_here iw1 req1 m a rel keep deps d1 = (Inr (r, e, rel'), d)"
    and m: "m = with_release (signed_manifest req1 m1) rel" "rel_tag rel = [] \<longrightarrow> rel_version rel = []"
    by (rule install_from_form[OF first(1) assms(7) first(3,2)]) (use assms(8) in blast)
  obtain keep d where dl: "download_here iw1 req1 m a rel keep deps d1 = (Inr (r, e, rel'), d)" using dl by blast
  note df = download_here_form[OF dl]
  have sum: "\<not> per_artifact m" using m(1) assms(8) by simp
  have L: "k_version ?L = rel_version rel" "k_tag ?L = (if rel_tag rel = rel_version rel then [] else rel_tag rel)" "k_manifest_sha256 ?L = m_sha256 m1"
    using sum m(1) unfolding f(2) by (simp_all add: lock_entry_def Let_def locked_version_def tag_for_def summary_platform_def)
  have at: "entry_at ?L ?host = e"
    using sum f(3) unfolding f(2) by (simp add: entry_at_def platform_at_def lock_entry_def Let_def own_version_def)
  have e: "l_url e = ar_url a" "l_sha256 e \<noteq> []" "l_version e = []"
    using df(2) realize_some_digest[OF df(3) assms(18)] by simp_all
  obtain m' rel2 keep2 a2 deps2 r' e2 rel2' d2'' platforms2 dep_locks2 where
    "in_want_manifest req2 = [] \<or> m_sha256 m2 = in_want_manifest req2"
    "keep2 \<longleftrightarrow> in_keep_version req2 \<and> k_version (in_previous req2) \<noteq> []
       \<and> version_matches (k_version (in_previous req2)) (r_version (in_ref req2)) = Inr True" and
    s: "select_artifact m' (iw_host iw2) = Inr (Some a2)" "download_here iw2 req2 m' a2 rel2 keep2 deps2 d2 = (Inr (r', e2, rel2'), d2'')"
       "ir_path r2 = rz_path r'" "ir_lock r2 = lock_entry req2 m' c2 i2 platforms2 dep_locks2"
       "map_of platforms2 (platform_string (iw_host iw2)) = Some (own_version iw2 m' e2)" "dp_store d2' = dp_store d2''" and
    m': "\<not> per_artifact m2 \<Longrightarrow> m' = with_release (signed_manifest req2 m2) rel2 \<and> (rel_tag rel2 = [] \<longrightarrow> rel_version rel2 = [])" and
    rel2: "\<not> per_artifact m2 \<Longrightarrow> keep2 \<Longrightarrow> rel_version rel2 = k_version (in_previous req2)
       \<and> rel_tag rel2 = own_text (k_tag (in_previous req2)) (k_version (in_previous req2))"
  proof (rule install_from_form[OF second(1) _ second(3,2)], goal_cases)
    case 1
    have "m_sha256 m2 = m_sha256 m1" using second(1) assms(12,13) L(3) install_wants_manifest by metis
    then show ?case using assms(7,9) by simp
  next
    case (2 m rel keep a deps r entry rel' d1 platforms dep_locks)
    show ?case by (rule 2(1)[OF 2(3,5,7-14)])
  qed
  have same: "m2 = m1" using second(1) assms(9,12,13) L(3) install_wants_manifest by metis
  have keep2: keep2 using \<open>keep2 \<longleftrightarrow> _\<close> assms(11,14-16) by simp
  note m' = m'[unfolded same, OF assms(8), THEN conjunct1] and rel2 = rel2[unfolded same, OF assms(8) keep2, unfolded assms(11)]
  have "rel_version rel2 = rel_version rel" "rel_tag rel2 = rel_tag rel"
    using rel2 L(1,2) m(2) by (auto simp: own_text_def split: if_splits)
  then have a2: "a2 = a"
    using f(1) s(1) unfolding m(1) m' select_signed assms(10) by (simp add: select_with_release[of rel2 rel])
  note df2 = download_here_form[OF s(2)]
  have sum2: "\<not> per_artifact m'" using m' assms(8) by simp
  have L2: "k_version (ir_lock r2) = rel_version rel2" "k_manifest_sha256 (ir_lock r2) = m_sha256 m1"
    using sum2 m' unfolding s(4) by (simp_all add: lock_entry_def Let_def locked_version_def summary_platform_def)
  have at2: "entry_at (ir_lock r2) ?host = e2"
    using sum2 s(5) assms(10) unfolding s(4) by (simp add: entry_at_def platform_at_def lock_entry_def Let_def own_version_def)
  have there: "platform_at ?L (platform_string ?host) = Some e"
    using sum f(3) unfolding f(2) by (simp add: platform_at_def lock_entry_def Let_def own_version_def)
  have pin: "pin_used req2 m' a2 rel2' (iw_host iw2) = l_sha256 e"
    using there at e a2 m' rel2 assms(10,11,17) by (simp add: pin_used_def pinned_digest_def version_on_def)
  note real2 = df2(3)[unfolded pin]
  have plain: "plain_request m' (iw_host iw2) (l_sha256 e)"
    using assms(20) at m' rel2 assms(10) by (simp add: plain_request_def locked_release_def signed_manifest_def)
  show ?thesis
    using L L2 rel2 at at2 df2(2) e(1) a2 realize_pinned(1)[OF real2 e(2)] realize_pinned(2)[OF real2 e(2) assms(19) plain] s(3,6)
    by simp
qed

end
