(* ===== verification/Install_Samples.thy ===== *)
theory Install_Samples
  imports Install_Props Manifest_Samples
begin

text \<open>A first install and a later one from its lock, on concrete worlds: the witnesses of the properties of downloads and installs.\<close>

subsection \<open>A network\<close>

definition bit_char :: "bool \<Rightarrow> char" where
  "bit_char b = (if b then CHR ''1'' else CHR ''0'')"

fun bit_text :: "string \<Rightarrow> string" where
  "bit_text [] = ''x''"
| "bit_text (Char b0 b1 b2 b3 b4 b5 b6 b7 # s) =
     bit_char b0 # bit_char b1 # bit_char b2 # bit_char b3 # bit_char b4 # bit_char b5 # bit_char b6 # bit_char b7 # bit_text s"

lemma bit_char_eq [simp]: "bit_char a = bit_char b \<longleftrightarrow> a = b" "bit_char a \<noteq> CHR ''x''" "CHR ''x'' \<noteq> bit_char a"
  "bit_char a \<noteq> CHR ''-''" "bit_char a \<noteq> CHR ''/''" "CHR ''-'' \<noteq> bit_char a" "CHR ''/'' \<noteq> bit_char a"
  by (simp_all add: bit_char_def)

lemma bit_text_eq: "bit_text s = bit_text t \<longleftrightarrow> s = t"
proof (induction s arbitrary: t rule: bit_text.induct)
  case 1
  then show ?case by (cases t rule: bit_text.cases) simp_all
next
  case (2 b0 b1 b2 b3 b4 b5 b6 b7 s)
  then show ?case by (cases t rule: bit_text.cases) auto
qed

lemma bit_text_chars: "bit_text s \<noteq> []" "CHR ''-'' \<notin> set (bit_text s)" "CHR ''/'' \<notin> set (bit_text s)"
  by (induction s rule: bit_text.induct) auto

definition sample_remote :: "(string \<Rightarrow> string option) \<Rightarrow> remote" where
  "sample_remote get =
     \<lparr>rm_get = get, rm_sha256 = (\<lambda>b. CHR ''s'' # filter (\<lambda>c. c \<noteq> CHR 0x0A) b), rm_short = bit_text, rm_integrity = (\<lambda>b. b),
      rm_url_path = (\<lambda>u. Some u), rm_json = (\<lambda>_. None), rm_key = (\<lambda>_. False), rm_signed = (\<lambda>_ _ _. False), rm_comment = (\<lambda>_. None),
      rm_with_key = (\<lambda>_ _ _. False), rm_with_identity = (\<lambda>_ _ _. False), rm_with_certificate = (\<lambda>_ _ _ _. False),
      rm_statement = (\<lambda>_ _ _. False), rm_attested = (\<lambda>_ _ _. None), rm_unpack = (\<lambda>_ _. True)\<rparr>"

definition no_depot :: depot where
  "no_depot = \<lparr>dp_store = Map.empty, dp_files = Map.empty, dp_recent = Map.empty\<rparr>"

lemma sample_hashes:
  "hex_names (sample_remote get)" "CHR 0x0A \<notin> set (rm_sha256 (sample_remote get) b)" "rm_sha256 (sample_remote get) b \<noteq> []"
  by (simp_all add: hex_names_def sample_remote_def bit_text_chars inj_def bit_text_eq)

lemma no_depot_ok: "depot_ok rm dir no_depot"
  by (simp add: depot_ok_def no_depot_def)

definition fd_site :: "string \<Rightarrow> string option" where
  "fd_site url = (if url = ''https://x/fd-10.2'' then Some ''fd 10.2'' else None)"

definition fd_manifest :: manifest where
  "fd_manifest = (sample_manifest ''https://x/fd-{{version}}'')\<lparr>m_sha256 := ''f00d''\<rparr>"

definition fd_release :: "string \<Rightarrow> forge_release" where
  "fd_release v = \<lparr>fr_tag = ''v'' @ v, fr_commit = [], fr_draft = False, fr_prerelease = False, fr_assets = [], fr_published = 0\<rparr>"

definition fd_sources :: "string list \<Rightarrow> sources" where
  "fd_sources vs =
     \<lparr>src_npm_latest = (\<lambda>_. Inl (NoVersionInLatest [] [])), src_release = (\<lambda>_ _. Inl (NoVersionInLatest [] [])),
      src_releases = (\<lambda>_ _. Inr (map fd_release vs, False)), src_tag_commit = (\<lambda>_ _. Inl (NoVersionInLatest [] [])),
      src_tags = (\<lambda>_. Inl (NoVersionInLatest [] [])), src_registry = (\<lambda>_. Inl (NoVersionInLatest [] [])),
      src_single = (\<lambda>_. Inl (NoVersionInLatest [] [])), src_go_published = (\<lambda>_ _. undefined)\<rparr>"

text \<open>The world when \<open>vs\<close> are released, which builds nothing.\<close>

definition fd_world :: "string list \<Rightarrow> install_world" where
  "fd_world vs =
     \<lparr>iw_remote = sample_remote fd_site, iw_out = no_keys, iw_sources = fd_sources vs, iw_now = 0, iw_dir = ''/store'', iw_host = linux_machine,
      iw_project = [], iw_file_downloads = False, iw_parse = (\<lambda>_. None), iw_real = (\<lambda>p. Some p),
      iw_osv = (\<lambda>_ _ _. None), iw_build = (\<lambda>_ _ _. Inl []), iw_pin_build = (\<lambda>_ _ _ _ _. Inl []), iw_vendor = (\<lambda>_ _ _. Inl []), iw_deps = (\<lambda>_. Inr ([], []))\<rparr>"

definition fd_request :: "package \<Rightarrow> bool \<Rightarrow> request" where
  "fd_request previous keep =
     \<lparr>in_ref = empty_ref\<lparr>r_location := ''/fd''\<rparr>, in_previous = previous, in_want_manifest = k_manifest_sha256 previous, in_accept_digest = False, in_accept_key = False,
      in_accept_weaker = False, in_signing_key = [], in_signer_workflow = [], in_keep_version = keep, in_from_source = False,
      in_platforms = [], in_strict = False, in_age = 0, in_rebuild = False, in_lock_only = False, in_asset = [], in_bins = [],
      in_constraint = [], in_check_age = None, in_trust = (\<lambda>_ _ _. True), in_approve = (\<lambda>_ _. True)\<rparr>"

definition fd_install :: "string list \<Rightarrow> package \<Rightarrow> bool \<Rightarrow> (install_error, install_result) res \<times> depot" where
  "fd_install vs previous keep = install_from (fd_world vs) (fd_request previous keep) fd_manifest ''c'' [] no_depot"

definition fd_lock :: package where
  "fd_lock = Package ''fd'' ''/fd'' ''c'' ''f00d'' ''10.2'' [] [] ''v10.2'' [] False [] [] []
     [(''linux-amd64-musl'', no_lock_platform\<lparr>l_strategy := ''artifact'', l_url := ''https://x/fd-10.2'', l_sha256 := ''sfd 10.2'',
        l_verified := ''first-use'', l_commands := False\<rparr>)] []"

lemma fd_first: "map_sum (\<lambda>_. ()) ir_lock (fst (fd_install [''10.2''] empty_package False)) = Inr fd_lock"
  by code_simp

lemma fd_again: "map_sum (\<lambda>_. ()) ir_lock (fst (fd_install [''11.0'', ''10.2''] fd_lock True)) = Inr fd_lock"
  by code_simp

subsection \<open>Witnesses\<close>

lemma is_inr: "map_sum (\<lambda>_. ()) f x = Inr y \<Longrightarrow> \<exists>r. x = Inr r \<and> f r = y"
  by (cases x) simp_all

definition fd_chosen :: manifest where
  "fd_chosen = with_release fd_manifest (zero_release\<lparr>rel_version := ''10.2'', rel_tag := ''v10.2''\<rparr>)"

theorem realize_exact_witness:
  "\<exists>r. fst (realize (sample_remote fd_site) no_keys 0 ''/store'' no_depot fd_chosen (sample_artifact ''https://x/fd-10.2'') linux_machine [] []) = Inr r
     \<and> rz_sha256 r = ''sfd 10.2''
     \<and> map_option (rm_sha256 (sample_remote fd_site)) (dp_store (snd (realize (sample_remote fd_site) no_keys 0 ''/store'' no_depot fd_chosen
         (sample_artifact ''https://x/fd-10.2'') linux_machine [] [])) (rz_path r)) = Some ''sfd 10.2''"
proof -
  let ?x = "realize (sample_remote fd_site) no_keys 0 ''/store'' no_depot fd_chosen (sample_artifact ''https://x/fd-10.2'') linux_machine [] []"
  have "map_sum (\<lambda>_. ()) rz_sha256 (fst ?x) = Inr ''sfd 10.2''" by code_simp
  from is_inr[OF this] obtain r where r: "fst ?x = Inr r" "rz_sha256 r = ''sfd 10.2''" by blast
  have dir: "store_dir_ok ''/store''" by code_simp
  have plain: "plain_request fd_chosen linux_machine []" "ar_sha256 (sample_artifact ''https://x/fd-10.2'') = []" by code_simp+
  have "plain_digests (sample_remote fd_site) fd_chosen (sample_artifact ''https://x/fd-10.2'') linux_machine []"
    unfolding plain_digests_def plain(2) by (simp add: plain(1) sample_hashes(2))
  note realize_exact[where out = no_keys and deps = "[]" and signed_after = 0,
    OF sample_hashes(1) dir this no_depot_ok prod.collapse[symmetric], unfolded r(1) sum.case r(2)]
  then show ?thesis using r by blast
qed

theorem install_never_weakens_witness:
  "\<exists>res entry. fst (fd_install [''11.0'', ''10.2''] fd_lock True) = Inr res
     \<and> platform_at (ir_lock res) ''linux-amd64-musl'' = Some entry \<and> \<not> weaker (l_verified entry) ''first-use''
     \<and> k_manifest_sha256 (ir_lock res) = ''f00d''"
proof -
  let ?iw = "fd_world [''11.0'', ''10.2'']" and ?req = "fd_request fd_lock True"
  obtain res where res: "fst (fd_install [''11.0'', ''10.2''] fd_lock True) = Inr res" using is_inr[OF fd_again] by blast
  then have ran: "install_from ?iw ?req fd_manifest ''c'' [] no_depot = (Inr res, snd (fd_install [''11.0'', ''10.2''] fd_lock True))"
    by (metis fd_install_def prod.collapse)
  have "m_build fd_manifest = None" "strings_tell ?req (iw_host ?iw)" "\<not> in_lock_only ?req" "same_ref ?req"
    "\<not> in_accept_weaker ?req" "\<not> in_accept_key ?req" by code_simp+
  note install_never_weakens[OF ran this]
  moreover have "locked_check ?req (iw_host ?iw) = ''first-use''" "platform_string (iw_host ?iw) = ''linux-amd64-musl''"
    "in_want_manifest ?req = ''f00d''" by code_simp+
  ultimately show ?thesis using res by auto
qed

theorem locked_sync_reproduces_witness:
  "\<exists>res. fst (fd_install [''11.0'', ''10.2''] fd_lock True) = Inr res \<and> k_version (ir_lock res) = ''10.2''
     \<and> map_option (rm_sha256 (sample_remote fd_site)) (dp_store (snd (fd_install [''11.0'', ''10.2''] fd_lock True)) (ir_path res))
         = Some ''sfd 10.2''"
proof -
  let ?iw1 = "fd_world [''10.2'']" and ?req1 = "fd_request empty_package False" and ?iw2 = "fd_world [''11.0'', ''10.2'']"
    and ?req2 = "fd_request fd_lock True"
  obtain r1 where r1: "fst (fd_install [''10.2''] empty_package False) = Inr r1" "ir_lock r1 = fd_lock" using is_inr[OF fd_first] by blast
  obtain r2 where r2: "fst (fd_install [''11.0'', ''10.2''] fd_lock True) = Inr r2" using is_inr[OF fd_again] by blast
  have ran1: "install_from ?iw1 ?req1 fd_manifest ''c'' [] no_depot = (Inr r1, snd (fd_install [''10.2''] empty_package False))"
    using r1(1) by (metis fd_install_def prod.collapse)
  have ran2: "install_from ?iw2 ?req2 fd_manifest ''c'' [] no_depot = (Inr r2, snd (fd_install [''11.0'', ''10.2''] fd_lock True))"
    using r2 by (metis fd_install_def prod.collapse)
  have flags: "\<not> in_lock_only ?req1" "strings_tell ?req1 (iw_host ?iw1)" "\<not> in_lock_only ?req2" "strings_tell ?req2 (iw_host ?iw2)"
    "m_build fd_manifest = None" "\<not> per_artifact fd_manifest" by code_simp+
  have same: "iw_host ?iw2 = iw_host ?iw1" "in_previous ?req2 = ir_lock r1" "in_want_manifest ?req2 = k_manifest_sha256 (ir_lock r1)"
    "rm_sha256 (iw_remote ?iw2) = rm_sha256 (sample_remote fd_site)"
    by (simp_all add: fd_world_def fd_request_def r1)
  have locked: "k_manifest_sha256 (ir_lock r1) \<noteq> []" "in_keep_version ?req2" "k_version (ir_lock r1) \<noteq> []"
    "version_matches (k_version (ir_lock r1)) (r_version (in_ref ?req2)) = Inr True" "\<not> in_accept_digest ?req2"
    unfolding r1(2) by code_simp+
  have hash: "\<forall>b. rm_sha256 (iw_remote ?iw1) b \<noteq> []" by (simp add: fd_world_def sample_hashes)
  have plain: "plain_request (with_release fd_manifest (locked_release (ir_lock r1))) (iw_host ?iw1) (l_sha256 (entry_at (ir_lock r1) (iw_host ?iw1)))"
    "k_version (ir_lock r1) = ''10.2''" "l_sha256 (entry_at (ir_lock r1) (iw_host ?iw1)) = ''sfd 10.2''"
    unfolding r1(2) by code_simp+
  from locked_sync_reproduces[OF ran1 flags(1,2) ran2 flags(3-6) _ same(1-3) locked(1-5) hash no_depot_ok plain(1)]
  show ?thesis using r2 same(4) plain(2,3) by auto
qed

subsection \<open>Two checks that let too much pass\<close>

text \<open>
  The check of local URLs reads the URLs before their variables are replaced. Go parses no URL whose first element has a colon
  and no scheme, so that a manifest from a forge hides the scheme of a file URL in the version.
\<close>

definition hiding :: manifest where
  "hiding = (sample_manifest ''{{version}}:///etc/shadow'')\<lparr>m_version := zero_version\<lparr>v_value := ''file''\<rparr>\<rparr>"

theorem local_url_hidden:
  "local_urls (\<lambda>_. None) Some [] (empty_ref\<lparr>r_kind := Forge, r_location := ''github.com/a/b''\<rparr>) hiding = None
     \<and> map_sum (\<lambda>_. ()) (map_option ar_url) (select_artifact hiding linux_machine) = Inr (Some ''file:///etc/shadow'')"
proof
  have "\<not> ref_in_project Some [] (empty_ref\<lparr>r_kind := Forge, r_location := ''github.com/a/b''\<rparr>)" by (simp add: ref_in_project_def)
  moreover have "m_build hiding = None" "\<not> local_git []" by code_simp+
  moreover have "\<forall>u\<in>set (manifest_urls hiding). \<not> has_prefix (to_lower (trim_space u)) ''file:''" by code_simp
  ultimately show "local_urls (\<lambda>_. None) Some [] (empty_ref\<lparr>r_kind := Forge, r_location := ''github.com/a/b''\<rparr>) hiding = None"
    by (simp add: local_urls_def first_url_fault_None url_fault_def)
  show "map_sum (\<lambda>_. ()) (map_option ar_url) (select_artifact hiding linux_machine) = Inr (Some ''file:///etc/shadow'')" by code_simp
qed

text \<open>A signed comment that names another file of the release, whose name goes on, counts as one that names the file.\<close>

theorem comment_of_longer_name:
  "let rm = (sample_remote (\<lambda>_. Some ''sig''))\<lparr>rm_key := (\<lambda>_. True), rm_signed := (\<lambda>_ _ _. True),
              rm_comment := (\<lambda>_. Some ''timestamp:7 file:tool.exe'')\<rparr>
   in verify_signature rm 0 ''key'' ''https://x/tool'' ''2.0'' ''other'' = Inr 7"
proof -
  have "contains ''timestamp:7 file:tool.exe'' ''file:tool''" "signature_time ''timestamp:7 file:tool.exe'' = 7"
    "path_base ''https://x/tool'' = ''tool''" by code_simp+
  then show ?thesis by (simp add: Let_def verify_signature_def read_limited_def signed_name_def sample_remote_def)
qed

end
