(* ===== verification/Spec2Isabelle.thy ===== *)
theory Spec2Isabelle
  imports Version_Props Resolve_Laws Platform_Props Netpolicy_Props Dotenv_Props Env_Props Ref_Props Lock_Props Profile_Props Oku_List_Props Oku_Edit_Props Store_Tree_Props Lock_Merge_Props Extract_Props Extract_Zip_Props Manifest_Samples Change_Props Expose_System Gc_Props Hook_Props Trust_Props Install_Samples
begin

text \<open>
  A verification library for oku, a package manager written in Go. Paths below are under \<open>src/\<close>.

  THE PROGRAM. A list \<open>oku.toml\<close> names packages by refs, with constraints on versions, files, settings, secrets, environment
  variables and options. A ref leads to a manifest, which a publisher writes, a registry gives or oku infers. An install picks a
  release of the manifest, downloads or builds it, checks it, and places it at a path of the store that is named after its
  inputs; \<open>oku.lock\<close> records what was installed with which check. A generation of a profile is a directory with a tree of links
  into the store, and a change makes a new generation current together with the list, the lock, and the links, copies, settings
  and services that it exposes outside of oku. Garbage collection deletes the generations and store paths that nothing uses. A
  hook in the shell and \<open>.env\<close> files set the environment of a directory whose project the user allowed.

  HOW IT IS MODELLED. Functions are total HOL functions, a struct is a record, an error is a value of \<open>'e res\<close> (\<open>Inl\<close> the error), a
  dict is a map or, where its order shows, an association list, an int is an \<open>int\<close> with \<open>wrap\<close> where Go's 64 bits matter, and a
  string a list of bytes. Stateful code passes its state: \<open>disk\<close> of a profile, \<open>machine\<close> of exposed items, \<open>system\<close> of a change,
  \<open>depot\<close> of a store, \<open>gc_world\<close>, \<open>shell\<close>. Where the order of effects matters, every effect counts down a budget, and a run whose
  budget ends is a crash at that effect.

  THEORIES AND THE CODE THEY MODEL.

  Library. \<open>Prelude\<close> holds results, bytes, splitting and the collections of hints; \<open>Go_Num\<close>, \<open>Go_Path\<close>, \<open>Go_Regex\<close>, \<open>Go_Netip\<close> and
  \<open>Toml\<close> are what the sources use of Go's standard library and of TOML values; \<open>Go_Order\<close> is the locale of comparison functions
  with its sorting laws, interpreted for strings, versions, runs and releases; \<open>Keyed\<close> is the locale of stores with a lookup, an
  insert and a delete, interpreted for the lock, the allow list and, through its weaker form, the edits of \<open>oku.toml\<close>.

  Versions. \<open>Version\<close>, \<open>Version_Range\<close>, \<open>Version_Laws\<close>, \<open>Version_Props\<close>: \<open>Compare\<close>, \<open>Satisfies\<close>, \<open>ceiling\<close> and \<open>Matches\<close> of
  \<open>internal/resolve/resolve.go\<close>; the comparison is a total preorder on versions whose numbers fit, and a constraint selects the
  window that it describes. \<open>Resolve\<close>, \<open>Resolve_Laws\<close>: \<open>Pick\<close> and the listings, with the answers of the forges as arguments.

  Platforms and hosts. \<open>Platform\<close>, \<open>Platform_Props\<close> (\<open>internal/platform\<close>): selectors, conjunctions and covers. \<open>Host\<close>
  (\<open>internal/host\<close>): requirements of the host.

  Network. \<open>Netpolicy\<close>, \<open>Netpolicy_Props\<close> (\<open>internal/netpolicy\<close>): which hosts and addresses a request may reach, also after
  redirects.

  Lists, refs, locks. \<open>Oku_List\<close>, \<open>Oku_List_Props\<close>, \<open>Oku_Edit\<close>, \<open>Oku_Edit_Laws\<close>, \<open>Oku_Edit_Props\<close> (\<open>internal/list/list.go\<close>): an
  accepted list is well formed, and edits of its text refine updates of the table that it stands for. \<open>Dotenv\<close>, \<open>Dotenv_Props\<close>,
  \<open>Env\<close>, \<open>Env_Props\<close> (\<open>dotenv.go\<close>, \<open>env.go\<close>): the reader of \<open>.env\<close> files and the solution of references between variables. \<open>Ref\<close>,
  \<open>Ref_Props\<close> (\<open>internal/ref\<close>): refs that are parsed, printed and related. \<open>Lock\<close>, \<open>Lock_Props\<close>, \<open>Lock_Merge\<close>, \<open>Lock_Merge_Props\<close>
  (\<open>internal/lock\<close>, \<open>internal/cli/lockconflict.go\<close>): the operations, the round trip and the merge of locks.

  Manifests. \<open>Template\<close>, \<open>Manifest_Parts\<close>, \<open>Manifest\<close>, \<open>Manifest_Check\<close>, \<open>Manifest_Props\<close>, \<open>Manifest_Lint\<close>, \<open>Manifest_Lint_Props\<close>,
  \<open>Manifest_Samples\<close> (\<open>internal/manifest\<close>): variables, the check of a manifest behind the TOML decoder, the choice of an artifact,
  the lint, schedules. What \<open>Parse\<close> accepts is well formed, and a linted manifest can be selected on every platform that it fits.

  Downloads and installs. \<open>Download\<close>, \<open>Download_Props\<close> (\<open>internal/store/download.go\<close>, \<open>signature.go\<close>, \<open>sigstore.go\<close>, \<open>Realize\<close>
  and \<open>Pin\<close> of \<open>store.go\<close>): the bytes at a store path have the digest that is reported, the pinned and the stated one, and
  passed each check that the manifest names. \<open>Verified\<close> (\<open>internal/cli/verified.go\<close>): the strength of a check against that of
  the lock. \<open>Local_URLs\<close> (\<open>localURLs\<close>): which manifests may name files of this machine. \<open>Install\<close>, \<open>Install_Props\<close>,
  \<open>Install_Samples\<close> (\<open>internal/cli/install.go\<close>): the install of one package, from the choice of its release to its entry in the
  lock; an install never weakens the lock unasked, and one from the lock gives the locked bytes or fails.

  Store. \<open>Store_Tree\<close>, \<open>Store_Tree_Props\<close> (\<open>internal/store/tree.go\<close>): the record of a store path finds every change of it.
  \<open>Extract\<close>, \<open>Extract_Laws\<close>, \<open>Extract_Props\<close>, \<open>Extract_Zip\<close>, \<open>Extract_Zip_Props\<close> (\<open>extract.go\<close>): what tar and zip archives may
  write, one entry after another and with the workers of unzip interleaved in any way.

  Profiles and changes. \<open>Profile_Tree\<close>, \<open>Profile_Tree_Props\<close>, \<open>Profile\<close>, \<open>Profile_Laws\<close>, \<open>Profile_Props\<close> (\<open>internal/profile\<close>): the
  tree of links, generations and their invariant on every reachable disk, retention. \<open>Expose\<close>, \<open>Expose_Laws\<close>, \<open>Expose_Props\<close>,
  \<open>Expose_System\<close> (\<open>internal/expose\<close>, \<open>internal/cli/expose.go\<close>, \<open>settings.go\<close>, \<open>secrets.go\<close>): the ledger of what oku placed
  outside of its directories. \<open>Change\<close>, \<open>Change_Props\<close> (\<open>internal/cli/change.go\<close>): a change with its recoveries is all there or all
  undone. \<open>Gc\<close>, \<open>Gc_Props\<close> (\<open>gc.go\<close>, \<open>gc_projects.go\<close>, \<open>roots.go\<close>, \<open>du.go\<close>): what garbage collection deletes.

  Shell. \<open>Hook\<close>, \<open>Hook_Props\<close> (\<open>envset.go\<close>, \<open>hook.go\<close>): the environment at a prompt depends on the user and the present directory
  only. \<open>Trust\<close>, \<open>Trust_Props\<close> (\<open>internal/trust\<close>, \<open>envtrust.go\<close>): an allow that holds stands for the files that were allowed.

  BOUNDS AND FUEL. Recursion is structural or has a measure, but for these. An IPv6 address has at most 8 groups, so \<open>v6_groups\<close> has
  fuel 8. \<open>above\<close> climbs a name at most as often as it has bytes, and \<open>nearest_present\<close> a path. A walk through symbolic links stops
  after 8 links (\<open>root_links\<close>) as \<open>os.Root\<close> does, and after 255 (\<open>max_links\<close>) as \<open>EvalSymlinks\<close> does; both are the limits of the
  code, which reports an error then. \<open>max_line\<close> is the limit of Go's scanner in the code. Rounds of \<open>resolve_env\<close> and of trees
  end by a measure, and that their results are reached is proved. The budget of a crash is any number.

  ASSUMED, as hypotheses or arguments. Case folding is that of ASCII. Paths are Unix paths. \<open>slices.Sort\<close> and its kin are an insertion
  sort, which is what they are up to the order of equal elements. The iteration over a Go map is a list in key order, or in any
  order where the result depends on it. The TOML and JSON codecs, the URL parser, regular expressions of a manifest, DNS, HTTP, git,
  the clock, hashes, minisign, sigstore, age, the shells, the running processes and \<open>os.Stat\<close> are arguments. Hypotheses on them are
  named at the theorems: that a short hash has no collisions, that a marshalled value is read back, that a digest identifies a
  manifest. \<open>os.Root\<close> behaves as documented. Directories that only hold other files are not tracked in \<open>Expose\<close>.

  NOT MODELLED. Builds and the files that an unpacked package gets (links, launchers, shims, completions), which are calls of the file
  system and of the commands of a manifest. The sandbox, the services, the registry, dconf and defaults, whose meaning the system
  defines. The inference of manifests, which is heuristic and whose result is read by the modelled \<open>Parse\<close>. The clients of
  registries and forges and the sigstore policy, which are requests and calls of libraries. The xz decoder, which is a port of
  third-party code. The commands of the cli around the modelled operations: flags, printing, the order of many installs in sync
  and reconcile, self update, doctor. Windows variants throughout.
\<close>

end
